(* ===== verification/Prelude.thy ===== *)
theory Prelude
  imports Main "HOL-Library.List_Lexorder" "HOL-Library.Char_ord"
begin

text \<open>
  Vocabulary shared by every component theory: results that are either an error or a value,
  the sequencing of such results, conditional insertion into a set (the \<open>reasons.add(...)\<close>
  idiom of the rule modules), and the list lemmas about searches in tables. The collections
  \<open>result_simps\<close> and \<open>table_simps\<close> are the hints the component proofs use.
\<close>

named_theorems result_simps "inversion of fallible computations"
named_theorems table_simps "searches in tables of rows"

section \<open>Fallible computations\<close>

type_synonym ('e, 'a) outcome = "'e + 'a"

text \<open>
  A raise is \<^term>\<open>Inl\<close>, a return is \<^term>\<open>Inr\<close>. \<open>and_then\<close> runs the continuation unless the
  first part raised, \<open>require\<close> is the \<open>if not condition: raise\<close> idiom.
\<close>

definition and_then :: "('e, 'a) outcome \<Rightarrow> ('a \<Rightarrow> ('e, 'b) outcome) \<Rightarrow> ('e, 'b) outcome" where
  "and_then r k = (case r of Inl e \<Rightarrow> Inl e | Inr x \<Rightarrow> k x)"

definition require :: "bool \<Rightarrow> 'e \<Rightarrow> ('e, unit) outcome" where
  "require b e = (if b then Inr () else Inl e)"

definition or_raise :: "'a option \<Rightarrow> 'e \<Rightarrow> ('e, 'a) outcome" where
  "or_raise x e = (case x of None \<Rightarrow> Inl e | Some y \<Rightarrow> Inr y)"

lemma and_then_Inl [simp]: "and_then (Inl e) k = Inl e"
  by (simp add: and_then_def)

lemma and_then_Inr [simp]: "and_then (Inr x) k = k x"
  by (simp add: and_then_def)

lemma and_then_eq_Inr [result_simps]:
  "and_then r k = Inr y \<longleftrightarrow> (\<exists>x. r = Inr x \<and> k x = Inr y)"
  by (cases r) simp_all

lemma and_then_eq_Inl [result_simps]:
  "and_then r k = Inl e \<longleftrightarrow> r = Inl e \<or> (\<exists>x. r = Inr x \<and> k x = Inl e)"
  by (cases r) simp_all

lemma and_then_assoc: "and_then (and_then r k) h = and_then r (\<lambda>x. and_then (k x) h)"
  by (cases r) simp_all

lemma require_eq_Inr [simp]: "require b e = Inr u \<longleftrightarrow> b"
  by (simp add: require_def)

lemma require_eq_Inl [simp]: "require b e = Inl e' \<longleftrightarrow> \<not> b \<and> e = e'"
  by (auto simp: require_def)

lemma require_True [simp]: "require True e = Inr ()"
  by (simp add: require_def)

lemma require_False [simp]: "require False e = Inl e"
  by (simp add: require_def)

lemma or_raise_eq_Inr [simp]: "or_raise x e = Inr y \<longleftrightarrow> x = Some y"
  by (simp add: or_raise_def split: option.split)

lemma or_raise_eq_Inl [simp]: "or_raise x e = Inl e' \<longleftrightarrow> x = None \<and> e = e'"
  by (auto simp: or_raise_def split: option.split)

lemma or_raise_Some [simp]: "or_raise (Some y) e = Inr y"
  by (simp add: or_raise_def)

lemma or_raise_None [simp]: "or_raise None e = Inl e"
  by (simp add: or_raise_def)

text \<open>A loop that appends one result per item and raises at the first item that raises; \<open>enumerate\<close> in a
  comprehension.\<close>

fun each_row :: "('a \<Rightarrow> ('e, 'b) outcome) \<Rightarrow> 'a list \<Rightarrow> ('e, 'b list) outcome" where
  "each_row f [] = Inr []"
| "each_row f (x # xs) = and_then (f x) (\<lambda>y. and_then (each_row f xs) (\<lambda>ys. Inr (y # ys)))"

definition mapi :: "(nat \<Rightarrow> 'a \<Rightarrow> 'b) \<Rightarrow> 'a list \<Rightarrow> 'b list" where
  "mapi f xs = map (\<lambda>(i, x). f i x) (enumerate 0 xs)"

lemma each_row_all2:
  "each_row f xs = Inr ys \<longleftrightarrow> list_all2 (\<lambda>x y. f x = Inr y) xs ys"
  by (induction xs arbitrary: ys) (auto simp: result_simps list_all2_Cons1)

lemma each_row_total:
  assumes "\<And>x. x \<in> set xs \<Longrightarrow> \<exists>y. f x = Inr y"
  obtains ys where "each_row f xs = Inr ys"
proof -
  have "\<exists>ys. each_row f xs = Inr ys" using assms by (induction xs) fastforce+
  then show ?thesis using that by blast
qed

lemma each_row_map:
  assumes "each_row f xs = Inr ys" and "\<And>x y. x \<in> set xs \<Longrightarrow> f x = Inr y \<Longrightarrow> g y = h x"
  shows "map g ys = map h xs"
proof -
  from assms(1) have "list_all2 (\<lambda>x y. f x = Inr y) xs ys" by (simp add: each_row_all2)
  then show ?thesis using assms(2) by (induction rule: list_all2_induct) simp_all
qed

section \<open>Lists of options\<close>

fun all_some :: "'a option list \<Rightarrow> 'a list option" where
  "all_some [] = Some []"
| "all_some (None # xs) = None"
| "all_some (Some x # xs) = map_option ((#) x) (all_some xs)"

lemma all_some_iff: "all_some xs = Some ys \<longleftrightarrow> xs = map Some ys"
  by (induction xs arbitrary: ys rule: all_some.induct) auto

lemma all_some_Some: "all_some (map (\<lambda>x. Some (f x)) xs) = Some (map f xs)"
  by (simp add: all_some_iff)

lemma all_some_total: "(\<And>x. x \<in> set xs \<Longrightarrow> x \<noteq> None) \<Longrightarrow> \<exists>ys. all_some xs = Some ys"
  by (rule exI [of _ "map the xs"]) (simp add: all_some_iff list_eq_iff_nth_eq)

lemma all_some_map:
  assumes "all_some (map f xs) = Some ys" and "\<And>x y. f x = Some y \<Longrightarrow> g x = Some y"
  shows "all_some (map g xs) = Some ys"
  using assms by (auto simp: all_some_iff list_eq_iff_nth_eq)

section \<open>Conditional insertion\<close>

text \<open>\<open>add_when b S\<close> is what \<open>if b: reasons.update(S)\<close> contributes to a set of reasons.\<close>

definition add_when :: "bool \<Rightarrow> 'a set \<Rightarrow> 'a set" where
  "add_when b S = (if b then S else {})"

lemma in_add_when [simp]: "x \<in> add_when b S \<longleftrightarrow> b \<and> x \<in> S"
  by (simp add: add_when_def)

lemma add_when_empty [simp]: "add_when b S = {} \<longleftrightarrow> (b \<longrightarrow> S = {})"
  by (simp add: add_when_def)

lemma add_when_True [simp]: "add_when True S = S"
  by (simp add: add_when_def)

lemma add_when_False [simp]: "add_when False S = {}"
  by (simp add: add_when_def)

section \<open>Python truth and strings\<close>

text \<open>
  Identifiers are only ever compared and tested for emptiness, so they are \<^typ>\<open>string\<close>s;
  \<open>truthy\<close> is the Boolean value of a Python string, \<open>truthy_opt\<close> of an optional one
  (\<open>None\<close> is false). Free text whose characters are inspected is a list of Unicode code
  points, which is what Python's \<open>str\<close> is.
\<close>

type_synonym pystr = "nat list"

definition truthy :: "string \<Rightarrow> bool" where
  "truthy s \<longleftrightarrow> s \<noteq> []"

definition truthy_opt :: "string option \<Rightarrow> bool" where
  "truthy_opt s \<longleftrightarrow> (case s of None \<Rightarrow> False | Some x \<Rightarrow> x \<noteq> [])"

lemma truthy_simps [simp]:
  "truthy [] = False" "truthy (c # s) = True"
  "truthy_opt None = False" "truthy_opt (Some s) = truthy s"
  by (simp_all add: truthy_def truthy_opt_def)

definition ascii :: "string \<Rightarrow> pystr" where
  "ascii s = map of_char s"

section \<open>Searches in tables\<close>

lemma find_append [table_simps]:
  "find P (xs @ ys) = (case find P xs of None \<Rightarrow> find P ys | Some x \<Rightarrow> Some x)"
  by (induction xs) simp_all

lemma find_Some_set: "find P xs = Some x \<Longrightarrow> x \<in> set xs \<and> P x"
  by (induction xs) (auto split: if_splits)

lemma find_None_set [table_simps]: "find P xs = None \<longleftrightarrow> (\<forall>x \<in> set xs. \<not> P x)"
  by (induction xs) auto

lemma find_map_same:
  assumes "\<And>x. P (f x) = P x"
  shows "find P (map f xs) = map_option f (find P xs)"
  using assms by (induction xs) auto

lemma find_distinct_key:
  assumes "distinct (map k xs)" and "x \<in> set xs"
  shows "find (\<lambda>y. k y = k x) xs = Some x"
  using assms by (induction xs) (auto simp: image_iff)

lemma filter_key_singleton:
  assumes "distinct (map k xs)" and "x \<in> set xs"
  shows "filter (\<lambda>y. k y = k x) xs = [x]"
  using assms by (induction xs) (auto simp: filter_empty_conv image_iff)

lemma filter_nil_upto: "(\<And>x. x \<in> set xs \<Longrightarrow> \<not> P x) \<Longrightarrow> filter P xs = []"
  by (simp add: filter_empty_conv)

end
