(* ===== verification/Visibility.thy ===== *)
theory Visibility
  imports Prelude
begin

text \<open>
  \<open>src/paper_radar/calibration/visibility.py\<close>: the permission a hidden paper leaves to each
  capability. A visibility carries nothing but the set of hidden conditions; the permission
  is a total match over the capabilities.
\<close>

datatype hidden_condition = Hidden_Waiting_Calibration | Unrevealed

datatype visibility_capability =
    Paper_Facts | Task_Details | Agent_Content | Set_Decision | Reading_Request
  | Calibration_Review

datatype visibility_permission = Allowed | Denied | Dedicated_Path

record visibility =
  hidden_conditions :: "hidden_condition set"

fun permission :: "visibility \<Rightarrow> visibility_capability \<Rightarrow> visibility_permission" where
  "permission v Paper_Facts = Allowed"
| "permission v Task_Details = Allowed"
| "permission v Calibration_Review = Dedicated_Path"
| "permission v Agent_Content = (if hidden_conditions v \<noteq> {} then Denied else Allowed)"
| "permission v Set_Decision = (if hidden_conditions v \<noteq> {} then Denied else Allowed)"
| "permission v Reading_Request = (if hidden_conditions v \<noteq> {} then Denied else Allowed)"

definition evaluate_visibility :: "hidden_condition set \<Rightarrow> visibility" where
  "evaluate_visibility hidden = \<lparr>hidden_conditions = hidden\<rparr>"

text \<open>The capabilities a hidden condition takes away.\<close>

definition restricted :: "visibility_capability set" where
  "restricted = {Agent_Content, Set_Decision, Reading_Request}"

lemma permission_allowed_iff:
  "permission v c = Allowed \<longleftrightarrow>
     c \<in> {Paper_Facts, Task_Details} \<or> (c \<in> restricted \<and> hidden_conditions v = {})"
  by (cases c) (auto simp: restricted_def)

lemma permission_restricted:
  "c \<in> restricted \<Longrightarrow> permission v c = (if hidden_conditions v = {} then Allowed else Denied)"
  by (cases c) (auto simp: restricted_def)

lemma permission_antimono:
  assumes "hidden_conditions v \<subseteq> hidden_conditions w" and "permission w c = Allowed"
  shows "permission v c = Allowed"
  using assms by (auto simp: permission_allowed_iff)

end
