(* ===== verification/Reasons.thy ===== *)
theory Reasons
  imports Prelude
begin

text \<open>
  \<open>src/paper_radar/screening/reasons.py\<close>: the closed vocabulary of screening results,
  sources and reasons, the authority table that fixes one result and the legal sources of
  every reason, the structural test \<open>invalid_combination_fields\<close>, the three record
  identities, and \<open>build_screening_reason\<close>, which tries the generated combination models in
  order. A pydantic \<open>ValidationError\<close> is \<^term>\<open>None\<close>.
\<close>

datatype screening_result = Accepted | Pending | Result_Denied

datatype screening_source =
    Suggestion_Rule | Blind_Calibration | Regular_Review | Direct_Manual_Decision
  | Metadata_Abandonment | Source_Manual_Read_Request
  | Fixed_Calibration_Member_Projection | Failure_Queue_Projection

datatype decision_reason =
    High_Research_Value | Research_And_Reuse | Out_Of_Scope | Boundary_Uncertain
  | Value_Reuse_Conflict | Reuse_Unknown | Reuse_Escalation_Unavailable | Low_Value
  | Low_Reuse_Feasibility | User_Judgment | Unclear_From_Available_Input | Defer_Judgment
  | Outside_Current_Focus | Insufficient_Metadata | Reason_Manual_Read_Request
  | Model_Failure

text \<open>The string values of the sources: a \<open>StrEnum\<close> member compares as its value.\<close>

fun source_value :: "screening_source \<Rightarrow> string" where
  "source_value Suggestion_Rule = ''suggestion_rule''"
| "source_value Blind_Calibration = ''blind_calibration''"
| "source_value Regular_Review = ''regular_review''"
| "source_value Direct_Manual_Decision = ''direct_manual_decision''"
| "source_value Metadata_Abandonment = ''metadata_abandonment''"
| "source_value Source_Manual_Read_Request = ''manual_read_request''"
| "source_value Fixed_Calibration_Member_Projection = ''fixed_calibration_member_projection''"
| "source_value Failure_Queue_Projection = ''failure_queue_projection''"

lemma source_value_inject [simp]: "source_value s = source_value t \<longleftrightarrow> s = t"
  by (cases s; cases t) simp_all

instantiation screening_source :: linorder
begin

definition less_eq_screening_source :: "screening_source \<Rightarrow> screening_source \<Rightarrow> bool" where
  "less_eq_screening_source s t \<longleftrightarrow> source_value s \<le> source_value t"

definition less_screening_source :: "screening_source \<Rightarrow> screening_source \<Rightarrow> bool" where
  "less_screening_source s t \<longleftrightarrow> source_value s < source_value t"

instance
  by intro_classes
    (auto simp: less_eq_screening_source_def less_screening_source_def
       dest: order_antisym)

end

section \<open>The authority table\<close>

record decision_reason_definition =
  def_result :: screening_result
  def_sources :: "screening_source set"

definition general_human_judgment_sources :: "screening_source set" where
  "general_human_judgment_sources = {Blind_Calibration, Regular_Review, Direct_Manual_Decision}"

abbreviation drd :: "screening_result \<Rightarrow> screening_source set \<Rightarrow> decision_reason_definition" where
  "drd r s \<equiv> \<lparr>def_result = r, def_sources = s\<rparr>"

fun reason_definition :: "decision_reason \<Rightarrow> decision_reason_definition" where
  "reason_definition High_Research_Value = drd Accepted {Suggestion_Rule}"
| "reason_definition Research_And_Reuse = drd Accepted {Suggestion_Rule}"
| "reason_definition Out_Of_Scope =
     drd Result_Denied (general_human_judgment_sources \<union> {Suggestion_Rule})"
| "reason_definition Boundary_Uncertain = drd Pending {Suggestion_Rule}"
| "reason_definition Value_Reuse_Conflict = drd Pending {Suggestion_Rule}"
| "reason_definition Reuse_Unknown = drd Pending {Suggestion_Rule}"
| "reason_definition Reuse_Escalation_Unavailable = drd Pending {Suggestion_Rule}"
| "reason_definition Low_Value =
     drd Result_Denied (general_human_judgment_sources \<union> {Suggestion_Rule})"
| "reason_definition Low_Reuse_Feasibility =
     drd Result_Denied (general_human_judgment_sources \<union> {Suggestion_Rule})"
| "reason_definition User_Judgment = drd Accepted general_human_judgment_sources"
| "reason_definition Unclear_From_Available_Input = drd Pending general_human_judgment_sources"
| "reason_definition Defer_Judgment = drd Pending general_human_judgment_sources"
| "reason_definition Outside_Current_Focus = drd Pending general_human_judgment_sources"
| "reason_definition Insufficient_Metadata = drd Result_Denied {Metadata_Abandonment}"
| "reason_definition Reason_Manual_Read_Request = drd Accepted {Source_Manual_Read_Request}"
| "reason_definition Model_Failure =
     drd Pending {Fixed_Calibration_Member_Projection, Failure_Queue_Projection}"

section \<open>Reason inputs and their structural test\<close>

record reason_input =
  ri_result :: screening_result
  ri_source :: screening_source
  ri_reason :: decision_reason

datatype reason_field = Result_Field | Source_Field

definition invalid_combination_fields :: "reason_input \<Rightarrow> reason_field list" where
  "invalid_combination_fields x =
     (let d = reason_definition (ri_reason x) in
      (if ri_result x \<noteq> def_result d then [Result_Field] else []) @
      (if ri_source x \<notin> def_sources d then [Source_Field] else []))"

section \<open>Record identities\<close>

datatype record_identity = Screening_Suggestion | Screening_Decision | Screening_Failure_Projection

fun identity_sources :: "record_identity \<Rightarrow> screening_source set" where
  "identity_sources Screening_Suggestion = {Suggestion_Rule}"
| "identity_sources Screening_Decision =
     general_human_judgment_sources \<union> {Metadata_Abandonment, Source_Manual_Read_Request}"
| "identity_sources Screening_Failure_Projection =
     {Fixed_Calibration_Member_Projection, Failure_Queue_Projection}"

text \<open>The model validator of \<open>ScreeningReasonRecord\<close> and its three subclasses.\<close>

definition legal_record :: "record_identity \<Rightarrow> reason_input \<Rightarrow> bool" where
  "legal_record i x \<longleftrightarrow>
     invalid_combination_fields x = [] \<and> ri_source x \<in> identity_sources i"

definition identity_model :: "screening_source \<Rightarrow> record_identity option" where
  "identity_model s =
     (if s = Suggestion_Rule then Some Screening_Suggestion
      else if s \<in> identity_sources Screening_Decision then Some Screening_Decision
      else if s \<in> identity_sources Screening_Failure_Projection
        then Some Screening_Failure_Projection
      else None)"

section \<open>The combination models and the builder\<close>

text \<open>
  \<open>_COMBINATION_MODELS\<close>: one model per reason and legal source, in the order of the table and
  of the source values; the fields of a model are literals. \<open>identity_model\<close> returning
  \<^term>\<open>None\<close> would be the \<open>AssertionError\<close> of the module's import; \<open>identity_model_total\<close>
  excludes it.
\<close>

definition all_reasons :: "decision_reason list" where
  "all_reasons =
     [High_Research_Value, Research_And_Reuse, Out_Of_Scope, Boundary_Uncertain,
      Value_Reuse_Conflict, Reuse_Unknown, Reuse_Escalation_Unavailable, Low_Value,
      Low_Reuse_Feasibility, User_Judgment, Unclear_From_Available_Input, Defer_Judgment,
      Outside_Current_Focus, Insufficient_Metadata, Reason_Manual_Read_Request,
      Model_Failure]"

definition all_sources :: "screening_source list" where
  "all_sources =
     [Suggestion_Rule, Blind_Calibration, Regular_Review, Direct_Manual_Decision,
      Metadata_Abandonment, Source_Manual_Read_Request,
      Fixed_Calibration_Member_Projection, Failure_Queue_Projection]"

type_synonym combination = "record_identity \<times> reason_input"

definition combination_model :: "decision_reason \<Rightarrow> screening_source \<Rightarrow> combination option" where
  "combination_model r s =
     map_option
       (\<lambda>i. (i, \<lparr>ri_result = def_result (reason_definition r), ri_source = s, ri_reason = r\<rparr>))
       (identity_model s)"

definition combination_models :: "combination list" where
  "combination_models =
     [c. r \<leftarrow> all_reasons,
         s \<leftarrow> filter (\<lambda>s. s \<in> def_sources (reason_definition r)) (sort all_sources),
         c \<leftarrow> (case combination_model r s of None \<Rightarrow> [] | Some c \<Rightarrow> [c])]"

text \<open>
  \<open>build_screening_reason\<close> validates the dumped input against the union of the models: a model
  accepts it when its three literals match and the record validator of its class passes.
\<close>

definition build_screening_reason :: "reason_input \<Rightarrow> combination option" where
  "build_screening_reason x =
     find (\<lambda>c. snd c = x \<and> legal_record (fst c) x) combination_models"

section \<open>Facts about the table\<close>

lemma set_all_reasons [simp]: "r \<in> set all_reasons"
  by (cases r) (simp_all add: all_reasons_def)

lemma set_all_sources [simp]: "s \<in> set all_sources"
  by (cases s) (simp_all add: all_sources_def)

lemma identity_model_total:
  "\<exists>i. identity_model s = Some i \<and> s \<in> identity_sources i"
  by (cases s) (simp_all add: identity_model_def general_human_judgment_sources_def)

lemma identity_model_unique:
  "s \<in> identity_sources i \<Longrightarrow> identity_model s = Some i"
  by (cases i) (auto simp: identity_model_def general_human_judgment_sources_def)

lemma invalid_combination_fields_Nil:
  "invalid_combination_fields x = [] \<longleftrightarrow>
     ri_result x = def_result (reason_definition (ri_reason x)) \<and>
     ri_source x \<in> def_sources (reason_definition (ri_reason x))"
  by (simp add: invalid_combination_fields_def Let_def)

lemma in_combination_models:
  "c \<in> set combination_models \<longleftrightarrow>
     identity_model (ri_source (snd c)) = Some (fst c) \<and>
     invalid_combination_fields (snd c) = []"
proof
  assume "c \<in> set combination_models"
  then show "identity_model (ri_source (snd c)) = Some (fst c) \<and>
      invalid_combination_fields (snd c) = []"
    by (auto simp: combination_models_def combination_model_def invalid_combination_fields_Nil
        split: option.splits)
next
  assume *: "identity_model (ri_source (snd c)) = Some (fst c) \<and>
      invalid_combination_fields (snd c) = []"
  then have "combination_model (ri_reason (snd c)) (ri_source (snd c)) = Some c"
    by (cases c) (auto simp: combination_model_def invalid_combination_fields_Nil)
  with * show "c \<in> set combination_models"
    by (cases c) (auto simp: combination_models_def invalid_combination_fields_Nil
        intro!: bexI [of _ "ri_reason (snd c)"] bexI [of _ "ri_source (snd c)"])
qed

lemma build_Some_iff:
  "build_screening_reason x = Some c \<longleftrightarrow>
     snd c = x \<and> invalid_combination_fields x = [] \<and> identity_model (ri_source x) = Some (fst c)"
proof
  assume "build_screening_reason x = Some c"
  then have "c \<in> set combination_models \<and> snd c = x \<and> legal_record (fst c) x"
    unfolding build_screening_reason_def by (rule find_Some_set)
  then show "snd c = x \<and> invalid_combination_fields x = [] \<and>
      identity_model (ri_source x) = Some (fst c)"
    by (auto simp: in_combination_models)
next
  assume *: "snd c = x \<and> invalid_combination_fields x = [] \<and>
      identity_model (ri_source x) = Some (fst c)"
  then have in_c: "c \<in> set combination_models" by (auto simp: in_combination_models)
  from * identity_model_total [of "ri_source x"] have legal: "legal_record (fst c) x"
    by (auto simp: legal_record_def)
  obtain d where d: "build_screening_reason x = Some d"
    using * in_c legal find_None_set [of "\<lambda>c. snd c = x \<and> legal_record (fst c) x"]
    by (cases "build_screening_reason x") (auto simp: build_screening_reason_def)
  then have "d \<in> set combination_models \<and> snd d = x"
    unfolding build_screening_reason_def by (auto dest: find_Some_set)
  with * have "d = c"
    by (cases d; cases c) (auto simp: in_combination_models)
  with d show "build_screening_reason x = Some c" by simp
qed

lemma build_None_iff: "build_screening_reason x = None \<longleftrightarrow> invalid_combination_fields x \<noteq> []"
proof -
  obtain i where "identity_model (ri_source x) = Some i"
    using identity_model_total by blast
  then show ?thesis
    using build_Some_iff [of x "(i, x)"] build_Some_iff [of x]
    by (cases "build_screening_reason x") auto
qed

section \<open>Properties\<close>

text \<open>
  C39: the builder is total on the legal combinations and rejects every other one; the record
  it returns keeps the three literals and has the one identity its source determines, and a
  failure projection is exactly a pending model failure from a projection source, so no
  suggestion or decision can carry a model failure.
\<close>

theorem build_screening_reason_authority:
  "(build_screening_reason x = None \<longleftrightarrow> invalid_combination_fields x \<noteq> []) \<and>
   (build_screening_reason x = Some (i, y) \<longleftrightarrow>
      y = x \<and> invalid_combination_fields x = [] \<and> ri_source x \<in> identity_sources i) \<and>
   (build_screening_reason x = Some (Screening_Failure_Projection, x) \<longleftrightarrow>
      ri_reason x = Model_Failure \<and> ri_result x = Pending \<and>
      ri_source x \<in> {Fixed_Calibration_Member_Projection, Failure_Queue_Projection})"
proof -
  have ident: "identity_model s = Some j \<longleftrightarrow> s \<in> identity_sources j" for s j
    using identity_model_total [of s] identity_model_unique by fastforce
  have "invalid_combination_fields x = [] \<and> ri_source x \<in> identity_sources Screening_Failure_Projection
      \<longleftrightarrow> ri_reason x = Model_Failure \<and> ri_result x = Pending \<and>
        ri_source x \<in> {Fixed_Calibration_Member_Projection, Failure_Queue_Projection}"
    by (cases "ri_reason x")
      (auto simp: invalid_combination_fields_Nil general_human_judgment_sources_def)
  then show ?thesis by (auto simp: build_None_iff build_Some_iff ident)
qed

end
