(* ===== verification/Eligibility_Facts.thy ===== *)
theory Eligibility_Facts
  imports Reasons Visibility
begin

text \<open>
  \<open>src/paper_radar/eligibility/models.py\<close>: the in-memory facts the eligibility rules consume
  (a \<open>PaperProjection\<close> with its artifacts, extraction, quality, decisions and requests) and
  the \<open>Eligibility\<close> they return. References are only compared, never dereferenced. Python's
  \<open>x is None\<close> is \<^term>\<open>x = None\<close>; identifiers are strings, so an empty one stays visible.
\<close>

section \<open>Concepts and reasons\<close>

datatype concept =
    Canonical_Paper | Current_Version | Metadata_Ready | Effective_Screening_Decision
  | Decision_Basis_Stale | Current_Screening_Artifact | Needs_Pdf | Needs_Extraction
  | Extraction_Failed | Read_Prerequisites | Eligible_For_Auto_Read
  | Requested_Manual_Read | Waiting_Calibration | Metadata_Unobtainable
  | Current_Screening_Suggestion | Needs_Reference_Harvest | Reference_List_Completeness
  | Needs_Reuse_Assessment | Concept_Reuse_Escalation_Unavailable | Manual_Accepted_Channel
  | Accepted_Read_Backlog | Model_Failure_Queue | Waiting_Review | Waiting_Report
  | Capacity_Warning

definition all_concepts :: "concept list" where
  "all_concepts =
    [Canonical_Paper, Current_Version, Metadata_Ready, Effective_Screening_Decision,
     Decision_Basis_Stale, Current_Screening_Artifact, Needs_Pdf, Needs_Extraction,
     Extraction_Failed, Read_Prerequisites, Eligible_For_Auto_Read, Requested_Manual_Read,
     Waiting_Calibration, Metadata_Unobtainable, Current_Screening_Suggestion,
     Needs_Reference_Harvest, Reference_List_Completeness, Needs_Reuse_Assessment,
     Concept_Reuse_Escalation_Unavailable, Manual_Accepted_Channel, Accepted_Read_Backlog,
     Model_Failure_Queue, Waiting_Review, Waiting_Report, Capacity_Warning]"

datatype (plugins only: code) eligibility_reason =
    Canonical_Unknown | Not_Canonical | Version_Unknown | Not_Current_Version
  | Identity_Contradictory | Metadata_Unknown | Metadata_Incomplete | Metadata_Stale
  | Metadata_Contradictory | Metadata_No_Title | Metadata_No_Abstract
  | Metadata_Unknown_Truncation | Metadata_No_Source_Url | Metadata_Routes_Incomplete
  | Metadata_Agency_Unknown | Metadata_Agency_Unsupported | Decision_Absent
  | Decision_Contradictory | Decision_Not_Current | Decision_Basis_Unknown
  | Decision_Basis_Current | Projection_Not_Decision | Gate_Paused | Gate_Disabled
  | Gate_Unknown | Screening_Absent | Screening_Unknown | Screening_Historical
  | Screening_Contradictory | Decision_Not_Accepted | Pdf_Absent | Pdf_Unknown
  | Pdf_Historical | Pdf_Contradictory | Pdf_Already_Present | Extraction_Absent
  | Extraction_Unknown | Extraction_Historical | Extraction_Contradictory
  | Extraction_Already_Present | Extraction_Retry_Required | Extraction_Not_Failed
  | Quality_Failed | Quality_Absent | Quality_Unknown | Quality_Contradictory
  | Quality_Not_Formal | Root_Unknown | Experiment_No_Auto_Queue
  | Execution_Source_Unknown | Test_Execution_Source | Visibility_Unknown
  | Visibility_Denied | Manual_Request_Absent | Manual_Request_Contradictory
  | Manual_Request_Superseded | Not_Waiting_Calibration | Duplicate_Paper

definition all_eligibility_reasons :: "eligibility_reason list" where
  "all_eligibility_reasons =
    [Canonical_Unknown, Not_Canonical, Version_Unknown, Not_Current_Version,
     Identity_Contradictory, Metadata_Unknown, Metadata_Incomplete, Metadata_Stale,
     Metadata_Contradictory, Metadata_No_Title, Metadata_No_Abstract,
     Metadata_Unknown_Truncation, Metadata_No_Source_Url, Metadata_Routes_Incomplete,
     Metadata_Agency_Unknown, Metadata_Agency_Unsupported, Decision_Absent,
     Decision_Contradictory, Decision_Not_Current, Decision_Basis_Unknown,
     Decision_Basis_Current, Projection_Not_Decision, Gate_Paused, Gate_Disabled,
     Gate_Unknown, Screening_Absent, Screening_Unknown, Screening_Historical,
     Screening_Contradictory, Decision_Not_Accepted, Pdf_Absent, Pdf_Unknown,
     Pdf_Historical, Pdf_Contradictory, Pdf_Already_Present, Extraction_Absent,
     Extraction_Unknown, Extraction_Historical, Extraction_Contradictory,
     Extraction_Already_Present, Extraction_Retry_Required, Extraction_Not_Failed,
     Quality_Failed, Quality_Absent, Quality_Unknown, Quality_Contradictory,
     Quality_Not_Formal, Root_Unknown, Experiment_No_Auto_Queue, Execution_Source_Unknown,
     Test_Execution_Source, Visibility_Unknown, Visibility_Denied, Manual_Request_Absent,
     Manual_Request_Contradictory, Manual_Request_Superseded, Not_Waiting_Calibration,
     Duplicate_Paper]"


lemma set_all_concepts [simp]: "c \<in> set all_concepts"
  by (cases c) (simp_all add: all_concepts_def)

lemma set_all_eligibility_reasons [simp]: "r \<in> set all_eligibility_reasons"
  by (cases r) (simp_all add: all_eligibility_reasons_def)

lemma distinct_all_eligibility_reasons: "distinct all_eligibility_reasons"
  by (simp add: all_eligibility_reasons_def)

datatype support = Supported | Partial | Deferred

datatype gate_state = Gate_Enabled | Gate_Is_Paused | Gate_Is_Disabled | Gate_Is_Unknown

datatype presence = Present | Absent | Presence_Unknown

datatype applicability = Current | Historical | Undeterminable

section \<open>Artifact, extraction and quality facts\<close>

record artifact_fact =
  af_presence :: presence
  af_reference :: "string option"
  af_version_id :: "string option"
  af_applicability :: applicability

definition unknown_artifact :: artifact_fact where
  "unknown_artifact =
     \<lparr>af_presence = Presence_Unknown, af_reference = None, af_version_id = None,
      af_applicability = Undeterminable\<rparr>"

text \<open>\<open>ArtifactFact.from_success\<close>, over the two parts of the success view it reads.\<close>

definition artifact_from_success :: "string \<Rightarrow> applicability \<Rightarrow> string \<Rightarrow> artifact_fact" where
  "artifact_from_success success_id applies version_id =
     \<lparr>af_presence = Present, af_reference = Some success_id, af_version_id = Some version_id,
      af_applicability = applies\<rparr>"

datatype extraction_state =
    Extraction_Succeeded | Extraction_Has_Failed | Extraction_Is_Absent | Extraction_Is_Unknown

record extraction_fact =
  ef_state :: extraction_state
  ef_reference :: "string option"
  ef_pdf_reference :: "string option"
  ef_applicability :: applicability

datatype quality_basis =
    Formal_Gate | Experiment_Document_Gate | Basis_Failed | Basis_Absent | Basis_Unknown

datatype quality_failure =
    Pdf_Text_Layer | Body_Boundary | Reading_Order | Evidence_Replay | Content_Identity
  | Layout_Review | Representative_Coverage | Source_Generated_Separation
  | Embedded_Binary | Text_Integrity

record quality_fact =
  qf_basis :: quality_basis
  qf_extraction_reference :: "string option"
  qf_failure :: "quality_failure option"

datatype root_purpose = Root_Production | Root_Experiment | Root_Is_Unknown

datatype execution_source = Execution_Production | Execution_Test | Execution_Is_Unknown

section \<open>Requests, decisions, metadata\<close>

record manual_read_request =
  mr_reference :: string
  mr_paper_id :: string
  mr_accepted_decision_reference :: string

record decision_fact =
  df_reference :: string
  df_paper_id :: string
  df_sequence :: int
  df_record :: reason_input
  df_applicability :: applicability
  df_screening_reference :: "string option"

datatype metadata_missing =
    Miss_Current_Version_Changed | Miss_No_Title | Miss_No_Abstract | Miss_Unknown_Truncation
  | Miss_No_Source_Url | Miss_Routes_Incomplete | Miss_Agency_Unknown | Miss_Agency_Unsupported

record metadata_facts =
  mf_paper_id :: string
  mf_version_id :: string
  mf_revision_no :: int
  mf_minimum_complete :: bool
  mf_nontruncated_complete :: bool
  mf_current_version :: bool
  mf_missing :: "metadata_missing list"

section \<open>Projection and result\<close>

record paper_projection =
  pp_paper_id :: string
  pp_version_id :: string
  pp_current_version_id :: "string option"
  pp_canonical_id :: "string option"
  pp_revision_no :: int
  pp_metadata :: "metadata_facts option"
  pp_decisions :: "decision_fact list"
  pp_gate :: gate_state
  pp_screening :: artifact_fact
  pp_pdf :: artifact_fact
  pp_extraction :: extraction_fact
  pp_quality :: quality_fact
  pp_root_purpose :: root_purpose
  pp_execution_source :: execution_source
  pp_visibility :: "visibility option"
  pp_manual_request :: "manual_read_request option"
  pp_reference_harvest_failed :: "bool option"

record eligibility =
  el_eligible :: "bool option"
  el_reasons :: "eligibility_reason list"
  el_support :: support
  el_scope :: string
  el_decision :: "decision_fact option"
  el_quality_failure :: "quality_failure option"
  el_owner :: "string option"

end
