(* ===== verification/Eligibility.thy ===== *)
theory Eligibility
  imports Eligibility_Facts
begin

text \<open>
  \<open>src/paper_radar/eligibility/rules.py\<close>: one definition per block of \<open>evaluate_paper\<close> (each
  local set of reasons) and per helper. A block that adds reasons under conditions is the
  union of its conditional insertions (\<^const>\<open>add_when\<close>). \<open>evaluate_paper\<close> assembles the
  dictionary of all concepts; \<open>evaluate_concept\<close> is the batch entry point.
\<close>

section \<open>Results\<close>

definition mk_result :: "eligibility_reason set \<Rightarrow> support \<Rightarrow> string \<Rightarrow> eligibility" where
  "mk_result reasons supp scope =
     \<lparr>el_eligible = Some (reasons = {}),
      el_reasons = filter (\<lambda>r. r \<in> reasons) all_eligibility_reasons,
      el_support = supp, el_scope = scope, el_decision = None, el_quality_failure = None,
      el_owner = None\<rparr>"

abbreviation plain_result :: "eligibility_reason set \<Rightarrow> eligibility" where
  "plain_result reasons \<equiv> mk_result reasons Supported ''predicate_only''"

section \<open>Identity, version, metadata\<close>

definition canonical_reasons :: "paper_projection \<Rightarrow> eligibility_reason set" where
  "canonical_reasons f =
     add_when (\<not> truthy (pp_paper_id f) \<or> pp_canonical_id f = Some '''') {Identity_Contradictory} \<union>
     (case pp_canonical_id f of
        None \<Rightarrow> {Canonical_Unknown}
      | Some c \<Rightarrow> add_when (c \<noteq> pp_paper_id f) {Not_Canonical})"

definition version_reasons :: "paper_projection \<Rightarrow> eligibility_reason set" where
  "version_reasons f =
     add_when
       (\<not> truthy (pp_version_id f) \<or> pp_current_version_id f = Some '''' \<or> pp_revision_no f < 1)
       {Identity_Contradictory} \<union>
     (case pp_current_version_id f of
        None \<Rightarrow> {Version_Unknown}
      | Some c \<Rightarrow> add_when (pp_version_id f \<noteq> c) {Not_Current_Version})"

fun missing_reason :: "metadata_missing \<Rightarrow> eligibility_reason" where
  "missing_reason Miss_Current_Version_Changed = Metadata_Stale"
| "missing_reason Miss_No_Title = Metadata_No_Title"
| "missing_reason Miss_No_Abstract = Metadata_No_Abstract"
| "missing_reason Miss_Unknown_Truncation = Metadata_Unknown_Truncation"
| "missing_reason Miss_No_Source_Url = Metadata_No_Source_Url"
| "missing_reason Miss_Routes_Incomplete = Metadata_Routes_Incomplete"
| "missing_reason Miss_Agency_Unknown = Metadata_Agency_Unknown"
| "missing_reason Miss_Agency_Unsupported = Metadata_Agency_Unsupported"

definition metadata_reasons :: "paper_projection \<Rightarrow> eligibility_reason set" where
  "metadata_reasons f =
     canonical_reasons f \<union> version_reasons f \<union>
     (case pp_metadata f of
        None \<Rightarrow> {Metadata_Unknown}
      | Some m \<Rightarrow>
          set (map missing_reason (mf_missing m)) \<union>
          add_when
            (mf_minimum_complete m = (mf_missing m \<noteq> []) \<or>
             (mf_nontruncated_complete m \<and> \<not> mf_minimum_complete m) \<or>
             mf_paper_id m \<noteq> pp_paper_id f)
            {Metadata_Contradictory} \<union>
          add_when (\<not> mf_minimum_complete m) {Metadata_Incomplete} \<union>
          add_when
            (\<not> mf_current_version m \<or> mf_version_id m \<noteq> pp_version_id f \<or>
             mf_revision_no m \<noteq> pp_revision_no f)
            {Metadata_Stale})"

section \<open>Screening artifact\<close>

definition artifact_presence_contradictory :: "artifact_fact \<Rightarrow> bool" where
  "artifact_presence_contradictory a \<longleftrightarrow>
     af_presence a \<noteq> Present \<and>
     (af_reference a \<noteq> None \<or> af_version_id a \<noteq> None \<or> af_applicability a \<noteq> Undeterminable)"

definition screening_reasons :: "paper_projection \<Rightarrow> eligibility_reason set" where
  "screening_reasons f =
     (let a = pp_screening f in
      canonical_reasons f \<union> version_reasons f \<union>
      add_when (artifact_presence_contradictory a) {Screening_Contradictory} \<union>
      (case af_presence a of
         Absent \<Rightarrow> {Screening_Absent}
       | Presence_Unknown \<Rightarrow> {Screening_Unknown}
       | Present \<Rightarrow>
           add_when (\<not> truthy_opt (af_reference a) \<or> \<not> truthy_opt (af_version_id a))
             {Screening_Contradictory} \<union>
           (case af_applicability a of
              Historical \<Rightarrow> {Screening_Historical}
            | Current \<Rightarrow> {}
            | Undeterminable \<Rightarrow> {Screening_Unknown})))"

section \<open>The effective decision\<close>

text \<open>
  \<open>_decision\<close>: the loop over the decisions keeps the reasons, the human and the system
  decisions and whether a failure projection was seen.
\<close>

definition decision_contradictory :: "paper_projection \<Rightarrow> decision_fact \<Rightarrow> bool" where
  "decision_contradictory f d \<longleftrightarrow>
     df_paper_id d \<noteq> pp_paper_id f \<or> \<not> truthy (df_reference d) \<or> df_sequence d < 0 \<or>
     invalid_combination_fields (df_record d) \<noteq> []"

record decision_split =
  ds_contradictory :: bool
  ds_humans :: "decision_fact list"
  ds_systems :: "decision_fact list"
  ds_projections :: bool

definition split_step :: "paper_projection \<Rightarrow> decision_split \<Rightarrow> decision_fact \<Rightarrow> decision_split" where
  "split_step f s d =
     (if decision_contradictory f d then s\<lparr>ds_contradictory := True\<rparr>
      else case map_option fst (build_screening_reason (df_record d)) of
        Some Screening_Decision \<Rightarrow> s\<lparr>ds_humans := ds_humans s @ [d]\<rparr>
      | Some Screening_Failure_Projection \<Rightarrow> s\<lparr>ds_projections := True\<rparr>
      | _ \<Rightarrow> s\<lparr>ds_systems := ds_systems s @ [d]\<rparr>)"

definition split_decisions :: "paper_projection \<Rightarrow> decision_split" where
  "split_decisions f =
     foldl (split_step f)
       \<lparr>ds_contradictory = False, ds_humans = [], ds_systems = [], ds_projections = False\<rparr>
       (pp_decisions f)"

definition winners :: "decision_fact list \<Rightarrow> decision_fact list" where
  "winners ds = filter (\<lambda>d. df_sequence d = Max (set (map df_sequence ds))) ds"

definition chosen_decision :: "decision_fact list \<Rightarrow> decision_fact option" where
  "chosen_decision candidates =
     (case winners candidates of [d] \<Rightarrow> Some d | _ \<Rightarrow> None)"

definition gate_reasons :: "gate_state \<Rightarrow> eligibility_reason set" where
  "gate_reasons g =
     (case g of
        Gate_Is_Paused \<Rightarrow> {Gate_Paused}
      | Gate_Is_Disabled \<Rightarrow> {Gate_Disabled}
      | Gate_Is_Unknown \<Rightarrow> {Gate_Unknown}
      | Gate_Enabled \<Rightarrow> {})"

definition visibility_reasons ::
  "visibility_capability \<Rightarrow> visibility option \<Rightarrow> eligibility_reason set" where
  "visibility_reasons cap v =
     (case v of
        None \<Rightarrow> {Visibility_Unknown}
      | Some w \<Rightarrow> add_when (permission w cap \<noteq> Allowed) {Visibility_Denied})"

text \<open>What a system decision needs beyond being the unique latest one.\<close>

definition system_reasons ::
  "paper_projection \<Rightarrow> eligibility_reason set \<Rightarrow> decision_fact option \<Rightarrow> eligibility_reason set" where
  "system_reasons f screening chosen =
     screening \<union>
     (case chosen of
        None \<Rightarrow> {}
      | Some d \<Rightarrow>
          add_when (df_screening_reference d \<noteq> af_reference (pp_screening f))
            {Decision_Contradictory} \<union>
          add_when (df_applicability d \<noteq> Current) {Decision_Not_Current}) \<union>
     visibility_reasons Agent_Content (pp_visibility f) \<union>
     gate_reasons (pp_gate f)"

definition decision_reasons ::
  "paper_projection \<Rightarrow> eligibility_reason set \<Rightarrow> eligibility_reason set \<Rightarrow>
   eligibility_reason set \<times> decision_fact option" where
  "decision_reasons f prerequisites screening =
     (let s = split_decisions f;
          base = prerequisites \<union> add_when (ds_contradictory s) {Decision_Contradictory};
          candidates = (if ds_humans s \<noteq> [] then ds_humans s else ds_systems s)
      in if candidates \<noteq> [] then
           let chosen = chosen_decision candidates in
           (base \<union> add_when (chosen = None) {Decision_Contradictory} \<union>
              (if ds_humans s = [] then system_reasons f screening chosen else {}),
            chosen)
         else
           (base \<union> {Decision_Absent} \<union>
              add_when (ds_projections s) {Projection_Not_Decision},
            None))"

definition effective_decision :: "paper_projection \<Rightarrow> eligibility" where
  "effective_decision f =
     (let (reasons, chosen) =
            decision_reasons f (canonical_reasons f \<union> version_reasons f) (screening_reasons f)
      in (plain_result reasons)\<lparr>el_decision := (if reasons = {} then chosen else None)\<rparr>)"

section \<open>PDF, extraction, quality\<close>

definition pdf_reasons :: "paper_projection \<Rightarrow> eligibility_reason set" where
  "pdf_reasons f =
     (let p = pp_pdf f in
      add_when (artifact_presence_contradictory p) {Pdf_Contradictory} \<union>
      (case af_presence p of
         Absent \<Rightarrow> {Pdf_Absent}
       | Presence_Unknown \<Rightarrow> {Pdf_Unknown}
       | Present \<Rightarrow>
           (if \<not> truthy_opt (af_reference p) \<or> af_version_id p = None then {Pdf_Contradictory}
            else if af_applicability p = Historical then {Pdf_Historical}
            else if af_version_id p \<noteq> Some (pp_version_id f) then {Pdf_Contradictory}
            else {}) \<union>
           add_when (af_applicability p \<notin> {Current, Historical}) {Pdf_Unknown}))"

definition extraction_reasons :: "paper_projection \<Rightarrow> eligibility_reason set" where
  "extraction_reasons f =
     (let e = pp_extraction f in
      add_when
        (ef_state e \<in> {Extraction_Is_Absent, Extraction_Is_Unknown} \<and>
         (ef_reference e \<noteq> None \<or> ef_pdf_reference e \<noteq> None \<or>
          ef_applicability e \<noteq> Undeterminable))
        {Extraction_Contradictory} \<union>
      (case ef_state e of
         Extraction_Is_Absent \<Rightarrow> {Extraction_Absent}
       | Extraction_Is_Unknown \<Rightarrow> {Extraction_Unknown}
       | _ \<Rightarrow>
           (if ef_state e = Extraction_Has_Failed then {Extraction_Retry_Required}
            else if \<not> truthy_opt (ef_reference e) then {Extraction_Contradictory} else {}) \<union>
           (if ef_pdf_reference e = None then {Extraction_Contradictory}
            else if ef_applicability e = Historical then {Extraction_Historical}
            else if ef_pdf_reference e \<noteq> af_reference (pp_pdf f) then {Extraction_Contradictory}
            else {}) \<union>
           add_when (ef_applicability e \<notin> {Current, Historical}) {Extraction_Unknown}))"

definition quality_reasons :: "paper_projection \<Rightarrow> eligibility_reason set" where
  "quality_reasons f =
     (let q = pp_quality f in
      add_when
        (qf_basis q \<in> {Basis_Absent, Basis_Unknown} \<and>
         (qf_extraction_reference q \<noteq> None \<or> qf_failure q \<noteq> None))
        {Quality_Contradictory} \<union>
      add_when (pp_root_purpose f = Root_Is_Unknown) {Root_Unknown} \<union>
      (case qf_basis q of
         Basis_Failed \<Rightarrow>
           {Quality_Failed} \<union> add_when (qf_failure q = None) {Quality_Contradictory}
       | Basis_Absent \<Rightarrow> {Quality_Absent}
       | Basis_Unknown \<Rightarrow> {Quality_Unknown}
       | _ \<Rightarrow>
           add_when
             (\<not> truthy_opt (qf_extraction_reference q) \<or>
              qf_extraction_reference q \<noteq> ef_reference (pp_extraction f) \<or>
              qf_failure q \<noteq> None)
             {Quality_Contradictory} \<union>
           add_when
             (qf_basis q = Experiment_Document_Gate \<and> pp_root_purpose f = Root_Production)
             {Quality_Not_Formal}))"

end
