(* ===== verification/Eligibility_Concepts.thy ===== *)
theory Eligibility_Concepts
  imports Eligibility "HOL-Library.AList" "HOL-Library.Multiset"
begin

text \<open>
  The assembly of all concepts (\<open>evaluate_paper\<close>), the batch projection
  (\<open>evaluate_concept\<close>), the abstract meaning of \<open>effective decision\<close> and
  \<open>ready to be read\<close>, and the laws between the concepts of one paper.
\<close>

section \<open>The reason sets of the derived concepts\<close>

definition effective_reasons :: "paper_projection \<Rightarrow> eligibility_reason set" where
  "effective_reasons f = set (el_reasons (effective_decision f))"

definition stale_reasons :: "paper_projection \<Rightarrow> eligibility_reason set" where
  "stale_reasons f =
     effective_reasons f \<union>
     (case el_decision (effective_decision f) of
        None \<Rightarrow> {}
      | Some d \<Rightarrow>
          (case df_applicability d of
             Historical \<Rightarrow> {}
           | Current \<Rightarrow> {Decision_Basis_Current}
           | Undeterminable \<Rightarrow> {Decision_Basis_Unknown}))"

definition accepted_reasons :: "paper_projection \<Rightarrow> eligibility_reason set" where
  "accepted_reasons f =
     effective_reasons f \<union>
     (case el_decision (effective_decision f) of
        None \<Rightarrow> {}
      | Some d \<Rightarrow> add_when (ri_result (df_record d) \<noteq> Accepted) {Decision_Not_Accepted})"

definition needs_pdf_reasons :: "paper_projection \<Rightarrow> eligibility_reason set" where
  "needs_pdf_reasons f =
     (let pdf = pdf_reasons f; needs = accepted_reasons f \<union> pdf in
      if af_presence (pp_pdf f) = Absent \<or> Pdf_Historical \<in> pdf
        then needs - {Pdf_Absent, Pdf_Historical}
      else if pdf = {} then needs \<union> {Pdf_Already_Present}
      else needs)"

definition needs_extraction_reasons :: "paper_projection \<Rightarrow> eligibility_reason set" where
  "needs_extraction_reasons f =
     (let extraction = extraction_reasons f;
          needs = accepted_reasons f \<union> pdf_reasons f \<union> extraction in
      if ef_state (pp_extraction f) = Extraction_Is_Absent \<or> Extraction_Historical \<in> extraction
        then needs - {Extraction_Absent, Extraction_Historical, Extraction_Retry_Required}
      else if ef_state (pp_extraction f) = Extraction_Succeeded \<and> extraction = {}
        then needs \<union> {Extraction_Already_Present}
      else needs)"

definition extraction_failed_reasons :: "paper_projection \<Rightarrow> eligibility_reason set" where
  "extraction_failed_reasons f =
     (canonical_reasons f \<union> version_reasons f \<union> pdf_reasons f \<union> extraction_reasons f
        - {Extraction_Retry_Required}) \<union>
     add_when (ef_state (pp_extraction f) \<noteq> Extraction_Has_Failed) {Extraction_Not_Failed}"

definition read_reasons :: "paper_projection \<Rightarrow> eligibility_reason set" where
  "read_reasons f =
     accepted_reasons f \<union> metadata_reasons f \<union> pdf_reasons f \<union> extraction_reasons f \<union>
     quality_reasons f \<union>
     (case pp_execution_source f of
        Execution_Is_Unknown \<Rightarrow> {Execution_Source_Unknown}
      | Execution_Test \<Rightarrow> {Test_Execution_Source}
      | Execution_Production \<Rightarrow> {}) \<union>
     visibility_reasons Reading_Request (pp_visibility f)"

definition auto_reasons :: "paper_projection \<Rightarrow> eligibility_reason set" where
  "auto_reasons f =
     read_reasons f \<union> add_when (pp_root_purpose f = Root_Experiment) {Experiment_No_Auto_Queue}"

definition manual_reasons :: "paper_projection \<Rightarrow> eligibility_reason set" where
  "manual_reasons f =
     read_reasons f \<union>
     (case pp_manual_request f of
        None \<Rightarrow> {Manual_Request_Absent}
      | Some r \<Rightarrow>
          add_when
            (\<not> truthy (mr_reference r) \<or> mr_paper_id r \<noteq> pp_paper_id f \<or>
             \<not> truthy (mr_accepted_decision_reference r))
            {Manual_Request_Contradictory} \<union>
          (case el_decision (effective_decision f) of
             None \<Rightarrow> {}
           | Some d \<Rightarrow>
               add_when (mr_accepted_decision_reference r \<noteq> df_reference d)
                 {Manual_Request_Superseded}))"

definition waiting_reasons :: "paper_projection \<Rightarrow> eligibility_reason set" where
  "waiting_reasons f =
     (case pp_visibility f of
        None \<Rightarrow> {Visibility_Unknown}
      | Some v \<Rightarrow>
          add_when (Hidden_Waiting_Calibration \<notin> hidden_conditions v) {Not_Waiting_Calibration})"

section \<open>evaluate_paper\<close>

definition deferred_result :: "string \<Rightarrow> eligibility" where
  "deferred_result owner =
     \<lparr>el_eligible = None, el_reasons = [], el_support = Deferred,
      el_scope = ''downstream_responsibility'', el_decision = None,
      el_quality_failure = None, el_owner = Some owner\<rparr>"

definition read_scope :: string where
  "read_scope = ''read_prerequisites_only_no_rank_capacity_claim_or_budget''"

fun evaluate_paper :: "paper_projection \<Rightarrow> concept \<Rightarrow> eligibility" where
  "evaluate_paper f Canonical_Paper = plain_result (canonical_reasons f)"
| "evaluate_paper f Current_Version = plain_result (version_reasons f)"
| "evaluate_paper f Metadata_Ready =
     mk_result (metadata_reasons f) Partial ''minimum_metadata_only''"
| "evaluate_paper f Effective_Screening_Decision = effective_decision f"
| "evaluate_paper f Decision_Basis_Stale = plain_result (stale_reasons f)"
| "evaluate_paper f Current_Screening_Artifact = plain_result (screening_reasons f)"
| "evaluate_paper f Needs_Pdf = plain_result (needs_pdf_reasons f)"
| "evaluate_paper f Needs_Extraction = plain_result (needs_extraction_reasons f)"
| "evaluate_paper f Extraction_Failed = plain_result (extraction_failed_reasons f)"
| "evaluate_paper f Read_Prerequisites =
     (mk_result (read_reasons f) Partial read_scope)
       \<lparr>el_quality_failure := qf_failure (pp_quality f)\<rparr>"
| "evaluate_paper f Eligible_For_Auto_Read =
     (mk_result (auto_reasons f) Partial read_scope)
       \<lparr>el_quality_failure := qf_failure (pp_quality f)\<rparr>"
| "evaluate_paper f Requested_Manual_Read =
     (mk_result (manual_reasons f) Supported ''explicit_read_prerequisites_no_claim_or_budget'')
       \<lparr>el_quality_failure := qf_failure (pp_quality f)\<rparr>"
| "evaluate_paper f Waiting_Calibration =
     mk_result (waiting_reasons f) Partial ''supplied_visibility_fact_only''"
| "evaluate_paper f Metadata_Unobtainable = deferred_result ''C''"
| "evaluate_paper f Current_Screening_Suggestion = deferred_result ''B/D''"
| "evaluate_paper f Needs_Reference_Harvest = deferred_result ''E''"
| "evaluate_paper f Reference_List_Completeness = deferred_result ''E''"
| "evaluate_paper f Needs_Reuse_Assessment = deferred_result ''D''"
| "evaluate_paper f Concept_Reuse_Escalation_Unavailable = deferred_result ''D''"
| "evaluate_paper f Manual_Accepted_Channel = deferred_result ''G/H''"
| "evaluate_paper f Accepted_Read_Backlog = deferred_result ''G/H''"
| "evaluate_paper f Model_Failure_Queue = deferred_result ''B''"
| "evaluate_paper f Waiting_Review = deferred_result ''B/H''"
| "evaluate_paper f Waiting_Report = deferred_result ''B/H''"
| "evaluate_paper f Capacity_Warning = deferred_result ''G/H''"

section \<open>evaluate_concept\<close>

text \<open>
  The loop fills a dictionary in insertion order (\<^const>\<open>AList.update\<close> replaces in place or
  appends, as a Python dictionary does); a repeated identity overwrites its entry by a
  rejection. The result is sorted by paper id.
\<close>

definition duplicate_result :: "eligibility \<Rightarrow> eligibility" where
  "duplicate_result previous =
     previous\<lparr>el_eligible := (if el_support previous = Deferred then None else Some False),
       el_decision := None, el_quality_failure := None, el_reasons := [Duplicate_Paper]\<rparr>"

type_synonym results = "(string \<times> eligibility) list"

definition concept_step :: "concept \<Rightarrow> paper_projection \<Rightarrow> results \<Rightarrow> results" where
  "concept_step c p results =
     (case map_of results (pp_paper_id p) of
        Some previous \<Rightarrow> AList.update (pp_paper_id p) (duplicate_result previous) results
      | None \<Rightarrow> AList.update (pp_paper_id p) (evaluate_paper p c) results)"

definition evaluate_concept :: "concept \<Rightarrow> paper_projection list \<Rightarrow> results" where
  "evaluate_concept c papers =
     sort_key fst (fold (concept_step c) papers [])"


section \<open>Results and reasons\<close>

lemma mk_result_simps [simp]:
  "el_eligible (mk_result R s sc) = Some (R = {})"
  "set (el_reasons (mk_result R s sc)) = R"
  "el_support (mk_result R s sc) = s" "el_scope (mk_result R s sc) = sc"
  "el_decision (mk_result R s sc) = None" "el_quality_failure (mk_result R s sc) = None"
  "el_owner (mk_result R s sc) = None"
  by (auto simp: mk_result_def)

lemma mk_result_reasons_ordered [simp]:
  "(el_reasons (mk_result R s sc) = filter (\<lambda>r. r \<in> R) all_eligibility_reasons) = True"
  by (simp add: mk_result_def)

lemma mk_result_reasons_Nil [simp]: "el_reasons (mk_result R s sc) = [] \<longleftrightarrow> R = {}"
  by (auto simp: mk_result_def filter_empty_conv)

lemma mk_result_distinct [simp]: "distinct (el_reasons (mk_result R s sc))"
  by (simp add: mk_result_def distinct_all_eligibility_reasons)

definition well_formed_result :: "eligibility \<Rightarrow> bool" where
  "well_formed_result e \<longleftrightarrow>
     (el_eligible e = None \<longleftrightarrow> el_support e = Deferred) \<and>
     (el_eligible e = Some True \<longleftrightarrow> el_support e \<noteq> Deferred \<and> el_reasons e = []) \<and>
     el_reasons e = filter (\<lambda>r. r \<in> set (el_reasons e)) all_eligibility_reasons \<and>
     distinct (el_reasons e)"

lemma well_formed_mk [simp]:
  "s \<noteq> Deferred \<Longrightarrow> well_formed_result (mk_result R s sc)"
  "s \<noteq> Deferred \<Longrightarrow> well_formed_result ((mk_result R s sc)\<lparr>el_decision := d\<rparr>)"
  "s \<noteq> Deferred \<Longrightarrow> well_formed_result ((mk_result R s sc)\<lparr>el_quality_failure := q\<rparr>)"
  by (simp_all add: well_formed_result_def)

lemma well_formed_deferred [simp]: "well_formed_result (deferred_result owner)"
  by (simp add: well_formed_result_def deferred_result_def)

lemma well_formed_effective: "well_formed_result (effective_decision f)"
  by (simp add: effective_decision_def split: prod.split)

section \<open>The decision loop as three filters\<close>

definition identity_of :: "decision_fact \<Rightarrow> record_identity option" where
  "identity_of d = map_option fst (build_screening_reason (df_record d))"

definition with_identity :: "paper_projection \<Rightarrow> record_identity \<Rightarrow> decision_fact list" where
  "with_identity f i =
     filter (\<lambda>d. \<not> decision_contradictory f d \<and> identity_of d = Some i) (pp_decisions f)"

lemma identity_of_cases:
  assumes "\<not> decision_contradictory f d"
  obtains i where "identity_of d = Some i"
  using assms build_None_iff [of "df_record d"]
  by (cases "build_screening_reason (df_record d)") (auto simp: identity_of_def decision_contradictory_def)

lemma split_fold:
  "foldl (split_step f) s ds =
     \<lparr>ds_contradictory = ds_contradictory s \<or> (\<exists>d \<in> set ds. decision_contradictory f d),
      ds_humans = ds_humans s @
        filter (\<lambda>d. \<not> decision_contradictory f d \<and> identity_of d = Some Screening_Decision) ds,
      ds_systems = ds_systems s @
        filter (\<lambda>d. \<not> decision_contradictory f d \<and> identity_of d = Some Screening_Suggestion) ds,
      ds_projections = ds_projections s \<or>
        (\<exists>d \<in> set ds. \<not> decision_contradictory f d \<and>
           identity_of d = Some Screening_Failure_Projection)\<rparr>"
proof (induction ds arbitrary: s)
  case Nil
  show ?case by simp
next
  case (Cons d ds)
  show ?case
  proof (cases "decision_contradictory f d")
    case True
    then show ?thesis by (simp add: Cons.IH split_step_def [of f s d])
  next
    case False
    then obtain i where "identity_of d = Some i" by (rule identity_of_cases)
    with False show ?thesis
      by (cases i) (auto simp: Cons.IH split_step_def [of f s d] identity_of_def)
  qed
qed

lemma split_decisions_simps [simp]:
  "ds_contradictory (split_decisions f) = (\<exists>d \<in> set (pp_decisions f). decision_contradictory f d)"
  "ds_humans (split_decisions f) = with_identity f Screening_Decision"
  "ds_systems (split_decisions f) = with_identity f Screening_Suggestion"
  "ds_projections (split_decisions f) = (with_identity f Screening_Failure_Projection \<noteq> [])"
  by (auto simp: split_decisions_def split_fold with_identity_def filter_empty_conv)

definition candidates :: "paper_projection \<Rightarrow> decision_fact list" where
  "candidates f =
     (if with_identity f Screening_Decision \<noteq> [] then with_identity f Screening_Decision
      else with_identity f Screening_Suggestion)"

text \<open>The unique latest decision of a list.\<close>

definition unique_latest :: "decision_fact list \<Rightarrow> decision_fact \<Rightarrow> bool" where
  "unique_latest ds d \<longleftrightarrow>
     (\<forall>x \<in> set ds. df_sequence x \<le> df_sequence d) \<and> filter (\<lambda>x. df_sequence x = df_sequence d) ds = [d]"

lemma chosen_decision_iff: "chosen_decision ds = Some d \<longleftrightarrow> unique_latest ds d"
proof
  assume "chosen_decision ds = Some d"
  then have w: "winners ds = [d]"
    by (auto simp: chosen_decision_def split: list.splits)
  then have "d \<in> set (winners ds)" by simp
  then have d: "d \<in> set ds" "df_sequence d = Max (set (map df_sequence ds))"
    by (auto simp: winners_def)
  with w show "unique_latest ds d" by (auto simp: unique_latest_def winners_def)
next
  assume u: "unique_latest ds d"
  then have "d \<in> set (filter (\<lambda>x. df_sequence x = df_sequence d) ds)"
    by (simp add: unique_latest_def)
  then have "d \<in> set ds" by simp
  with u have "Max (set (map df_sequence ds)) = df_sequence d"
    by (intro Max_eqI) (auto simp: unique_latest_def)
  with u show "chosen_decision ds = Some d"
    by (simp add: chosen_decision_def winners_def unique_latest_def)
qed

lemma effective_reasons_eq:
  "effective_reasons f =
     fst (decision_reasons f (canonical_reasons f \<union> version_reasons f) (screening_reasons f))"
  by (simp add: effective_reasons_def effective_decision_def split: prod.splits)

lemma effective_eligible:
  "el_eligible (effective_decision f) = Some (effective_reasons f = {})"
  by (simp add: effective_reasons_eq effective_decision_def split: prod.splits)

text \<open>
  The abstract meaning: every decision of the paper is well formed, the identity and the
  version are settled, the decision is the unique latest of the human decisions or, when
  there is none, of the system's, and a system decision meets the extra conditions.
\<close>

definition effective_spec :: "paper_projection \<Rightarrow> decision_fact \<Rightarrow> bool" where
  "effective_spec f d \<longleftrightarrow>
     canonical_reasons f = {} \<and> version_reasons f = {} \<and>
     (\<forall>x \<in> set (pp_decisions f). \<not> decision_contradictory f x) \<and>
     unique_latest (candidates f) d \<and>
     (with_identity f Screening_Decision = [] \<longrightarrow> system_reasons f (screening_reasons f) (Some d) = {})"

lemma decision_reasons_candidates:
  "decision_reasons f p s =
     (let base = p \<union> add_when (\<exists>d \<in> set (pp_decisions f). decision_contradictory f d)
                   {Decision_Contradictory};
          chosen = chosen_decision (candidates f)
      in if candidates f \<noteq> [] then
           (base \<union> add_when (chosen = None) {Decision_Contradictory} \<union>
              (if with_identity f Screening_Decision = [] then system_reasons f s chosen else {}),
            chosen)
         else
           (base \<union> {Decision_Absent} \<union>
              add_when (with_identity f Screening_Failure_Projection \<noteq> []) {Projection_Not_Decision},
            None))"
  by (simp add: decision_reasons_def candidates_def Let_def)

lemma effective_decision_reasons:
  assumes "chosen_decision (candidates f) = Some d"
  shows "effective_reasons f = {} \<longleftrightarrow> effective_spec f d"
proof -
  have ne: "candidates f \<noteq> []"
    using assms by (auto simp: chosen_decision_def winners_def)
  have u: "unique_latest (candidates f) d"
    using assms by (simp add: chosen_decision_iff)
  show ?thesis
    by (auto simp: effective_reasons_eq decision_reasons_candidates effective_spec_def Let_def
        assms ne u)
qed

lemma effective_reasons_chosen:
  assumes "effective_reasons f = {}"
  obtains d where "chosen_decision (candidates f) = Some d"
  using assms by (cases "chosen_decision (candidates f)")
    (auto simp: effective_reasons_eq decision_reasons_candidates Let_def split: if_splits)

lemma effective_decision_eq:
  "el_decision (effective_decision f) =
     (if effective_reasons f = {} then chosen_decision (candidates f) else None)"
  by (auto simp: effective_decision_def effective_reasons_eq decision_reasons_candidates Let_def)

lemma effective_decision_iff:
  "el_decision (effective_decision f) = Some d \<longleftrightarrow> effective_spec f d"
proof (cases "chosen_decision (candidates f)")
  case None
  then have "\<not> unique_latest (candidates f) d" using chosen_decision_iff [of "candidates f" d] by simp
  then show ?thesis by (simp add: effective_decision_eq None effective_spec_def)
next
  case (Some d')
  then have "effective_spec f d \<Longrightarrow> d = d'"
    using chosen_decision_iff [of "candidates f" d] by (simp add: effective_spec_def)
  with Some show ?thesis
    using effective_decision_reasons [OF Some] by (auto simp: effective_decision_eq)
qed

lemma effective_reasons_empty_iff: "effective_reasons f = {} \<longleftrightarrow> (\<exists>d. effective_spec f d)"
  using effective_decision_iff effective_decision_eq effective_reasons_chosen
  by (metis option.distinct(1))

section \<open>When the block sets are empty\<close>

named_theorems reason_empty "characterisations of empty reason sets"

lemma canonical_empty [reason_empty]:
  "canonical_reasons f = {} \<longleftrightarrow>
     truthy (pp_paper_id f) \<and> pp_canonical_id f = Some (pp_paper_id f)"
  by (auto simp: canonical_reasons_def split: option.splits)

lemma version_empty [reason_empty]:
  "version_reasons f = {} \<longleftrightarrow>
     truthy (pp_version_id f) \<and> pp_current_version_id f = Some (pp_version_id f) \<and>
     1 \<le> pp_revision_no f"
  by (auto simp: version_reasons_def split: option.splits)

definition metadata_ready :: "paper_projection \<Rightarrow> metadata_facts \<Rightarrow> bool" where
  "metadata_ready f m \<longleftrightarrow>
     mf_missing m = [] \<and> mf_minimum_complete m \<and> mf_current_version m \<and>
     mf_paper_id m = pp_paper_id f \<and> mf_version_id m = pp_version_id f \<and>
     mf_revision_no m = pp_revision_no f"

lemma metadata_empty [reason_empty]:
  "metadata_reasons f = {} \<longleftrightarrow>
     canonical_reasons f = {} \<and> version_reasons f = {} \<and>
     (\<exists>m. pp_metadata f = Some m \<and> metadata_ready f m)"
  by (auto simp: metadata_reasons_def metadata_ready_def split: option.splits)

definition pdf_ready :: "paper_projection \<Rightarrow> bool" where
  "pdf_ready f \<longleftrightarrow>
     af_presence (pp_pdf f) = Present \<and> truthy_opt (af_reference (pp_pdf f)) \<and>
     af_version_id (pp_pdf f) = Some (pp_version_id f) \<and> af_applicability (pp_pdf f) = Current"

lemma pdf_empty [reason_empty]: "pdf_reasons f = {} \<longleftrightarrow> pdf_ready f"
  by (cases "af_presence (pp_pdf f)"; cases "af_applicability (pp_pdf f)")
    (auto simp: pdf_reasons_def pdf_ready_def artifact_presence_contradictory_def Let_def)

definition extraction_ready :: "paper_projection \<Rightarrow> bool" where
  "extraction_ready f \<longleftrightarrow>
     ef_state (pp_extraction f) = Extraction_Succeeded \<and>
     truthy_opt (ef_reference (pp_extraction f)) \<and>
     ef_pdf_reference (pp_extraction f) \<noteq> None \<and>
     ef_pdf_reference (pp_extraction f) = af_reference (pp_pdf f) \<and>
     ef_applicability (pp_extraction f) = Current"

lemma extraction_empty [reason_empty]: "extraction_reasons f = {} \<longleftrightarrow> extraction_ready f"
  by (cases "ef_state (pp_extraction f)"; cases "ef_applicability (pp_extraction f)")
    (auto simp: extraction_reasons_def extraction_ready_def Let_def)

definition quality_ready :: "paper_projection \<Rightarrow> bool" where
  "quality_ready f \<longleftrightarrow>
     pp_root_purpose f \<noteq> Root_Is_Unknown \<and>
     (qf_basis (pp_quality f) = Formal_Gate \<or>
      qf_basis (pp_quality f) = Experiment_Document_Gate \<and> pp_root_purpose f = Root_Experiment) \<and>
     truthy_opt (qf_extraction_reference (pp_quality f)) \<and>
     qf_extraction_reference (pp_quality f) = ef_reference (pp_extraction f) \<and>
     qf_failure (pp_quality f) = None"

lemma quality_empty [reason_empty]: "quality_reasons f = {} \<longleftrightarrow> quality_ready f"
  by (cases "qf_basis (pp_quality f)"; cases "pp_root_purpose f")
    (auto simp: quality_reasons_def quality_ready_def Let_def)

lemma accepted_empty [reason_empty]:
  "accepted_reasons f = {} \<longleftrightarrow>
     (\<exists>d. effective_spec f d \<and> ri_result (df_record d) = Accepted)"
proof -
  have "accepted_reasons f = {} \<longleftrightarrow>
      (\<exists>d. el_decision (effective_decision f) = Some d \<and> ri_result (df_record d) = Accepted)"
  proof (cases "el_decision (effective_decision f)")
    case None
    then have "effective_reasons f \<noteq> {}"
      using effective_decision_iff [of f] effective_reasons_empty_iff by auto
    with None show ?thesis by (simp add: accepted_reasons_def)
  next
    case (Some d)
    then have "effective_reasons f = {}"
      using effective_decision_iff effective_reasons_empty_iff by blast
    with Some show ?thesis by (simp add: accepted_reasons_def)
  qed
  then show ?thesis by (simp add: effective_decision_iff)
qed

lemma visibility_empty [reason_empty]:
  "c \<in> restricted \<Longrightarrow> visibility_reasons c v = {} \<longleftrightarrow>
     (\<exists>w. v = Some w \<and> hidden_conditions w = {})"
  by (auto simp: visibility_reasons_def permission_restricted split: option.splits)

lemma reading_request_restricted [simp]: "Reading_Request \<in> restricted" "Agent_Content \<in> restricted"
  by (simp_all add: restricted_def)

section \<open>Ready to be read\<close>

definition read_ready :: "paper_projection \<Rightarrow> bool" where
  "read_ready f \<longleftrightarrow>
     (\<exists>d. effective_spec f d \<and> ri_result (df_record d) = Accepted) \<and>
     (\<exists>m. pp_metadata f = Some m \<and> metadata_ready f m) \<and>
     pdf_ready f \<and> extraction_ready f \<and> quality_ready f \<and>
     pp_execution_source f = Execution_Production \<and>
     (\<exists>w. pp_visibility f = Some w \<and> hidden_conditions w = {})"

lemma read_empty [reason_empty]: "read_reasons f = {} \<longleftrightarrow> read_ready f"
proof -
  have *: "effective_spec f d \<Longrightarrow> canonical_reasons f = {} \<and> version_reasons f = {}" for d
    by (simp add: effective_spec_def)
  show ?thesis
    using * by (cases "pp_execution_source f")
      (auto simp: read_reasons_def read_ready_def reason_empty)
qed

lemma read_ready_not_unknown_root: "read_ready f \<Longrightarrow> pp_root_purpose f \<noteq> Root_Is_Unknown"
  by (simp add: read_ready_def quality_ready_def)

lemma auto_empty [reason_empty]:
  "auto_reasons f = {} \<longleftrightarrow> read_ready f \<and> pp_root_purpose f = Root_Production"
  using read_ready_not_unknown_root [of f]
  by (cases "pp_root_purpose f") (auto simp: auto_reasons_def read_empty)

lemma manual_empty [reason_empty]:
  "manual_reasons f = {} \<longleftrightarrow>
     read_ready f \<and>
     (\<exists>r d. pp_manual_request f = Some r \<and> effective_spec f d \<and> truthy (mr_reference r) \<and>
        mr_paper_id r = pp_paper_id f \<and> truthy (mr_accepted_decision_reference r) \<and>
        mr_accepted_decision_reference r = df_reference d)"
proof (cases "read_ready f")
  case True
  then obtain d where d: "effective_spec f d" by (auto simp: read_ready_def)
  then have eff: "el_decision (effective_decision f) = Some d"
    by (simp add: effective_decision_iff)
  then have uniq: "effective_spec f d' \<longleftrightarrow> d' = d" for d'
    using effective_decision_iff [of f d'] by auto
  show ?thesis
    by (auto simp: manual_reasons_def read_empty True eff uniq split: option.splits)
next
  case False
  then show ?thesis by (auto simp: manual_reasons_def read_empty)
qed

section \<open>The queues of one paper exclude each other\<close>

lemma needs_pdf_excludes_pdf: "needs_pdf_reasons f = {} \<Longrightarrow> pdf_reasons f \<noteq> {}"
proof
  assume needs: "needs_pdf_reasons f = {}" and pdf: "pdf_reasons f = {}"
  then have "pdf_ready f" by (simp add: pdf_empty)
  then have "af_presence (pp_pdf f) \<noteq> Absent" by (simp add: pdf_ready_def)
  with needs pdf show False by (simp add: needs_pdf_reasons_def Let_def)
qed

lemma needs_extraction_pdf: "needs_extraction_reasons f = {} \<Longrightarrow> pdf_reasons f = {}"
proof -
  have "pdf_reasons f \<inter> {Extraction_Absent, Extraction_Historical, Extraction_Retry_Required} = {}"
    by (cases "af_presence (pp_pdf f)") (auto simp: pdf_reasons_def Let_def split: if_splits)
  then show "needs_extraction_reasons f = {} \<Longrightarrow> pdf_reasons f = {}"
    by (auto simp: needs_extraction_reasons_def Let_def split: if_splits)
qed

lemma failed_pdf: "extraction_failed_reasons f = {} \<Longrightarrow> pdf_reasons f = {}"
proof -
  have "Extraction_Retry_Required \<notin> pdf_reasons f"
    by (cases "af_presence (pp_pdf f)") (auto simp: pdf_reasons_def Let_def split: if_splits)
  then show "extraction_failed_reasons f = {} \<Longrightarrow> pdf_reasons f = {}"
    by (auto simp: extraction_failed_reasons_def)
qed

lemma failed_state:
  assumes "extraction_failed_reasons f = {}"
  shows "ef_state (pp_extraction f) = Extraction_Has_Failed"
    and "extraction_reasons f = {Extraction_Retry_Required}"
proof -
  show st: "ef_state (pp_extraction f) = Extraction_Has_Failed"
    using assms by (simp add: extraction_failed_reasons_def)
  from assms have "extraction_reasons f \<subseteq> {Extraction_Retry_Required}"
    by (auto simp: extraction_failed_reasons_def)
  moreover from st have "Extraction_Retry_Required \<in> extraction_reasons f"
    by (simp add: extraction_reasons_def Let_def)
  ultimately show "extraction_reasons f = {Extraction_Retry_Required}" by blast
qed

lemma needs_extraction_state:
  assumes "needs_extraction_reasons f = {}"
  shows "Extraction_Absent \<in> extraction_reasons f \<or> Extraction_Historical \<in> extraction_reasons f"
proof (rule ccontr)
  assume none: "\<not> ?thesis"
  then have "ef_state (pp_extraction f) \<noteq> Extraction_Is_Absent"
    by (auto simp: extraction_reasons_def Let_def)
  with assms none have "extraction_reasons f = {}"
    and "ef_state (pp_extraction f) \<noteq> Extraction_Succeeded"
    by (auto simp: needs_extraction_reasons_def Let_def split: if_splits)
  then show False by (simp add: extraction_empty extraction_ready_def)
qed

section \<open>Independence\<close>

lemma effective_decision_cong:
  assumes "canonical_reasons f = canonical_reasons g" "version_reasons f = version_reasons g"
    and "candidates f = candidates g" "with_identity f Screening_Decision \<noteq> []"
    and "with_identity g Screening_Decision \<noteq> []"
    and "(\<exists>d \<in> set (pp_decisions f). decision_contradictory f d) \<longleftrightarrow>
         (\<exists>d \<in> set (pp_decisions g). decision_contradictory g d)"
  shows "effective_decision f = effective_decision g"
  using assms by (simp add: effective_decision_def decision_reasons_candidates Let_def candidates_def)

section \<open>The batch projection\<close>

lemma result_frame:
  "el_support (evaluate_paper f c) = el_support (evaluate_paper g c)"
  "el_scope (evaluate_paper f c) = el_scope (evaluate_paper g c)"
  "el_owner (evaluate_paper f c) = el_owner (evaluate_paper g c)"
  by (cases c; simp add: effective_decision_def deferred_result_def split: prod.splits)+

definition blank_projection :: paper_projection where
  "blank_projection =
     \<lparr>pp_paper_id = [], pp_version_id = [], pp_current_version_id = None,
      pp_canonical_id = None, pp_revision_no = 1, pp_metadata = None, pp_decisions = [],
      pp_gate = Gate_Is_Unknown, pp_screening = unknown_artifact, pp_pdf = unknown_artifact,
      pp_extraction = \<lparr>ef_state = Extraction_Is_Unknown, ef_reference = None,
        ef_pdf_reference = None, ef_applicability = Undeterminable\<rparr>,
      pp_quality = \<lparr>qf_basis = Basis_Unknown, qf_extraction_reference = None,
        qf_failure = None\<rparr>,
      pp_root_purpose = Root_Is_Unknown, pp_execution_source = Execution_Is_Unknown,
      pp_visibility = None, pp_manual_request = None, pp_reference_harvest_failed = None\<rparr>"

definition duplicate_of :: "concept \<Rightarrow> eligibility" where
  "duplicate_of c = duplicate_result (evaluate_paper blank_projection c)"

lemma duplicate_result_of [simp]: "duplicate_result (evaluate_paper f c) = duplicate_of c"
  unfolding duplicate_of_def duplicate_result_def
  using result_frame [of f c blank_projection]
  by (cases "evaluate_paper f c"; cases "evaluate_paper blank_projection c") simp

lemma duplicate_result_idem [simp]: "duplicate_result (duplicate_of c) = duplicate_of c"
  by (simp add: duplicate_of_def duplicate_result_def)

text \<open>What the batch says of one identity: absent, its only projection, or a duplicate.\<close>

definition batch_entry :: "concept \<Rightarrow> paper_projection list \<Rightarrow> string \<Rightarrow> eligibility option" where
  "batch_entry c ps k =
     (case filter (\<lambda>p. pp_paper_id p = k) ps of
        [] \<Rightarrow> None
      | [p] \<Rightarrow> Some (evaluate_paper p c)
      | _ \<Rightarrow> Some (duplicate_of c))"

lemma map_of_concept_step:
  "map_of (concept_step c p rs) =
     (map_of rs)(pp_paper_id p \<mapsto>
        (case map_of rs (pp_paper_id p) of None \<Rightarrow> evaluate_paper p c
         | Some e \<Rightarrow> duplicate_result e))"
  by (simp add: concept_step_def update_conv' split: option.split)

lemma distinct_concept_step:
  "distinct (map fst rs) \<Longrightarrow> distinct (map fst (concept_step c p rs))"
  by (simp add: concept_step_def distinct_update split: option.split)

lemma distinct_concept_fold:
  "distinct (map fst rs) \<Longrightarrow> distinct (map fst (fold (concept_step c) ps rs))"
  by (induction ps arbitrary: rs) (simp_all add: distinct_concept_step)

lemma batch_entry_snoc:
  "batch_entry c (ps @ [p]) k =
     (if pp_paper_id p = k
      then Some (case batch_entry c ps k of None \<Rightarrow> evaluate_paper p c | Some e \<Rightarrow> duplicate_result e)
      else batch_entry c ps k)"
  by (auto simp: batch_entry_def split: list.splits)

lemma map_of_concept_fold: "map_of (fold (concept_step c) ps []) = batch_entry c ps"
proof (induction ps rule: rev_induct)
  case Nil
  show ?case by (rule ext) (simp add: batch_entry_def)
next
  case (snoc p ps)
  then show ?case
    by (intro ext) (simp add: map_of_concept_step batch_entry_snoc)
qed

lemma distinct_evaluate_concept: "distinct (map fst (evaluate_concept c ps))"
  using distinct_concept_fold [of "[]" c ps]
  by (simp add: evaluate_concept_def distinct_map)

lemma map_of_evaluate_concept: "map_of (evaluate_concept c ps) = batch_entry c ps"
proof -
  let ?d = "fold (concept_step c) ps []"
  have "distinct (map fst ?d)" using distinct_concept_fold [of "[]"] by simp
  then have "map_of (sort_key fst ?d) = map_of ?d"
    using distinct_evaluate_concept [of c ps]
    by (intro map_of_eqI) (auto simp: evaluate_concept_def map_of_eq_Some_iff dom_map_of_conv_image_fst)
  then show ?thesis by (simp add: evaluate_concept_def map_of_concept_fold)
qed

lemma assoc_list_unique:
  fixes xs ys :: "('k::linorder \<times> 'v) list"
  assumes "sorted (map fst xs)" "distinct (map fst xs)"
    and "sorted (map fst ys)" "distinct (map fst ys)" "map_of xs = map_of ys"
  shows "xs = ys"
proof -
  have s: "set xs = set ys"
    using assms(2,4,5) by (metis map_of_eq_Some_iff surj_pair subsetI subset_antisym)
  have "inj_on fst (set xs \<union> set ys)"
    using assms(2) s by (simp add: distinct_map)
  with assms s show ?thesis by (intro map_sorted_distinct_set_unique [of fst])
qed

lemma sorted_evaluate_concept: "sorted (map fst (evaluate_concept c ps))"
  by (simp add: evaluate_concept_def)

lemma evaluate_concept_unique:
  "batch_entry c ps = batch_entry c qs \<Longrightarrow> evaluate_concept c ps = evaluate_concept c qs"
  by (intro assoc_list_unique)
    (simp_all add: sorted_evaluate_concept distinct_evaluate_concept map_of_evaluate_concept)

section \<open>Example projections\<close>

text \<open>A production paper with an accepted direct manual decision, ready to be read.\<close>

definition sample_decision :: decision_fact where
  "sample_decision =
     \<lparr>df_reference = ''d1'', df_paper_id = ''p1'', df_sequence = 0,
      df_record = \<lparr>ri_result = Accepted, ri_source = Direct_Manual_Decision,
        ri_reason = User_Judgment\<rparr>,
      df_applicability = Current, df_screening_reference = None\<rparr>"

definition sample_paper :: paper_projection where
  "sample_paper =
     \<lparr>pp_paper_id = ''p1'', pp_version_id = ''v1'', pp_current_version_id = Some ''v1'',
      pp_canonical_id = Some ''p1'', pp_revision_no = 1,
      pp_metadata = Some \<lparr>mf_paper_id = ''p1'', mf_version_id = ''v1'', mf_revision_no = 1,
        mf_minimum_complete = True, mf_nontruncated_complete = True,
        mf_current_version = True, mf_missing = []\<rparr>,
      pp_decisions = [sample_decision], pp_gate = Gate_Enabled,
      pp_screening = unknown_artifact,
      pp_pdf = artifact_from_success ''pdf1'' Current ''v1'',
      pp_extraction = \<lparr>ef_state = Extraction_Succeeded, ef_reference = Some ''e1'',
        ef_pdf_reference = Some ''pdf1'', ef_applicability = Current\<rparr>,
      pp_quality = \<lparr>qf_basis = Formal_Gate, qf_extraction_reference = Some ''e1'',
        qf_failure = None\<rparr>,
      pp_root_purpose = Root_Production, pp_execution_source = Execution_Production,
      pp_visibility = Some (evaluate_visibility {}), pp_manual_request = None,
      pp_reference_harvest_failed = None\<rparr>"

lemma sample_decision_valid:
  "\<not> decision_contradictory sample_paper sample_decision"
  "identity_of sample_decision = Some Screening_Decision"
proof -
  have legal: "invalid_combination_fields (df_record sample_decision) = []"
    by (simp add: sample_decision_def invalid_combination_fields_def
        general_human_judgment_sources_def)
  then have "build_screening_reason (df_record sample_decision) =
      Some (Screening_Decision, df_record sample_decision)"
    by (simp add: build_Some_iff sample_decision_def identity_model_def
        general_human_judgment_sources_def)
  then show "identity_of sample_decision = Some Screening_Decision"
    by (simp add: identity_of_def)
  from legal show "\<not> decision_contradictory sample_paper sample_decision"
    by (simp add: decision_contradictory_def sample_paper_def sample_decision_def)
qed

lemma sample_humans: "with_identity sample_paper Screening_Decision = [sample_decision]"
  using sample_decision_valid
  by (simp add: with_identity_def) (simp add: sample_paper_def)

lemma sample_effective: "effective_spec sample_paper sample_decision"
  using sample_decision_valid
  by (simp add: effective_spec_def candidates_def sample_humans unique_latest_def reason_empty)
    (simp add: sample_paper_def)

section \<open>Properties\<close>

text \<open>
  C37: a paper's reading prerequisites are met exactly when it is ready in the declarative
  sense: an effective accepted decision, complete metadata of this very version and
  revision, a current PDF of this version, a successful current extraction of that PDF, a
  quality basis of that extraction allowed for the root's purpose, a production execution
  source and no hidden condition; the reported reasons are then empty.
\<close>

theorem read_prerequisites_iff_ready:
  "el_eligible (evaluate_paper f Read_Prerequisites) = Some (read_ready f) \<and>
   (el_reasons (evaluate_paper f Read_Prerequisites) = [] \<longleftrightarrow> read_ready f)"
  by (simp add: read_empty)

text \<open>
  C38: the effective decision is the abstract one: all decisions well formed, and the unique
  latest human decision, or without any human decision the unique latest system decision
  that is current, refers to the paper's current screening artifact, is not hidden and has
  an enabled gate; the concept is eligible exactly when such a decision exists.
\<close>

theorem effective_decision_refines_spec:
  "(el_decision (evaluate_paper f Effective_Screening_Decision) = Some d \<longleftrightarrow> effective_spec f d) \<and>
   el_eligible (evaluate_paper f Effective_Screening_Decision) = Some (\<exists>d. effective_spec f d)"
  by (simp add: effective_decision_iff effective_eligible effective_reasons_empty_iff)

text \<open>
  the automatic queue admits exactly the ready papers whose root is a production root;
  the manual entry admits exactly the ready papers with a well-formed request that names
  this paper and its effective decision.
\<close>

theorem auto_and_manual_read_iff:
  "el_eligible (evaluate_paper f Eligible_For_Auto_Read) =
     Some (read_ready f \<and> pp_root_purpose f = Root_Production) \<and>
   el_eligible (evaluate_paper f Requested_Manual_Read) =
     Some (read_ready f \<and>
       (\<exists>r d. pp_manual_request f = Some r \<and> effective_spec f d \<and> truthy (mr_reference r) \<and>
          mr_paper_id r = pp_paper_id f \<and> truthy (mr_accepted_decision_reference r) \<and>
          mr_accepted_decision_reference r = df_reference d))"
  by (simp add: auto_empty manual_empty)

text \<open>
  the four work queues of the body pipeline exclude each other: whatever the facts, at
  most one of "needs a PDF", "needs an extraction", "extraction failed" and "may be read"
  holds of a paper.
\<close>

theorem body_queues_exclusive:
  "length (filter (\<lambda>c. el_eligible (evaluate_paper f c) = Some True)
     [Needs_Pdf, Needs_Extraction, Extraction_Failed, Read_Prerequisites]) \<le> 1"
proof -
  have pdf: "needs_pdf_reasons f = {} \<Longrightarrow>
      needs_extraction_reasons f \<noteq> {} \<and> extraction_failed_reasons f \<noteq> {} \<and> read_reasons f \<noteq> {}"
    using needs_pdf_excludes_pdf [of f] needs_extraction_pdf [of f] failed_pdf [of f]
    by (auto simp: read_reasons_def)
  have ext: "needs_extraction_reasons f = {} \<Longrightarrow>
      extraction_failed_reasons f \<noteq> {} \<and> read_reasons f \<noteq> {}"
    using needs_extraction_state [of f] failed_state(2) [of f] by (auto simp: read_reasons_def)
  have failed: "extraction_failed_reasons f = {} \<Longrightarrow> read_reasons f \<noteq> {}"
    using failed_state(2) [of f] by (auto simp: read_reasons_def)
  show ?thesis using pdf ext failed by auto
qed

text \<open>
  A human decision takes precedence over the system: as soon as one well-formed human
  decision exists, the effective decision does not depend on the gate, the visibility or the
  screening artifact.
\<close>

theorem human_decision_precedence:
  assumes "with_identity f Screening_Decision \<noteq> []"
  shows "evaluate_paper (f\<lparr>pp_gate := g, pp_visibility := v, pp_screening := s\<rparr>)
           Effective_Screening_Decision =
         evaluate_paper f Effective_Screening_Decision"
proof -
  let ?f = "f\<lparr>pp_gate := g, pp_visibility := v, pp_screening := s\<rparr>"
  have contra: "decision_contradictory ?f = decision_contradictory f"
    by (rule ext) (simp add: decision_contradictory_def)
  then have "with_identity ?f = with_identity f"
    by (intro ext) (simp add: with_identity_def)
  with assms contra show ?thesis
    by (simp only: evaluate_paper.simps)
      (rule effective_decision_cong;
       simp add: canonical_reasons_def version_reasons_def candidates_def split: option.split)
qed

theorem human_decision_precedence_witness:
  "evaluate_paper (sample_paper\<lparr>pp_gate := Gate_Is_Disabled, pp_visibility := None,
       pp_screening := unknown_artifact\<rparr>) Effective_Screening_Decision =
   evaluate_paper sample_paper Effective_Screening_Decision"
  by (rule human_decision_precedence) (simp add: sample_humans)

text \<open>
  hiding is enforced: while any hidden condition of the paper holds, it is neither ready
  to be read nor in the automatic or the manual queue, and no decision but a human one can be
  effective, so no Agent suggestion leaks into the pipeline.
\<close>

theorem hidden_papers_blocked:
  assumes "pp_visibility f = Some v" and "hidden_conditions v \<noteq> {}"
  shows "el_eligible (evaluate_paper f Read_Prerequisites) = Some False \<and>
    el_eligible (evaluate_paper f Eligible_For_Auto_Read) = Some False \<and>
    el_eligible (evaluate_paper f Requested_Manual_Read) = Some False \<and>
    (el_decision (evaluate_paper f Effective_Screening_Decision) = None \<or>
     (\<exists>d. el_decision (evaluate_paper f Effective_Screening_Decision) = Some d \<and>
        identity_of d = Some Screening_Decision))"
proof -
  from assms have no: "\<not> read_ready f" by (simp add: read_ready_def)
  have "identity_of d = Some Screening_Decision" if spec: "effective_spec f d" for d
  proof -
    have "visibility_reasons Agent_Content (pp_visibility f) \<noteq> {}"
      using assms by (simp add: visibility_empty)
    with spec have human: "with_identity f Screening_Decision \<noteq> []"
      by (auto simp: effective_spec_def system_reasons_def)
    from spec have "d \<in> set (filter (\<lambda>x. df_sequence x = df_sequence d) (candidates f))"
      by (simp add: effective_spec_def unique_latest_def)
    with human show ?thesis by (auto simp: candidates_def with_identity_def)
  qed
  with no show ?thesis
    by (cases "el_decision (effective_decision f)")
      (auto simp: reason_empty effective_decision_iff)
qed

theorem hidden_papers_blocked_witness:
  "el_eligible (evaluate_paper
     (sample_paper\<lparr>pp_visibility := Some (evaluate_visibility {Unrevealed})\<rparr>)
     Eligible_For_Auto_Read) = Some False"
  using hidden_papers_blocked
    [of "sample_paper\<lparr>pp_visibility := Some (evaluate_visibility {Unrevealed})\<rparr>"
        "evaluate_visibility {Unrevealed}"]
  by (simp add: evaluate_visibility_def)

text \<open>
  the batch entry point is a per-paper function of the multiset of projections: its keys
  are sorted and distinct, a paper that occurs once gets its own evaluation, one that occurs
  more often only the duplicate rejection, and the order of the input does not matter.
\<close>

theorem evaluate_concept_batch:
  assumes "mset ps = mset qs"
  shows "evaluate_concept c ps = evaluate_concept c qs \<and>
    sorted (map fst (evaluate_concept c ps)) \<and> distinct (map fst (evaluate_concept c ps)) \<and>
    map_of (evaluate_concept c ps) k = batch_entry c ps k"
proof -
  have "batch_entry c ps = batch_entry c qs"
  proof
    fix k
    have m: "mset (filter (\<lambda>p. pp_paper_id p = k) ps) = mset (filter (\<lambda>p. pp_paper_id p = k) qs)"
      using assms by simp
    then have l: "length (filter (\<lambda>p. pp_paper_id p = k) ps) =
        length (filter (\<lambda>p. pp_paper_id p = k) qs)"
      by (rule mset_eq_length)
    show "batch_entry c ps k = batch_entry c qs k"
    proof (cases "length (filter (\<lambda>p. pp_paper_id p = k) ps) \<le> 1")
      case True
      with m l have "filter (\<lambda>p. pp_paper_id p = k) ps = filter (\<lambda>p. pp_paper_id p = k) qs"
        by (cases "filter (\<lambda>p. pp_paper_id p = k) ps"; cases "filter (\<lambda>p. pp_paper_id p = k) qs") auto
      then show ?thesis by (simp add: batch_entry_def)
    next
      case False
      with l show ?thesis
        by (auto simp: batch_entry_def split: list.splits)
    qed
  qed
  then have "evaluate_concept c ps = evaluate_concept c qs" by (rule evaluate_concept_unique)
  then show ?thesis
    by (metis sorted_evaluate_concept distinct_evaluate_concept map_of_evaluate_concept)
qed

theorem evaluate_concept_batch_witness:
  "evaluate_concept Canonical_Paper [sample_paper, blank_projection] =
   evaluate_concept Canonical_Paper [blank_projection, sample_paper]"
  using evaluate_concept_batch [of "[sample_paper, blank_projection]"
      "[blank_projection, sample_paper]" Canonical_Paper]
  by simp

text \<open>
  Every answer is well formed: it is undecided exactly for the deferred concepts, it is
  positive exactly when no reason is reported, and the reasons are distinct and listed in the
  declaration order of the vocabulary.
\<close>

theorem evaluate_paper_well_formed: "well_formed_result (evaluate_paper f c)"
  by (cases c) (simp_all add: well_formed_effective)

end
