(* ===== verification/Instants.thy ===== *)
theory Instants
  imports Prelude
begin

text \<open>
  UTC instants and their text form, as \<open>screening_tasks/attempt_rules.py\<close> uses Python's
  \<open>datetime\<close>: an instant is the number of microseconds since 0001-01-01T00:00:00, bounded by
  the last microsecond of year 9999; \<open>timestamp\<close> is \<open>isoformat(timespec="microseconds")\<close> of a
  UTC value and \<open>read_timestamp\<close> accepts exactly the texts \<open>timestamp\<close> writes.
\<close>

section \<open>The proleptic Gregorian calendar\<close>

type_synonym instant = int

definition leap_year :: "int \<Rightarrow> bool" where
  "leap_year y \<longleftrightarrow> y mod 4 = 0 \<and> (y mod 100 \<noteq> 0 \<or> y mod 400 = 0)"

definition month_lengths :: "int \<Rightarrow> int list" where
  "month_lengths y =
     [31, if leap_year y then 29 else 28, 31, 30, 31, 30, 31, 31, 30, 31, 30, 31]"

definition days_before_year :: "int \<Rightarrow> int" where
  "days_before_year y = (let z = y - 1 in z * 365 + z div 4 - z div 100 + z div 400)"

text \<open>The position of a day offset in a list of month lengths: month and day, from 1.\<close>

fun split_days :: "int list \<Rightarrow> int \<Rightarrow> nat \<times> int" where
  "split_days [] d = (0, d + 1)"
| "split_days (l # ls) d =
     (if d < l then (1, d + 1)
      else let (m, e) = split_days ls (d - l) in (Suc m, e))"

definition day_number :: "int \<Rightarrow> nat \<Rightarrow> int \<Rightarrow> int" where
  "day_number y m d =
     days_before_year y + sum_list (take (m - 1) (month_lengths y)) + d - 1"

definition civil_date :: "int \<Rightarrow> int \<times> nat \<times> int" where
  "civil_date n =
     (let r = n mod 146097; c = min 3 (r div 36524);
          r2 = r - c * 36524; q = r2 div 1461;
          r3 = r2 mod 1461; a = min 3 (r3 div 365);
          y = 400 * (n div 146097) + 100 * c + 4 * q + a + 1;
          (m, d) = split_days (month_lengths y) (r3 - a * 365)
      in (y, m, d))"

lemma split_days_correct:
  assumes "0 \<le> d" "d < sum_list ls" "split_days ls d = (m, e)"
  shows "1 \<le> m \<and> m \<le> length ls \<and> 1 \<le> e \<and> e \<le> ls ! (m - 1) \<and>
         sum_list (take (m - 1) ls) + e - 1 = d"
  using assms
proof (induction ls d arbitrary: m e rule: split_days.induct)
  case (1 d)
  then show ?case by simp
next
  case (2 l ls d)
  show ?case
  proof (cases "d < l")
    case True
    with 2 show ?thesis by auto
  next
    case False
    obtain m' e' where s: "split_days ls (d - l) = (m', e')" by fastforce
    with False 2 have me: "m = Suc m'" "e = e'" by simp_all
    have *: "1 \<le> m' \<and> m' \<le> length ls \<and> 1 \<le> e' \<and> e' \<le> ls ! (m' - 1) \<and>
        sum_list (take (m' - 1) ls) + e' - 1 = d - l"
      using 2 False s by auto
    then obtain k where "m' = Suc k" by (cases m') auto
    with me * show ?thesis by auto
  qed
qed

lemma sum_month_lengths: "sum_list (month_lengths y) = (if leap_year y then 366 else 365)"
  by (simp add: month_lengths_def)

lemma length_month_lengths [simp]: "length (month_lengths y) = 12"
  by (simp add: month_lengths_def)

lemma div_mod_unique_int:
  fixes a :: int assumes "a = b * q + r" "0 \<le> r" "r < b" shows "a div b = q" "a mod b = r"
  using assms by (auto simp: div_mult_self1 mod_mult_self1)

text \<open>The year of a day: its cycle digits are in range and its offset lies inside the year.\<close>

lemma year_digits:
  fixes n :: int
  defines "r \<equiv> n mod 146097"
  defines "c \<equiv> min 3 (r div 36524)"
  defines "r2 \<equiv> r - c * 36524"
  defines "q \<equiv> r2 div 1461"
  defines "r3 \<equiv> r2 mod 1461"
  defines "a \<equiv> min 3 (r3 div 365)"
  defines "y \<equiv> 400 * (n div 146097) + 100 * c + 4 * q + a + 1"
  shows "0 \<le> r3 - a * 365"
    and "r3 - a * 365 < (if leap_year y then 366 else 365)"
    and "days_before_year y + (r3 - a * 365) = n"
proof -
  have r: "0 \<le> r" "r < 146097" by (auto simp: r_def)
  have c: "0 \<le> c" "c \<le> 3" "c * 36524 \<le> r" "c < 3 \<Longrightarrow> r < c * 36524 + 36524" "r < c * 36524 + 36525"
    using r by (auto simp: c_def min_def)
  have r2: "0 \<le> r2" "r2 < 36525" "c < 3 \<Longrightarrow> r2 < 36524" using c by (auto simp: r2_def)
  have q: "0 \<le> q" "q \<le> 24" "r2 = 1461 * q + r3" "0 \<le> r3" "r3 < 1461"
    using r2 by (auto simp: q_def r3_def)
  have a: "0 \<le> a" "a \<le> 3" "a * 365 \<le> r3" "a < 3 \<Longrightarrow> r3 < a * 365 + 365"
    using q by (auto simp: a_def min_def)
  show "0 \<le> r3 - a * 365" using a by simp
  define k where "k = n div 146097"
  have n: "n = 146097 * k + r" by (simp add: k_def r_def)
  have y: "y - 1 = 400 * k + 100 * c + 4 * q + a" by (simp add: y_def k_def)
  have d4: "(y - 1) div 4 = 100 * k + 25 * c + q"
    by (rule div_mod_unique_int [where r = a]) (use y a in auto)
  have d100: "(y - 1) div 100 = 4 * k + c"
    by (rule div_mod_unique_int [where r = "4 * q + a"]) (use y a q in auto)
  have d400: "(y - 1) div 400 = k"
    by (rule div_mod_unique_int [where r = "100 * c + 4 * q + a"]) (use y a q c in auto)
  show "days_before_year y + (r3 - a * 365) = n"
    unfolding days_before_year_def Let_def d4 d100 d400 using y n q r2_def by simp
  show "r3 - a * 365 < (if leap_year y then 366 else 365)"
  proof (cases "a = 3 \<and> r3 = 1460")
    case True
    have ne: "q \<noteq> 24 \<or> c = 3"
    proof (rule ccontr)
      assume "\<not> (q \<noteq> 24 \<or> c = 3)"
      then have "q = 24" "c < 3" using c(2) by auto
      with True q(3) r2(3) show False by linarith
    qed
    have yy: "y = 4 * (100 * k + 25 * c + q + 1)" using y True by simp
    have m4: "y mod 4 = 0" using yy by simp
    have "y mod 100 \<noteq> 0 \<or> y mod 400 = 0"
    proof (cases "q = 24")
      case True
      with ne yy have "y = 400 * (k + 1)" by simp
      then show ?thesis by simp
    next
      case False
      then have "y mod 100 = 4 * (q + 1)"
        using yy q by (intro div_mod_unique_int(2) [where q = "4 * k + c"]) auto
      then show ?thesis using q by simp
    qed
    with m4 True show ?thesis by (simp add: leap_year_def)
  next
    case False
    then show ?thesis using a q by (cases "a < 3") auto
  qed
qed

lemma civil_date_correct:
  assumes "civil_date n = (y, m, d)"
  shows "day_number y m d = n" "1 \<le> m" "m \<le> 12" "1 \<le> d" "d \<le> month_lengths y ! (m - 1)"
    and "\<exists>off \<ge> 0. off < (if leap_year y then 366 else 365) \<and> days_before_year y + off = n"
proof -
  define r3 where "r3 = (n mod 146097 - min 3 (n mod 146097 div 36524) * 36524) mod 1461"
  define off where "off = r3 - min 3 (r3 div 365) * 365"
  have md: "split_days (month_lengths y) off = (m, d)"
    and yy: "y = 400 * (n div 146097) + 100 * min 3 (n mod 146097 div 36524) +
        4 * ((n mod 146097 - min 3 (n mod 146097 div 36524) * 36524) div 1461) +
        min 3 (r3 div 365) + 1"
    using assms by (auto simp: civil_date_def Let_def r3_def off_def split: prod.splits)
  note yd = year_digits [of n, folded r3_def, folded off_def, folded yy]
  have off: "0 \<le> off" "off < sum_list (month_lengths y)" "days_before_year y + off = n"
    using yd by (simp_all add: sum_month_lengths)
  from split_days_correct [OF off(1,2) md]
  show "day_number y m d = n" "1 \<le> m" "m \<le> 12" "1 \<le> d" "d \<le> month_lengths y ! (m - 1)"
    using off(3) by (auto simp: day_number_def)
  show "\<exists>off \<ge> 0. off < (if leap_year y then 366 else 365) \<and> days_before_year y + off = n"
    using off by (auto simp: sum_month_lengths)
qed

section \<open>Fixed-width decimal fields\<close>

definition digit :: "nat \<Rightarrow> char" where
  "digit d = char_of (48 + d)"

definition digit_value :: "char \<Rightarrow> nat option" where
  "digit_value ch =
     (if 48 \<le> (of_char ch :: nat) \<and> (of_char ch :: nat) \<le> 57
      then Some (of_char ch - 48) else None)"

fun padded :: "nat \<Rightarrow> nat \<Rightarrow> string" where
  "padded 0 n = []"
| "padded (Suc w) n = padded w (n div 10) @ [digit (n mod 10)]"

fun read_digits :: "nat \<Rightarrow> string \<Rightarrow> nat option" where
  "read_digits acc [] = Some acc"
| "read_digits acc (c # cs) =
     (case digit_value c of None \<Rightarrow> None | Some d \<Rightarrow> read_digits (10 * acc + d) cs)"

lemma digit_value_digit [simp]: "d < 10 \<Longrightarrow> digit_value (digit d) = Some d"
  by (simp add: digit_value_def digit_def)

lemma length_padded [simp]: "length (padded w n) = w"
  by (induction w n rule: padded.induct) simp_all

lemma read_digits_append:
  "read_digits acc (xs @ ys) =
     (case read_digits acc xs of None \<Rightarrow> None | Some v \<Rightarrow> read_digits v ys)"
  by (induction acc xs rule: read_digits.induct) (auto split: option.splits)

lemma read_digits_padded: "n < 10 ^ w \<Longrightarrow> read_digits 0 (padded w n) = Some n"
proof (induction w arbitrary: n)
  case (Suc w)
  then have "n div 10 < 10 ^ w" by (simp add: less_mult_imp_div_less)
  with Suc.IH show ?case by (simp add: read_digits_append)
qed simp

section \<open>The text form\<close>

definition us_per_day :: int where "us_per_day = 86400000000"

definition max_instant :: instant where "max_instant = 315537897599999999"

definition valid_instant :: "instant \<Rightarrow> bool" where
  "valid_instant t \<longleftrightarrow> 0 \<le> t \<and> t \<le> max_instant"

definition timestamp :: "instant \<Rightarrow> string" where
  "timestamp t =
     (let (y, m, d) = civil_date (t div us_per_day); s = t mod us_per_day in
      padded 4 (nat y) @ ''-'' @ padded 2 m @ ''-'' @ padded 2 (nat d) @ ''T'' @
      padded 2 (nat (s div 3600000000)) @ '':'' @ padded 2 (nat (s div 60000000 mod 60)) @ '':'' @
      padded 2 (nat (s div 1000000 mod 60)) @ ''.'' @ padded 6 (nat (s mod 1000000)) @ ''+00:00'')"

text \<open>The fields of a text of that shape, and the instant they denote.\<close>

definition field :: "nat \<Rightarrow> nat \<Rightarrow> string \<Rightarrow> nat option" where
  "field i w v = read_digits 0 (take w (drop i v))"

definition instant_of_fields ::
    "nat \<Rightarrow> nat \<Rightarrow> nat \<Rightarrow> nat \<Rightarrow> nat \<Rightarrow> nat \<Rightarrow> nat \<Rightarrow> instant option" where
  "instant_of_fields y m d hh mi ss us =
     (if 1 \<le> y \<and> 1 \<le> m \<and> m \<le> 12 \<and> 1 \<le> d \<and> int d \<le> month_lengths (int y) ! (m - 1) \<and>
         hh < 24 \<and> mi < 60 \<and> ss < 60
      then Some (day_number (int y) m (int d) * us_per_day +
             int hh * 3600000000 + int mi * 60000000 + int ss * 1000000 + int us)
      else None)"

definition parse_instant :: "string \<Rightarrow> instant option" where
  "parse_instant v =
     (case (field 0 4 v, field 5 2 v, field 8 2 v, field 11 2 v, field 14 2 v, field 17 2 v,
            field 20 6 v) of
        (Some y, Some m, Some d, Some hh, Some mi, Some ss, Some us) \<Rightarrow>
          instant_of_fields y m d hh mi ss us
      | _ \<Rightarrow> None)"

text \<open>
  \<open>read_timestamp\<close>: what \<open>fromisoformat\<close> reads must be a UTC value that \<open>timestamp\<close> writes
  back unchanged; any other text is a \<open>ValueError\<close>. The final comparison makes the shape
  tests of the parser (separators, offset) redundant.
\<close>

definition read_timestamp :: "string \<Rightarrow> instant option" where
  "read_timestamp v =
     (case parse_instant v of
        Some t \<Rightarrow> if timestamp t = v then Some t else None
      | None \<Rightarrow> None)"

lemma read_timestamp_canonical: "read_timestamp v = Some t \<Longrightarrow> timestamp t = v"
  by (auto simp: read_timestamp_def split: option.splits if_splits)

lemma year_start_upper:
  fixes z a b c :: int
  assumes "z \<le> -2" "4 * a \<le> z" "z < 100 * b + 100" "400 * c \<le> z"
  shows "z * 365 + a - b + c \<le> -366"
  using assms by linarith

lemma year_start_lower:
  fixes z a b c :: int
  assumes "9999 \<le> z" "2499 \<le> a" "24 \<le> c" "100 * b \<le> z"
  shows "3652059 \<le> z * 365 + a - b + c"
  using assms by linarith

lemma clock_parts:
  fixes s u v w p q r :: int
  assumes "s = u * 1000000 + r" "u = v * 60 + p" "v = w * 60 + q"
  shows "w * 3600000000 + q * 60000000 + p * 1000000 + r = s"
  using assms by simp

lemma day_bounds:
  assumes "valid_instant t" "civil_date (t div us_per_day) = (y, m, d)"
  shows "1 \<le> y" "y \<le> 9999"
proof -
  let ?n = "t div us_per_day"
  have n: "0 \<le> ?n" "?n < 3652059"
    using assms(1) by (auto simp: valid_instant_def max_instant_def us_per_day_def)
  obtain off where off: "days_before_year y + off = ?n" "0 \<le> off"
      "off < (if leap_year y then 366 else 365)"
    using civil_date_correct(6) [OF assms(2)] by blast
  show "1 \<le> y"
  proof (rule ccontr)
    assume "\<not> 1 \<le> y"
    then have z: "y - 1 \<le> -1" by simp
    have "days_before_year y \<le> (if leap_year y then -366 else -365)"
    proof (cases "y = 0")
      case True
      then show ?thesis by (simp add: days_before_year_def leap_year_def)
    next
      case False
      with z have "y - 1 \<le> -2" by simp
      moreover have "4 * ((y - 1) div 4) \<le> y - 1" "y - 1 < 100 * ((y - 1) div 100) + 100"
          "400 * ((y - 1) div 400) \<le> y - 1"
        using mult_div_mod_eq [of 100 "y - 1"] pos_mod_bound [of 100 "y - 1"]
        by (simp_all add: minus_mod_eq_mult_div [symmetric])
      ultimately show ?thesis
        using year_start_upper by (simp add: days_before_year_def Let_def)
    qed
    with off n show False by (auto split: if_splits)
  qed
  show "y \<le> 9999"
  proof (rule ccontr)
    assume "\<not> y \<le> 9999"
    then have "9999 \<le> y - 1" by simp
    moreover from this have "2499 \<le> (y - 1) div 4" "24 \<le> (y - 1) div 400"
      by (simp_all add: zdiv_mono1 [of 9999 "y - 1" 4, simplified] zdiv_mono1 [of 9999 "y - 1" 400, simplified])
    moreover have "100 * ((y - 1) div 100) \<le> y - 1"
      by (simp add: minus_mod_eq_mult_div [symmetric])
    ultimately have "3652059 \<le> days_before_year y"
      unfolding days_before_year_def Let_def by (rule year_start_lower)
    with off n show False by simp
  qed
qed

lemma append_field:
  "length pre = i \<Longrightarrow> length f = w \<Longrightarrow> field i w (pre @ f @ post) = read_digits 0 f"
  by (simp add: field_def)

theorem read_timestamp_timestamp:
  assumes "valid_instant t"
  shows "read_timestamp (timestamp t) = Some t"
proof -
  obtain y m d where c: "civil_date (t div us_per_day) = (y, m, d)" by (metis prod_cases3)
  note cd = civil_date_correct [OF c] and b = day_bounds [OF assms c]
  define s where "s = t mod us_per_day"
  have s: "0 \<le> s" "s < 86400000000" by (auto simp: s_def us_per_day_def)
  have dd: "d \<le> 31"
  proof -
    have "month_lengths y ! (m - 1) \<in> set (month_lengths y)" using cd by (intro nth_mem) simp
    then have "month_lengths y ! (m - 1) \<le> 31" by (auto simp: month_lengths_def split: if_splits)
    with cd show ?thesis by simp
  qed
  let ?h = "nat (s div 3600000000)" and ?mi = "nat (s div 60000000 mod 60)"
    and ?ss = "nat (s div 1000000 mod 60)" and ?us = "nat (s mod 1000000)"
  have lt: "nat y < 10 ^ 4" "m < 10 ^ 2" "nat d < 10 ^ 2" "?h < 10 ^ 2" "?mi < 10 ^ 2"
      "?ss < 10 ^ 2" "?us < 10 ^ 6"
    using b cd dd s by auto
  note rd = lt [THEN read_digits_padded]
  have ts: "timestamp t = padded 4 (nat y) @ ''-'' @ padded 2 m @ ''-'' @ padded 2 (nat d) @ ''T'' @
      padded 2 ?h @ '':'' @ padded 2 ?mi @ '':'' @ padded 2 ?ss @ ''.'' @ padded 6 ?us @ ''+00:00''"
    by (simp only: timestamp_def c Let_def prod.case s_def)
  have fields: "field 0 4 (timestamp t) = Some (nat y)" "field 5 2 (timestamp t) = Some m"
      "field 8 2 (timestamp t) = Some (nat d)" "field 11 2 (timestamp t) = Some ?h"
      "field 14 2 (timestamp t) = Some ?mi" "field 17 2 (timestamp t) = Some ?ss"
      "field 20 6 (timestamp t) = Some ?us"
    unfolding ts field_def using rd by simp_all
  have parts: "s div 3600000000 * 3600000000 + s div 60000000 mod 60 * 60000000 +
      s div 1000000 mod 60 * 1000000 + s mod 1000000 = s"
  proof -
    have e: "s div 60000000 = s div 1000000 div 60" "s div 3600000000 = s div 1000000 div 60 div 60"
      by (simp_all add: zdiv_zmult2_eq [symmetric])
    show ?thesis unfolding e by (rule clock_parts) simp_all
  qed
  have "instant_of_fields (nat y) m (nat d) ?h ?mi ?ss ?us = Some t"
  proof -
    have h: "?h < 24" "?mi < 60" "?ss < 60" using s by auto
    have i: "int ?h = s div 3600000000" "int ?mi = s div 60000000 mod 60"
        "int ?ss = s div 1000000 mod 60" "int ?us = s mod 1000000" "int (nat y) = y" "int (nat d) = d"
      using s cd b by simp_all
    have t: "day_number y m d * us_per_day + (s div 3600000000 * 3600000000 +
        s div 60000000 mod 60 * 60000000 + s div 1000000 mod 60 * 1000000 + s mod 1000000) = t"
      unfolding parts by (simp only: s_def cd(1) div_mult_mod_eq)
    have y1: "1 \<le> nat y" "1 \<le> nat d" using b(1) cd(4) by simp_all
    have ok: "1 \<le> nat y \<and> 1 \<le> m \<and> m \<le> 12 \<and> 1 \<le> nat d \<and>
        d \<le> month_lengths y ! (m - 1) \<and> ?h < 24 \<and> ?mi < 60 \<and> ?ss < 60"
      by (intro conjI y1 cd(2-5) h)
    show ?thesis
      unfolding instant_of_fields_def i using t by (simp only: ok if_True add.assoc simp_thms)
  qed
  with fields show ?thesis by (simp add: read_timestamp_def parse_instant_def)
qed

end
