(* ===== verification/Json_Text.thy ===== *)
theory Json_Text
  imports Prelude "HOL-Library.AList" "HOL-Library.Multiset"
begin

text \<open>
  JSON values, the compact printer \<open>json.dumps(value, ensure_ascii=False, sort_keys=True,
  separators=(",", ":"))\<close> that \<open>canonical\<close> of \<open>screening_tasks/rules.py\<close> uses, and the reader
  \<open>json.loads\<close> with the two hooks the program installs (unique object keys, finite numbers).
  Texts are lists of code points. A float is carried by the text \<open>float.__repr__\<close> writes of
  it; the conversion of a literal to that text is the parameter \<open>fl\<close> (binary rounding is not
  modelled). A \<open>ValueError\<close> is \<^term>\<open>None\<close>.
\<close>

datatype json =
    JNull | JBool bool | JInt int | JFloat pystr | JStr pystr
  | JArr "json list" | JObj "(pystr \<times> json) list"

text \<open>A float that is not finite, by the text of its literal: \<open>inf\<close> if the literal overflows.\<close>

definition infinite_text :: "pystr \<Rightarrow> bool" where
  "infinite_text r \<longleftrightarrow> r = ascii ''inf'' \<or> r = ascii ''-inf''"

section \<open>Decimal integers\<close>

fun dec :: "nat \<Rightarrow> pystr" where
  "dec n = (if n < 10 then [48 + n] else dec (n div 10) @ [48 + n mod 10])"

declare dec.simps [simp del]

definition dec_int :: "int \<Rightarrow> pystr" where
  "dec_int i = (if i < 0 then 45 # dec (nat (- i)) else dec (nat i))"

definition is_digit :: "nat \<Rightarrow> bool" where
  "is_digit c \<longleftrightarrow> 48 \<le> c \<and> c \<le> 57"

definition dec_value :: "pystr \<Rightarrow> nat" where
  "dec_value ds = foldl (\<lambda>acc d. 10 * acc + (d - 48)) 0 ds"

text \<open>\<open>sys.get_int_max_str_digits()\<close>: longer decimal texts raise, in both directions.\<close>

definition int_max_str_digits :: nat where "int_max_str_digits = 4300"

section \<open>The printer\<close>

definition hex_digit :: "nat \<Rightarrow> nat" where
  "hex_digit d = (if d < 10 then 48 + d else 87 + d)"

definition escape_char :: "nat \<Rightarrow> pystr" where
  "escape_char c =
     (if c = 34 then [92, 34] else if c = 92 then [92, 92]
      else if c = 8 then [92, 98] else if c = 12 then [92, 102]
      else if c = 10 then [92, 110] else if c = 13 then [92, 114] else if c = 9 then [92, 116]
      else if c < 32 then [92, 117, 48, 48, hex_digit (c div 16), hex_digit (c mod 16)]
      else [c])"

definition print_string :: "pystr \<Rightarrow> pystr" where
  "print_string s = 34 # concat (map escape_char s) @ [34]"

definition commas :: "pystr list \<Rightarrow> pystr" where
  "commas xs = (case xs of [] \<Rightarrow> [] | y # ys \<Rightarrow> y @ concat (map (\<lambda>z. 44 # z) ys))"

fun dumps :: "json \<Rightarrow> pystr" where
  "dumps JNull = ascii ''null''"
| "dumps (JBool b) = ascii (if b then ''true'' else ''false'')"
| "dumps (JInt i) = dec_int i"
| "dumps (JFloat r) = r"
| "dumps (JStr s) = print_string s"
| "dumps (JArr xs) = 91 # commas (map dumps xs) @ [93]"
| "dumps (JObj kvs) =
     123 # commas (map snd (sort_key fst
        (map (\<lambda>(k, v). (k, print_string k @ 58 # dumps v)) kvs))) @ [125]"

text \<open>Sorting the members of every object: what \<open>sort_keys\<close> prints.\<close>

fun sorted_members :: "json \<Rightarrow> json" where
  "sorted_members (JArr xs) = JArr (map sorted_members xs)"
| "sorted_members (JObj kvs) =
     JObj (sort_key fst (map (\<lambda>(k, v). (k, sorted_members v)) kvs))"
| "sorted_members j = j"

section \<open>The reader\<close>

definition is_space :: "nat \<Rightarrow> bool" where
  "is_space c \<longleftrightarrow> c = 32 \<or> c = 9 \<or> c = 10 \<or> c = 13"

definition skip_ws :: "pystr \<Rightarrow> pystr" where
  "skip_ws s = dropWhile is_space s"

definition hex_value :: "nat \<Rightarrow> nat option" where
  "hex_value c =
     (if is_digit c then Some (c - 48)
      else if 97 \<le> c \<and> c \<le> 102 then Some (c - 87)
      else if 65 \<le> c \<and> c \<le> 70 then Some (c - 55) else None)"

definition hex4 :: "nat \<Rightarrow> nat \<Rightarrow> nat \<Rightarrow> nat \<Rightarrow> nat option" where
  "hex4 a b c d =
     (case (hex_value a, hex_value b, hex_value c, hex_value d) of
        (Some w, Some x, Some y, Some z) \<Rightarrow> Some (4096 * w + 256 * x + 16 * y + z)
      | _ \<Rightarrow> None)"

definition unescape :: "nat \<Rightarrow> nat option" where
  "unescape e =
     (if e = 34 \<or> e = 92 \<or> e = 47 then Some e else if e = 98 then Some 8
      else if e = 102 then Some 12 else if e = 110 then Some 10
      else if e = 114 then Some 13 else if e = 116 then Some 9 else None)"

definition cons_fst :: "'a \<Rightarrow> ('a list \<times> 'b) option \<Rightarrow> ('a list \<times> 'b) option" where
  "cons_fst x r = map_option (\<lambda>(xs, rest). (x # xs, rest)) r"

definition high_surrogate :: "nat \<Rightarrow> bool" where
  "high_surrogate u \<longleftrightarrow> 0xD800 \<le> u \<and> u \<le> 0xDBFF"

definition low_surrogate :: "nat \<Rightarrow> bool" where
  "low_surrogate u \<longleftrightarrow> 0xDC00 \<le> u \<and> u \<le> 0xDFFF"

definition join_surrogates :: "nat \<Rightarrow> nat \<Rightarrow> nat" where
  "join_surrogates u v = 0x10000 + (u - 0xD800) * 1024 + (v - 0xDC00)"

text \<open>The text after the opening quote: the string and what follows its closing quote.\<close>

function (sequential) scan_string :: "pystr \<Rightarrow> (pystr \<times> pystr) option" where
  "scan_string [] = None"
| "scan_string (c # s) =
     (if c = 34 then Some ([], s)
      else if c \<noteq> 92 then (if c < 32 then None else cons_fst c (scan_string s))
      else case s of
          [] \<Rightarrow> None
        | e # s' \<Rightarrow>
            if e \<noteq> 117 then
              (case unescape e of None \<Rightarrow> None | Some ch \<Rightarrow> cons_fst ch (scan_string s'))
            else
              (case s' of
                 h1 # h2 # h3 # h4 # s'' \<Rightarrow>
                   (case hex4 h1 h2 h3 h4 of
                      None \<Rightarrow> None
                    | Some u \<Rightarrow>
                        if high_surrogate u \<and> take 2 s'' = [92, 117] then
                          (case drop 2 s'' of
                             l1 # l2 # l3 # l4 # s3 \<Rightarrow>
                               (case hex4 l1 l2 l3 l4 of
                                  None \<Rightarrow> None
                                | Some v \<Rightarrow>
                                    if low_surrogate v
                                    then cons_fst (join_surrogates u v) (scan_string s3)
                                    else cons_fst u (scan_string s''))
                           | _ \<Rightarrow> None)
                        else cons_fst u (scan_string s''))
               | _ \<Rightarrow> None))"
  by pat_completeness auto
termination
  by (relation "measure length") (auto dest!: arg_cong [of "drop 2 _" _ length])

definition expect :: "nat \<Rightarrow> pystr \<Rightarrow> pystr option" where
  "expect c s = (case s of [] \<Rightarrow> None | d # r \<Rightarrow> if d = c then Some r else None)"

definition fraction_part :: "pystr \<Rightarrow> pystr \<times> pystr" where
  "fraction_part s =
     (case expect 46 s of
        Some t \<Rightarrow> if takeWhile is_digit t = [] then ([], s)
                  else (46 # takeWhile is_digit t, dropWhile is_digit t)
      | None \<Rightarrow> ([], s))"

definition exponent_part :: "pystr \<Rightarrow> pystr \<times> pystr" where
  "exponent_part s =
     (case s of
        e # t \<Rightarrow>
          (let (sg, u) = (case t of c # t' \<Rightarrow> if c = 43 \<or> c = 45 then ([c], t') else ([], t)
                                 | [] \<Rightarrow> ([], t))
           in if (e = 101 \<or> e = 69) \<and> takeWhile is_digit u \<noteq> []
              then (e # sg @ takeWhile is_digit u, dropWhile is_digit u) else ([], s))
      | [] \<Rightarrow> ([], s))"

definition unsigned_number :: "(pystr \<Rightarrow> pystr) \<Rightarrow> bool \<Rightarrow> pystr \<Rightarrow> (json \<times> pystr) option" where
  "unsigned_number fl neg s =
     (case s of
        [] \<Rightarrow> None
      | d # t \<Rightarrow>
          if \<not> is_digit d then None
          else
            (let ds = (if d = 48 then [48] else d # takeWhile is_digit t);
                 r = (if d = 48 then t else dropWhile is_digit t);
                 (fr, r2) = fraction_part r; (ex, r3) = exponent_part r2
             in if fr = [] \<and> ex = [] then
                  (if length ds > int_max_str_digits then None
                   else Some (JInt (if neg then - int (dec_value ds) else int (dec_value ds)), r3))
                else Some (JFloat (fl ((if neg then [45] else []) @ ds @ fr @ ex)), r3)))"

text \<open>\<open>NaN\<close>, \<open>Infinity\<close> and \<open>-Infinity\<close> go to \<open>parse_constant\<close>, which the program sets to a
  function that raises (\<open>finite\<close>) or leaves at its default.\<close>

definition constants :: "(pystr \<times> pystr) list" where
  "constants =
     [(ascii ''NaN'', ascii ''nan''), (ascii ''Infinity'', ascii ''inf''),
      (ascii ''-Infinity'', ascii ''-inf'')]"

definition scan_word :: "pystr \<Rightarrow> pystr \<Rightarrow> pystr option" where
  "scan_word w s = (if take (length w) s = w then Some (drop (length w) s) else None)"

definition scan_number :: "(pystr \<Rightarrow> pystr) \<Rightarrow> bool \<Rightarrow> pystr \<Rightarrow> (json \<times> pystr) option" where
  "scan_number fl fin s =
     (case find (\<lambda>(w, r). scan_word w s \<noteq> None) constants of
        Some (w, r) \<Rightarrow> if fin then None else Some (JFloat r, drop (length w) s)
      | None \<Rightarrow>
          (case expect 45 s of
             Some t \<Rightarrow> unsigned_number fl True t
           | None \<Rightarrow> unsigned_number fl False s))"

definition dict_of :: "(pystr \<times> json) list \<Rightarrow> (pystr \<times> json) list" where
  "dict_of kvs = fold (\<lambda>(k, v) d. AList.update k v d) kvs []"

text \<open>The object hook: \<open>_unique_json_object\<close> raises on a repeated key; without it the last
  value of a key wins at the position of the first.\<close>

definition make_object :: "bool \<Rightarrow> (pystr \<times> json) list \<Rightarrow> json option" where
  "make_object unique kvs =
     (if unique then (if distinct (map fst kvs) then Some (JObj kvs) else None)
      else Some (JObj (dict_of kvs)))"

record hooks =
  hk_float :: "pystr \<Rightarrow> pystr"
  hk_unique :: bool
  hk_finite :: bool

text \<open>
  The scanner, by fuel: a level of nesting costs two units and consumes a character, so a text
  of length \<open>n\<close> never needs more than \<open>2 n + 1\<close>, the fuel of \<open>loads\<close>; the lemma
  \<open>scan_fuel_enough\<close> shows that more fuel never changes an answer. The interpreter's own
  recursion limit is not modelled.
\<close>

fun scan_value :: "hooks \<Rightarrow> nat \<Rightarrow> pystr \<Rightarrow> (json \<times> pystr) option"
  and scan_elements :: "hooks \<Rightarrow> nat \<Rightarrow> pystr \<Rightarrow> (json list \<times> pystr) option"
  and scan_members :: "hooks \<Rightarrow> nat \<Rightarrow> pystr \<Rightarrow> ((pystr \<times> json) list \<times> pystr) option"
where
  "scan_value h 0 s = None"
| "scan_value h (Suc n) s =
     (case s of
        [] \<Rightarrow> None
      | c # t \<Rightarrow>
          if c = 34 then map_option (\<lambda>(x, r). (JStr x, r)) (scan_string t)
          else if c = 123 then
            (case expect 125 (skip_ws t) of
               Some r \<Rightarrow> map_option (\<lambda>obj. (obj, r)) (make_object (hk_unique h) [])
             | None \<Rightarrow>
                 (case scan_members h n (skip_ws t) of
                    None \<Rightarrow> None
                  | Some (kvs, r) \<Rightarrow> map_option (\<lambda>obj. (obj, r)) (make_object (hk_unique h) kvs)))
          else if c = 91 then
            (case expect 93 (skip_ws t) of
               Some r \<Rightarrow> Some (JArr [], r)
             | None \<Rightarrow> map_option (\<lambda>(xs, r). (JArr xs, r)) (scan_elements h n (skip_ws t)))
          else
            (case (scan_word (ascii ''null'') s, scan_word (ascii ''true'') s,
                   scan_word (ascii ''false'') s) of
               (Some r, _, _) \<Rightarrow> Some (JNull, r)
             | (None, Some r, _) \<Rightarrow> Some (JBool True, r)
             | (None, None, Some r) \<Rightarrow> Some (JBool False, r)
             | (None, None, None) \<Rightarrow> scan_number (hk_float h) (hk_finite h) s))"
| "scan_elements h 0 s = None"
| "scan_elements h (Suc n) s =
     (case scan_value h n s of
        None \<Rightarrow> None
      | Some (v, r) \<Rightarrow>
          (case expect 93 (skip_ws r) of
             Some r' \<Rightarrow> Some ([v], r')
           | None \<Rightarrow>
               (case expect 44 (skip_ws r) of
                  None \<Rightarrow> None
                | Some r' \<Rightarrow> cons_fst v (scan_elements h n (skip_ws r')))))"
| "scan_members h 0 s = None"
| "scan_members h (Suc n) s =
     (case Option.bind (expect 34 s) scan_string of
        None \<Rightarrow> None
      | Some (k, r) \<Rightarrow>
          (case expect 58 (skip_ws r) of
             None \<Rightarrow> None
           | Some r1 \<Rightarrow>
               (case scan_value h n (skip_ws r1) of
                  None \<Rightarrow> None
                | Some (v, r2) \<Rightarrow>
                    (case expect 125 (skip_ws r2) of
                       Some r3 \<Rightarrow> Some ([(k, v)], r3)
                     | None \<Rightarrow>
                         (case expect 44 (skip_ws r2) of
                            None \<Rightarrow> None
                          | Some r3 \<Rightarrow> cons_fst (k, v) (scan_members h n (skip_ws r3)))))))"

definition loads :: "hooks \<Rightarrow> pystr \<Rightarrow> json option" where
  "loads h s =
     (if take 1 s = [0xFEFF] then None
      else case scan_value h (Suc (2 * length s)) (skip_ws s) of
             Some (v, r) \<Rightarrow> if skip_ws r = [] then Some v else None
           | None \<Rightarrow> None)"

section \<open>canonical\<close>

text \<open>Code points that UTF-8 can encode: no surrogates.\<close>

definition encodable :: "pystr \<Rightarrow> bool" where
  "encodable s \<longleftrightarrow> (\<forall>c \<in> set s. \<not> high_surrogate c \<and> \<not> low_surrogate c)"

fun printable_json :: "json \<Rightarrow> bool" where
  "printable_json (JInt i) = (length (dec (nat \<bar>i\<bar>)) \<le> int_max_str_digits)"
| "printable_json (JArr xs) = (\<forall>x \<in> set xs. printable_json x)"
| "printable_json (JObj kvs) = (\<forall>(k, v) \<in> set kvs. printable_json v)"
| "printable_json j = True"

text \<open>
  \<open>canonical\<close>: the compact sorted text, as the code points whose UTF-8 the code returns;
  \<^term>\<open>None\<close> is the \<open>ValueError\<close> of an integer too long to print or of a lone surrogate.
\<close>

definition canonical :: "json \<Rightarrow> pystr option" where
  "canonical j = (if printable_json j \<and> encodable (dumps j) then Some (dumps j) else None)"


section \<open>Strings read back\<close>

lemma hex_value_hex_digit [simp]: "d < 16 \<Longrightarrow> hex_value (hex_digit d) = Some d"
  by (auto simp: hex_value_def hex_digit_def is_digit_def)

lemma scan_string_plain: "c \<noteq> 34 \<Longrightarrow> c \<noteq> 92 \<Longrightarrow> \<not> c < 32 \<Longrightarrow>
    scan_string (c # s) = cons_fst c (scan_string s)"
  by simp

lemma scan_string_short: "e \<noteq> 117 \<Longrightarrow> unescape e = Some ch \<Longrightarrow>
    scan_string (92 # e # s) = cons_fst ch (scan_string s)"
  by simp

lemma scan_string_unicode:
  assumes "hex4 a b c d = Some u" "\<not> high_surrogate u"
  shows "scan_string (92 # 117 # a # b # c # d # s) = cons_fst u (scan_string s)"
  using assms by simp

lemma scan_escape_char:
  "scan_string (escape_char c @ s) = cons_fst c (scan_string s)"
proof -
  consider "c \<in> {34, 92, 8, 12, 10, 13, 9}" | "c \<notin> {34, 92, 8, 12, 10, 13, 9}" "c < 32"
    | "c \<noteq> 34" "c \<noteq> 92" "\<not> c < 32"
    by fastforce
  then show ?thesis
  proof cases
    case 1
    then show ?thesis
      by (elim insertE emptyE; simp only: escape_char_def)
        (simp_all add: scan_string_short unescape_def)
  next
    case 2
    have "c div 16 < 16" "c mod 16 < 16" using 2 by auto
    moreover have "hex_value 48 = Some 0" by (simp add: hex_value_def is_digit_def)
    ultimately have h: "hex4 48 48 (hex_digit (c div 16)) (hex_digit (c mod 16)) = Some c"
      by (simp add: hex4_def)
    moreover have "\<not> high_surrogate c" using 2 by (simp add: high_surrogate_def)
    ultimately have "scan_string (92 # 117 # 48 # 48 # hex_digit (c div 16) # hex_digit (c mod 16) # s) =
        cons_fst c (scan_string s)"
      by (rule scan_string_unicode)
    with 2 show ?thesis by (simp add: escape_char_def del: scan_string.simps)
  next
    case 3
    then show ?thesis
      using scan_string_plain [of c s] by (auto simp: escape_char_def simp del: scan_string.simps)
  qed
qed

lemma scan_print_string: "scan_string (concat (map escape_char s) @ 34 # r) = Some (s, r)"
  by (induction s) (simp_all add: scan_escape_char cons_fst_def del: scan_string.simps,
      simp add: scan_string.simps)

section \<open>Integers read back\<close>

lemma dec_digits: "c \<in> set (dec n) \<Longrightarrow> is_digit c"
proof (induction n rule: dec.induct)
  case (1 n)
  then show ?case
    by (cases "n < 10") (auto simp: dec.simps [of n] is_digit_def)
qed

lemma dec_nonempty [simp]: "dec n \<noteq> []"
  by (simp add: dec.simps [of n])

lemma dec_head: "0 < n \<Longrightarrow> hd (dec n) \<noteq> 48"
proof (induction n rule: dec.induct)
  case (1 n)
  then show ?case by (cases "n < 10") (auto simp: dec.simps [of n] hd_append)
qed

lemma dec_zero: "dec 0 = [48]" by (simp add: dec.simps)

lemma dec_value_snoc: "dec_value (ds @ [d]) = 10 * dec_value ds + (d - 48)"
  by (simp add: dec_value_def)

lemma dec_value_dec [simp]: "dec_value (dec n) = n"
proof (induction n rule: dec.induct)
  case (1 n)
  then show ?case
    by (cases "n < 10") (simp_all add: dec.simps [of n] dec_value_snoc, simp add: dec_value_def)
qed

text \<open>What may follow a value: the end, a comma or a closing bracket.\<close>

definition stops :: "pystr \<Rightarrow> bool" where
  "stops r \<longleftrightarrow> r = [] \<or> hd r \<in> {44, 93, 125}"

lemma stops_simps [simp]:
  "stops []" "stops (44 # r)" "stops (93 # r)" "stops (125 # r)"
  by (simp_all add: stops_def)

lemma stops_digits: "stops r \<Longrightarrow> takeWhile is_digit r = [] \<and> dropWhile is_digit r = r"
  by (cases r) (auto simp: stops_def is_digit_def)

lemma stops_fraction: "stops r \<Longrightarrow> fraction_part r = ([], r)"
  by (cases r) (auto simp: stops_def fraction_part_def expect_def)

lemma stops_exponent: "stops r \<Longrightarrow> exponent_part r = ([], r)"
  by (cases r) (auto simp: stops_def exponent_part_def Let_def split: list.splits prod.splits)

lemma stops_ws: "stops r \<Longrightarrow> skip_ws r = r"
  by (cases r) (auto simp: stops_def skip_ws_def is_space_def)

lemma takeWhile_digits:
  assumes "stops r" "\<forall>c \<in> set ds. is_digit c"
  shows "takeWhile is_digit (ds @ r) = ds" "dropWhile is_digit (ds @ r) = r"
  using assms stops_digits [OF assms(1)] by (simp_all add: takeWhile_append dropWhile_append)

lemma unsigned_dec:
  assumes "stops r" "length (dec n) \<le> int_max_str_digits"
  shows "unsigned_number fl neg (dec n @ r) =
    Some (JInt (if neg then - int n else int n), r)"
proof (cases "n = 0")
  case True
  with assms show ?thesis
    by (simp add: dec_zero unsigned_number_def is_digit_def stops_fraction stops_exponent Let_def
        int_max_str_digits_def dec_value_def)
next
  case False
  obtain d t where dt: "dec n = d # t" by (meson dec_nonempty neq_Nil_conv)
  have d: "is_digit d" "d \<noteq> 48" and t: "\<forall>c \<in> set t. is_digit c"
    using dec_digits [of _ n] dec_head [of n] False dt by auto
  have v: "dec_value (d # t) = n" using dec_value_dec [of n] dt by simp
  have tw: "takeWhile is_digit (t @ r) = t" "dropWhile is_digit r = r"
      "dropWhile is_digit (t @ r) = r"
    using takeWhile_digits [OF assms(1) t] stops_digits [OF assms(1)] by blast+
  show ?thesis
    using assms d v by (simp add: dt unsigned_number_def tw
        stops_fraction stops_exponent)
qed

lemma no_constant_digit:
  assumes "is_digit c"
  shows "find (\<lambda>(w, r). scan_word w (c # s) \<noteq> None) constants = None"
    and "find (\<lambda>(w, r). scan_word w (45 # c # s) \<noteq> None) constants = None"
  using assms
  by (auto simp: constants_def scan_word_def ascii_def is_digit_def)

lemma scan_number_dec:
  assumes "stops r" "length (dec (nat \<bar>i\<bar>)) \<le> int_max_str_digits"
  shows "scan_number fl fin (dec_int i @ r) = Some (JInt i, r)"
proof -
  obtain d t where dt: "dec (nat \<bar>i\<bar>) = d # t" by (meson dec_nonempty neq_Nil_conv)
  then have d: "is_digit d" using dec_digits [of d "nat \<bar>i\<bar>"] by simp
  note u = unsigned_dec [OF assms, of fl, unfolded dt]
  show ?thesis
  proof (cases "i < 0")
    case True
    then have di: "dec_int i = 45 # d # t" using dt by (simp add: dec_int_def)
    have "- int (nat \<bar>i\<bar>) = i" using True by simp
    with u [of True] show ?thesis
      unfolding di using no_constant_digit(2) [OF d]
      by (simp only: scan_number_def append_Cons option.case expect_def list.case if_True) simp
  next
    case False
    then have di: "dec_int i = d # t" using dt by (simp add: dec_int_def)
    have "int (nat \<bar>i\<bar>) = i" using False by simp
    moreover have "d \<noteq> 45" using d by (auto simp: is_digit_def)
    ultimately show ?thesis
      unfolding di using no_constant_digit(1) [OF d] u [of False]
      by (simp only: scan_number_def append_Cons option.case expect_def list.case if_False)
  qed
qed

section \<open>Values read back\<close>

text \<open>Values without floats, with printable integers and with distinct object keys.\<close>

fun plain_json :: "json \<Rightarrow> bool" where
  "plain_json (JInt i) = (length (dec (nat \<bar>i\<bar>)) \<le> int_max_str_digits)"
| "plain_json (JFloat r) = False"
| "plain_json (JArr xs) = (\<forall>x \<in> set xs. plain_json x)"
| "plain_json (JObj kvs) = (distinct (map fst kvs) \<and> (\<forall>(k, v) \<in> set kvs. plain_json v))"
| "plain_json j = True"

lemma commas_simps [simp]:
  "commas [] = []" "commas [x] = x" "commas (x # y # ys) = x @ 44 # commas (y # ys)"
  by (simp_all add: commas_def)

lemma expect_simps [simp]:
  "expect c [] = None" "expect c (d # r) = (if d = c then Some r else None)"
  by (simp_all add: expect_def)

lemma expect_append: "s \<noteq> [] \<Longrightarrow> expect c (s @ r) = (if hd s = c then Some (tl s @ r) else None)"
  by (cases s) auto

lemma skip_ws_append: "s \<noteq> [] \<Longrightarrow> \<not> is_space (hd s) \<Longrightarrow> skip_ws (s @ r) = s @ r"
  by (cases s) (auto simp: skip_ws_def)

lemma skip_ws_Cons: "\<not> is_space c \<Longrightarrow> skip_ws (c # r) = c # r"
  by (simp add: skip_ws_def)

definition value_start :: "pystr \<Rightarrow> bool" where
  "value_start s \<longleftrightarrow> s \<noteq> [] \<and> \<not> is_space (hd s) \<and> hd s \<notin> {93, 125, 44, 58} \<and> hd s < 128"

lemma value_start_dumps: "plain_json j \<Longrightarrow> value_start (dumps j)"
proof (cases j)
  case (JInt i)
  have "\<forall>n. value_start (dec n)"
  proof
    fix n
    have "is_digit (hd (dec n))" by (rule dec_digits [of _ n]) simp
    then show "value_start (dec n)" by (auto simp: value_start_def is_digit_def is_space_def)
  qed
  then show ?thesis by (auto simp: JInt dec_int_def value_start_def is_space_def)
qed (auto simp: value_start_def is_space_def ascii_def print_string_def)

lemma scan_dec_int:
  assumes "stops r" "length (dec (nat \<bar>i\<bar>)) \<le> int_max_str_digits"
  shows "scan_value h (Suc n) (dec_int i @ r) = Some (JInt i, r)"
proof -
  have "dec_int i \<noteq> []" by (simp add: dec_int_def)
  then obtain d t where dt: "dec_int i = d # t" by (cases "dec_int i") auto
  have d: "d = 45 \<or> is_digit d"
  proof (cases "i < 0")
    case True
    with dt show ?thesis by (simp only: dec_int_def if_True list.inject) simp
  next
    case False
    with dt have "dec (nat i) = d # t" by (simp only: dec_int_def if_False)
    then have "d \<in> set (dec (nat i))" by simp
    then show ?thesis by (simp add: dec_digits)
  qed
  then have n: "d \<noteq> 34" "d \<noteq> 123" "d \<noteq> 91" "d \<noteq> 110" "d \<noteq> 116" "d \<noteq> 102"
    by (auto simp: is_digit_def)
  then have w: "scan_word (ascii ''null'') (d # t @ r) = None"
      "scan_word (ascii ''true'') (d # t @ r) = None" "scan_word (ascii ''false'') (d # t @ r) = None"
    by (auto simp: scan_word_def ascii_def)
  show ?thesis
    using scan_number_dec [OF assms, of "hk_float h" "hk_finite h"] n w by (simp add: dt)
qed

lemma scan_elements_dumps:
  assumes "\<And>x n r. x \<in> set xs \<Longrightarrow> stops r \<Longrightarrow> length (dumps x) \<le> n \<Longrightarrow>
      scan_value h n (dumps x @ r) = Some (sorted_members x, r)"
    and "xs \<noteq> []" "\<forall>x \<in> set xs. plain_json x" "length (commas (map dumps xs)) + 1 \<le> n"
  shows "scan_elements h n (commas (map dumps xs) @ 93 # r) = Some (map sorted_members xs, r)"
  using assms
proof (induction xs arbitrary: n)
  case (Cons x xs)
  obtain m where n: "n = Suc m" using Cons.prems(4) by (cases n) auto
  show ?case
  proof (cases xs)
    case Nil
    have "scan_value h m (dumps x @ 93 # r) = Some (sorted_members x, 93 # r)"
      using Cons.prems(4) by (intro Cons.prems(1)) (simp_all add: Nil n)
    then show ?thesis by (simp add: Nil n skip_ws_Cons is_space_def)
  next
    case (Cons y ys)
    let ?rest = "commas (map dumps (y # ys)) @ 93 # r"
    have l: "length (dumps x) + (1 + length (commas (map dumps (y # ys)))) \<le> m"
      using Cons.prems(4) by (simp add: Cons n)
    have v: "scan_value h m (dumps x @ 44 # ?rest) = Some (sorted_members x, 44 # ?rest)"
      using l by (intro Cons.prems(1)) simp_all
    have "plain_json y" using Cons.prems(3) Cons by simp
    from value_start_dumps [OF this] have "skip_ws ?rest = ?rest"
      by (cases ys) (auto simp: value_start_def skip_ws_append)
    moreover have "scan_elements h m ?rest = Some (map sorted_members (y # ys), r)"
      using l Cons.prems(1,3) Cons by (intro Cons.IH [unfolded Cons]) auto
    ultimately show ?thesis
      using v by (simp add: Cons n skip_ws_Cons is_space_def cons_fst_def)
  qed
qed simp

definition print_member :: "pystr \<times> json \<Rightarrow> pystr" where
  "print_member kv = print_string (fst kv) @ 58 # dumps (snd kv)"

lemma scan_members_dumps:
  assumes "\<And>k v n r. (k, v) \<in> set kvs \<Longrightarrow> stops r \<Longrightarrow> length (dumps v) \<le> n \<Longrightarrow>
      scan_value h n (dumps v @ r) = Some (sorted_members v, r)"
    and "kvs \<noteq> []" "\<forall>(k, v) \<in> set kvs. plain_json v"
    and "length (commas (map print_member kvs)) + 1 \<le> n"
  shows "scan_members h n (commas (map print_member kvs) @ 125 # r) =
    Some (map (\<lambda>(k, v). (k, sorted_members v)) kvs, r)"
  using assms
proof (induction kvs arbitrary: n)
  case (Cons kv kvs)
  obtain k v where kv: "kv = (k, v)" by (cases kv)
  obtain m where n: "n = Suc m" using Cons.prems(4) by (cases n) auto
  have sv: "skip_ws (dumps v @ s) = dumps v @ s" for s
    using Cons.prems(3) value_start_dumps [of v]
    by (auto simp: kv value_start_def skip_ws_append)
  have str: "Option.bind (expect 34 (print_string k @ s)) scan_string = Some (k, s)" for s
    by (simp add: print_string_def scan_print_string)
  show ?case
  proof (cases kvs)
    case Nil
    have "scan_value h m (dumps v @ 125 # r) = Some (sorted_members v, 125 # r)"
      using Cons.prems(4) by (intro Cons.prems(1) [of k v]) (simp_all add: Nil n kv print_member_def)
    then show ?thesis
      by (simp add: Nil n kv print_member_def str sv skip_ws_Cons is_space_def del: scan_string.simps)
  next
    case (Cons y ys)
    let ?rest = "commas (map print_member (y # ys)) @ 125 # r"
    have l: "length (dumps v) + (1 + length (commas (map print_member (y # ys)))) \<le> m"
      using Cons.prems(4) by (simp add: Cons n kv print_member_def [of "(k, v)"])
    have v: "scan_value h m (dumps v @ 44 # ?rest) = Some (sorted_members v, 44 # ?rest)"
      using l by (intro Cons.prems(1) [of k v]) (simp_all add: kv)
    have "skip_ws ?rest = ?rest"
      by (cases ys) (simp_all add: print_member_def print_string_def skip_ws_def is_space_def)
    moreover have "scan_members h m ?rest =
        Some (map (\<lambda>(k, v). (k, sorted_members v)) (y # ys), r)"
      using l Cons.prems(1,3) Cons by (intro Cons.IH [unfolded Cons]) auto
    ultimately show ?thesis
      using v by (simp add: Cons n kv print_member_def [of "(k, v)"] str sv skip_ws_Cons is_space_def
          cons_fst_def del: scan_string.simps)
  qed
qed simp

lemma insort_key_fst_map:
  "insort_key fst (k, f k v) (map (\<lambda>(k, v). (k, f k v)) kvs) =
     map (\<lambda>(k, v). (k, f k v)) (insort_key fst (k, v) kvs)"
  by (induction kvs) auto

lemma sort_key_fst_map:
  "sort_key fst (map (\<lambda>(k, v). (k, f k v)) kvs) = map (\<lambda>(k, v). (k, f k v)) (sort_key fst kvs)"
  by (induction kvs) (auto simp: insort_key_fst_map [symmetric] split: prod.splits)

lemma dumps_object:
  "dumps (JObj kvs) = 123 # commas (map print_member (sort_key fst kvs)) @ [125]"
proof -
  have "map snd (map (\<lambda>(k, v). (k, print_string k @ 58 # dumps v)) xs) = map print_member xs" for xs
    by (induction xs) (auto simp: print_member_def)
  then show ?thesis by (simp only: dumps.simps sort_key_fst_map)
qed

lemma sorted_object:
  "sorted_members (JObj kvs) = JObj (map (\<lambda>(k, v). (k, sorted_members v)) (sort_key fst kvs))"
  by (simp add: sort_key_fst_map)

lemma distinct_sort_keys: "distinct (map fst (sort_key fst kvs)) = distinct (map fst kvs)"
  by (rule mset_eq_imp_distinct_iff) simp

lemma fold_update_distinct:
  "distinct (map fst (d @ kvs)) \<Longrightarrow> fold (\<lambda>(k, v) d. AList.update k v d) kvs d = d @ kvs"
proof (induction kvs arbitrary: d)
  case (Cons kv kvs)
  obtain k v where kv: "kv = (k, v)" by (cases kv)
  have "k \<notin> fst ` set d" using Cons.prems by (auto simp: kv)
  then have "AList.update k v d = d @ [(k, v)]" by (induction d) auto
  with Cons show ?case by (simp add: kv)
qed simp

lemma make_object_distinct: "distinct (map fst kvs) \<Longrightarrow> make_object u kvs = Some (JObj kvs)"
  using fold_update_distinct [of "[]" kvs] by (simp add: make_object_def dict_of_def)

lemma scan_value_dumps:
  "plain_json j \<Longrightarrow> stops r \<Longrightarrow> length (dumps j) \<le> n \<Longrightarrow>
     scan_value h n (dumps j @ r) = Some (sorted_members j, r)"
proof (induction j arbitrary: n r)
  case JNull
  then obtain m where "n = Suc m" by (cases n) (auto simp: ascii_def)
  then show ?case by (simp add: ascii_def scan_word_def)
next
  case (JBool b)
  then obtain m where "n = Suc m" by (cases n; cases b) (auto simp: ascii_def)
  then show ?case by (cases b) (simp_all add: ascii_def scan_word_def)
next
  case (JInt i)
  then have "dec_int i \<noteq> []" by (simp add: dec_int_def)
  with JInt obtain m where "n = Suc m" by (cases n) auto
  with JInt show ?case by (simp only: dumps.simps sorted_members.simps plain_json.simps scan_dec_int)
next
  case (JFloat x)
  then show ?case by simp
next
  case (JStr s)
  then obtain m where "n = Suc m" by (cases n) (auto simp: print_string_def)
  then show ?case by (simp add: print_string_def scan_print_string del: scan_string.simps)
next
  case (JArr xs)
  then obtain m where n: "n = Suc m" by (cases n) auto
  show ?case
  proof (cases "xs = []")
    case True
    then show ?thesis by (simp add: n skip_ws_Cons is_space_def)
  next
    case False
    have el: "scan_elements h m (commas (map dumps xs) @ 93 # r) = Some (map sorted_members xs, r)"
      using JArr False by (intro scan_elements_dumps) (auto simp: n)
    obtain y ys where xs: "xs = y # ys" using False by (cases xs) auto
    then have y: "value_start (dumps y)" using JArr.prems value_start_dumps by auto
    then obtain c t where c: "dumps y = c # t" "\<not> is_space c" "c \<noteq> 93"
      by (cases "dumps y") (auto simp: value_start_def)
    have "\<exists>t. commas (map dumps xs) @ 93 # r = c # t" by (cases ys) (simp_all add: xs c)
    with el c show ?thesis by (auto simp: n skip_ws_Cons)
  qed
next
  case (JObj kvs)
  let ?ms = "sort_key fst kvs"
  obtain m where n: "n = Suc m" using JObj.prems(3) by (cases n) auto
  show ?case
  proof (cases "kvs = []")
    case True
    then show ?thesis
      by (simp add: n skip_ws_Cons is_space_def make_object_distinct)
  next
    case False
    have ne: "?ms \<noteq> []" using False by (metis set_empty set_sort)
    have mem: "scan_members h m (commas (map print_member ?ms) @ 125 # r) =
        Some (map (\<lambda>(k, v). (k, sorted_members v)) ?ms, r)"
    proof (rule scan_members_dumps [OF _ ne])
      fix k v n' r'
      assume kv: "(k, v) \<in> set ?ms" "stops r'" "length (dumps v) \<le> n'"
      then have "(k, v) \<in> set kvs" by simp
      with JObj.prems(1) have "plain_json v" by auto
      then show "scan_value h n' (dumps v @ r') = Some (sorted_members v, r')"
        using kv by (intro JObj.IH [of "(k, v)" v]) auto
    next
      show "\<forall>(k, v) \<in> set ?ms. plain_json v" using JObj.prems(1) by auto
      show "length (commas (map print_member ?ms)) + 1 \<le> m"
        using JObj.prems(3) unfolding dumps_object by (simp add: n)
    qed
    have d: "distinct (map fst (map (\<lambda>(k, v). (k, sorted_members v)) ?ms))"
      using JObj.prems(1) distinct_sort_keys [of kvs]
      by (simp add: comp_def case_prod_unfold)
    obtain y ys where "?ms = y # ys" using ne by (cases ?ms) auto
    then have "\<exists>t. commas (map print_member ?ms) @ 125 # r = 34 # t"
      by (cases ys) (simp_all add: print_member_def print_string_def)
    then obtain t where t: "commas (map print_member ?ms) @ 125 # r = 34 # t" by blast
    have "scan_value h (Suc m) (123 # 34 # t) = Some (sorted_members (JObj kvs), r)"
      using mem [unfolded t] make_object_distinct [OF d]
      unfolding sorted_object by (simp add: skip_ws_Cons is_space_def del: sorted_members.simps)
    then show ?thesis unfolding n dumps_object by (simp add: t [symmetric] del: sorted_members.simps)
  qed
qed

lemma loads_dumps:
  assumes "plain_json j"
  shows "loads h (dumps j) = Some (sorted_members j)"
proof -
  have v: "value_start (dumps j)" by (rule value_start_dumps [OF assms])
  then have ws: "skip_ws (dumps j) = dumps j"
    using skip_ws_append [of "dumps j" "[]"] by (simp add: value_start_def)
  from v have bom: "take 1 (dumps j) \<noteq> [0xFEFF]"
    by (cases "dumps j") (auto simp: value_start_def)
  show ?thesis
    using scan_value_dumps [OF assms, of "[]" "Suc (2 * length (dumps j))" h] ws bom
    by (simp add: loads_def skip_ws_def)
qed

section \<open>The fuel suffices\<close>

lemma cons_fst_Some: "cons_fst x r = Some (ys, s) \<longleftrightarrow> (\<exists>xs. r = Some (xs, s) \<and> ys = x # xs)"
  by (cases r) (auto simp: cons_fst_def)

lemma length_skip_ws: "length (skip_ws s) \<le> length s"
  by (simp add: skip_ws_def length_dropWhile_le)

lemma expect_length: "expect c s = Some r \<Longrightarrow> length s = Suc (length r)"
  by (cases s) (auto split: if_splits)

lemma drop2_length: "drop 2 s = a # b # c # d # t \<Longrightarrow> length t < length s"
  by (drule arg_cong [of _ _ length]) simp

lemma scan_string_length: "scan_string s = Some (x, r) \<Longrightarrow> length r < length s"
proof (induction "length s" arbitrary: s x r rule: less_induct)
  case less
  note IH = less.hyps
  show ?case
  proof (cases s)
    case Nil
    with less.prems show ?thesis by simp
  next
    case (Cons c t)
    have step: "scan_string t' = Some (y, r) \<Longrightarrow> length t' \<le> length t \<Longrightarrow> length r < length s"
      for t' y using IH [of t' y r] by (simp add: Cons)
    show ?thesis
      using less.prems unfolding Cons
      by (auto simp: cons_fst_Some simp del: scan_string.simps split: if_splits list.splits option.splits
          dest!: step [unfolded Cons] drop2_length simp: scan_string.simps(2) [of c t])
  qed
qed

lemma fraction_length: "fraction_part s = (f, r) \<Longrightarrow> length r \<le> length s"
  by (auto simp: fraction_part_def length_dropWhile_le le_SucI dest: expect_length
      split: option.splits if_splits)

lemma exponent_length: "exponent_part s = (f, r) \<Longrightarrow> length r \<le> length s"
  using length_dropWhile_le [of is_digit]
  by (auto simp: exponent_part_def Let_def le_SucI split: list.splits if_splits prod.splits)

lemma unsigned_length:
  assumes "unsigned_number fl neg s = Some (v, r)" shows "length r < length s"
proof (cases s)
  case (Cons d t)
  let ?q = "if d = 48 then t else dropWhile is_digit t"
  obtain f r2 where f: "fraction_part ?q = (f, r2)" by fastforce
  obtain e r3 where e: "exponent_part r2 = (e, r3)" by fastforce
  have "length ?q \<le> length t" by (simp add: length_dropWhile_le)
  moreover have "r = r3"
    using assms f e by (auto simp: Cons unsigned_number_def Let_def split: if_splits)
  ultimately show ?thesis using fraction_length [OF f] exponent_length [OF e] by (simp add: Cons)
qed (use assms in \<open>simp add: unsigned_number_def\<close>)

lemma scan_word_length: "scan_word w s = Some r \<Longrightarrow> w \<noteq> [] \<Longrightarrow> length r < length s"
  by (cases s; cases w) (auto simp: scan_word_def split: if_splits)

lemma scan_number_length:
  assumes "scan_number fl fin s = Some (v, r)" shows "length r < length s"
proof (cases "find (\<lambda>(w, r). scan_word w s \<noteq> None) constants")
  case None
  with assms show ?thesis
    by (auto simp: scan_number_def dest!: unsigned_length expect_length split: option.splits)
next
  case (Some wr)
  obtain w x where wx: "wr = (w, x)" by (cases wr)
  from find_Some_set [OF Some] have "(w, x) \<in> set constants" "scan_word w s \<noteq> None"
    by (auto simp: wx)
  then have "w \<noteq> []" "scan_word w s = Some (drop (length w) s)"
    by (auto simp: constants_def ascii_def) (simp_all add: scan_word_def split: if_splits)
  from scan_word_length [OF this(2,1)] assms Some wx show ?thesis
    by (auto simp: scan_number_def split: if_splits)
qed

lemma scan_words_length:
  "scan_word (ascii ''null'') s = Some r \<Longrightarrow> length r < length s"
  "scan_word (ascii ''true'') s = Some r \<Longrightarrow> length r < length s"
  "scan_word (ascii ''false'') s = Some r \<Longrightarrow> length r < length s"
  by (auto dest!: scan_word_length simp: ascii_def)

lemma scan_step_length:
  assumes IH: "\<And>s v r. scan_value h n s = Some (v, r) \<Longrightarrow> length r < length s"
      "\<And>s v r. scan_elements h n s = Some (v, r) \<Longrightarrow> length r < length s"
      "\<And>s v r. scan_members h n s = Some (v, r) \<Longrightarrow> length r < length s"
  shows "scan_value h (Suc n) s = Some (v, r) \<Longrightarrow> length r < length s"
    and "scan_elements h (Suc n) s = Some (vs, r) \<Longrightarrow> length r < length s"
    and "scan_members h (Suc n) s = Some (kvs, r) \<Longrightarrow> length r < length s"
proof -
  assume v: "scan_value h (Suc n) s = Some (v, r)"
  show "length r < length s"
  proof (cases s)
    case (Cons c t)
    have ws: "length (skip_ws t) \<le> length t" by (rule length_skip_ws)
    from v consider "scan_string t = Some (case v of JStr x \<Rightarrow> x | _ \<Rightarrow> [], r)"
      | "expect 125 (skip_ws t) = Some r" | "expect 93 (skip_ws t) = Some r"
      | kvs where "scan_members h n (skip_ws t) = Some (kvs, r)"
      | xs where "scan_elements h n (skip_ws t) = Some (xs, r)"
      | "scan_word (ascii ''null'') s = Some r" | "scan_word (ascii ''true'') s = Some r"
      | "scan_word (ascii ''false'') s = Some r"
      | "scan_number (hk_float h) (hk_finite h) s = Some (v, r)"
      by (auto simp: Cons simp del: scan_string.simps split: if_splits option.splits)
    then show ?thesis
      by cases (use ws in \<open>auto simp: Cons dest!: scan_string_length expect_length scan_words_length
          IH(2,3) scan_number_length simp del: scan_string.simps\<close>)
  qed (use v in simp)
next
  assume "scan_elements h (Suc n) s = Some (vs, r)"
  then obtain x r1 r2 where x: "scan_value h n s = Some (x, r1)"
    and r: "expect 93 (skip_ws r1) = Some r \<or>
      (expect 44 (skip_ws r1) = Some r2 \<and> (\<exists>ys. scan_elements h n (skip_ws r2) = Some (ys, r)))"
    by (auto simp: cons_fst_Some split: option.splits)
  show "length r < length s"
    using IH(1) [OF x] r length_skip_ws [of r1] length_skip_ws [of r2]
    by (auto dest!: expect_length IH(2))
next
  assume "scan_members h (Suc n) s = Some (kvs, r)"
  then obtain q k r0 r1 x r2 r3 where
      k: "expect 34 s = Some q" "scan_string q = Some (k, r0)" "expect 58 (skip_ws r0) = Some r1"
    and x: "scan_value h n (skip_ws r1) = Some (x, r2)"
    and r: "expect 125 (skip_ws r2) = Some r \<or>
      (expect 44 (skip_ws r2) = Some r3 \<and> (\<exists>ys. scan_members h n (skip_ws r3) = Some (ys, r)))"
    by (auto simp: cons_fst_Some bind_eq_Some_conv simp del: scan_string.simps split: option.splits)
      blast
  show "length r < length s"
    using IH(1) [OF x] k r length_skip_ws [of r0] length_skip_ws [of r1] length_skip_ws [of r2]
      length_skip_ws [of r3]
    by (auto dest!: expect_length scan_string_length IH(3))
qed

lemma scan_length:
  "scan_value h n s = Some (v, r) \<Longrightarrow> length r < length s"
  "scan_elements h n s = Some (vs, r) \<Longrightarrow> length r < length s"
  "scan_members h n s = Some (kvs, r) \<Longrightarrow> length r < length s"
proof (induction n arbitrary: s v vs kvs r)
  case 0
  { case 1 then show ?case by simp next case 2 then show ?case by simp
    next case 3 then show ?case by simp }
next
  case (Suc n)
  { case 1 with Suc.IH show ?case by (blast intro: scan_step_length(1))
    next case 2 with Suc.IH show ?case by (blast intro: scan_step_length(2))
    next case 3 with Suc.IH show ?case by (blast intro: scan_step_length(3)) }
qed

text \<open>Once the fuel is twice the length of the text, one unit more changes nothing.\<close>

lemma scan_fuel_step:
  "2 * length s < n \<Longrightarrow> scan_value h (Suc n) s = scan_value h n s"
  "2 * length s + 1 < n \<Longrightarrow> scan_elements h (Suc n) s = scan_elements h n s"
  "2 * length s + 1 < n \<Longrightarrow> scan_members h (Suc n) s = scan_members h n s"
proof (induction n arbitrary: s)
  case 0
  { case 1 then show ?case by simp next case 2 then show ?case by simp
    next case 3 then show ?case by simp }
next
  case (Suc n)
  have el: "length r + 1 \<le> length s \<Longrightarrow> 2 * length s < Suc n \<Longrightarrow>
      scan_elements h (Suc n) (skip_ws r) = scan_elements h n (skip_ws r) \<and>
      scan_members h (Suc n) (skip_ws r) = scan_members h n (skip_ws r)" for r s
    using length_skip_ws [of r] by (intro conjI Suc.IH(2,3)) simp_all
  { case 1
    show ?case
    proof (cases s)
      case (Cons c t)
      have "scan_elements h (Suc n) (skip_ws t) = scan_elements h n (skip_ws t)"
        "scan_members h (Suc n) (skip_ws t) = scan_members h n (skip_ws t)"
        using el [of t s] 1 Cons by simp_all
      then show ?thesis
        by (simp add: Cons scan_value.simps(2) [of h "Suc n"] scan_value.simps(2) [of h n]
            cong: option.case_cong
            del: scan_value.simps scan_elements.simps scan_members.simps scan_string.simps)
    qed simp
  next
    case 2
    have v: "scan_value h (Suc n) s = scan_value h n s" using 2 by (intro Suc.IH(1)) simp
    have r: "scan_elements h (Suc n) (skip_ws r') = scan_elements h n (skip_ws r')"
      if "scan_value h n s = Some (x, r)" "expect 44 (skip_ws r) = Some r'" for x r r'
      using el [of r' s] 2 scan_length(1) [OF that(1)] expect_length [OF that(2)]
        length_skip_ws [of r] by simp
    show ?case
      by (auto simp: v scan_elements.simps(2) [of h "Suc n" s] scan_elements.simps(2) [of h n s] r
          simp del: scan_value.simps scan_elements.simps split: option.splits)
  next
    case 3
    have v: "scan_value h (Suc n) (skip_ws r1) = scan_value h n (skip_ws r1)"
      if "length r1 < length s" for r1
      using 3 that length_skip_ws [of r1] by (intro Suc.IH(1)) simp
    have m: "scan_members h (Suc n) (skip_ws r') = scan_members h n (skip_ws r')"
      if "length r' < length s" for r'
      using el [of r' s] that 3 by simp
    have l1: "length r1 < length s" if "expect 34 s = Some q" "scan_string q = Some (k, r0)"
        "expect 58 (skip_ws r0) = Some r1" for q k r0 r1
      using expect_length [OF that(1)] scan_string_length [OF that(2)] expect_length [OF that(3)]
        length_skip_ws [of r0] by simp
    have l2: "length r' < length s" if "length r1 < length s"
        "scan_value h n (skip_ws r1) = Some (x, r2)" "expect 44 (skip_ws r2) = Some r'" for r1 x r2 r'
      using that(1) scan_length(1) [OF that(2)] expect_length [OF that(3)]
        length_skip_ws [of r1] length_skip_ws [of r2] by simp
    show ?case
      by (auto simp: scan_members.simps(2) [of h "Suc n" s] scan_members.simps(2) [of h n s] v [OF l1]
          m [OF l2, OF l1] bind_eq_Some_conv
          simp del: scan_value.simps scan_members.simps scan_string.simps split: option.splits)
  }
qed

lemma scan_fuel_enough:
  assumes "2 * length s < n" "n \<le> m"
  shows "scan_value h m s = scan_value h n s"
  using assms(2,1)
proof (induction m rule: dec_induct)
  case (step m)
  then show ?case using scan_fuel_step(1) [of s m h] by simp
qed simp

lemma canonical_loads:
  assumes "canonical j = Some t" "plain_json j"
  shows "loads h t = Some (sorted_members j)"
  using assms loads_dumps by (auto simp: canonical_def split: if_splits)

lemma sorted_members_id [simp]: "sorted (map fst kvs) \<Longrightarrow> sort_key fst kvs = kvs"
  by (rule sort_key_id_if_sorted)

end
