(* ===== verification/Utf8.thy ===== *)
theory Utf8
  imports Json_Text
begin

text \<open>
  Python's strict UTF-8 codec over code points and bytes (naturals): \<open>str.encode\<close> fails on
  surrogates, \<open>bytes.decode\<close> on overlong, surrogate, out-of-range and truncated sequences. The
  screening validator, the rpc frame decoder and the text rules read and write through it.
\<close>

definition encode_char :: "nat \<Rightarrow> nat list" where
  "encode_char c =
     (if c < 0x80 then [c]
      else if c < 0x800 then [0xC0 + c div 64, 0x80 + c mod 64]
      else if c < 0x10000 then [0xE0 + c div 4096, 0x80 + c div 64 mod 64, 0x80 + c mod 64]
      else [0xF0 + c div 262144, 0x80 + c div 4096 mod 64, 0x80 + c div 64 mod 64,
            0x80 + c mod 64])"

text \<open>A code point that UTF-8 can write.\<close>

definition scalar :: "nat \<Rightarrow> bool" where
  "scalar c \<longleftrightarrow> c < 0x110000 \<and> \<not> high_surrogate c \<and> \<not> low_surrogate c"

definition utf8_encode :: "pystr \<Rightarrow> nat list option" where
  "utf8_encode s = (if encodable s then Some (concat (map encode_char s)) else None)"

definition cont :: "nat \<Rightarrow> bool" where
  "cont b \<longleftrightarrow> 0x80 \<le> b \<and> b < 0xC0"

fun utf8_decode :: "nat list \<Rightarrow> pystr option" where
  "utf8_decode [] = Some []"
| "utf8_decode (a # r) =
     (if a < 0x80 then map_option ((#) a) (utf8_decode r)
      else if a < 0xC2 then None
      else if a < 0xE0 then
        (case r of
           b # r1 \<Rightarrow>
             if cont b then map_option ((#) ((a - 0xC0) * 64 + (b - 0x80))) (utf8_decode r1)
             else None
         | _ \<Rightarrow> None)
      else if a < 0xF0 then
        (case r of
           b # c # r1 \<Rightarrow>
             let u = (a - 0xE0) * 4096 + (b - 0x80) * 64 + (c - 0x80) in
             if cont b \<and> cont c \<and> 0x800 \<le> u \<and> scalar u
             then map_option ((#) u) (utf8_decode r1) else None
         | _ \<Rightarrow> None)
      else if a < 0xF5 then
        (case r of
           b # c # d # r1 \<Rightarrow>
             let u = (a - 0xF0) * 262144 + (b - 0x80) * 4096 + (c - 0x80) * 64 + (d - 0x80) in
             if cont b \<and> cont c \<and> cont d \<and> 0x10000 \<le> u \<and> scalar u
             then map_option ((#) u) (utf8_decode r1) else None
         | _ \<Rightarrow> None)
      else None)"

lemma cont_plus [simp]: "cont (128 + m) = (m < 64)"
  by (auto simp: cont_def)

lemma split2: "(c div 64) * 64 + c mod 64 = (c::nat)"
  by simp

lemma split3: "(c div 4096) * 4096 + (c div 64 mod 64) * 64 + c mod 64 = (c::nat)"
proof -
  have "c div 4096 = c div 64 div 64" by (simp add: div_mult2_eq [symmetric])
  then have "c div 64 = (c div 4096) * 64 + c div 64 mod 64" by simp
  then show ?thesis using split2 [of c] by linarith
qed

lemma split4:
  "(c div 262144) * 262144 + (c div 4096 mod 64) * 4096 + (c div 64 mod 64) * 64 + c mod 64 = (c::nat)"
proof -
  have "c div 262144 = c div 4096 div 64" by (simp add: div_mult2_eq [symmetric])
  then have "c div 4096 = (c div 262144) * 64 + c div 4096 mod 64" by simp
  then show ?thesis using split3 [of c] by linarith
qed

lemma decode_encode_char:
  assumes "scalar c"
  shows "utf8_decode (encode_char c @ r) = map_option ((#) c) (utf8_decode r)"
proof -
  consider "c < 0x80" | "0x80 \<le> c" "c < 0x800" | "0x800 \<le> c" "c < 0x10000" | "0x10000 \<le> c"
    by linarith
  then show ?thesis
  proof cases
    case 1
    then show ?thesis by (simp add: encode_char_def)
  next
    case 2
    have "2 \<le> c div 64" "c div 64 < 32" using 2 by (simp_all add: div_less_iff_less_mult)
    with 2 split2 [of c] show ?thesis by (simp add: encode_char_def)
  next
    case 3
    have "c div 4096 < 16" using 3 by (simp add: div_less_iff_less_mult)
    with 3 split3 [of c] assms show ?thesis by (simp add: encode_char_def Let_def)
  next
    case 4
    have "c div 262144 < 5" using assms by (simp add: scalar_def div_less_iff_less_mult)
    with 4 split4 [of c] assms show ?thesis by (simp add: encode_char_def Let_def)
  qed
qed

lemma utf8_round_trip:
  assumes "\<forall>c \<in> set s. scalar c"
  shows "Option.bind (utf8_encode s) utf8_decode = Some s"
proof -
  have "utf8_decode (concat (map encode_char s)) = Some s"
    using assms by (induction s) (simp_all add: decode_encode_char del: utf8_decode.simps(2))
  moreover have "encodable s" using assms by (auto simp: encodable_def scalar_def)
  ultimately show ?thesis by (simp add: utf8_encode_def)
qed

lemma small_scalar: "c < 0xD800 \<Longrightarrow> scalar c"
  by (auto simp: scalar_def high_surrogate_def low_surrogate_def)

lemma two_byte_scalar: "a < 0xE0 \<Longrightarrow> cont b \<Longrightarrow> scalar ((a - 0xC0) * 64 + (b - 0x80))"
  by (rule small_scalar) (auto simp: cont_def)

lemma utf8_decode_scalar: "utf8_decode bs = Some s \<Longrightarrow> \<forall>c \<in> set s. scalar c"
proof (induction "length bs" arbitrary: bs s rule: less_induct)
  case less
  show ?case
  proof (cases bs)
    case Nil
    with less.prems show ?thesis by simp
  next
    case (Cons a r)
    have IH: "\<forall>c \<in> set z. scalar c" if "utf8_decode t = Some z" "length t \<le> length r" for t z
      using less.hyps [of t z] that by (simp add: Cons)
    have small: "a < 0x80 \<Longrightarrow> scalar a" by (rule small_scalar) simp
    from less.prems show ?thesis
      by (auto simp: Cons Let_def small two_byte_scalar split: if_splits list.splits)
        (use IH in fastforce)+
  qed
qed

lemma utf8_decode_encodable: "utf8_decode bs = Some s \<Longrightarrow> encodable s"
  using utf8_decode_scalar [of bs s] by (auto simp: encodable_def scalar_def)

end
