(* ===== verification/Screening_Text.thy ===== *)
theory Screening_Text
  imports Prelude "HOL-Library.Sublist"
begin

text \<open>
  \<open>src/paper_radar/screening/text.py\<close>: the placeholder and the insufficient-input rules over
  Unicode texts. \<open>str.casefold\<close> maps every character by the Unicode full case folding table,
  which is the parameter \<open>cf\<close>; \<open>str.strip\<close> is written out with Python's white space.
\<close>

definition white_space :: "nat \<Rightarrow> bool" where
  "white_space c \<longleftrightarrow>
     (9 \<le> c \<and> c \<le> 13) \<or> (28 \<le> c \<and> c \<le> 32) \<or> c = 0x85 \<or> c = 0xa0 \<or> c = 0x1680 \<or>
     (0x2000 \<le> c \<and> c \<le> 0x200a) \<or> c = 0x2028 \<or> c = 0x2029 \<or> c = 0x202f \<or> c = 0x205f \<or>
     c = 0x3000"

definition strip :: "pystr \<Rightarrow> pystr" where
  "strip s = rev (dropWhile white_space (rev (dropWhile white_space s)))"

definition casefold :: "(nat \<Rightarrow> pystr) \<Rightarrow> pystr \<Rightarrow> pystr" where
  "casefold cf s = concat (map cf s)"

definition explicit_placeholder_texts :: "pystr list" where
  "explicit_placeholder_texts =
     [[0x65e0],
      [0x6682, 0x65e0],
      [0x672a, 0x77e5],
      [0x5f85, 0x5b9a],
      [0x5f85, 0x8865, 0x5145],
      [0x7a0d, 0x540e, 0x8865, 0x5145],
      [0x5360, 0x4f4d],
      [0x65e0, 0x5185, 0x5bb9],
      [0x4e0d, 0x8be6],
      ascii ''-'',
      ascii ''--'',
      ascii ''...'',
      [0x2026],
      ascii ''n/a'',
      ascii ''na'',
      ascii ''tbd'',
      ascii ''todo'',
      ascii ''placeholder'']"

definition insufficient_input_markers :: "pystr list" where
  "insufficient_input_markers =
     [[0x5f53, 0x524d, 0x8f93, 0x5165, 0x4e0d, 0x8db3],
      [0x4fe1, 0x606f, 0x4e0d, 0x8db3],
      [0x6458, 0x8981, 0x672a, 0x8bf4, 0x660e],
      [0x6458, 0x8981, 0x672a, 0x63d0, 0x4f9b],
      [0x6458, 0x8981, 0x672a, 0x62ab, 0x9732],
      [0x4ec5, 0x51ed, 0x6458, 0x8981, 0x65e0, 0x6cd5, 0x5224, 0x65ad],
      [0x65e0, 0x6cd5, 0x4ece, 0x6458, 0x8981, 0x5224, 0x65ad],
      ascii ''insufficient information'',
      ascii ''not reported in the abstract'',
      ascii ''not provided in the abstract'',
      ascii ''not disclosed in the abstract'',
      ascii ''unclear from the abstract'']"

definition is_meaningful_text :: "(nat \<Rightarrow> pystr) \<Rightarrow> pystr \<Rightarrow> bool" where
  "is_meaningful_text cf value =
     (let comparison_value = casefold cf (strip value) in
      comparison_value \<noteq> [] \<and> comparison_value \<notin> set explicit_placeholder_texts)"

text \<open>\<open>marker in value\<close>.\<close>

fun contains :: "pystr \<Rightarrow> pystr \<Rightarrow> bool" where
  "contains m [] = (m = [])"
| "contains m (c # s) = (prefix m (c # s) \<or> contains m s)"

definition states_input_is_insufficient :: "(nat \<Rightarrow> pystr) \<Rightarrow> pystr \<Rightarrow> bool" where
  "states_input_is_insufficient cf value =
     (let comparison_value = casefold cf value in
      list_ex (\<lambda>marker. contains marker comparison_value) insufficient_input_markers)"

section \<open>Laws\<close>

lemma contains_sublist: "contains m s \<longleftrightarrow> sublist m s"
  by (induction m s rule: contains.induct) (auto simp: sublist_Cons_right)

lemma strip_Nil_iff: "strip s = [] \<longleftrightarrow> (\<forall>c \<in> set s. white_space c)"
proof
  assume "strip s = []"
  then have "\<forall>c \<in> set (dropWhile white_space s). white_space c"
    by (simp add: strip_def dropWhile_eq_Nil_conv)
  then have "dropWhile white_space s = []"
    by (cases "dropWhile white_space s") (use hd_dropWhile [of white_space s] in auto)
  then show "\<forall>c \<in> set s. white_space c" by (simp add: dropWhile_eq_Nil_conv)
next
  assume "\<forall>c \<in> set s. white_space c"
  then have "dropWhile white_space s = []" by (intro dropWhile_eq_Nil_conv [THEN iffD2])
  then show "strip s = []" by (simp only: strip_def rev.simps dropWhile.simps)
qed

lemma strip_padding:
  assumes "\<forall>c \<in> set a. white_space c" "\<forall>c \<in> set b. white_space c"
  shows "strip (a @ s @ b) = strip s"
proof (cases "\<forall>c \<in> set s. white_space c")
  case True
  with assms have "strip (a @ s @ b) = []" "strip s = []" by (auto simp: strip_Nil_iff)
  then show ?thesis by simp
next
  case False
  then obtain p c q where s: "s = p @ c # q" "\<not> white_space c" "\<forall>x \<in> set p. white_space x"
    using split_list_first_prop [of s "\<lambda>c. \<not> white_space c"] by blast
  with assms have d: "dropWhile white_space (a @ s @ b) = c # q @ b" "dropWhile white_space s = c # q"
    by (simp_all add: dropWhile_append)
  have "dropWhile white_space (rev b @ rev q @ [c]) = dropWhile white_space (rev q @ [c])"
    using assms(2) by (simp add: dropWhile_append)
  with d show ?thesis by (simp add: strip_def)
qed

lemma is_meaningful_padding:
  assumes "\<forall>c \<in> set a. white_space c" "\<forall>c \<in> set b. white_space c"
  shows "is_meaningful_text cf (a @ s @ b) = is_meaningful_text cf s"
  using assms by (simp add: is_meaningful_text_def strip_padding)

lemma blank_not_meaningful: "\<forall>c \<in> set s. white_space c \<Longrightarrow> \<not> is_meaningful_text cf s"
  by (simp add: is_meaningful_text_def strip_Nil_iff [THEN iffD2] casefold_def)

lemma states_input_is_insufficient_iff:
  "states_input_is_insufficient cf value \<longleftrightarrow>
     (\<exists>m \<in> set insufficient_input_markers. sublist m (casefold cf value))"
  by (auto simp: states_input_is_insufficient_def list_ex_iff contains_sublist)

end
