(* ===== verification/Screening_Output.thy ===== *)
theory Screening_Output
  imports Utf8 Reasons Screening_Text
begin

text \<open>
  \<open>src/paper_radar/screening/\<close>: \<open>errors.py\<close>, \<open>kinds.py\<close>, \<open>value_types.py\<close>,
  \<open>excerpt_kinds.py\<close>, \<open>schema.py\<close>, \<open>context.py\<close> and \<open>validation.py\<close>. Field validation by
  pydantic is the parameter \<open>models\<close>: for each model a function from the decoded value to
  either its error list or the validated object. Everything the program decides itself is
  written out: decoding, the unique-key and finite-number hooks, the masking of unknown names,
  the error categories and the business rules.
\<close>

section \<open>errors.py, kinds.py, value_types.py, excerpt_kinds.py\<close>

datatype output_error_category =
    Unknown_Kind | Invalid_Json | Missing_Field | Extra_Field | Invalid_Type | Invalid_Enum
  | Invalid_Text | Missing_Context | Context_Mismatch | Business_Rule

record output_issue =
  oi_location :: pystr
  oi_category :: output_error_category
  oi_guidance :: pystr

datatype output_kind = Kind_Boundary | Kind_Value_Prediction | Kind_Reuse_Assessment

datatype value_type =
    Method | Data | Code_Tool | Theory_Mechanism | Evidence_Conclusion | Question_Hypothesis
  | Review_Knowledge_Map

datatype excerpt_kind = Availability | Methods | Both

section \<open>schema.py, context.py\<close>

datatype boundary_verdict = In_Scope | Verdict_Out_Of_Scope | Uncertain

record boundary_output =
  bo_boundary :: boundary_verdict
  bo_reason_zh :: pystr

record value_prediction_output =
  vo_research_value :: int
  vo_research_value_reason_zh :: pystr
  vo_reuse_feasibility :: int
  vo_reuse_feasibility_reason_zh :: pystr
  vo_reuse_feasibility_inferable :: bool
  vo_value_types :: "value_type list"
  vo_topic_ids :: "pystr list"
  vo_display_title_zh :: "pystr option"
  vo_abstract_brief_zh :: pystr
  vo_why_it_may_matter_zh :: pystr

record reuse_assessment_output =
  ro_reuse_feasibility :: int
  ro_reuse_feasibility_reason_zh :: pystr
  ro_required_adaptations :: "pystr list"
  ro_excerpt_kind :: excerpt_kind
  ro_excerpt_ids :: "pystr list"

record value_prediction_context =
  vc_enabled_topic_ids :: "pystr set"
  vc_original_title_is_zh :: bool

record reuse_assessment_context =
  rc_excerpt_kinds :: "(pystr \<times> excerpt_kind) list"

section \<open>Issues and safe locations\<close>

fun guidance_text :: "output_error_category \<Rightarrow> pystr" where
  "guidance_text Unknown_Kind =
     [0x8bf7, 0x4f7f, 0x7528, 0x5df2, 0x6ce8, 0x518c, 0x7684, 0x8f93, 0x51fa, 0x79cd, 
       0x7c7b, 0x3002]"
| "guidance_text Invalid_Json =
     [0x8bf7, 0x63d0, 0x4ea4, 0x5b8c, 0x6574, 0x4e14, 0x8bed, 0x6cd5, 0x6b63, 0x786e, 
       0x7684, 0x20, 0x4a, 0x53, 0x4f, 0x4e, 0x3002]"
| "guidance_text Missing_Field =
     [0x8bf7, 0x8865, 0x5145, 0x8be5, 0x5fc5, 0x586b, 0x5b57, 0x6bb5, 0x3002]"
| "guidance_text Extra_Field =
     [0x8bf7, 0x5220, 0x9664, 0x5951, 0x7ea6, 0x672a, 0x5b9a, 0x4e49, 0x7684, 0x5b57, 
       0x6bb5, 0x3002]"
| "guidance_text Invalid_Type =
     [0x8bf7, 0x6309, 0x5951, 0x7ea6, 0x4f7f, 0x7528, 0x6b63, 0x786e, 0x7684, 0x6570, 
       0x636e, 0x7c7b, 0x578b, 0x3002]"
| "guidance_text Invalid_Enum =
     [0x8bf7, 0x4f7f, 0x7528, 0x5951, 0x7ea6, 0x5217, 0x51fa, 0x7684, 0x53d7, 0x63a7, 
       0x503c, 0x3002]"
| "guidance_text Invalid_Text =
     [0x8bf7, 0x63d0, 0x4f9b, 0x975e, 0x7a7a, 0x3001, 0x975e, 0x5360, 0x4f4d, 0x7684, 
       0x6709, 0x6548, 0x6587, 0x672c, 0x3002]"
| "guidance_text Missing_Context =
     [0x8bf7, 0x63d0, 0x4f9b, 0x8be5, 0x8f93, 0x51fa, 0x6240, 0x9700, 0x7684, 0x53ea, 
       0x8bfb, 0x4e0a, 0x4e0b, 0x6587, 0x3002]"
| "guidance_text Context_Mismatch =
     [0x8bf7, 0x4f7f, 0x8f93, 0x51fa, 0x79cd, 0x7c7b, 0x3001, 0x5b57, 0x6bb5, 0x4e0e, 
       0x53ea, 0x8bfb, 0x4e0a, 0x4e0b, 0x6587, 0x4fdd, 0x6301, 0x4e00, 0x81f4, 0x3002]"
| "guidance_text Business_Rule =
     [0x8bf7, 0x6309, 0x8be5, 0x5b57, 0x6bb5, 0x9002, 0x7528, 0x7684, 0x4e1a, 0x52a1, 
       0x89c4, 0x5219, 0x4fee, 0x6539, 0x8f93, 0x51fa, 0x3002]"

definition mk_issue :: "pystr \<Rightarrow> output_error_category \<Rightarrow> output_issue" where
  "mk_issue location category =
     \<lparr>oi_location = location, oi_category = category, oi_guidance = guidance_text category\<rparr>"

text \<open>The mask written in place of any name the contract does not know.\<close>

definition extra_field_mask :: pystr where
  "extra_field_mask = [0x3c, 0x989d, 0x5916, 0x5b57, 0x6bb5, 0x3e]"

datatype loc_part = Index int | Name pystr

definition index_text :: "int \<Rightarrow> pystr" where
  "index_text i = 91 # dec_int i @ [93]"

fun safe_part :: "pystr set \<Rightarrow> loc_part \<Rightarrow> pystr" where
  "safe_part known (Index i) = index_text i"
| "safe_part known (Name n) = 46 # (if n \<in> known then n else extra_field_mask)"

definition safe_location ::
    "loc_part list \<Rightarrow> output_error_category \<Rightarrow> pystr set \<Rightarrow> pystr \<Rightarrow> pystr" where
  "safe_location parts category known root =
     (if category = Extra_Field then root @ 46 # extra_field_mask
      else root @ concat (map (safe_part known) parts))"

text \<open>One entry of pydantic's error list: the parts of it the program reads.\<close>

record pydantic_error =
  pe_type :: string
  pe_loc :: "loc_part list"
  pe_input_is_str :: bool

definition category_for_pydantic_error :: "pydantic_error \<Rightarrow> output_error_category" where
  "category_for_pydantic_error e =
     (if pe_type e = ''json_invalid'' then Invalid_Json
      else if pe_type e = ''missing'' then Missing_Field
      else if pe_type e = ''extra_forbidden'' then Extra_Field
      else if pe_type e = ''literal_error'' then
        (if pe_input_is_str e then Invalid_Enum else Invalid_Type)
      else if pe_type e \<in> {''greater_than_equal'', ''less_than_equal''} then Business_Rule
      else if pe_type e = ''enum'' then Invalid_Enum
      else Invalid_Type)"

definition issues_from_pydantic :: "pydantic_error list \<Rightarrow> pystr set \<Rightarrow> output_issue list" where
  "issues_from_pydantic errors known =
     map (\<lambda>e. let category = category_for_pydantic_error e in
            mk_issue (safe_location (pe_loc e) category known (ascii ''$'')) category) errors"

section \<open>Decoding a payload\<close>

text \<open>\<open>_require_json_unicode\<close>: the stack of pending members, its top first; a string that UTF-8
  cannot encode raises (\<^term>\<open>False\<close>).\<close>

fun weight :: "json \<Rightarrow> nat" where
  "weight (JArr xs) = 1 + sum_list (map weight xs)"
| "weight (JObj kvs) = 1 + sum_list (map (\<lambda>(k, v). 1 + weight v) kvs)"
| "weight j = 1"

lemma weight_positive: "0 < weight j"
  by (cases j) simp_all

lemma weight_members:
  "sum_list (map (weight \<circ> snd) kvs) + sum_list (map (weight \<circ> (\<lambda>kv. JStr (fst kv))) kvs)
     < weight (JObj kvs)"
  by (induction kvs) (auto simp: case_prod_unfold)

function (sequential) require_json_unicode :: "json list \<Rightarrow> bool" where
  "require_json_unicode [] = True"
| "require_json_unicode (JStr s # pending) = (encodable s \<and> require_json_unicode pending)"
| "require_json_unicode (JArr xs # pending) = require_json_unicode (rev xs @ pending)"
| "require_json_unicode (JObj kvs # pending) =
     require_json_unicode (rev (map snd kvs) @ rev (map (\<lambda>kv. JStr (fst kv)) kvs) @ pending)"
| "require_json_unicode (j # pending) = require_json_unicode pending"
  by pat_completeness auto

termination
proof (relation "measure (\<lambda>stack. sum_list (map weight stack))", goal_cases)
  case (4 kvs pending)
  then show ?case using weight_members [of kvs] by (simp add: rev_map [symmetric])
qed (simp_all add: rev_map [symmetric] weight_positive)

text \<open>What a caller passes: a text, bytes, a mapping, or any other decoded value.\<close>

datatype payload =
    Text_Payload pystr | Bytes_Payload "nat list" | Mapping_Payload "(pystr \<times> json) list"
  | Value_Payload json

definition model_hooks :: "(pystr \<Rightarrow> pystr) \<Rightarrow> hooks" where
  "model_hooks fl = \<lparr>hk_float = fl, hk_unique = True, hk_finite = True\<rparr>"

definition decode_text :: "(pystr \<Rightarrow> pystr) \<Rightarrow> pystr \<Rightarrow> json option" where
  "decode_text fl s =
     (if encodable s then
        (case loads (model_hooks fl) s of
           Some j \<Rightarrow> if require_json_unicode [j] then Some j else None
         | None \<Rightarrow> None)
      else None)"

fun decode_payload :: "(pystr \<Rightarrow> pystr) \<Rightarrow> payload \<Rightarrow> json option" where
  "decode_payload fl (Text_Payload s) = decode_text fl s"
| "decode_payload fl (Bytes_Payload b) = Option.bind (utf8_decode b) (decode_text fl)"
| "decode_payload fl (Mapping_Payload kvs) = Some (JObj (dict_of kvs))"
| "decode_payload fl (Value_Payload j) = Some j"

type_synonym 'a validator = "json \<Rightarrow> (pydantic_error list, 'a) outcome"
type_synonym 'a validated = "(output_issue list, 'a) outcome"

definition validate_model ::
    "(pystr \<Rightarrow> pystr) \<Rightarrow> 'a validator \<Rightarrow> payload \<Rightarrow> pystr set \<Rightarrow> 'a validated" where
  "validate_model fl model payload known =
     (case decode_payload fl payload of
        None \<Rightarrow> Inl [mk_issue (ascii ''$'') Invalid_Json]
      | Some j \<Rightarrow>
          (case model j of
             Inl errors \<Rightarrow> Inl (issues_from_pydantic errors known)
           | Inr output \<Rightarrow> Inr output))"

section \<open>Business rules\<close>

definition text_issue :: "(nat \<Rightarrow> pystr) \<Rightarrow> string \<Rightarrow> pystr \<Rightarrow> output_issue list" where
  "text_issue cf location value =
     (if is_meaningful_text cf value then [] else [mk_issue (ascii location) Invalid_Text])"

definition indexed :: "string \<Rightarrow> nat \<Rightarrow> pystr" where
  "indexed name i = ascii name @ index_text (int i)"

fun value_type_issues :: "nat \<Rightarrow> value_type set \<Rightarrow> value_type list \<Rightarrow> output_issue list" where
  "value_type_issues i seen [] = []"
| "value_type_issues i seen (t # ts) =
     (if t \<in> seen then [mk_issue (indexed ''$.value_types'' i) Business_Rule] else []) @
     value_type_issues (Suc i) (insert t seen) ts"

fun topic_issues :: "pystr set \<Rightarrow> nat \<Rightarrow> pystr set \<Rightarrow> pystr list \<Rightarrow> output_issue list" where
  "topic_issues enabled i seen [] = []"
| "topic_issues enabled i seen (t # ts) =
     (if t \<in> seen \<or> t \<notin> enabled then [mk_issue (indexed ''$.topic_ids'' i) Business_Rule] else []) @
     topic_issues enabled (Suc i) (insert t seen) ts"

definition value_prediction_business_issues ::
    "(nat \<Rightarrow> pystr) \<Rightarrow> value_prediction_output \<Rightarrow> value_prediction_context \<Rightarrow> output_issue list" where
  "value_prediction_business_issues cf output context =
     text_issue cf ''$.research_value_reason_zh'' (vo_research_value_reason_zh output) @
     text_issue cf ''$.reuse_feasibility_reason_zh'' (vo_reuse_feasibility_reason_zh output) @
     text_issue cf ''$.abstract_brief_zh'' (vo_abstract_brief_zh output) @
     text_issue cf ''$.why_it_may_matter_zh'' (vo_why_it_may_matter_zh output) @
     (case vo_display_title_zh output of
        None \<Rightarrow> []
      | Some title \<Rightarrow>
          if vc_original_title_is_zh context
          then [mk_issue (ascii ''$.display_title_zh'') Context_Mismatch]
          else text_issue cf ''$.display_title_zh'' title) @
     (if \<not> vo_reuse_feasibility_inferable output \<and>
         is_meaningful_text cf (vo_reuse_feasibility_reason_zh output) \<and>
         \<not> states_input_is_insufficient cf (vo_reuse_feasibility_reason_zh output)
      then [mk_issue (ascii ''$.reuse_feasibility_reason_zh'') Business_Rule] else []) @
     (if vo_research_value output \<ge> 3 \<and> vo_value_types output = []
      then [mk_issue (ascii ''$.value_types'') Business_Rule] else []) @
     value_type_issues 0 {} (vo_value_types output) @
     topic_issues (vc_enabled_topic_ids context) 0 {} (vo_topic_ids output)"

fun adaptation_issues :: "(nat \<Rightarrow> pystr) \<Rightarrow> nat \<Rightarrow> pystr list \<Rightarrow> output_issue list" where
  "adaptation_issues cf i [] = []"
| "adaptation_issues cf i (a # as) =
     (if is_meaningful_text cf a then []
      else [mk_issue (indexed ''$.required_adaptations'' i) Invalid_Text]) @
     adaptation_issues cf (Suc i) as"

record excerpt_scan =
  es_issues :: "output_issue list"
  es_seen :: "pystr set"
  es_unknown :: bool
  es_kinds :: "excerpt_kind set"

definition excerpt_step ::
    "(pystr \<times> excerpt_kind) list \<Rightarrow> nat \<times> pystr \<Rightarrow> excerpt_scan \<Rightarrow> excerpt_scan" where
  "excerpt_step kinds ie s =
     (let (i, e) = ie; bad = [mk_issue (indexed ''$.excerpt_ids'' i) Business_Rule] in
      if e \<in> es_seen s then s\<lparr>es_issues := es_issues s @ bad\<rparr>
      else
        (case map_of kinds e of
           None \<Rightarrow>
             s\<lparr>es_issues := es_issues s @ bad, es_seen := insert e (es_seen s), es_unknown := True\<rparr>
         | Some k \<Rightarrow>
             s\<lparr>es_seen := insert e (es_seen s), es_kinds := insert k (es_kinds s)\<rparr>))"

definition scan_excerpts :: "(pystr \<times> excerpt_kind) list \<Rightarrow> pystr list \<Rightarrow> excerpt_scan" where
  "scan_excerpts kinds ids =
     fold (excerpt_step kinds) (enumerate 0 ids)
       \<lparr>es_issues = [], es_seen = {}, es_unknown = False, es_kinds = {}\<rparr>"

definition kind_mismatch :: "excerpt_kind \<Rightarrow> excerpt_scan \<Rightarrow> bool" where
  "kind_mismatch kind s =
     (if kind = Both then \<not> es_unknown s \<and> es_kinds s \<noteq> {Availability, Methods}
      else (\<exists>k \<in> es_kinds s. k \<noteq> kind))"

definition reuse_assessment_business_issues ::
    "(nat \<Rightarrow> pystr) \<Rightarrow> reuse_assessment_output \<Rightarrow> reuse_assessment_context \<Rightarrow> output_issue list" where
  "reuse_assessment_business_issues cf output context =
     text_issue cf ''$.reuse_feasibility_reason_zh'' (ro_reuse_feasibility_reason_zh output) @
     adaptation_issues cf 0 (ro_required_adaptations output) @
     (if ro_excerpt_ids output = [] then [mk_issue (ascii ''$.excerpt_ids'') Business_Rule]
      else
        let s = scan_excerpts (rc_excerpt_kinds context) (ro_excerpt_ids output) in
        es_issues s @
        (if kind_mismatch (ro_excerpt_kind output) s
         then [mk_issue (ascii ''$.excerpt_kind'') Business_Rule] else []))"

section \<open>Contexts\<close>

text \<open>A context argument: absent, an instance of one of the two models, a mapping, or
  anything else.\<close>

datatype context_arg =
    No_Context | Value_Context value_prediction_context | Reuse_Context reuse_assessment_context
  | Mapping_Context "(pystr \<times> json) list" | Other_Context

fun value_instance :: "context_arg \<Rightarrow> value_prediction_context option" where
  "value_instance (Value_Context c) = Some c"
| "value_instance _ = None"

fun reuse_instance :: "context_arg \<Rightarrow> reuse_assessment_context option" where
  "reuse_instance (Reuse_Context c) = Some c"
| "reuse_instance _ = None"

definition context_issue :: "pystr set \<Rightarrow> pydantic_error \<Rightarrow> output_issue" where
  "context_issue known e =
     (let category = (if pe_type e = ''missing'' then Missing_Context else Context_Mismatch) in
      mk_issue (safe_location (pe_loc e) category known (ascii ''$.context'')) category)"

definition validate_context ::
    "(context_arg \<Rightarrow> 'c option) \<Rightarrow> context_arg \<Rightarrow> 'c validator \<Rightarrow> pystr set \<Rightarrow> 'c validated" where
  "validate_context instance_of context model known =
     (if context = No_Context then Inl [mk_issue (ascii ''$.context'') Missing_Context]
      else
        (case instance_of context of
           Some c \<Rightarrow> Inr c
         | None \<Rightarrow>
             (case context of
                Mapping_Context kvs \<Rightarrow>
                  (case model (JObj (dict_of kvs)) of
                     Inl errors \<Rightarrow> Inl (map (context_issue known) errors)
                   | Inr c \<Rightarrow> Inr c)
              | _ \<Rightarrow> Inl [mk_issue (ascii ''$.context'') Context_Mismatch])))"

section \<open>validate_output and validate_screening_reason\<close>

record models =
  md_boundary :: "boundary_output validator"
  md_value :: "value_prediction_output validator"
  md_reuse :: "reuse_assessment_output validator"
  md_value_context :: "value_prediction_context validator"
  md_reuse_context :: "reuse_assessment_context validator"
  md_reason :: "reason_input validator"

definition boundary_fields :: "pystr set" where
  "boundary_fields = {ascii ''boundary'', ascii ''reason_zh''}"

definition value_fields :: "pystr set" where
  "value_fields =
     {ascii ''research_value'', ascii ''research_value_reason_zh'', ascii ''reuse_feasibility'',
      ascii ''reuse_feasibility_reason_zh'', ascii ''reuse_feasibility_inferable'',
      ascii ''value_types'', ascii ''topic_ids'', ascii ''display_title_zh'',
      ascii ''abstract_brief_zh'', ascii ''why_it_may_matter_zh''}"

definition reuse_fields :: "pystr set" where
  "reuse_fields =
     {ascii ''reuse_feasibility'', ascii ''reuse_feasibility_reason_zh'',
      ascii ''required_adaptations'', ascii ''excerpt_kind'', ascii ''excerpt_ids''}"

definition value_context_fields :: "pystr set" where
  "value_context_fields = {ascii ''enabled_topic_ids'', ascii ''original_title_is_zh''}"

definition reuse_context_fields :: "pystr set" where
  "reuse_context_fields = {ascii ''excerpt_kinds''}"

definition reason_fields :: "pystr set" where
  "reason_fields = {ascii ''result'', ascii ''source'', ascii ''reason''}"

datatype screening_output =
    Boundary_Out boundary_output | Value_Out value_prediction_output
  | Reuse_Out reuse_assessment_output

record env =
  env_float :: "pystr \<Rightarrow> pystr"
  env_fold :: "nat \<Rightarrow> pystr"
  env_models :: models

definition reject_if :: "output_issue list \<Rightarrow> 'a \<Rightarrow> 'a validated" where
  "reject_if issues output = (if issues \<noteq> [] then Inl issues else Inr output)"

definition validate_value_output ::
    "env \<Rightarrow> payload \<Rightarrow> context_arg \<Rightarrow> value_prediction_output validated" where
  "validate_value_output env payload context =
     and_then (validate_context value_instance context (md_value_context (env_models env)) value_context_fields)
       (\<lambda>c. and_then
          (validate_model (env_float env) (md_value (env_models env)) payload value_fields)
          (\<lambda>out. reject_if (value_prediction_business_issues (env_fold env) out c) out))"

definition validate_reuse_output ::
    "env \<Rightarrow> payload \<Rightarrow> context_arg \<Rightarrow> reuse_assessment_output validated" where
  "validate_reuse_output env payload context =
     and_then (validate_context reuse_instance context (md_reuse_context (env_models env)) reuse_context_fields)
       (\<lambda>c. and_then
          (validate_model (env_float env) (md_reuse (env_models env)) payload reuse_fields)
          (\<lambda>out. reject_if (reuse_assessment_business_issues (env_fold env) out c) out))"

definition validate_boundary_output ::
    "env \<Rightarrow> payload \<Rightarrow> context_arg \<Rightarrow> boundary_output validated" where
  "validate_boundary_output env payload context =
     (if context \<noteq> No_Context \<and> context \<noteq> Mapping_Context []
      then Inl [mk_issue (ascii ''$.context'') Context_Mismatch]
      else
        and_then (validate_model (env_float env) (md_boundary (env_models env)) payload boundary_fields)
          (\<lambda>out. reject_if (text_issue (env_fold env) ''$.reason_zh'' (bo_reason_zh out)) out))"

definition validate_output ::
    "env \<Rightarrow> output_kind option \<Rightarrow> payload \<Rightarrow> context_arg \<Rightarrow> screening_output validated" where
  "validate_output env kind payload context =
     (case kind of
        None \<Rightarrow> Inl [mk_issue (ascii ''$.kind'') Unknown_Kind]
      | Some Kind_Value_Prediction \<Rightarrow>
          map_sum id Value_Out (validate_value_output env payload context)
      | Some Kind_Reuse_Assessment \<Rightarrow>
          map_sum id Reuse_Out (validate_reuse_output env payload context)
      | Some Kind_Boundary \<Rightarrow>
          map_sum id Boundary_Out (validate_boundary_output env payload context))"

fun reason_issue :: "reason_field \<Rightarrow> output_issue" where
  "reason_issue Result_Field =
     \<lparr>oi_location = ascii ''$.result'', oi_category = Business_Rule, oi_guidance =
       [0x8be5, 0x539f, 0x56e0, 0x4e0d, 0x5141, 0x8bb8, 0x4f7f, 0x7528, 0x8fd9, 0x4e2a, 
       0x7ed3, 0x679c, 0xff1b, 0x8bf7, 0x6309, 0x539f, 0x56e0, 0x5951, 0x7ea6, 0x9009, 
       0x62e9, 0x5bf9, 0x5e94, 0x7ed3, 0x679c, 0x3002]\<rparr>"
| "reason_issue Source_Field =
     \<lparr>oi_location = ascii ''$.source'', oi_category = Business_Rule, oi_guidance =
       [0x8be5, 0x539f, 0x56e0, 0x4e0d, 0x5141, 0x8bb8, 0x6765, 0x81ea, 0x8fd9, 0x4e2a, 
       0x5165, 0x53e3, 0xff1b, 0x8bf7, 0x6309, 0x539f, 0x56e0, 0x5951, 0x7ea6, 0x9009, 
       0x62e9, 0x5141, 0x8bb8, 0x6765, 0x6e90, 0x3002]\<rparr>"

text \<open>The final step is \<open>build_screening_reason\<close>, whose own \<open>ValidationError\<close> (\<^term>\<open>None\<close>) would
  escape: the lemma \<open>validate_screening_reason_total\<close> excludes it.\<close>

definition validate_screening_reason :: "env \<Rightarrow> payload \<Rightarrow> combination option validated" where
  "validate_screening_reason env payload =
     and_then (validate_model (env_float env) (md_reason (env_models env)) payload reason_fields)
       (\<lambda>x. if invalid_combination_fields x \<noteq> []
             then Inl (map reason_issue (invalid_combination_fields x))
             else Inr (build_screening_reason x))"

end
