(* ===== verification/Task_Models.thy ===== *)
theory Task_Models
  imports Instants Screening_Output
begin

text \<open>
  The vocabulary of \<open>src/paper_radar/screening_tasks/\<close>: \<open>errors.py\<close>, \<open>models.py\<close>,
  \<open>attempt_models.py\<close>, \<open>success_models.py\<close> and the rows of \<open>tables.py\<close>, with the closed
  reasons of \<open>papers/errors.py\<close> that pass through. Identifiers and digests are strings; the
  free texts of a request are code points; enumerated columns, which a CHECK constraint
  closes, are the enumerations; instants are stored as their texts.
\<close>

section \<open>papers/errors.py and screening_tasks/errors.py\<close>

datatype paper_reason =
    Unsupported_Form | Invalid_Doi | Identity_Conflict | Requires_Merge | Not_Retained
  | Truncation_Unknown | Paper_Database_Busy | Config_Not_Ready | Paper_Corrupt_Reference
  | Missing_Title | Missing_Abstract | Paper_Not_Found | Version_Not_Found
  | Revision_Not_Found | Snapshot_Not_Found | Unsupported_Scheme | Unsupported_Source
  | Unsupported_Field | Unsupported_Relation | Invalid_Observation | Paper_Invalid_Text
  | Missing_Entry_Id | Invalid_Feed_Url | Invalid_Relation | Invalid_Manual_Correction

datatype task_reason =
    Language_Missing | Language_Ambiguous | Task_Not_Found | Already_Retried | Not_Latest
  | Not_Failed | Invalid_Request | Invalid_Context | Context_Conflict | Request_Conflict
  | Request_Not_Found | Facts_Changed | Corrupt_Reference | Database_Busy | Invalid_Clock
  | Task_Running | Budget_Exhausted | Invalid_Credential | Settlement_Conflict
  | Invalid_Failure | Invalid_Candidate | Already_Succeeded | Success_Not_Found
  | Data_Root_Required

text \<open>A \<open>TaskError\<close> with the successor it may name, or a \<open>PaperError\<close> passing through.\<close>

datatype task_error = Task_Error task_reason "string option" | Paper_Error paper_reason

abbreviation fails :: "task_reason \<Rightarrow> (task_error, 'a) outcome" where
  "fails r \<equiv> Inl (Task_Error r None)"

section \<open>models.py, attempt_models.py, success_models.py\<close>

datatype stage = Stage_Boundary | Stage_Value

datatype request_source = Scheduled | Manual | From_Retry

datatype task_state = Ready | Running | Lease_Expired | Retryable | Failed | Succeeded

datatype failure_kind =
    Output_Invalid | Model_Mismatch | Timeout | Cancelled | Protocol_Error | Executor_Error
  | Outcome_Unknown

datatype failure_origin = By_Executor | By_Exception | By_Recovery

datatype executor_kind = Test_Executor | Pi_Rpc

definition lease_seconds :: int where "lease_seconds = 600"

definition attempts_per_generation :: nat where "attempts_per_generation = 2"

text \<open>The dictionary \<open>evidence_values\<close> builds: the paper revision a fact was recorded on.\<close>

record basis =
  bs_version_id :: string
  bs_revision_no :: int
  bs_selection_id :: "string option"

text \<open>A registration or retry request after parsing. The language fact belongs to the value
  stage only; \<open>rq_parent\<close> marks a retry request.\<close>

record request =
  rq_paper_id :: string
  rq_snapshot_id :: string
  rq_stage :: stage
  rq_source :: request_source
  rq_scheduled_day :: "string option"
  rq_request_id :: "pystr option"
  rq_reason :: "pystr option"
  rq_actor :: "pystr option"
  rq_language :: "bool option"
  rq_parent :: "string option"

record receipt =
  rc_receipt_id :: string
  rc_task_id :: string
  rc_budget_id :: string
  rc_paper_id :: string
  rc_stage :: stage
  rc_fingerprint :: string
  rc_generation :: nat
  rc_source :: request_source
  rc_basis :: basis
  rc_snapshot_id :: string
  rc_scheduled_day :: "string option"
  rc_cached_success_id :: "string option"

record failure_receipt =
  fr_task_id :: string
  fr_attempt_no :: nat
  fr_kind :: failure_kind
  fr_origin :: failure_origin
  fr_settled_at :: instant
  fr_issues :: "output_issue list"

record claim =
  cl_task_id :: string
  cl_attempt_no :: nat
  cl_receipt_id :: string
  cl_claimed_at :: instant
  cl_expires_at :: instant
  cl_basis :: basis
  cl_credential :: string
  cl_renewal_handle :: string

record task_status =
  ts_task_id :: string
  ts_state :: task_state
  ts_used_attempts :: nat
  ts_remaining_attempts :: nat
  ts_last_failure :: "failure_kind option"

record success_receipt =
  sr_success_id :: string
  sr_task_id :: string
  sr_attempt_no :: nat
  sr_artifact_id :: string
  sr_fingerprint :: string
  sr_stage :: stage
  sr_executor_kind :: executor_kind
  sr_settled_at :: instant

section \<open>tables.py: rows\<close>

record input_rec =
  in_fingerprint :: string
  in_stage :: stage
  in_payload :: "nat list"
  in_format_version :: nat

record budget_rec =
  bg_budget_id :: string
  bg_paper_id :: string
  bg_stage :: stage
  bg_fingerprint :: string
  bg_snapshot_id :: string
  bg_basis :: basis
  bg_language :: "bool option"

record task_rec =
  tk_task_id :: string
  tk_budget_id :: string
  tk_generation :: nat
  tk_parent :: "string option"

record request_rec =
  re_receipt_id :: string
  re_request_id :: "pystr option"
  re_sha256 :: string
  re_task_id :: string
  re_source :: request_source
  re_snapshot_id :: string
  re_basis :: basis
  re_scheduled_day :: "string option"
  re_cached_success_id :: "string option"
  re_reason :: "pystr option"
  re_actor :: "pystr option"

record attempt_rec =
  at_task_id :: string
  at_attempt_no :: nat
  at_receipt_id :: string
  at_basis :: basis
  at_claimed_at :: string
  at_credential :: string
  at_renewal :: string

record lease_rec =
  ls_task_id :: string
  ls_attempt_no :: nat
  ls_expires_at :: string

record failure_rec =
  fl_task_id :: string
  fl_attempt_no :: nat
  fl_issues_json :: "pystr option"
  fl_submission :: "string option"
  fl_audit_json :: "pystr option"
  fl_kind :: failure_kind
  fl_origin :: failure_origin
  fl_settled_at :: string

record success_rec =
  su_success_id :: string
  su_budget_id :: string
  su_task_id :: string
  su_attempt_no :: nat
  su_artifact_id :: string
  su_structured_json :: pystr
  su_submission :: string
  su_audit_json :: pystr
  su_settled_at :: string

record task_db =
  db_inputs :: "input_rec list"
  db_budgets :: "budget_rec list"
  db_tasks :: "task_rec list"
  db_requests :: "request_rec list"
  db_attempts :: "attempt_rec list"
  db_leases :: "lease_rec list"
  db_failures :: "failure_rec list"
  db_successes :: "success_rec list"

text \<open>The row \<open>read_attempts\<close> assembles by its outer joins.\<close>

record attempt_row =
  ar_attempt :: attempt_rec
  ar_expires_at :: "string option"
  ar_kind :: "failure_kind option"
  ar_origin :: "failure_origin option"
  ar_settled_at :: "string option"
  ar_issues_json :: "pystr option"
  ar_success_id :: "string option"

abbreviation ar_no :: "attempt_row \<Rightarrow> nat" where
  "ar_no r \<equiv> at_attempt_no (ar_attempt r)"

end
