(* ===== verification/Keyed_Tables.thy ===== *)
theory Keyed_Tables
  imports Prelude
begin

text \<open>
  Tables as lists of rows in insertion order, read by key. The locale \<open>keyed_table\<close> is the
  interface between the repositories and the database engine: an insertion that succeeds
  appends a row whose key was absent, and leaves every other table alone. Its consequences
  (lookups after an insertion, distinct keys, rows never lost) are proved once and
  interpreted for every table of the model. The locale \<open>unique_column\<close> is the same contract
  for a UNIQUE constraint.
\<close>

definition lookup :: "('r \<Rightarrow> 'k) \<Rightarrow> 'r list \<Rightarrow> 'k \<Rightarrow> 'r option" where
  "lookup key rows k = find (\<lambda>r. key r = k) rows"

definition key_free :: "('r \<Rightarrow> 'k) \<Rightarrow> 'r list \<Rightarrow> 'k \<Rightarrow> bool" where
  "key_free key rows k \<longleftrightarrow> (\<forall>r \<in> set rows. key r \<noteq> k)"

lemma lookup_Nil [simp]: "lookup key [] k = None"
  by (simp add: lookup_def)

lemma lookup_append:
  "lookup key (rows @ [r]) k =
     (case lookup key rows k of Some x \<Rightarrow> Some x | None \<Rightarrow> if key r = k then Some r else None)"
  by (simp add: lookup_def find_append split: option.split)

lemma lookup_Some: "lookup key rows k = Some r \<Longrightarrow> r \<in> set rows \<and> key r = k"
  unfolding lookup_def by (rule find_Some_set)

lemma lookup_None: "lookup key rows k = None \<longleftrightarrow> key_free key rows k"
  by (simp add: lookup_def key_free_def find_None_set)

lemma lookup_key_free [simp]: "key_free key rows k \<Longrightarrow> lookup key rows k = None"
  by (simp add: lookup_None)

lemma lookup_append_free:
  "key_free key rows (key r) \<Longrightarrow>
     lookup key (rows @ [r]) k = (if k = key r then Some r else lookup key rows k)"
  by (auto simp: lookup_append lookup_None [symmetric] split: option.splits dest: lookup_Some)

lemma lookup_distinct:
  "distinct (map key rows) \<Longrightarrow> lookup key rows k = Some r \<longleftrightarrow> r \<in> set rows \<and> key r = k"
  unfolding lookup_def using find_distinct_key find_Some_set by fastforce

lemma key_free_append [simp]:
  "key_free key (rows @ [r]) k \<longleftrightarrow> key_free key rows k \<and> key r \<noteq> k"
  by (auto simp: key_free_def)

lemma distinct_append_free:
  "distinct (map key (rows @ [r])) \<longleftrightarrow> distinct (map key rows) \<and> key_free key rows (key r)"
  by (auto simp: key_free_def image_iff)

section \<open>The interface\<close>

locale keyed_table =
  fixes rows :: "'db \<Rightarrow> 'r list"
    and key :: "'r \<Rightarrow> 'k"
    and insert_row :: "'r \<Rightarrow> 'db \<Rightarrow> ('e, 'db) outcome"
  assumes rows_insert: "insert_row r db = Inr db' \<Longrightarrow> rows db' = rows db @ [r]"
    and insert_fresh: "insert_row r db = Inr db' \<Longrightarrow> key_free key (rows db) (key r)"
begin

lemma lookup_insert:
  "insert_row r db = Inr db' \<Longrightarrow>
     lookup key (rows db') k = (if k = key r then Some r else lookup key (rows db) k)"
  by (simp add: rows_insert insert_fresh lookup_append_free)

lemma lookup_kept:
  "insert_row r db = Inr db' \<Longrightarrow> lookup key (rows db) k = Some x \<Longrightarrow>
     lookup key (rows db') k = Some x"
  using insert_fresh [of r db db'] by (auto simp: lookup_insert)

lemma rows_kept: "insert_row r db = Inr db' \<Longrightarrow> set (rows db) \<subseteq> set (rows db')"
  by (auto simp: rows_insert)

lemma distinct_insert:
  "insert_row r db = Inr db' \<Longrightarrow> distinct (map key (rows db)) \<Longrightarrow> distinct (map key (rows db'))"
  by (simp add: rows_insert insert_fresh distinct_append_free del: map_append)

lemma insert_twice: "insert_row r db = Inr db' \<Longrightarrow> \<exists>e. insert_row r db' = Inl e"
  by (cases "insert_row r db'") (auto dest: insert_fresh simp: rows_insert)

end

locale unique_column =
  fixes rows :: "'db \<Rightarrow> 'r list"
    and column :: "'r \<Rightarrow> 'k"
    and insert_row :: "'r \<Rightarrow> 'db \<Rightarrow> ('e, 'db) outcome"
  assumes column_rows: "insert_row r db = Inr db' \<Longrightarrow> rows db' = rows db @ [r]"
    and column_fresh: "insert_row r db = Inr db' \<Longrightarrow> key_free column (rows db) (column r)"

sublocale unique_column \<subseteq> col: keyed_table rows column insert_row
  by unfold_locales (rule column_rows column_fresh; assumption)+

end
