(* ===== verification/Task_Store.thy ===== *)
theory Task_Store
  imports Task_Models Keyed_Tables
begin

text \<open>
  The screening database: the insertions of \<open>tables.py\<close> with the constraints SQLite enforces
  inside the model (primary keys, UNIQUE, CHECK, foreign keys between the modelled tables;
  the references to paper and configuration tables are outside), the connection-level reads
  of \<open>repository.py\<close> and \<open>attempt_repository.py\<close>, and transactions. A violated constraint is
  an \<open>IntegrityError\<close>, which \<open>database_errors.py\<close> turns into \<open>CORRUPT_REFERENCE\<close>; the busy
  outcome of a locked file is not a state of the model.
\<close>

section \<open>Keys\<close>

abbreviation at_key :: "attempt_rec \<Rightarrow> string \<times> nat" where
  "at_key a \<equiv> (at_task_id a, at_attempt_no a)"
abbreviation ls_key :: "lease_rec \<Rightarrow> string \<times> nat" where
  "ls_key l \<equiv> (ls_task_id l, ls_attempt_no l)"
abbreviation fl_key :: "failure_rec \<Rightarrow> string \<times> nat" where
  "fl_key f \<equiv> (fl_task_id f, fl_attempt_no f)"
abbreviation su_key :: "success_rec \<Rightarrow> string \<times> nat" where
  "su_key s \<equiv> (su_task_id s, su_attempt_no s)"
abbreviation bg_key :: "budget_rec \<Rightarrow> string \<times> stage \<times> string" where
  "bg_key b \<equiv> (bg_paper_id b, bg_stage b, bg_fingerprint b)"
abbreviation tk_key :: "task_rec \<Rightarrow> string \<times> nat" where
  "tk_key t \<equiv> (tk_budget_id t, tk_generation t)"

section \<open>Insertions\<close>

definition enforce :: "bool \<Rightarrow> task_db \<Rightarrow> (task_error, task_db) outcome" where
  "enforce constraint db = (if constraint then Inr db else fails Corrupt_Reference)"

lemma enforce_Inr [simp]: "enforce c db = Inr db' \<longleftrightarrow> c \<and> db' = db"
  by (auto simp: enforce_def)

definition insert_input :: "input_rec \<Rightarrow> task_db \<Rightarrow> (task_error, task_db) outcome" where
  "insert_input r db =
     enforce (key_free in_fingerprint (db_inputs db) (in_fingerprint r) \<and> in_format_version r = 1)
       (db\<lparr>db_inputs := db_inputs db @ [r]\<rparr>)"

definition insert_budget :: "budget_rec \<Rightarrow> task_db \<Rightarrow> (task_error, task_db) outcome" where
  "insert_budget r db =
     enforce
       (key_free bg_budget_id (db_budgets db) (bg_budget_id r) \<and>
        key_free bg_key (db_budgets db) (bg_key r) \<and>
        \<not> key_free in_fingerprint (db_inputs db) (bg_fingerprint r) \<and>
        (bg_language r = None \<longleftrightarrow> bg_stage r = Stage_Boundary))
       (db\<lparr>db_budgets := db_budgets db @ [r]\<rparr>)"

text \<open>NULL never violates UNIQUE: \<open>free_opt\<close>.\<close>

definition free_opt :: "('r \<Rightarrow> 'k option) \<Rightarrow> 'r list \<Rightarrow> 'k option \<Rightarrow> bool" where
  "free_opt key rows k \<longleftrightarrow> k = None \<or> key_free key rows k"

definition insert_task :: "task_rec \<Rightarrow> task_db \<Rightarrow> (task_error, task_db) outcome" where
  "insert_task r db =
     enforce
       (key_free tk_task_id (db_tasks db) (tk_task_id r) \<and>
        key_free tk_key (db_tasks db) (tk_key r) \<and>
        free_opt tk_parent (db_tasks db) (tk_parent r) \<and>
        \<not> key_free bg_budget_id (db_budgets db) (tk_budget_id r) \<and>
        (\<forall>p \<in> set_option (tk_parent r). \<not> key_free tk_task_id (db_tasks db) p))
       (db\<lparr>db_tasks := db_tasks db @ [r]\<rparr>)"

definition request_shape :: "request_rec \<Rightarrow> bool" where
  "request_shape r \<longleftrightarrow>
     (if re_source r = Scheduled
      then re_scheduled_day r \<noteq> None \<and> re_request_id r = None \<and> re_reason r = None \<and>
        re_actor r = None
      else re_scheduled_day r = None \<and> re_request_id r \<noteq> None \<and> re_reason r \<noteq> None \<and>
        re_actor r \<noteq> None)"

definition insert_request :: "request_rec \<Rightarrow> task_db \<Rightarrow> (task_error, task_db) outcome" where
  "insert_request r db =
     enforce
       (key_free re_receipt_id (db_requests db) (re_receipt_id r) \<and>
        free_opt re_request_id (db_requests db) (re_request_id r) \<and>
        \<not> key_free tk_task_id (db_tasks db) (re_task_id r) \<and>
        (\<forall>s \<in> set_option (re_cached_success_id r). \<not> key_free su_success_id (db_successes db) s) \<and>
        request_shape r)
       (db\<lparr>db_requests := db_requests db @ [r]\<rparr>)"

definition insert_attempt :: "attempt_rec \<Rightarrow> task_db \<Rightarrow> (task_error, task_db) outcome" where
  "insert_attempt r db =
     enforce
       (key_free at_key (db_attempts db) (at_key r) \<and>
        key_free at_credential (db_attempts db) (at_credential r) \<and>
        key_free at_renewal (db_attempts db) (at_renewal r) \<and>
        \<not> key_free tk_task_id (db_tasks db) (at_task_id r) \<and>
        \<not> key_free re_receipt_id (db_requests db) (at_receipt_id r) \<and>
        at_attempt_no r \<in> {1, 2})
       (db\<lparr>db_attempts := db_attempts db @ [r]\<rparr>)"

definition insert_lease :: "lease_rec \<Rightarrow> task_db \<Rightarrow> (task_error, task_db) outcome" where
  "insert_lease r db =
     enforce (key_free ls_key (db_leases db) (ls_key r) \<and> \<not> key_free at_key (db_attempts db) (ls_key r))
       (db\<lparr>db_leases := db_leases db @ [r]\<rparr>)"

definition insert_failure :: "failure_rec \<Rightarrow> task_db \<Rightarrow> (task_error, task_db) outcome" where
  "insert_failure r db =
     enforce (key_free fl_key (db_failures db) (fl_key r) \<and> \<not> key_free at_key (db_attempts db) (fl_key r))
       (db\<lparr>db_failures := db_failures db @ [r]\<rparr>)"

definition insert_success :: "success_rec \<Rightarrow> task_db \<Rightarrow> (task_error, task_db) outcome" where
  "insert_success r db =
     enforce
       (key_free su_success_id (db_successes db) (su_success_id r) \<and>
        key_free su_budget_id (db_successes db) (su_budget_id r) \<and>
        key_free su_key (db_successes db) (su_key r) \<and>
        \<not> key_free bg_budget_id (db_budgets db) (su_budget_id r) \<and>
        \<not> key_free at_key (db_attempts db) (su_key r))
       (db\<lparr>db_successes := db_successes db @ [r]\<rparr>)"

text \<open>The one UPDATE of the package: the lease of one attempt.\<close>

definition update_lease :: "string \<Rightarrow> nat \<Rightarrow> string \<Rightarrow> task_db \<Rightarrow> task_db" where
  "update_lease t n e db =
     db\<lparr>db_leases := map (\<lambda>l. if ls_key l = (t, n) then l\<lparr>ls_expires_at := e\<rparr> else l) (db_leases db)\<rparr>"

lemmas insert_defs = insert_input_def insert_budget_def insert_task_def insert_request_def
  insert_attempt_def insert_lease_def insert_failure_def insert_success_def

interpretation inputs: keyed_table db_inputs in_fingerprint insert_input
  by unfold_locales (auto simp: insert_input_def)
interpretation budgets: keyed_table db_budgets bg_budget_id insert_budget
  by unfold_locales (auto simp: insert_budget_def)
interpretation budget_key: unique_column db_budgets bg_key insert_budget
  by unfold_locales (auto simp: insert_budget_def)
interpretation tasks: keyed_table db_tasks tk_task_id insert_task
  by unfold_locales (auto simp: insert_task_def)
interpretation task_key: unique_column db_tasks tk_key insert_task
  by unfold_locales (auto simp: insert_task_def)
interpretation requests: keyed_table db_requests re_receipt_id insert_request
  by unfold_locales (auto simp: insert_request_def)
interpretation attempts: keyed_table db_attempts at_key insert_attempt
  by unfold_locales (auto simp: insert_attempt_def)
interpretation credentials: unique_column db_attempts at_credential insert_attempt
  by unfold_locales (auto simp: insert_attempt_def)
interpretation renewals: unique_column db_attempts at_renewal insert_attempt
  by unfold_locales (auto simp: insert_attempt_def)
interpretation leases: keyed_table db_leases ls_key insert_lease
  by unfold_locales (auto simp: insert_lease_def)
interpretation failures: keyed_table db_failures fl_key insert_failure
  by unfold_locales (auto simp: insert_failure_def)
interpretation successes: keyed_table db_successes su_success_id insert_success
  by unfold_locales (auto simp: insert_success_def)
interpretation success_budget: unique_column db_successes su_budget_id insert_success
  by unfold_locales (auto simp: insert_success_def)
interpretation success_key: unique_column db_successes su_key insert_success
  by unfold_locales (auto simp: insert_success_def)

end
