(* ===== verification/Task_Rules.thy ===== *)
theory Task_Rules
  imports Task_Store
begin

text \<open>
  \<open>attempt_rules.py\<close>, the issue codec of \<open>success_rules.py\<close>, the connection-level reads of
  \<open>attempt_repository.py\<close> and \<open>repository.py\<close>, and transactions. SHA-256 is the parameter
  \<open>sha\<close> on bytes. A stored text that does not parse raises \<open>ValueError\<close> or \<open>TypeError\<close>, which
  the connection manager turns into \<open>CORRUPT_REFERENCE\<close>.
\<close>

section \<open>Clock and texts\<close>

text \<open>What one call of the injected clock does: no clock, an exception, a value that is not
  an aware UTC datetime, or a UTC instant.\<close>

datatype clock_reading = No_Clock | Clock_Raises | Not_Utc | Utc instant

fun utc_now :: "clock_reading \<Rightarrow> (task_error, instant) outcome" where
  "utc_now (Utc t) = Inr t"
| "utc_now _ = fails Invalid_Clock"

definition lease_span :: int where "lease_span = lease_seconds * 1000000"

definition lease_expiry :: "instant \<Rightarrow> (task_error, instant) outcome" where
  "lease_expiry now =
     (if now + lease_span \<le> max_instant then Inr (now + lease_span) else fails Invalid_Clock)"

definition stored_instant :: "string option \<Rightarrow> (task_error, instant) outcome" where
  "stored_instant v = or_raise (Option.bind v read_timestamp) (Task_Error Corrupt_Reference None)"

definition hex_char :: "char \<Rightarrow> bool" where
  "hex_char c \<longleftrightarrow> (48 \<le> (of_char c :: nat) \<and> of_char c \<le> (57 :: nat)) \<or>
     (97 \<le> (of_char c :: nat) \<and> of_char c \<le> (102 :: nat))"

definition hex64 :: "string \<Rightarrow> bool" where
  "hex64 v \<longleftrightarrow> length v = 64 \<and> list_all hex_char v"

definition digest :: "(nat list \<Rightarrow> string) \<Rightarrow> string \<Rightarrow> string" where
  "digest sha v = sha (map of_char v)"

definition executor_failures :: "failure_kind set" where
  "executor_failures = {Timeout, Cancelled, Protocol_Error, Executor_Error}"

definition is_executor_failure :: "failure_kind \<Rightarrow> bool" where
  "is_executor_failure k \<longleftrightarrow> k \<in> executor_failures"

section \<open>The issue codec\<close>

fun category_value :: "output_error_category \<Rightarrow> string" where
  "category_value Unknown_Kind = ''unknown_kind''"
| "category_value Invalid_Json = ''invalid_json''"
| "category_value Missing_Field = ''missing_field''"
| "category_value Extra_Field = ''extra_field''"
| "category_value Invalid_Type = ''invalid_type''"
| "category_value Invalid_Enum = ''invalid_enum''"
| "category_value Invalid_Text = ''invalid_text''"
| "category_value Missing_Context = ''missing_context''"
| "category_value Context_Mismatch = ''context_mismatch''"
| "category_value Business_Rule = ''business_rule''"

definition all_categories :: "output_error_category list" where
  "all_categories =
     [Unknown_Kind, Invalid_Json, Missing_Field, Extra_Field, Invalid_Type, Invalid_Enum,
      Invalid_Text, Missing_Context, Context_Mismatch, Business_Rule]"

definition category_of :: "pystr \<Rightarrow> output_error_category option" where
  "category_of v = find (\<lambda>c. ascii (category_value c) = v) all_categories"

definition issue_json :: "output_issue \<Rightarrow> json" where
  "issue_json i =
     JObj [(ascii ''location'', JStr (oi_location i)),
           (ascii ''category'', JStr (ascii (category_value (oi_category i))))]"

text \<open>\<open>canonical(..).decode()\<close>; the outer option is its \<open>ValueError\<close>.\<close>

definition encode_issues :: "output_issue list \<Rightarrow> pystr option option" where
  "encode_issues issues =
     (if issues = [] then Some None
      else map_option Some (canonical (JArr (map issue_json issues))))"

text \<open>\<open>\$(?:\.(?:names)|\[\d+\])*\<close> as a full match; \<open>\d\<close> is the class \<open>nd\<close> of decimal digits.\<close>

function legal_parts :: "(nat \<Rightarrow> bool) \<Rightarrow> pystr list \<Rightarrow> pystr \<Rightarrow> bool" where
  "legal_parts nd names s =
     (case s of
        [] \<Rightarrow> True
      | c # t \<Rightarrow>
          if c = 46 then
            list_ex (\<lambda>n. prefix n t \<and> legal_parts nd names (drop (length n) t)) names
          else if c = 91 then
            takeWhile nd t \<noteq> [] \<and>
            (case dropWhile nd t of
               d # u \<Rightarrow> d = 93 \<and> legal_parts nd names u
             | [] \<Rightarrow> False)
          else False)"
  by pat_completeness auto
termination
proof (relation "measure (\<lambda>(nd, names, s). length s)", goal_cases)
  case (3 nd names s c t d u)
  have "length (dropWhile nd t) \<le> length t" by (rule length_dropWhile_le)
  with 3 show ?case by simp
qed auto

declare legal_parts.simps [simp del]

definition legal_location :: "(nat \<Rightarrow> bool) \<Rightarrow> pystr list \<Rightarrow> pystr \<Rightarrow> bool" where
  "legal_location nd names s =
     (case s of c # t \<Rightarrow> c = 36 \<and> legal_parts nd names t | [] \<Rightarrow> False)"

definition boundary_names :: "pystr list" where
  "boundary_names = [ascii ''boundary'', ascii ''reason_zh'']"

definition value_names :: "pystr list" where
  "value_names =
     [ascii ''research_value'', ascii ''research_value_reason_zh'', ascii ''reuse_feasibility'',
      ascii ''reuse_feasibility_reason_zh'', ascii ''reuse_feasibility_inferable'',
      ascii ''value_types'', ascii ''topic_ids'', ascii ''display_title_zh'',
      ascii ''abstract_brief_zh'', ascii ''why_it_may_matter_zh'']"

definition location_names :: "stage option \<Rightarrow> pystr list" where
  "location_names st =
     (case st of
        Some Stage_Boundary \<Rightarrow> boundary_names
      | Some Stage_Value \<Rightarrow> value_names
      | None \<Rightarrow> boundary_names @ value_names) @ [extra_field_mask]"

definition frozen_guidance :: pystr where
  "frozen_guidance =
     [0x8bf7, 0x6309, 0x51bb, 0x7ed3, 0x5951, 0x7ea6, 0x4fee, 0x6b63, 0x8be5, 0x5b57, 0x6bb5,
      0x3002]"

definition decode_issue :: "(nat \<Rightarrow> bool) \<Rightarrow> stage option \<Rightarrow> json \<Rightarrow> output_issue option" where
  "decode_issue nd st j =
     (case j of
        JObj kvs \<Rightarrow>
          (if set (map fst kvs) = {ascii ''location'', ascii ''category''} then
             (case (map_of kvs (ascii ''location''), map_of kvs (ascii ''category'')) of
                (Some (JStr l), Some (JStr c)) \<Rightarrow>
                  if legal_location nd (location_names st) l then
                    map_option (\<lambda>cat. \<lparr>oi_location = l, oi_category = cat, oi_guidance = frozen_guidance\<rparr>)
                      (category_of c)
                  else None
              | _ \<Rightarrow> None)
           else None)
      | _ \<Rightarrow> None)"

text \<open>The default hooks of \<open>json.loads\<close>: the last of repeated keys wins, constants are read.\<close>

definition plain_hooks :: hooks where
  "plain_hooks = \<lparr>hk_float = id, hk_unique = False, hk_finite = False\<rparr>"

definition decode_issues ::
    "(nat \<Rightarrow> bool) \<Rightarrow> stage option \<Rightarrow> pystr option \<Rightarrow> (task_error, output_issue list) outcome" where
  "decode_issues nd st v =
     (case v of
        None \<Rightarrow> Inr []
      | Some t \<Rightarrow>
          (case loads plain_hooks t of
             Some (JArr js) \<Rightarrow>
               (case all_some (map (decode_issue nd st) js) of
                  Some issues \<Rightarrow>
                    if js \<noteq> [] \<and> encode_issues issues = Some (Some t) then Inr issues
                    else fails Corrupt_Reference
                | None \<Rightarrow> fails Corrupt_Reference)
           | _ \<Rightarrow> fails Corrupt_Reference))"

section \<open>Connection-level reads\<close>

text \<open>\<open>read_attempts\<close>: the attempts of a task with their lease, failure and success, in
  attempt order, and the consistency tests on the result.\<close>

definition join_attempt :: "task_db \<Rightarrow> attempt_rec \<Rightarrow> attempt_row" where
  "join_attempt db a =
     (let f = lookup fl_key (db_failures db) (at_key a) in
      \<lparr>ar_attempt = a,
       ar_expires_at = map_option ls_expires_at (lookup ls_key (db_leases db) (at_key a)),
       ar_kind = map_option fl_kind f, ar_origin = map_option fl_origin f,
       ar_settled_at = map_option fl_settled_at f,
       ar_issues_json = Option.bind f fl_issues_json,
       ar_success_id = map_option su_success_id (lookup su_key (db_successes db) (at_key a))\<rparr>)"

definition attempt_rows :: "task_db \<Rightarrow> string \<Rightarrow> attempt_row list" where
  "attempt_rows db t =
     map (join_attempt db)
       (sort_key at_attempt_no (filter (\<lambda>a. at_task_id a = t) (db_attempts db)))"

definition consistent_rows :: "attempt_row list \<Rightarrow> bool" where
  "consistent_rows rows \<longleftrightarrow>
     list_all (\<lambda>r. ar_expires_at r \<noteq> None) rows \<and>
     map ar_no rows = [1 ..< length rows + 1] \<and> length rows \<le> attempts_per_generation \<and>
     list_all (\<lambda>r. \<not> (ar_success_id r \<noteq> None \<and> ar_kind r \<noteq> None)) rows \<and>
     list_all (\<lambda>r. ar_kind r \<noteq> None) (butlast rows)"

definition read_attempts :: "task_db \<Rightarrow> string \<Rightarrow> (task_error, attempt_row list) outcome" where
  "read_attempts db t =
     (let rows = attempt_rows db t in
      if consistent_rows rows then Inr rows else fails Corrupt_Reference)"

text \<open>\<open>receipt_row\<close> and \<open>to_receipt\<close>: the request joined with its task and budget. The columns
  of the request that the receipt does not carry stay in the row.\<close>

definition receipt_row :: "task_db \<Rightarrow> string \<Rightarrow> (request_rec \<times> task_rec \<times> budget_rec) option" where
  "receipt_row db identifier =
     Option.bind (lookup re_receipt_id (db_requests db) identifier) (\<lambda>r.
     Option.bind (lookup tk_task_id (db_tasks db) (re_task_id r)) (\<lambda>t.
     Option.bind (lookup bg_budget_id (db_budgets db) (tk_budget_id t)) (\<lambda>b.
       Some (r, t, b))))"

text \<open>\<open>str(UUID(value)) == value\<close>: the canonical text of a UUID.\<close>

definition canonical_uuid :: "string \<Rightarrow> bool" where
  "canonical_uuid v \<longleftrightarrow>
     length v = 36 \<and>
     list_all (\<lambda>(i, c). if i \<in> {8, 13, 18, 23} then c = CHR ''-'' else hex_char c) (enumerate 0 v)"

definition to_receipt :: "request_rec \<times> task_rec \<times> budget_rec \<Rightarrow> (task_error, receipt) outcome" where
  "to_receipt row =
     (let (r, t, b) = row in
      if \<forall>s \<in> set_option (re_cached_success_id r). canonical_uuid s then
        Inr \<lparr>rc_receipt_id = re_receipt_id r, rc_task_id = re_task_id r,
          rc_budget_id = tk_budget_id t, rc_paper_id = bg_paper_id b, rc_stage = bg_stage b,
          rc_fingerprint = bg_fingerprint b, rc_generation = tk_generation t,
          rc_source = re_source r, rc_basis = re_basis r, rc_snapshot_id = re_snapshot_id r,
          rc_scheduled_day = re_scheduled_day r,
          rc_cached_success_id = re_cached_success_id r\<rparr>
      else fails Corrupt_Reference)"

section \<open>Status and corrections\<close>

definition require_attempt_time :: "attempt_row \<Rightarrow> instant \<Rightarrow> (task_error, unit) outcome" where
  "require_attempt_time row now =
     and_then (stored_instant (Some (at_claimed_at (ar_attempt row)))) (\<lambda>claimed.
       require (\<not> now < claimed) (Task_Error Invalid_Clock None))"

definition last_row :: "attempt_row list \<Rightarrow> attempt_row option" where
  "last_row rows = (if rows = [] then None else Some (last rows))"

definition derive_status ::
    "string \<Rightarrow> attempt_row list \<Rightarrow> instant \<Rightarrow> (task_error, task_status) outcome" where
  "derive_status t rows now =
     (let status = (\<lambda>st lf. \<lparr>ts_task_id = t, ts_state = st, ts_used_attempts = length rows,
            ts_remaining_attempts = attempts_per_generation - length rows, ts_last_failure = lf\<rparr>) in
      case last_row rows of
        None \<Rightarrow> Inr (status Ready None)
      | Some r \<Rightarrow>
          if ar_success_id r \<noteq> None then Inr (status Succeeded None)
          else
            (case ar_kind r of
               Some k \<Rightarrow>
                 Inr (status (if length rows = attempts_per_generation then Failed else Retryable)
                   (Some k))
             | None \<Rightarrow>
                 and_then (stored_instant (ar_expires_at r)) (\<lambda>expires.
                   Inr (status (if now \<ge> expires then Lease_Expired else Running)
                     (if length rows > 1 then ar_kind (rows ! (length rows - 2)) else None)))))"

fun correction_message :: "failure_kind \<Rightarrow> pystr" where
  "correction_message Output_Invalid =
     [0x4e0a, 0x6b21, 0x8f93, 0x51fa, 0x672a, 0x901a, 0x8fc7, 0x9a8c, 0x8bc1, 0x2c, 
       0x8bf7, 0x9075, 0x5b88, 0x51bb, 0x7ed3, 0x7684, 0x8f93, 0x51fa, 0x5951, 0x7ea6, 
       0x3002]"
| "correction_message Model_Mismatch =
     [0x4e0a, 0x6b21, 0x6a21, 0x578b, 0x8eab, 0x4efd, 0x4e0d, 0x5339, 0x914d, 0x2c, 
       0x8bf7, 0x4f7f, 0x7528, 0x51bb, 0x7ed3, 0x7684, 0x6a21, 0x578b, 0x914d, 0x7f6e, 
       0x3002]"
| "correction_message Timeout =
     [0x4e0a, 0x6b21, 0x6267, 0x884c, 0x8d85, 0x65f6, 0x2c, 0x8bf7, 0x5728, 0x53d7, 
       0x652f, 0x6301, 0x7684, 0x6267, 0x884c, 0x65f6, 0x9650, 0x5185, 0x5b8c, 0x6210, 
       0x3002]"
| "correction_message Cancelled =
     [0x4e0a, 0x6b21, 0x6267, 0x884c, 0x5df2, 0x53d6, 0x6d88, 0x2c, 0x8bf7, 0x91cd, 
       0x65b0, 0x5b8c, 0x6210, 0x672c, 0x6b21, 0x51bb, 0x7ed3, 0x8f93, 0x5165, 0x3002]"
| "correction_message Protocol_Error =
     [0x4e0a, 0x6b21, 0x6267, 0x884c, 0x672a, 0x9075, 0x5b88, 0x8f93, 0x51fa, 0x534f, 
       0x8bae, 0x2c, 0x8bf7, 0x9075, 0x5b88, 0x51bb, 0x7ed3, 0x7684, 0x8f93, 0x51fa, 
       0x5951, 0x7ea6, 0x3002]"
| "correction_message Executor_Error =
     [0x4e0a, 0x6b21, 0x6267, 0x884c, 0x8005, 0x5f02, 0x5e38, 0x2c, 0x8bf7, 0x91cd, 
       0x65b0, 0x5b8c, 0x6210, 0x672c, 0x6b21, 0x51bb, 0x7ed3, 0x8f93, 0x5165, 0x3002]"
| "correction_message Outcome_Unknown =
     [0x4e0a, 0x6b21, 0x6267, 0x884c, 0x7ed3, 0x679c, 0x672a, 0x77e5, 0x2c, 0x8bf7, 
       0x91cd, 0x65b0, 0x5b8c, 0x6210, 0x672c, 0x6b21, 0x51bb, 0x7ed3, 0x8f93, 0x5165, 
       0x3002]"

definition issue_summary :: "output_issue \<Rightarrow> pystr" where
  "issue_summary i =
     oi_location i @ ascii '' ['' @ ascii (category_value (oi_category i)) @ ascii '']''"

definition summaries :: "output_issue list \<Rightarrow> pystr" where
  "summaries issues =
     (case map issue_summary issues of [] \<Rightarrow> [] | x # xs \<Rightarrow> x @ concat (map (\<lambda>y. ascii ''; '' @ y) xs))"

text \<open>\<open>_correction\<close>: the message of the last failure with its issues; a recovery in progress
  replaces it by the message of an unknown outcome.\<close>

definition correction_text ::
    "(nat \<Rightarrow> bool) \<Rightarrow> attempt_row list \<Rightarrow> bool \<Rightarrow> (task_error, pystr option) outcome" where
  "correction_text nd rows recover =
     and_then
       (case find (\<lambda>r. ar_kind r \<noteq> None) (rev rows) of
          None \<Rightarrow> Inr None
        | Some p \<Rightarrow>
            (case ar_kind p of
               None \<Rightarrow> Inr None
             | Some k \<Rightarrow>
                 and_then (decode_issues nd None (ar_issues_json p)) (\<lambda>issues.
                   Inr (Some (if issues = [] then correction_message k
                              else correction_message k @ ascii '' '' @ summaries issues)))))
       (\<lambda>message.
          Inr (if recover \<and> rows \<noteq> [] \<and> ar_kind (last rows) = None
               then Some (correction_message Outcome_Unknown) else message))"

section \<open>Settled rows and credentials\<close>

definition failure_receipt_of :: "(nat \<Rightarrow> bool) \<Rightarrow> attempt_row \<Rightarrow> (task_error, failure_receipt) outcome" where
  "failure_receipt_of nd row =
     (case (ar_kind row, ar_origin row, ar_settled_at row) of
        (Some k, Some g, Some v) \<Rightarrow>
          and_then (stored_instant (Some v)) (\<lambda>settled.
          and_then (decode_issues nd None (ar_issues_json row)) (\<lambda>issues.
            Inr \<lparr>fr_task_id = at_task_id (ar_attempt row), fr_attempt_no = ar_no row, fr_kind = k,
              fr_origin = g, fr_settled_at = settled, fr_issues = issues\<rparr>))
      | _ \<Rightarrow> fails Corrupt_Reference)"

definition require_secret :: "string \<Rightarrow> (task_error, unit) outcome" where
  "require_secret v = require (hex64 v) (Task_Error Invalid_Credential None)"

definition credential_attempt ::
    "(nat list \<Rightarrow> string) \<Rightarrow> task_db \<Rightarrow> claim \<Rightarrow> (task_error, attempt_row \<times> bool) outcome" where
  "credential_attempt sha db c =
     and_then (require_secret (cl_credential c)) (\<lambda>_.
     and_then (read_attempts db (cl_task_id c)) (\<lambda>rows.
       (case find (\<lambda>r. ar_no r = cl_attempt_no c) rows of
          None \<Rightarrow> fails Invalid_Credential
        | Some row \<Rightarrow>
            if at_credential (ar_attempt row) \<noteq> digest sha (cl_credential c)
            then fails Invalid_Credential
            else Inr (row, ar_no row = ar_no (last rows)))))"

definition recover_attempt ::
    "attempt_row \<Rightarrow> instant \<Rightarrow> task_db \<Rightarrow> (task_error, task_db) outcome" where
  "recover_attempt row now db =
     and_then (require_attempt_time row now) (\<lambda>_.
       insert_failure
         \<lparr>fl_task_id = at_task_id (ar_attempt row), fl_attempt_no = ar_no row,
          fl_issues_json = None, fl_submission = None, fl_audit_json = None,
          fl_kind = Outcome_Unknown, fl_origin = By_Recovery, fl_settled_at = timestamp now\<rparr> db)"

section \<open>Transactions\<close>

text \<open>
  \<open>BEGIN IMMEDIATE\<close> serialises the writers; the commit comes after the body, so a body that
  raises leaves the database as it was.
\<close>

type_synonym 'a txn = "task_db \<Rightarrow> (task_error, 'a \<times> task_db) outcome"

definition commit :: "'a txn \<Rightarrow> task_db \<Rightarrow> (task_error, 'a) outcome \<times> task_db" where
  "commit body db =
     (case body db of Inl e \<Rightarrow> (Inl e, db) | Inr (a, db') \<Rightarrow> (Inr a, db'))"

definition settled_on_budget :: "task_db \<Rightarrow> string \<Rightarrow> bool" where
  "settled_on_budget db b \<longleftrightarrow> \<not> key_free su_budget_id (db_successes db) b"

end
