(* ===== verification/Task_Steps.thy ===== *)
theory Task_Steps
  imports Task_Rules
begin

text \<open>
  The abstract contract of the task tables: the facts a transaction may add (\<open>fact_step\<close>) and
  the invariant \<open>sound\<close> they keep. A budget is a chain of generations; a generation has at most
  two attempts; an attempt is open until exactly one failure or success settles it; instants
  never run backwards along the chain. The transactions of the services refine these steps.
\<close>

section \<open>Vocabulary\<close>

definition apart :: "int \<Rightarrow> string \<Rightarrow> string \<Rightarrow> bool" where
  "apart d s t \<longleftrightarrow>
     (case (read_timestamp s, read_timestamp t) of
        (Some i, Some j) \<Rightarrow> i + d \<le> j
      | _ \<Rightarrow> False)"

lemma apart_timestamp:
  "valid_instant i \<Longrightarrow> valid_instant j \<Longrightarrow> apart d (timestamp i) (timestamp j) \<longleftrightarrow> i + d \<le> j"
  by (simp add: apart_def read_timestamp_timestamp)

lemma apart_trans: "apart d s t \<Longrightarrow> apart e t u \<Longrightarrow> apart (d + e) s u"
  by (auto simp: apart_def split: option.splits)

lemma apart_weaken: "apart d s t \<Longrightarrow> e \<le> d \<Longrightarrow> apart e s t"
  by (auto simp: apart_def split: option.splits)

lemma apart_instants:
  assumes "apart d s t"
  obtains i j where "read_timestamp s = Some i" "read_timestamp t = Some j" "i + d \<le> j"
  using assms by (auto simp: apart_def split: option.splits)

abbreviation claimed :: "task_db \<Rightarrow> string \<times> nat \<Rightarrow> bool" where
  "claimed db k \<equiv> k \<in> at_key ` set (db_attempts db)"
abbreviation leased :: "task_db \<Rightarrow> string \<times> nat \<Rightarrow> bool" where
  "leased db k \<equiv> k \<in> ls_key ` set (db_leases db)"
abbreviation failed :: "task_db \<Rightarrow> string \<times> nat \<Rightarrow> bool" where
  "failed db k \<equiv> k \<in> fl_key ` set (db_failures db)"
abbreviation succeeded :: "task_db \<Rightarrow> string \<times> nat \<Rightarrow> bool" where
  "succeeded db k \<equiv> k \<in> su_key ` set (db_successes db)"

definition open_attempt :: "task_db \<Rightarrow> string \<times> nat \<Rightarrow> bool" where
  "open_attempt db k \<longleftrightarrow> claimed db k \<and> \<not> failed db k \<and> \<not> succeeded db k"

text \<open>Task \<open>t\<close> belongs to budget \<open>b\<close>.\<close>

definition on_budget :: "task_db \<Rightarrow> string \<Rightarrow> string \<Rightarrow> bool" where
  "on_budget db t b \<longleftrightarrow> (\<exists>r \<in> set (db_tasks db). tk_task_id r = t \<and> tk_budget_id r = b)"

definition won :: "task_db \<Rightarrow> string \<Rightarrow> bool" where
  "won db b \<longleftrightarrow> b \<in> su_budget_id ` set (db_successes db)"

lemma not_key_free: "\<not> key_free key rows k \<longleftrightarrow> k \<in> key ` set rows"
  by (auto simp: key_free_def)

lemma settled_on_budget_won: "settled_on_budget db b \<longleftrightarrow> won db b"
  by (simp add: settled_on_budget_def won_def not_key_free)

definition authority_ok :: "failure_rec \<Rightarrow> bool" where
  "authority_ok f \<longleftrightarrow>
     (case fl_origin f of
        By_Recovery \<Rightarrow> fl_kind f = Outcome_Unknown
      | By_Exception \<Rightarrow> fl_kind f = Executor_Error
      | By_Executor \<Rightarrow> fl_kind f \<noteq> Outcome_Unknown) \<and>
     (fl_submission f \<noteq> None \<longleftrightarrow> fl_kind f \<in> {Output_Invalid, Model_Mismatch}) \<and>
     (fl_audit_json f \<noteq> None \<longleftrightarrow> fl_kind f \<in> {Output_Invalid, Model_Mismatch}) \<and>
     (fl_issues_json f \<noteq> None \<longrightarrow> fl_kind f = Output_Invalid)"

text \<open>A failure is not earlier than its claim, a recovery not earlier than the lease.\<close>

definition failure_timely :: "task_db \<Rightarrow> failure_rec \<Rightarrow> bool" where
  "failure_timely db f \<longleftrightarrow>
     (\<forall>a \<in> set (db_attempts db). at_key a = fl_key f \<longrightarrow> apart 0 (at_claimed_at a) (fl_settled_at f)) \<and>
     (fl_origin f = By_Recovery \<longrightarrow>
        (\<forall>l \<in> set (db_leases db). ls_key l = fl_key f \<longrightarrow> apart 0 (ls_expires_at l) (fl_settled_at f)))"

section \<open>The invariant\<close>

definition keys_distinct :: "task_db \<Rightarrow> bool" where
  "keys_distinct db \<longleftrightarrow>
     distinct (map in_fingerprint (db_inputs db)) \<and>
     distinct (map bg_budget_id (db_budgets db)) \<and> distinct (map bg_key (db_budgets db)) \<and>
     distinct (map tk_task_id (db_tasks db)) \<and> distinct (map tk_key (db_tasks db)) \<and>
     distinct (map re_receipt_id (db_requests db)) \<and>
     distinct (map at_key (db_attempts db)) \<and> distinct (map at_credential (db_attempts db)) \<and>
     distinct (map at_renewal (db_attempts db)) \<and> distinct (map ls_key (db_leases db)) \<and>
     distinct (map fl_key (db_failures db)) \<and>
     distinct (map su_success_id (db_successes db)) \<and>
     distinct (map su_budget_id (db_successes db)) \<and> distinct (map su_key (db_successes db))"

definition attempts_settled_once :: "task_db \<Rightarrow> bool" where
  "attempts_settled_once db \<longleftrightarrow>
     ls_key ` set (db_leases db) = at_key ` set (db_attempts db) \<and>
     fl_key ` set (db_failures db) \<subseteq> at_key ` set (db_attempts db) \<and>
     su_key ` set (db_successes db) \<subseteq> at_key ` set (db_attempts db) \<and>
     fl_key ` set (db_failures db) \<inter> su_key ` set (db_successes db) = {}"

definition attempts_numbered :: "task_db \<Rightarrow> bool" where
  "attempts_numbered db \<longleftrightarrow>
     (\<forall>a \<in> set (db_attempts db). at_attempt_no a \<in> {1, 2} \<and>
        (at_attempt_no a = 2 \<longrightarrow>
          (\<exists>f \<in> set (db_failures db). fl_key f = (at_task_id a, 1) \<and>
             apart 0 (fl_settled_at f) (at_claimed_at a))))"

definition references_ok :: "task_db \<Rightarrow> bool" where
  "references_ok db \<longleftrightarrow>
     (\<forall>t \<in> set (db_tasks db). tk_budget_id t \<in> bg_budget_id ` set (db_budgets db)) \<and>
     (\<forall>r \<in> set (db_requests db). re_task_id r \<in> tk_task_id ` set (db_tasks db)) \<and>
     (\<forall>a \<in> set (db_attempts db). \<exists>r \<in> set (db_requests db).
        re_receipt_id r = at_receipt_id a \<and> re_task_id r = at_task_id a) \<and>
     (\<forall>s \<in> set (db_successes db). on_budget db (su_task_id s) (su_budget_id s))"

definition generations_chained :: "task_db \<Rightarrow> bool" where
  "generations_chained db \<longleftrightarrow>
     (\<forall>t \<in> set (db_tasks db).
        (case tk_parent t of
           None \<Rightarrow> tk_generation t = 0
         | Some p \<Rightarrow>
             (\<exists>q \<in> set (db_tasks db). tk_task_id q = p \<and> tk_budget_id q = tk_budget_id t \<and>
                tk_generation t = tk_generation q + 1) \<and>
             failed db (p, 1) \<and> failed db (p, 2)))"

definition times_ok :: "task_db \<Rightarrow> bool" where
  "times_ok db \<longleftrightarrow>
     (\<forall>a \<in> set (db_attempts db). \<forall>l \<in> set (db_leases db). ls_key l = at_key a \<longrightarrow>
        apart lease_span (at_claimed_at a) (ls_expires_at l)) \<and>
     (\<forall>f \<in> set (db_failures db). authority_ok f \<and> failure_timely db f) \<and>
     (\<forall>s \<in> set (db_successes db). \<forall>a \<in> set (db_attempts db). at_key a = su_key s \<longrightarrow>
        apart 0 (at_claimed_at a) (su_settled_at s))"

definition sound :: "task_db \<Rightarrow> bool" where
  "sound db \<longleftrightarrow> keys_distinct db \<and> attempts_settled_once db \<and> attempts_numbered db \<and>
     references_ok db \<and> generations_chained db \<and> times_ok db"

section \<open>The steps\<close>

inductive fact_step :: "task_db \<Rightarrow> task_db \<Rightarrow> bool" where
  settle_failure:
    "insert_failure f db = Inr db' \<Longrightarrow> open_attempt db (fl_key f) \<Longrightarrow> authority_ok f \<Longrightarrow>
     failure_timely db f \<Longrightarrow> fact_step db db'"
| settle_success:
    "insert_success s db = Inr db' \<Longrightarrow> open_attempt db (su_key s) \<Longrightarrow>
     on_budget db (su_task_id s) (su_budget_id s) \<Longrightarrow>
     \<forall>a \<in> set (db_attempts db). at_key a = su_key s \<longrightarrow> apart 0 (at_claimed_at a) (su_settled_at s) \<Longrightarrow>
     fact_step db db'"
| start_attempt:
    "insert_attempt a db = Inr db1 \<Longrightarrow> insert_lease l db1 = Inr db' \<Longrightarrow> ls_key l = at_key a \<Longrightarrow>
     apart lease_span (at_claimed_at a) (ls_expires_at l) \<Longrightarrow>
     \<exists>r \<in> set (db_requests db). re_receipt_id r = at_receipt_id a \<and> re_task_id r = at_task_id a \<Longrightarrow>
     at_attempt_no a = 2 \<longrightarrow>
       (\<exists>f \<in> set (db_failures db). fl_key f = (at_task_id a, 1) \<and>
          apart 0 (fl_settled_at f) (at_claimed_at a)) \<Longrightarrow>
     \<forall>b. on_budget db (at_task_id a) b \<longrightarrow> \<not> won db b \<Longrightarrow>
     fact_step db db'"
| extend_lease:
    "open_attempt db (t, n) \<Longrightarrow>
     \<forall>a \<in> set (db_attempts db). at_key a = (t, n) \<longrightarrow> apart lease_span (at_claimed_at a) e \<Longrightarrow>
     fact_step db (update_lease t n e db)"
| freeze_input:
    "insert_input i db = Inr db' \<Longrightarrow> fact_step db db'"
| open_budget:
    "insert_budget b db = Inr db1 \<Longrightarrow> insert_task t db1 = Inr db' \<Longrightarrow>
     tk_budget_id t = bg_budget_id b \<Longrightarrow> tk_generation t = 0 \<Longrightarrow> tk_parent t = None \<Longrightarrow>
     fact_step db db'"
| add_request:
    "insert_request r db = Inr db' \<Longrightarrow> fact_step db db'"
| open_generation:
    "insert_task t db = Inr db' \<Longrightarrow> q \<in> set (db_tasks db) \<Longrightarrow> tk_parent t = Some (tk_task_id q) \<Longrightarrow>
     tk_budget_id t = tk_budget_id q \<Longrightarrow> tk_generation t = tk_generation q + 1 \<Longrightarrow>
     failed db (tk_task_id q, 1) \<Longrightarrow> failed db (tk_task_id q, 2) \<Longrightarrow>
     \<not> won db (tk_budget_id q) \<Longrightarrow>
     fact_step db db'"

inductive_cases fact_stepE: "fact_step db db'"

end
