(* ===== verification/Task_Invariant.thy ===== *)
theory Task_Invariant
  imports Task_Steps
begin

text \<open>What each insertion does to the tables, as facts for the preservation proofs.\<close>

lemma key_free_image: "key_free key rows k \<longleftrightarrow> k \<notin> key ` set rows"
  by (auto simp: key_free_def)

lemma insert_inputD:
  "insert_input r db = Inr db' \<Longrightarrow>
     db' = db\<lparr>db_inputs := db_inputs db @ [r]\<rparr> \<and> in_fingerprint r \<notin> in_fingerprint ` set (db_inputs db)"
  by (simp add: insert_input_def key_free_image)
lemma insert_budgetD:
  "insert_budget r db = Inr db' \<Longrightarrow>
     db' = db\<lparr>db_budgets := db_budgets db @ [r]\<rparr> \<and>
     bg_budget_id r \<notin> bg_budget_id ` set (db_budgets db) \<and> bg_key r \<notin> bg_key ` set (db_budgets db)"
  by (simp add: insert_budget_def key_free_image)
lemma insert_taskD:
  "insert_task r db = Inr db' \<Longrightarrow>
     db' = db\<lparr>db_tasks := db_tasks db @ [r]\<rparr> \<and> tk_budget_id r \<in> bg_budget_id ` set (db_budgets db) \<and>
     tk_task_id r \<notin> tk_task_id ` set (db_tasks db) \<and> tk_key r \<notin> tk_key ` set (db_tasks db)"
  by (simp add: insert_task_def key_free_image)
lemma insert_requestD:
  "insert_request r db = Inr db' \<Longrightarrow>
     db' = db\<lparr>db_requests := db_requests db @ [r]\<rparr> \<and> re_task_id r \<in> tk_task_id ` set (db_tasks db) \<and>
     re_receipt_id r \<notin> re_receipt_id ` set (db_requests db)"
  by (simp add: insert_request_def key_free_image)
lemma insert_attemptD:
  "insert_attempt r db = Inr db' \<Longrightarrow>
     db' = db\<lparr>db_attempts := db_attempts db @ [r]\<rparr> \<and> at_attempt_no r \<in> {1, 2} \<and>
     at_key r \<notin> at_key ` set (db_attempts db) \<and>
     at_credential r \<notin> at_credential ` set (db_attempts db) \<and>
     at_renewal r \<notin> at_renewal ` set (db_attempts db)"
  by (simp add: insert_attempt_def key_free_image)
lemma insert_leaseD:
  "insert_lease r db = Inr db' \<Longrightarrow>
     db' = db\<lparr>db_leases := db_leases db @ [r]\<rparr> \<and> ls_key r \<notin> ls_key ` set (db_leases db)"
  by (simp add: insert_lease_def key_free_image)
lemma insert_failureD:
  "insert_failure r db = Inr db' \<Longrightarrow>
     db' = db\<lparr>db_failures := db_failures db @ [r]\<rparr> \<and> fl_key r \<notin> fl_key ` set (db_failures db)"
  by (simp add: insert_failure_def key_free_image)
lemma insert_successD:
  "insert_success r db = Inr db' \<Longrightarrow>
     db' = db\<lparr>db_successes := db_successes db @ [r]\<rparr> \<and>
     su_success_id r \<notin> su_success_id ` set (db_successes db) \<and>
     su_budget_id r \<notin> su_budget_id ` set (db_successes db) \<and>
     su_key r \<notin> su_key ` set (db_successes db)"
  by (simp add: insert_success_def key_free_image)

lemmas insertD = insert_inputD insert_budgetD insert_taskD insert_requestD insert_attemptD
  insert_leaseD insert_failureD insert_successD

lemma lease_update_frame [simp]:
  "db_attempts (update_lease t n e db) = db_attempts db"
  "db_failures (update_lease t n e db) = db_failures db"
  "db_successes (update_lease t n e db) = db_successes db"
  "db_tasks (update_lease t n e db) = db_tasks db"
  "db_requests (update_lease t n e db) = db_requests db"
  "db_budgets (update_lease t n e db) = db_budgets db"
  "db_inputs (update_lease t n e db) = db_inputs db"
  by (simp_all add: update_lease_def)

lemma lease_update_keys [simp]:
  "map ls_key (db_leases (update_lease t n e db)) = map ls_key (db_leases db)"
  by (simp add: update_lease_def)

lemma lease_update_key_set [simp]:
  "ls_key ` set (db_leases (update_lease t n e db)) = ls_key ` set (db_leases db)"
  by (metis lease_update_keys list.set_map)

lemma lease_update_row:
  "l \<in> set (db_leases (update_lease t n e db)) \<Longrightarrow>
     (l \<in> set (db_leases db) \<and> ls_key l \<noteq> (t, n)) \<or> (ls_key l = (t, n) \<and> ls_expires_at l = e)"
  by (auto simp: update_lease_def)

lemma claimedE:
  assumes "claimed db (t, n)"
  obtains a where "a \<in> set (db_attempts db)" "at_task_id a = t" "at_attempt_no a = n"
  using assms by (elim imageE) (rule that, simp_all)

lemma failedE:
  assumes "failed db (t, n)"
  obtains f where "f \<in> set (db_failures db)" "fl_task_id f = t" "fl_attempt_no f = n"
  using assms by (elim imageE) (rule that, simp_all)

lemma keyI:
  "a \<in> set (db_attempts db) \<Longrightarrow> at_key a = k \<Longrightarrow> claimed db k"
  "f \<in> set (db_failures db) \<Longrightarrow> fl_key f = k \<Longrightarrow> failed db k"
  "s \<in> set (db_successes db) \<Longrightarrow> su_key s = k \<Longrightarrow> succeeded db k"
  by (auto simp: image_iff)

section \<open>The steps keep the invariant\<close>

lemma insert_keys_distinct:
  "insert_input i db = Inr db' \<Longrightarrow> keys_distinct db \<Longrightarrow> keys_distinct db'"
  "insert_budget b db = Inr db' \<Longrightarrow> keys_distinct db \<Longrightarrow> keys_distinct db'"
  "insert_task t db = Inr db' \<Longrightarrow> keys_distinct db \<Longrightarrow> keys_distinct db'"
  "insert_request r db = Inr db' \<Longrightarrow> keys_distinct db \<Longrightarrow> keys_distinct db'"
  "insert_attempt a db = Inr db' \<Longrightarrow> keys_distinct db \<Longrightarrow> keys_distinct db'"
  "insert_lease l db = Inr db' \<Longrightarrow> keys_distinct db \<Longrightarrow> keys_distinct db'"
  "insert_failure f db = Inr db' \<Longrightarrow> keys_distinct db \<Longrightarrow> keys_distinct db'"
  "insert_success s db = Inr db' \<Longrightarrow> keys_distinct db \<Longrightarrow> keys_distinct db'"
  by (drule insertD, simp add: keys_distinct_def)+

lemma step_keys_distinct: "fact_step db db' \<Longrightarrow> keys_distinct db \<Longrightarrow> keys_distinct db'"
proof (induction rule: fact_step.induct)
  case (extend_lease db t n e)
  then show ?case by (simp add: keys_distinct_def)
qed (blast dest: insert_keys_distinct)+

lemma step_settled_once:
  "fact_step db db' \<Longrightarrow> attempts_settled_once db \<Longrightarrow> attempts_settled_once db'"
proof (induction rule: fact_step.induct)
  case (settle_failure f db db')
  with insert_failureD [OF settle_failure(1)] show ?case
    by (simp add: attempts_settled_once_def open_attempt_def)
next
  case (settle_success s db db')
  with insert_successD [OF settle_success(1)] show ?case
    by (simp add: attempts_settled_once_def open_attempt_def)
next
  case (start_attempt a db db1 l db')
  then show ?case by (clarsimp dest!: insertD simp: attempts_settled_once_def) blast
qed (clarsimp dest!: insertD simp: attempts_settled_once_def)+

lemma step_numbered: "fact_step db db' \<Longrightarrow> attempts_numbered db \<Longrightarrow> attempts_numbered db'"
proof (induction rule: fact_step.induct)
  case (settle_failure f db db')
  then show ?case by (clarsimp dest!: insertD simp: attempts_numbered_def)
next
  case (start_attempt a db db1 l db')
  then show ?case by (clarsimp dest!: insertD simp: attempts_numbered_def) blast
qed (clarsimp dest!: insertD simp: attempts_numbered_def)+

lemma step_references: "fact_step db db' \<Longrightarrow> references_ok db \<Longrightarrow> references_ok db'"
proof (induction rule: fact_step.induct)
  case (start_attempt a db db1 l db')
  then show ?case by (clarsimp dest!: insertD simp: references_ok_def on_budget_def) blast
next
  case (open_budget b db db1 t db')
  then show ?case by (clarsimp dest!: insertD simp: references_ok_def on_budget_def)
next
  case (open_generation t db db' q)
  then show ?case by (clarsimp dest!: insertD simp: references_ok_def on_budget_def)
next
  case (add_request r db db')
  then show ?case by (clarsimp dest!: insertD simp: references_ok_def on_budget_def)
next
  case (settle_success s db db')
  then show ?case by (clarsimp dest!: insertD simp: references_ok_def on_budget_def) blast
qed (clarsimp dest!: insertD simp: references_ok_def on_budget_def)+

text \<open>Chains only look at tasks and failures, and both tables only grow.\<close>

lemma chained_mono:
  assumes "generations_chained db" and "set (db_tasks db) \<subseteq> set (db_tasks db')"
    and "set (db_failures db) \<subseteq> set (db_failures db')"
    and "\<And>t. t \<in> set (db_tasks db') \<Longrightarrow> t \<notin> set (db_tasks db) \<Longrightarrow>
      (tk_parent t = None \<and> tk_generation t = 0) \<or>
      (\<exists>q \<in> set (db_tasks db). tk_parent t = Some (tk_task_id q) \<and>
         tk_budget_id t = tk_budget_id q \<and> tk_generation t = tk_generation q + 1 \<and>
         failed db (tk_task_id q, 1) \<and> failed db (tk_task_id q, 2))"
  shows "generations_chained db'"
  unfolding generations_chained_def
proof
  fix t assume t: "t \<in> set (db_tasks db')"
  have grow: "failed db k \<Longrightarrow> failed db' k" for k using assms(3) by blast
  show "case tk_parent t of None \<Rightarrow> tk_generation t = 0
    | Some p \<Rightarrow> (\<exists>q \<in> set (db_tasks db'). tk_task_id q = p \<and> tk_budget_id q = tk_budget_id t \<and>
        tk_generation t = tk_generation q + 1) \<and> failed db' (p, 1) \<and> failed db' (p, 2)"
  proof (cases "t \<in> set (db_tasks db)")
    case True
    with assms(1,2) grow show ?thesis
      unfolding generations_chained_def by (fastforce split: option.splits)
  next
    case False
    have "(tk_parent t = None \<and> tk_generation t = 0) \<or>
      (\<exists>q \<in> set (db_tasks db). tk_parent t = Some (tk_task_id q) \<and>
         tk_budget_id t = tk_budget_id q \<and> tk_generation t = tk_generation q + 1 \<and>
         failed db (tk_task_id q, 1) \<and> failed db (tk_task_id q, 2))"
      by (rule assms(4) [OF t False])
    then show ?thesis
    proof (elim disjE bexE conjE)
      fix q assume "q \<in> set (db_tasks db)" "tk_parent t = Some (tk_task_id q)"
        "tk_budget_id t = tk_budget_id q" "tk_generation t = tk_generation q + 1"
        "failed db (tk_task_id q, 1)" "failed db (tk_task_id q, 2)"
      with assms(2) grow [of "(tk_task_id q, 1)"] grow [of "(tk_task_id q, 2)"] show ?thesis
        by (simp only: option.case) (metis subsetD)
    qed simp
  qed
qed

lemma chained_keep:
  "generations_chained db \<Longrightarrow> db_tasks db' = db_tasks db \<Longrightarrow> db_failures db' = db_failures db \<Longrightarrow>
     generations_chained db'"
  by (erule chained_mono) simp_all

lemma step_generations:
  "fact_step db db' \<Longrightarrow> generations_chained db \<Longrightarrow> generations_chained db'"
proof (induction rule: fact_step.induct)
  case (open_budget b db db1 t db')
  then show ?case by (intro chained_mono [OF open_budget(6)]) (auto dest!: insertD)
next
  case (open_generation t db db' q)
  have eq: "set (db_tasks db') = insert t (set (db_tasks db))" "db_failures db' = db_failures db"
    using insert_taskD [OF open_generation(1)] by simp_all
  show ?case
  proof (rule chained_mono [OF open_generation(9)])
    fix u assume "u \<in> set (db_tasks db')" "u \<notin> set (db_tasks db)"
    then have "u = t" using eq by simp
    with open_generation(3-7) show "(tk_parent u = None \<and> tk_generation u = 0) \<or>
      (\<exists>q \<in> set (db_tasks db). tk_parent u = Some (tk_task_id q) \<and>
         tk_budget_id u = tk_budget_id q \<and> tk_generation u = tk_generation q + 1 \<and>
         failed db (tk_task_id q, 1) \<and> failed db (tk_task_id q, 2))"
      by (intro disjI2 bexI [OF _ open_generation(2)] conjI) simp_all
  qed (use eq in auto)
next
  case (settle_failure f db db')
  then show ?case by (intro chained_mono [OF settle_failure(5)]) (auto dest!: insertD)
next
  case (start_attempt a db db1 l db')
  show ?case
    by (rule chained_keep [OF start_attempt(8)])
      (use insert_attemptD [OF start_attempt(1)] insert_leaseD [OF start_attempt(2)] in simp_all)
next
  case (extend_lease db t n e)
  show ?case by (rule chained_keep [OF extend_lease(3)]) simp_all
qed (erule chained_keep; drule insertD; simp)+

lemma times_okI:
  assumes "\<And>a l. a \<in> set (db_attempts db) \<Longrightarrow> l \<in> set (db_leases db) \<Longrightarrow> ls_key l = at_key a \<Longrightarrow>
      apart lease_span (at_claimed_at a) (ls_expires_at l)"
    and "\<And>f. f \<in> set (db_failures db) \<Longrightarrow> authority_ok f"
    and "\<And>f. f \<in> set (db_failures db) \<Longrightarrow> failure_timely db f"
    and "\<And>s a. s \<in> set (db_successes db) \<Longrightarrow> a \<in> set (db_attempts db) \<Longrightarrow> at_key a = su_key s \<Longrightarrow>
      apart 0 (at_claimed_at a) (su_settled_at s)"
  shows "times_ok db"
  using assms by (simp add: times_ok_def)

lemma timesD:
  assumes "times_ok db"
  shows "a \<in> set (db_attempts db) \<Longrightarrow> l \<in> set (db_leases db) \<Longrightarrow> ls_key l = at_key a \<Longrightarrow>
      apart lease_span (at_claimed_at a) (ls_expires_at l)"
    and "f \<in> set (db_failures db) \<Longrightarrow> authority_ok f"
    and "f \<in> set (db_failures db) \<Longrightarrow> a \<in> set (db_attempts db) \<Longrightarrow> at_key a = fl_key f \<Longrightarrow>
      apart 0 (at_claimed_at a) (fl_settled_at f)"
    and "f \<in> set (db_failures db) \<Longrightarrow> fl_origin f = By_Recovery \<Longrightarrow> l \<in> set (db_leases db) \<Longrightarrow>
      ls_key l = fl_key f \<Longrightarrow> apart 0 (ls_expires_at l) (fl_settled_at f)"
    and "s \<in> set (db_successes db) \<Longrightarrow> a \<in> set (db_attempts db) \<Longrightarrow> at_key a = su_key s \<Longrightarrow>
      apart 0 (at_claimed_at a) (su_settled_at s)"
  using assms by (auto simp only: times_ok_def failure_timely_def)

lemma failure_timelyI:
  assumes "\<And>a. a \<in> set (db_attempts db) \<Longrightarrow> at_key a = fl_key f \<Longrightarrow> apart 0 (at_claimed_at a) (fl_settled_at f)"
    and "\<And>l. fl_origin f = By_Recovery \<Longrightarrow> l \<in> set (db_leases db) \<Longrightarrow> ls_key l = fl_key f \<Longrightarrow>
      apart 0 (ls_expires_at l) (fl_settled_at f)"
  shows "failure_timely db f"
  using assms by (auto simp only: failure_timely_def)


lemma step_times:
  assumes "fact_step db db'" and "attempts_settled_once db" and "times_ok db"
  shows "times_ok db'"
  using assms
proof (induction rule: fact_step.induct)
  case (settle_failure f db db')
  note d = insert_failureD [OF settle_failure(1)] and T = timesD [OF settle_failure(6)]
  show ?case
    using d settle_failure(3,4,6) by (simp add: times_ok_def failure_timely_def)
next
  case (settle_success s db db')
  with insert_successD [OF settle_success(1)] show ?case
    by (simp add: times_ok_def failure_timely_def)
next
  case (start_attempt a db db1 l db')
  have eq: "set (db_attempts db') = insert a (set (db_attempts db))"
      "set (db_leases db') = insert l (set (db_leases db))"
      "db_failures db' = db_failures db" "db_successes db' = db_successes db"
    and new: "at_key a \<notin> at_key ` set (db_attempts db)"
    using insert_attemptD [OF start_attempt(1)] insert_leaseD [OF start_attempt(2)] by simp_all
  have cover: "ls_key ` set (db_leases db) = at_key ` set (db_attempts db)"
      "fl_key ` set (db_failures db) \<subseteq> at_key ` set (db_attempts db)"
      "su_key ` set (db_successes db) \<subseteq> at_key ` set (db_attempts db)"
    using start_attempt(8) by (simp_all add: attempts_settled_once_def)
  have nl: "x \<in> set (db_leases db) \<Longrightarrow> ls_key x \<noteq> at_key a"
    and nf: "y \<in> set (db_failures db) \<Longrightarrow> fl_key y \<noteq> at_key a"
    and ns: "z \<in> set (db_successes db) \<Longrightarrow> su_key z \<noteq> at_key a"
    and na: "b \<in> set (db_attempts db) \<Longrightarrow> at_key b \<noteq> at_key a" for x y z b
    using new cover by (metis (no_types, lifting) imageI subsetD)+
  note T = timesD [OF start_attempt(9)]
  show ?case
  proof (rule times_okI)
    fix b x assume "b \<in> set (db_attempts db')" "x \<in> set (db_leases db')" "ls_key x = at_key b"
    then show "apart lease_span (at_claimed_at b) (ls_expires_at x)"
      using eq nl na start_attempt(3,4) T(1) by (metis insert_iff)
  next
    fix y assume "y \<in> set (db_failures db')"
    then have y: "y \<in> set (db_failures db)" using eq by simp
    then show "authority_ok y" by (rule T(2))
    show "failure_timely db' y"
      using eq nf [OF y] T(3,4) [OF y] start_attempt(3) by (intro failure_timelyI) (metis insert_iff)+
  next
    fix s b assume "s \<in> set (db_successes db')" "b \<in> set (db_attempts db')" "at_key b = su_key s"
    then show "apart 0 (at_claimed_at b) (su_settled_at s)"
      using eq ns T(5) by (metis insert_iff)
  qed
next
  case (extend_lease db t n e)
  note T = timesD [OF extend_lease(4)]
  have unsettled: "(t, n) \<notin> fl_key ` set (db_failures db)"
    using extend_lease(1) by (simp add: open_attempt_def)
  show ?case
  proof (rule times_okI)
    fix b x assume b: "b \<in> set (db_attempts (update_lease t n e db))"
      and x: "x \<in> set (db_leases (update_lease t n e db))" and k: "ls_key x = at_key b"
    from lease_update_row [OF x] show "apart lease_span (at_claimed_at b) (ls_expires_at x)"
      using b k extend_lease(2) T(1) by (metis lease_update_frame(1))
  next
    fix y assume "y \<in> set (db_failures (update_lease t n e db))"
    then have y: "y \<in> set (db_failures db)" by simp
    then show "authority_ok y" by (rule T(2))
    have "fl_key y \<noteq> (t, n)" using unsettled y by force
    then show "failure_timely (update_lease t n e db) y"
      using T(3,4) [OF y] lease_update_row by (intro failure_timelyI) (simp, metis)
  next
    fix s b assume "s \<in> set (db_successes (update_lease t n e db))"
      "b \<in> set (db_attempts (update_lease t n e db))" "at_key b = su_key s"
    then show "apart 0 (at_claimed_at b) (su_settled_at s)" using T(5) by simp
  qed
qed (clarsimp dest!: insertD simp: times_ok_def failure_timely_def)+

lemma step_sound: "fact_step db db' \<Longrightarrow> sound db \<Longrightarrow> sound db'"
  by (simp add: sound_def step_keys_distinct step_settled_once step_numbered step_references
      step_generations step_times)

lemma steps_sound: "fact_step\<^sup>*\<^sup>* db db' \<Longrightarrow> sound db \<Longrightarrow> sound db'"
  by (induction rule: rtranclp_induct) (auto intro: step_sound)

section \<open>What the invariant gives\<close>

lemma soundD:
  assumes "sound db"
  shows "keys_distinct db" "attempts_settled_once db" "attempts_numbered db" "references_ok db"
    "generations_chained db" "times_ok db"
  using assms by (simp_all add: sound_def)

lemma keysD:
  assumes "keys_distinct db"
  shows "distinct (map bg_budget_id (db_budgets db))" "distinct (map tk_task_id (db_tasks db))"
    "distinct (map tk_key (db_tasks db))" "distinct (map re_receipt_id (db_requests db))"
    "distinct (map at_key (db_attempts db))" "distinct (map at_renewal (db_attempts db))"
    "distinct (map ls_key (db_leases db))" "distinct (map fl_key (db_failures db))"
    "distinct (map su_key (db_successes db))" "distinct (map su_success_id (db_successes db))"
    "distinct (map su_budget_id (db_successes db))"
  using assms by (simp_all add: keys_distinct_def)

lemma distinct_key_eq: "distinct (map k xs) \<Longrightarrow> x \<in> set xs \<Longrightarrow> y \<in> set xs \<Longrightarrow> k x = k y \<Longrightarrow> x = y"
  by (meson distinct_map inj_onD)

lemma older_generation_failed:
  assumes "sound db" and "t \<in> set (db_tasks db)" and "q \<in> set (db_tasks db)"
    and "tk_budget_id q = tk_budget_id t" and "tk_generation q < tk_generation t"
  shows "failed db (tk_task_id q, 1) \<and> failed db (tk_task_id q, 2)"
  using assms(2,4,5)
proof (induction "tk_generation t" arbitrary: t rule: less_induct)
  case less
  note chain = soundD(5) [OF assms(1), unfolded generations_chained_def, rule_format, OF less(2)]
  from less(4) chain obtain p q' where p: "tk_parent t = Some p" "q' \<in> set (db_tasks db)"
      "tk_task_id q' = p" "tk_budget_id q' = tk_budget_id t" "tk_generation t = tk_generation q' + 1"
      "failed db (p, 1)" "failed db (p, 2)"
    by (cases "tk_parent t") auto
  show ?case
  proof (cases "tk_generation q = tk_generation q'")
    case True
    with less(3) p(4) have "q = q'"
      by (intro distinct_key_eq [OF keysD(3) [OF soundD(1) [OF assms(1)]] assms(3) p(2)]) simp
    with p(3,6,7) show ?thesis by simp
  next
    case False
    with less(4) p(5) have "tk_generation q < tk_generation q'" by simp
    with less(1) [of q'] less(3) p(2,4,5) show ?thesis by simp
  qed
qed

lemma numbersD:
  assumes "sound db" and "claimed db (t, n)"
  shows "n \<in> {1, 2}" and "n = 2 \<Longrightarrow> failed db (t, 1)"
proof -
  from assms(2) obtain a where a: "a \<in> set (db_attempts db)" "at_task_id a = t" "at_attempt_no a = n"
    by auto
  with soundD(3) [OF assms(1)] show "n \<in> {1, 2}" unfolding attempts_numbered_def by blast
  assume "n = 2"
  with a soundD(3) [OF assms(1)] obtain f where "f \<in> set (db_failures db)" "fl_key f = (t, 1)"
    unfolding attempts_numbered_def by metis
  then show "failed db (t, 1)" by (intro image_eqI [of _ _ f]) simp_all
qed

text \<open>At most one attempt of a budget has not failed: it is the running or the successful one.\<close>

lemma unfailed_unique:
  assumes "sound db" and "claimed db (t, n)" "\<not> failed db (t, n)" "on_budget db t b"
    and "claimed db (u, m)" "\<not> failed db (u, m)" "on_budget db u b"
  shows "t = u \<and> n = m"
proof -
  obtain x y where x: "x \<in> set (db_tasks db)" "tk_task_id x = t" "tk_budget_id x = b"
    and y: "y \<in> set (db_tasks db)" "tk_task_id y = u" "tk_budget_id y = b"
    using assms(4,7) by (auto simp: on_budget_def)
  have "\<not> tk_generation x < tk_generation y"
    using older_generation_failed [OF assms(1) y(1) x(1)] x y numbersD(1) [OF assms(1,2)] assms(3)
    by auto
  moreover have "\<not> tk_generation y < tk_generation x"
    using older_generation_failed [OF assms(1) x(1) y(1)] x y numbersD(1) [OF assms(1,5)] assms(6)
    by auto
  ultimately have "x = y"
    using x y by (intro distinct_key_eq [OF keysD(3) [OF soundD(1) [OF assms(1)]] x(1) y(1)]) simp
  with x y have "t = u" by simp
  moreover have "n = m"
    using numbersD [OF assms(1,2)] numbersD [OF assms(1,5)] assms(3,6) \<open>t = u\<close> by auto
  ultimately show ?thesis ..
qed

text \<open>Rows are never deleted, and only leases are ever rewritten.\<close>

definition extends :: "task_db \<Rightarrow> task_db \<Rightarrow> bool" where
  "extends db db' \<longleftrightarrow>
     set (db_inputs db) \<subseteq> set (db_inputs db') \<and> set (db_budgets db) \<subseteq> set (db_budgets db') \<and>
     set (db_tasks db) \<subseteq> set (db_tasks db') \<and> set (db_requests db) \<subseteq> set (db_requests db') \<and>
     set (db_attempts db) \<subseteq> set (db_attempts db') \<and>
     ls_key ` set (db_leases db) \<subseteq> ls_key ` set (db_leases db') \<and>
     set (db_failures db) \<subseteq> set (db_failures db') \<and>
     set (db_successes db) \<subseteq> set (db_successes db')"

lemma extends_refl [simp]: "extends db db"
  by (simp add: extends_def)

lemma extends_trans: "extends db1 db2 \<Longrightarrow> extends db2 db3 \<Longrightarrow> extends db1 db3"
  unfolding extends_def by (elim conjE, intro conjI; erule (1) subset_trans)

lemma step_extends: "fact_step db db' \<Longrightarrow> extends db db'"
proof (induction rule: fact_step.induct)
  case (extend_lease db t n e)
  then show ?case by (simp add: extends_def)
qed (clarsimp dest!: insertD simp: extends_def; blast)+

lemma steps_extends: "fact_step\<^sup>*\<^sup>* db db' \<Longrightarrow> extends db db'"
  by (induction rule: rtranclp_induct) (auto dest: step_extends intro: extends_trans)

end
