(* ===== verification/Task_Execution.thy ===== *)
theory Task_Execution
  imports Task_Rules
begin

text \<open>
  \<open>execution.py\<close>: the attempt service. Every public operation takes the database and returns
  its outcome with the database it leaves: claim, status, correction, renew, fail, reclaim.
  The values the environment supplies are arguments: clock readings in the order they are
  taken, the mapping of the paper's current facts, the revision resolved inside the
  transaction, the random credentials, and the answer of the optional \<open>preclaim\<close> callback.
  Runtime log events are left out.
\<close>

record stage_input =
  si_fingerprint :: string
  si_payload :: "nat list"
  si_stage :: stage

record stage_mapping =
  sm_value :: "stage_input option"
  sm_reason :: "paper_reason option"
  sm_evidence :: "basis option"

record screening_mapping =
  mp_boundary :: stage_mapping
  mp_value :: stage_mapping

definition stage_mapping_of :: "screening_mapping \<Rightarrow> stage \<Rightarrow> stage_mapping" where
  "stage_mapping_of m st = (if st = Stage_Boundary then mp_boundary m else mp_value m)"

definition require_stage_mapping ::
    "screening_mapping \<Rightarrow> stage \<Rightarrow> (task_error, stage_input \<times> basis) outcome" where
  "require_stage_mapping m st =
     (let mapped = stage_mapping_of m st in
      case sm_reason mapped of
        Some r \<Rightarrow> Inl (Paper_Error r)
      | None \<Rightarrow>
          (case (sm_value mapped, sm_evidence mapped) of
             (Some v, Some e) \<Rightarrow> Inr (v, e)
           | _ \<Rightarrow> fails Corrupt_Reference))"

record system =
  sy_sha :: "nat list \<Rightarrow> string"
  sy_nd :: "nat \<Rightarrow> bool"

type_synonym preclaim = "pystr option \<Rightarrow> (task_error, unit) outcome"

record claim_env =
  ce_clock :: clock_reading
  ce_clock_in_txn :: clock_reading
  ce_mapping :: screening_mapping
  ce_current :: "(task_error, basis) outcome"
  ce_credential :: string
  ce_renewal :: string
  ce_preclaim :: "preclaim option"

section \<open>claim\<close>

definition unsettled :: "attempt_row list \<Rightarrow> bool" where
  "unsettled rows \<longleftrightarrow> rows \<noteq> [] \<and> ar_kind (last rows) = None"

definition refuse_running :: "attempt_row list \<Rightarrow> instant \<Rightarrow> (task_error, unit) outcome" where
  "refuse_running rows now =
     (if unsettled rows then
        and_then (stored_instant (ar_expires_at (last rows))) (\<lambda>expires.
          require (\<not> now < expires) (Task_Error Task_Running None))
      else Inr ())"

definition refuse_early :: "attempt_row list \<Rightarrow> instant \<Rightarrow> (task_error, unit) outcome" where
  "refuse_early rows now =
     (if rows = [] then Inr ()
      else
        and_then
          (stored_instant
             (Some (case ar_settled_at (last rows) of
                      None \<Rightarrow> timestamp now
                    | Some v \<Rightarrow> if truthy v then v else timestamp now)))
          (\<lambda>settled. require (\<not> now < settled) (Task_Error Invalid_Clock None)))"

definition new_attempt ::
    "system \<Rightarrow> claim_env \<Rightarrow> receipt \<Rightarrow> basis \<Rightarrow> nat \<Rightarrow> instant \<Rightarrow> attempt_rec" where
  "new_attempt sys env receipt basis number now =
     \<lparr>at_task_id = rc_task_id receipt, at_attempt_no = number,
      at_receipt_id = rc_receipt_id receipt, at_basis = basis, at_claimed_at = timestamp now,
      at_credential = digest (sy_sha sys) (ce_credential env),
      at_renewal = digest (sy_sha sys) (ce_renewal env)\<rparr>"

definition recover_if_unsettled ::
    "attempt_row list \<Rightarrow> instant \<Rightarrow> task_db \<Rightarrow> (task_error, task_db) outcome" where
  "recover_if_unsettled rows now db =
     (if unsettled rows then recover_attempt (last rows) now db else Inr db)"

definition insert_claimed ::
    "system \<Rightarrow> claim_env \<Rightarrow> receipt \<Rightarrow> basis \<Rightarrow> attempt_row list \<Rightarrow> instant \<Rightarrow> instant \<Rightarrow> task_db \<Rightarrow>
      (task_error, task_db) outcome" where
  "insert_claimed sys env receipt basis rows now expires db =
     and_then (refuse_early rows now) (\<lambda>_.
     and_then (insert_attempt (new_attempt sys env receipt basis (length rows + 1) now) db) (\<lambda>db1.
       insert_lease
         \<lparr>ls_task_id = rc_task_id receipt, ls_attempt_no = length rows + 1,
          ls_expires_at = timestamp expires\<rparr> db1))"

text \<open>The body of the transaction: the new number, the instant and the expiry of the claim.\<close>

definition claim_body ::
    "system \<Rightarrow> claim_env \<Rightarrow> receipt \<Rightarrow> basis \<Rightarrow> (nat \<times> instant \<times> instant) txn" where
  "claim_body sys env receipt basis db =
     and_then
       (or_raise
          (Option.bind (receipt_row db (rc_receipt_id receipt)) (\<lambda>(r, t, b).
             if re_task_id r = rc_task_id receipt then Some () else None))
          (Task_Error Corrupt_Reference None)) (\<lambda>_.
     and_then (ce_current env) (\<lambda>current.
     and_then (require (current = basis) (Task_Error Facts_Changed None)) (\<lambda>_.
     and_then (read_attempts db (rc_task_id receipt)) (\<lambda>existing.
     and_then (utc_now (ce_clock_in_txn env)) (\<lambda>now.
     and_then (lease_expiry now) (\<lambda>expires.
     and_then (require (\<not> settled_on_budget db (rc_budget_id receipt))
                 (Task_Error Already_Succeeded None)) (\<lambda>_.
     and_then (refuse_running existing now) (\<lambda>_.
     and_then
       (case ce_preclaim env of
          Some f \<Rightarrow>
            if length existing + 1 \<le> attempts_per_generation
            then and_then (correction_text (sy_nd sys) existing True) f else Inr ()
        | None \<Rightarrow> Inr ()) (\<lambda>_.
     and_then (recover_if_unsettled existing now db) (\<lambda>db1.
     and_then
       (if length existing + 1 \<le> attempts_per_generation
        then insert_claimed sys env receipt basis existing now expires db1 else Inr db1) (\<lambda>db2.
       Inr ((length existing + 1, now, expires), db2))))))))))))"

definition claim_prepare :: "claim_env \<Rightarrow> receipt \<Rightarrow> string \<Rightarrow> (task_error, basis) outcome" where
  "claim_prepare env receipt fingerprint =
     and_then (utc_now (ce_clock env)) (\<lambda>now.
     and_then (require_stage_mapping (ce_mapping env) (rc_stage receipt)) (\<lambda>(input, basis).
     and_then (require (si_fingerprint input = fingerprint) (Task_Error Facts_Changed None)) (\<lambda>_.
     and_then (lease_expiry now) (\<lambda>_. Inr basis))))"

text \<open>The recovery of a second expired attempt is committed before the exhausted budget is
  reported: that outcome is an error with a changed database.\<close>

definition claim_op ::
    "system \<Rightarrow> claim_env \<Rightarrow> receipt \<Rightarrow> string \<Rightarrow> task_db \<Rightarrow> (task_error, claim) outcome \<times> task_db" where
  "claim_op sys env receipt fingerprint db =
     (case claim_prepare env receipt fingerprint of
        Inl e \<Rightarrow> (Inl e, db)
      | Inr basis \<Rightarrow>
          (case commit (claim_body sys env receipt basis) db of
             (Inl e, db') \<Rightarrow> (Inl e, db')
           | (Inr (number, now, expires), db') \<Rightarrow>
               (if number > attempts_per_generation then fails Budget_Exhausted
                else Inr \<lparr>cl_task_id = rc_task_id receipt, cl_attempt_no = number,
                  cl_receipt_id = rc_receipt_id receipt, cl_claimed_at = now,
                  cl_expires_at = expires, cl_basis = basis,
                  cl_credential = ce_credential env, cl_renewal_handle = ce_renewal env\<rparr>, db')))"

section \<open>status, correction\<close>

definition status_op ::
    "clock_reading \<Rightarrow> receipt \<Rightarrow> task_db \<Rightarrow> (task_error, task_status) outcome" where
  "status_op clock receipt db =
     and_then (utc_now clock) (\<lambda>now.
     and_then (read_attempts db (rc_task_id receipt)) (\<lambda>rows.
       derive_status (rc_task_id receipt) rows now))"

text \<open>The clock is read only when the last attempt is unsettled and a claim is prepared.\<close>

definition correction_op ::
    "system \<Rightarrow> clock_reading \<Rightarrow> bool \<Rightarrow> receipt \<Rightarrow> task_db \<Rightarrow> (task_error, pystr option) outcome" where
  "correction_op sys clock for_claim receipt db =
     and_then (read_attempts db (rc_task_id receipt)) (\<lambda>rows.
     and_then
       (if for_claim \<and> unsettled rows \<and> ar_success_id (last rows) = None then
          and_then (utc_now clock) (\<lambda>now.
          and_then (stored_instant (ar_expires_at (last rows))) (\<lambda>expires. Inr (now \<ge> expires)))
        else Inr False)
       (\<lambda>recover. correction_text (sy_nd sys) rows recover))"

section \<open>renew\<close>

definition renew_body :: "system \<Rightarrow> clock_reading \<Rightarrow> string \<Rightarrow> instant txn" where
  "renew_body sys clock handle db =
     (let d = digest (sy_sha sys) handle in
      case lookup at_renewal (db_attempts db) d of
        None \<Rightarrow> fails Invalid_Credential
      | Some a \<Rightarrow>
          and_then (read_attempts db (at_task_id a)) (\<lambda>rows.
            (let current = last rows in
             and_then
               (require
                  (at_renewal (ar_attempt current) = d \<and> ar_kind current = None \<and>
                   ar_success_id current = None)
                  (Task_Error Invalid_Credential None)) (\<lambda>_.
             and_then (utc_now clock) (\<lambda>now.
             and_then (require_attempt_time current now) (\<lambda>_.
             and_then (lease_expiry now) (\<lambda>expires.
               Inr (expires,
                 update_lease (at_task_id (ar_attempt current)) (ar_no current)
                   (timestamp expires) db))))))))"

definition renew_op ::
    "system \<Rightarrow> clock_reading \<Rightarrow> string \<Rightarrow> task_db \<Rightarrow> (task_error, instant) outcome \<times> task_db" where
  "renew_op sys clock handle db =
     (case require_secret handle of
        Inl e \<Rightarrow> (Inl e, db)
      | Inr _ \<Rightarrow> commit (renew_body sys clock handle) db)"

section \<open>fail\<close>

definition plain_failure :: "claim \<Rightarrow> failure_kind \<Rightarrow> failure_origin \<Rightarrow> instant \<Rightarrow> failure_rec" where
  "plain_failure c kind origin now =
     \<lparr>fl_task_id = cl_task_id c, fl_attempt_no = cl_attempt_no c, fl_issues_json = None,
      fl_submission = None, fl_audit_json = None, fl_kind = kind, fl_origin = origin,
      fl_settled_at = timestamp now\<rparr>"

definition fail_body ::
    "system \<Rightarrow> clock_reading \<Rightarrow> claim \<Rightarrow> failure_kind \<Rightarrow> failure_origin \<Rightarrow> failure_receipt txn" where
  "fail_body sys clock c kind origin db =
     and_then (credential_attempt (sy_sha sys) db c) (\<lambda>(row, latest).
       if ar_success_id row \<noteq> None then fails Settlement_Conflict
       else if ar_kind row \<noteq> None then
         (if ar_origin row = Some By_Recovery then fails Invalid_Credential
          else if ar_kind row \<noteq> Some kind \<or> ar_origin row \<noteq> Some origin
            then fails Settlement_Conflict
          else and_then (failure_receipt_of (sy_nd sys) row) (\<lambda>r. Inr (r, db)))
       else if \<not> latest then fails Invalid_Credential
       else
         and_then (utc_now clock) (\<lambda>now.
         and_then (require_attempt_time row now) (\<lambda>_.
         and_then (insert_failure (plain_failure c kind origin now) db) (\<lambda>db'.
           Inr (\<lparr>fr_task_id = cl_task_id c, fr_attempt_no = cl_attempt_no c, fr_kind = kind,
             fr_origin = origin, fr_settled_at = now, fr_issues = []\<rparr>, db')))))"

definition fail_op ::
    "system \<Rightarrow> clock_reading \<Rightarrow> claim \<Rightarrow> failure_kind \<Rightarrow> failure_origin \<Rightarrow> task_db \<Rightarrow>
      (task_error, failure_receipt) outcome \<times> task_db" where
  "fail_op sys clock c kind origin db =
     (case and_then (require_secret (cl_credential c)) (\<lambda>_.
             require (is_executor_failure kind) (Task_Error Invalid_Failure None)) of
        Inl e \<Rightarrow> (Inl e, db)
      | Inr _ \<Rightarrow> commit (fail_body sys clock c kind origin) db)"

section \<open>reclaim\<close>

definition reclaim_body :: "clock_reading \<Rightarrow> receipt \<Rightarrow> task_status txn" where
  "reclaim_body clock receipt db =
     and_then (utc_now clock) (\<lambda>now.
     and_then (read_attempts db (rc_task_id receipt)) (\<lambda>rows.
     and_then
       (if unsettled rows \<and> ar_success_id (last rows) = None then
          and_then (stored_instant (ar_expires_at (last rows))) (\<lambda>expires.
            if now \<ge> expires then
              and_then (recover_attempt (last rows) now db) (\<lambda>db'.
              and_then (read_attempts db' (rc_task_id receipt)) (\<lambda>rows'. Inr (rows', db')))
            else Inr (rows, db))
        else Inr (rows, db)) (\<lambda>(rows', db').
     and_then (derive_status (rc_task_id receipt) rows' now) (\<lambda>st. Inr (st, db')))))"

definition reclaim_op ::
    "clock_reading \<Rightarrow> receipt \<Rightarrow> task_db \<Rightarrow> (task_error, task_status) outcome \<times> task_db" where
  "reclaim_op clock receipt db = commit (reclaim_body clock receipt) db"

end
