(* ===== verification/Task_Success.thy ===== *)
theory Task_Success
  imports Task_Execution
begin

text \<open>
  \<open>success_rules.py\<close>, \<open>frozen.py\<close> and \<open>success.py\<close>: the audit of a candidate and its stored
  form, the frozen input, and the two-phase acceptance of a candidate: a read transaction
  that prechecks the claim, validation and artifact publication outside any transaction, and
  a write transaction that prechecks again and settles. Third-party and unmodelled parts are
  the record \<open>candidate_env\<close>: the pydantic audit schemas, the configuration snapshots with the
  replay of a stage input, the artifact store, and the check of an execution reference.
\<close>

record candidate =
  cd_raw :: "nat list"
  cd_kind :: executor_kind
  cd_provider :: "pystr option"
  cd_model :: "pystr option"
  cd_request_id :: "pystr option"
  cd_input_tokens :: "int option"
  cd_output_tokens :: "int option"
  cd_execution :: "json option"

record frozen_input =
  fz_fingerprint :: string
  fz_stage_input :: stage_input
  fz_snapshot_id :: string
  fz_language :: "bool option"

record candidate_env =
  cv_pi_audit :: "json \<Rightarrow> json option"
  cv_pi_legacy :: "json \<Rightarrow> json option"
  cv_pi_execution :: "json \<Rightarrow> json option"
  cv_reference_ok :: "string \<Rightarrow> nat \<Rightarrow> json \<Rightarrow> bool"
  cv_replay :: "nat list \<Rightarrow> string \<Rightarrow> string \<Rightarrow> stage_input option"
  cv_model :: "string \<Rightarrow> (pystr \<times> pystr) option"
  cv_context :: "stage_input \<Rightarrow> string \<Rightarrow> bool option \<Rightarrow> value_prediction_context option"
  cv_publish :: "(nat list \<Rightarrow> (task_error, string) outcome) option"
  cv_output :: env

section \<open>The audit of a candidate\<close>

definition bounded_text :: "pystr \<Rightarrow> bool" where
  "bounded_text v \<longleftrightarrow>
     strip v \<noteq> [] \<and>
     (case utf8_encode v of None \<Rightarrow> False | Some bs \<Rightarrow> length bs \<le> 2048)"

definition json_of_text :: "pystr option \<Rightarrow> json" where
  "json_of_text v = (case v of None \<Rightarrow> JNull | Some s \<Rightarrow> JStr s)"

definition json_of_int :: "int option \<Rightarrow> json" where
  "json_of_int v = (case v of None \<Rightarrow> JNull | Some i \<Rightarrow> JInt i)"

fun executor_value :: "executor_kind \<Rightarrow> string" where
  "executor_value Test_Executor = ''test''"
| "executor_value Pi_Rpc = ''pi_rpc''"

definition audit_members :: "candidate \<Rightarrow> (pystr \<times> json) list" where
  "audit_members c =
     [(ascii ''executor_kind'', JStr (ascii (executor_value (cd_kind c)))),
      (ascii ''reported_provider'', json_of_text (cd_provider c)),
      (ascii ''reported_model'', json_of_text (cd_model c)),
      (ascii ''provider_request_id'', json_of_text (cd_request_id c)),
      (ascii ''input_tokens'', json_of_int (cd_input_tokens c)),
      (ascii ''output_tokens'', json_of_int (cd_output_tokens c))]"

definition object_members :: "json \<Rightarrow> (pystr \<times> json) list" where
  "object_members j = (case j of JObj kvs \<Rightarrow> kvs | _ \<Rightarrow> [])"

definition candidate_fields_ok :: "candidate \<Rightarrow> bool" where
  "candidate_fields_ok c \<longleftrightarrow>
     \<not> (cd_kind c = Test_Executor \<and> cd_execution c \<noteq> None) \<and>
     (\<forall>v \<in> set_option (cd_provider c). bounded_text v) \<and>
     (\<forall>v \<in> set_option (cd_model c). bounded_text v) \<and>
     (\<forall>v \<in> set_option (cd_request_id c). bounded_text v) \<and>
     (\<forall>n \<in> set_option (cd_input_tokens c). 0 \<le> n) \<and>
     (\<forall>n \<in> set_option (cd_output_tokens c). 0 \<le> n)"

definition audit_value :: "candidate_env \<Rightarrow> candidate \<Rightarrow> json option" where
  "audit_value env c =
     (case cd_kind c of
        Test_Executor \<Rightarrow> Some (JObj (audit_members c))
      | Pi_Rpc \<Rightarrow>
          Option.bind (cd_execution c) (\<lambda>execution.
            cv_pi_audit env
              (JObj (dict_of (object_members execution @ audit_members c @
                 [(ascii ''format_version'', JInt 3)])))))"

definition candidate_audit :: "candidate_env \<Rightarrow> candidate \<Rightarrow> (task_error, pystr) outcome" where
  "candidate_audit env c =
     (if candidate_fields_ok c
      then or_raise (Option.bind (audit_value env c) canonical) (Task_Error Invalid_Candidate None)
      else fails Invalid_Candidate)"

definition canonical_bytes :: "json \<Rightarrow> nat list" where
  "canonical_bytes j = concat (map encode_char (dumps j))"

text \<open>\<open>submission_digest\<close>: the audit text was just written by \<open>canonical\<close>, so it parses.\<close>

definition submission_digest :: "(nat list \<Rightarrow> string) \<Rightarrow> nat list \<Rightarrow> pystr \<Rightarrow> (task_error, string) outcome" where
  "submission_digest sha raw audit =
     (case loads plain_hooks audit of
        Some a \<Rightarrow>
          Inr (sha (canonical_bytes
            (JObj [(ascii ''raw_sha256'', JStr (ascii (sha raw))), (ascii ''audit'', a)])))
      | None \<Rightarrow> fails Corrupt_Reference)"

section \<open>The stored candidate\<close>

definition text_member :: "(pystr \<times> json) list \<Rightarrow> string \<Rightarrow> pystr option option" where
  "text_member kvs name =
     (case map_of kvs (ascii name) of
        None \<Rightarrow> None | Some JNull \<Rightarrow> Some None | Some (JStr s) \<Rightarrow> Some (Some s) | _ \<Rightarrow> None)"

definition int_member :: "(pystr \<times> json) list \<Rightarrow> string \<Rightarrow> int option option" where
  "int_member kvs name =
     (case map_of kvs (ascii name) of
        None \<Rightarrow> None | Some JNull \<Rightarrow> Some None | Some (JInt i) \<Rightarrow> Some (Some i) | _ \<Rightarrow> None)"

definition candidate_of_members ::
    "nat list \<Rightarrow> executor_kind \<Rightarrow> json option \<Rightarrow> (pystr \<times> json) list \<Rightarrow> candidate option" where
  "candidate_of_members raw kind execution kvs =
     Option.bind (text_member kvs ''reported_provider'') (\<lambda>p.
     Option.bind (text_member kvs ''reported_model'') (\<lambda>m.
     Option.bind (text_member kvs ''provider_request_id'') (\<lambda>q.
     Option.bind (int_member kvs ''input_tokens'') (\<lambda>i.
     Option.bind (int_member kvs ''output_tokens'') (\<lambda>out.
       Some \<lparr>cd_raw = raw, cd_kind = kind, cd_provider = p, cd_model = m, cd_request_id = q,
         cd_input_tokens = i, cd_output_tokens = out, cd_execution = execution\<rparr>)))))"

text \<open>The audit of a pi execution, in the current format 3 or the legacy format 2.\<close>

definition stored_pi :: "candidate_env \<Rightarrow> nat list \<Rightarrow> (pystr \<times> json) list \<Rightarrow> pystr \<Rightarrow> candidate option" where
  "stored_pi env raw kvs audit_json =
     Option.bind
       (case map_of kvs (ascii ''format_version'') of
          Some (JInt v) \<Rightarrow>
            if v = 2 then cv_pi_legacy env (JObj kvs)
            else if v = 3 then cv_pi_audit env (JObj kvs) else None
        | _ \<Rightarrow> None) (\<lambda>parsed.
     if canonical parsed = Some audit_json then
       Option.bind (cv_pi_execution env parsed) (\<lambda>execution.
         candidate_of_members raw Pi_Rpc (Some execution) kvs)
     else None)"

definition stored_test :: "candidate_env \<Rightarrow> nat list \<Rightarrow> (pystr \<times> json) list \<Rightarrow> pystr \<Rightarrow> candidate option" where
  "stored_test env raw kvs audit_json =
     Option.bind (candidate_of_members raw Test_Executor None kvs) (\<lambda>c.
       if candidate_audit env c = Inr audit_json then Some c else None)"

definition stored_candidate ::
    "candidate_env \<Rightarrow> nat list \<Rightarrow> pystr \<Rightarrow> (task_error, candidate) outcome" where
  "stored_candidate env raw audit_json =
     or_raise
       (case loads plain_hooks audit_json of
          Some (JObj kvs) \<Rightarrow>
            if map_of kvs (ascii ''executor_kind'') = Some (JStr (ascii ''pi_rpc''))
            then stored_pi env raw kvs audit_json else stored_test env raw kvs audit_json
        | _ \<Rightarrow> None)
       (Task_Error Corrupt_Reference None)"

section \<open>The frozen input\<close>

definition load_frozen :: "candidate_env \<Rightarrow> task_db \<Rightarrow> budget_rec \<Rightarrow> (task_error, frozen_input) outcome" where
  "load_frozen env db b =
     (case lookup in_fingerprint (db_inputs db) (bg_fingerprint b) of
        None \<Rightarrow> fails Corrupt_Reference
      | Some row \<Rightarrow>
          (case cv_replay env (in_payload row) (bg_fingerprint b) (bg_snapshot_id b) of
             None \<Rightarrow> fails Corrupt_Reference
           | Some restored \<Rightarrow>
               if si_stage restored \<noteq> bg_stage b \<or> in_stage row \<noteq> bg_stage b \<or>
                  in_format_version row \<noteq> 1
               then fails Corrupt_Reference
               else if bg_stage b = Stage_Value \<and>
                  cv_context env restored (bg_snapshot_id b) (bg_language b) = None
               then fails Corrupt_Reference
               else if bg_stage b \<noteq> Stage_Value \<and> bg_language b \<noteq> None
               then fails Corrupt_Reference
               else Inr \<lparr>fz_fingerprint = bg_fingerprint b, fz_stage_input = restored,
                 fz_snapshot_id = bg_snapshot_id b, fz_language = bg_language b\<rparr>))"

definition model_matches :: "candidate_env \<Rightarrow> candidate \<Rightarrow> string \<Rightarrow> (task_error, bool) outcome" where
  "model_matches env c snapshot =
     (case cv_model env snapshot of
        None \<Rightarrow> fails Corrupt_Reference
      | Some (provider, model) \<Rightarrow>
          Inr (cd_provider c \<in> {None, Some provider} \<and> cd_model c \<in> {None, Some model}))"

definition validate_candidate_output ::
    "candidate_env \<Rightarrow> frozen_input \<Rightarrow> nat list \<Rightarrow> (task_error, screening_output validated) outcome" where
  "validate_candidate_output env frozen raw =
     (case si_stage (fz_stage_input frozen) of
        Stage_Boundary \<Rightarrow>
          Inr (validate_output (cv_output env) (Some Kind_Boundary) (Bytes_Payload raw) No_Context)
      | Stage_Value \<Rightarrow>
          (case cv_context env (fz_stage_input frozen) (fz_snapshot_id frozen) (fz_language frozen) of
             None \<Rightarrow> fails Corrupt_Reference
           | Some c \<Rightarrow>
               Inr (validate_output (cv_output env) (Some Kind_Value_Prediction)
                 (Bytes_Payload raw) (Value_Context c))))"

section \<open>The structured output\<close>

fun verdict_value :: "boundary_verdict \<Rightarrow> string" where
  "verdict_value In_Scope = ''in_scope''"
| "verdict_value Verdict_Out_Of_Scope = ''out_of_scope''"
| "verdict_value Uncertain = ''uncertain''"

fun value_type_value :: "value_type \<Rightarrow> string" where
  "value_type_value Method = ''method''"
| "value_type_value Data = ''data''"
| "value_type_value Code_Tool = ''code_tool''"
| "value_type_value Theory_Mechanism = ''theory_mechanism''"
| "value_type_value Evidence_Conclusion = ''evidence_conclusion''"
| "value_type_value Question_Hypothesis = ''question_hypothesis''"
| "value_type_value Review_Knowledge_Map = ''review_knowledge_map''"

fun excerpt_value :: "excerpt_kind \<Rightarrow> string" where
  "excerpt_value Availability = ''availability''"
| "excerpt_value Methods = ''methods''"
| "excerpt_value Both = ''both''"

fun output_json :: "screening_output \<Rightarrow> json" where
  "output_json (Boundary_Out b) =
     JObj [(ascii ''boundary'', JStr (ascii (verdict_value (bo_boundary b)))),
           (ascii ''reason_zh'', JStr (bo_reason_zh b))]"
| "output_json (Value_Out v) =
     JObj [(ascii ''research_value'', JInt (vo_research_value v)),
           (ascii ''research_value_reason_zh'', JStr (vo_research_value_reason_zh v)),
           (ascii ''reuse_feasibility'', JInt (vo_reuse_feasibility v)),
           (ascii ''reuse_feasibility_reason_zh'', JStr (vo_reuse_feasibility_reason_zh v)),
           (ascii ''reuse_feasibility_inferable'', JBool (vo_reuse_feasibility_inferable v)),
           (ascii ''value_types'', JArr (map (\<lambda>t. JStr (ascii (value_type_value t))) (vo_value_types v))),
           (ascii ''topic_ids'', JArr (map JStr (vo_topic_ids v))),
           (ascii ''display_title_zh'', json_of_text (vo_display_title_zh v)),
           (ascii ''abstract_brief_zh'', JStr (vo_abstract_brief_zh v)),
           (ascii ''why_it_may_matter_zh'', JStr (vo_why_it_may_matter_zh v))]"
| "output_json (Reuse_Out r) =
     JObj [(ascii ''reuse_feasibility'', JInt (ro_reuse_feasibility r)),
           (ascii ''reuse_feasibility_reason_zh'', JStr (ro_reuse_feasibility_reason_zh r)),
           (ascii ''required_adaptations'', JArr (map JStr (ro_required_adaptations r))),
           (ascii ''excerpt_kind'', JStr (ascii (excerpt_value (ro_excerpt_kind r)))),
           (ascii ''excerpt_ids'', JArr (map JStr (ro_excerpt_ids r)))]"

section \<open>Precheck and receipts\<close>

definition success_row :: "task_db \<Rightarrow> string \<Rightarrow> (success_rec \<times> budget_rec) option" where
  "success_row db i =
     Option.bind (lookup su_success_id (db_successes db) i) (\<lambda>s.
     Option.bind (lookup bg_budget_id (db_budgets db) (su_budget_id s)) (\<lambda>b. Some (s, b)))"

definition success_receipt_of ::
    "candidate_env \<Rightarrow> success_rec \<times> budget_rec \<Rightarrow> (task_error, success_receipt) outcome" where
  "success_receipt_of env row =
     (let (s, b) = row in
      and_then (require (canonical_uuid (su_success_id s)) (Task_Error Corrupt_Reference None)) (\<lambda>_.
      and_then (stored_candidate env [] (su_audit_json s)) (\<lambda>c.
      and_then (stored_instant (Some (su_settled_at s))) (\<lambda>settled.
        Inr \<lparr>sr_success_id = su_success_id s, sr_task_id = su_task_id s,
          sr_attempt_no = su_attempt_no s, sr_artifact_id = su_artifact_id s,
          sr_fingerprint = bg_fingerprint b, sr_stage = bg_stage b,
          sr_executor_kind = cd_kind c, sr_settled_at = settled\<rparr>))))"

datatype settlement = Settled_Success success_receipt | Settled_Failure failure_receipt

definition precheck ::
    "system \<Rightarrow> candidate_env \<Rightarrow> task_db \<Rightarrow> claim \<Rightarrow> string \<Rightarrow>
      (task_error, attempt_row \<times> settlement option) outcome" where
  "precheck sys env db c submission =
     and_then (credential_attempt (sy_sha sys) db c) (\<lambda>(row, latest).
       case ar_success_id row of
         Some i \<Rightarrow>
           and_then (or_raise (success_row db i) (Task_Error Success_Not_Found None)) (\<lambda>sb.
             if su_submission (fst sb) \<noteq> submission then fails Settlement_Conflict
             else and_then (success_receipt_of env sb) (\<lambda>r. Inr (row, Some (Settled_Success r))))
       | None \<Rightarrow>
           if ar_kind row \<noteq> None then
             (case lookup fl_key (db_failures db) (cl_task_id c, cl_attempt_no c) of
                None \<Rightarrow> fails Corrupt_Reference
              | Some f \<Rightarrow>
                  if fl_origin f = By_Recovery then fails Invalid_Credential
                  else if fl_submission f = Some submission then
                    and_then (failure_receipt_of (sy_nd sys) row) (\<lambda>r.
                      Inr (row, Some (Settled_Failure r)))
                  else fails Settlement_Conflict)
           else if \<not> latest then fails Invalid_Credential
           else Inr (row, None))"

definition check_reference :: "candidate_env \<Rightarrow> claim \<Rightarrow> candidate \<Rightarrow> (task_error, unit) outcome" where
  "check_reference env c cand =
     require
       (\<forall>e \<in> set_option (cd_execution cand). cv_reference_ok env (cl_task_id c) (cl_attempt_no c) e)
       (Task_Error Invalid_Candidate None)"

section \<open>submit\<close>

text \<open>What the unlocked middle part decides: a failure with its issues, or the validated
  output of a success with its published artifact.\<close>

datatype verdict = Reject failure_kind "output_issue list" | Accept_Output screening_output string

record plan =
  pl_submission :: string
  pl_audit :: pystr
  pl_budget :: string
  pl_verdict :: verdict

definition submit_read ::
    "system \<Rightarrow> candidate_env \<Rightarrow> claim \<Rightarrow> candidate \<Rightarrow> string \<Rightarrow> task_db \<Rightarrow>
      (task_error, settlement + budget_rec \<times> frozen_input) outcome" where
  "submit_read sys env c cand submission db =
     and_then (precheck sys env db c submission) (\<lambda>(row, replayed).
     and_then (check_reference env c cand) (\<lambda>_.
       case replayed of
         Some s \<Rightarrow> Inr (Inl s)
       | None \<Rightarrow>
           (case receipt_row db (at_receipt_id (ar_attempt row)) of
              None \<Rightarrow> fails Invalid_Candidate
            | Some (r, t, b) \<Rightarrow>
                and_then (load_frozen env db b) (\<lambda>frozen. Inr (Inr (b, frozen))))))"

definition judge ::
    "system \<Rightarrow> candidate_env \<Rightarrow> candidate \<Rightarrow> budget_rec \<times> frozen_input \<Rightarrow> (task_error, verdict) outcome" where
  "judge sys env cand bf =
     (let (b, frozen) = bf in
      and_then (model_matches env cand (fz_snapshot_id frozen)) (\<lambda>ok.
        if \<not> ok then Inr (Reject Model_Mismatch [])
        else
          and_then (validate_candidate_output env frozen (cd_raw cand)) (\<lambda>v.
            case v of
              Inl issues \<Rightarrow>
                (case encode_issues issues of
                   None \<Rightarrow> fails Corrupt_Reference
                 | Some t \<Rightarrow>
                     and_then (decode_issues (sy_nd sys) (Some (bg_stage b)) t) (\<lambda>recorded.
                       Inr (Reject Output_Invalid recorded)))
            | Inr out \<Rightarrow>
                (case cv_publish env of
                   None \<Rightarrow> fails Data_Root_Required
                 | Some publish \<Rightarrow>
                     and_then (publish (cd_raw cand)) (\<lambda>artifact.
                       Inr (Accept_Output out artifact))))))"

definition submitted_failure ::
    "claim \<Rightarrow> plan \<Rightarrow> failure_kind \<Rightarrow> pystr option \<Rightarrow> instant \<Rightarrow> failure_rec" where
  "submitted_failure c p kind issues now =
     \<lparr>fl_task_id = cl_task_id c, fl_attempt_no = cl_attempt_no c, fl_issues_json = issues,
      fl_submission = Some (pl_submission p), fl_audit_json = Some (pl_audit p), fl_kind = kind,
      fl_origin = By_Executor, fl_settled_at = timestamp now\<rparr>"

definition settle_body ::
    "system \<Rightarrow> candidate_env \<Rightarrow> clock_reading \<Rightarrow> string \<Rightarrow> claim \<Rightarrow> candidate \<Rightarrow> plan \<Rightarrow> settlement txn" where
  "settle_body sys env clock new_id c cand p db =
     and_then (precheck sys env db c (pl_submission p)) (\<lambda>(row, replayed).
     and_then (check_reference env c cand) (\<lambda>_.
       case replayed of
         Some s \<Rightarrow> Inr (s, db)
       | None \<Rightarrow>
           and_then (utc_now clock) (\<lambda>now.
           and_then (require_attempt_time row now) (\<lambda>_.
             case pl_verdict p of
               Reject kind issues \<Rightarrow>
                 (case encode_issues issues of
                    None \<Rightarrow> fails Corrupt_Reference
                  | Some t \<Rightarrow>
                      and_then (insert_failure (submitted_failure c p kind t now) db) (\<lambda>db'.
                        Inr (Settled_Failure \<lparr>fr_task_id = cl_task_id c,
                          fr_attempt_no = cl_attempt_no c, fr_kind = kind, fr_origin = By_Executor,
                          fr_settled_at = now, fr_issues = issues\<rparr>, db')))
             | Accept_Output out artifact \<Rightarrow>
                 and_then (require (\<not> settled_on_budget db (pl_budget p))
                   (Task_Error Settlement_Conflict None)) (\<lambda>_.
                 and_then (or_raise (canonical (output_json out)) (Task_Error Corrupt_Reference None))
                   (\<lambda>structured.
                 and_then
                   (insert_success
                      \<lparr>su_success_id = new_id, su_budget_id = pl_budget p, su_task_id = cl_task_id c,
                       su_attempt_no = cl_attempt_no c, su_artifact_id = artifact,
                       su_structured_json = structured, su_submission = pl_submission p,
                       su_audit_json = pl_audit p, su_settled_at = timestamp now\<rparr> db) (\<lambda>db'.
                 and_then (or_raise (success_row db' new_id) (Task_Error Success_Not_Found None)) (\<lambda>sb.
                 and_then (success_receipt_of env sb) (\<lambda>r. Inr (Settled_Success r, db'))))))))))"

text \<open>The part before the write transaction: a replayed settlement, or the plan to settle.\<close>

definition submit_plan ::
    "system \<Rightarrow> candidate_env \<Rightarrow> claim \<Rightarrow> candidate \<Rightarrow> task_db \<Rightarrow> (task_error, settlement + plan) outcome" where
  "submit_plan sys env c cand db =
     and_then (require_secret (cl_credential c)) (\<lambda>_.
     and_then (candidate_audit env cand) (\<lambda>audit.
     and_then (submission_digest (sy_sha sys) (cd_raw cand) audit) (\<lambda>submission.
     and_then (submit_read sys env c cand submission db) (\<lambda>r.
       case r of
         Inl s \<Rightarrow> Inr (Inl s)
       | Inr bf \<Rightarrow>
           and_then (judge sys env cand bf) (\<lambda>v.
             Inr (Inr \<lparr>pl_submission = submission, pl_audit = audit,
               pl_budget = bg_budget_id (fst bf), pl_verdict = v\<rparr>))))))"

text \<open>\<open>submit\<close>: \<open>db\<close> is the database the first phase reads, \<open>db2\<close> the one the second phase
  finds, which other writers may have changed in between.\<close>

definition submit_op ::
    "system \<Rightarrow> candidate_env \<Rightarrow> clock_reading \<Rightarrow> string \<Rightarrow> claim \<Rightarrow> candidate \<Rightarrow> task_db \<Rightarrow> task_db \<Rightarrow>
      (task_error, settlement) outcome \<times> task_db" where
  "submit_op sys env clock new_id c cand db db2 =
     (case submit_plan sys env c cand db of
        Inl e \<Rightarrow> (Inl e, db2)
      | Inr (Inl s) \<Rightarrow> (Inr s, db2)
      | Inr (Inr p) \<Rightarrow> commit (settle_body sys env clock new_id c cand p) db2)"

end
