(* ===== verification/Task_Registration.thy ===== *)
theory Task_Registration
  imports Task_Success
begin

text \<open>
  \<open>rules.py\<close>, the registration half of \<open>repository.py\<close>, and \<open>retry.py\<close>: the identity of a
  request, its replay, the registration of a request on a budget and its first task, and the
  retry that opens the successor of a failed task. Requests have passed \<open>parse_request\<close> or
  \<open>parse_retry\<close>; fresh identifiers are arguments.
\<close>

section \<open>Identity\<close>

fun stage_value :: "stage \<Rightarrow> string" where
  "stage_value Stage_Boundary = ''boundary''"
| "stage_value Stage_Value = ''value''"

fun request_source_value :: "request_source \<Rightarrow> string" where
  "request_source_value Scheduled = ''scheduled''"
| "request_source_value Manual = ''manual''"
| "request_source_value From_Retry = ''retry''"

definition json_str :: "string \<Rightarrow> json" where
  "json_str s = JStr (ascii s)"

definition json_opt_str :: "string option \<Rightarrow> json" where
  "json_opt_str v = (case v of None \<Rightarrow> JNull | Some s \<Rightarrow> json_str s)"

text \<open>\<open>model_dump\<close> of the three request models.\<close>

definition request_json :: "request \<Rightarrow> json" where
  "request_json q =
     (case rq_parent q of
        Some parent \<Rightarrow>
          JObj [(ascii ''paper_id'', json_str (rq_paper_id q)),
            (ascii ''stage'', json_str (stage_value (rq_stage q))),
            (ascii ''snapshot_id'', json_str (rq_snapshot_id q)),
            (ascii ''parent_task_id'', json_str parent),
            (ascii ''request_id'', json_of_text (rq_request_id q)),
            (ascii ''reason'', json_of_text (rq_reason q)),
            (ascii ''actor'', json_of_text (rq_actor q))]
      | None \<Rightarrow>
          JObj ([(ascii ''paper_id'', json_str (rq_paper_id q)),
            (ascii ''snapshot_id'', json_str (rq_snapshot_id q)),
            (ascii ''source'', json_str (request_source_value (rq_source q))),
            (ascii ''scheduled_day'', json_opt_str (rq_scheduled_day q)),
            (ascii ''request_id'', json_of_text (rq_request_id q)),
            (ascii ''reason'', json_of_text (rq_reason q)),
            (ascii ''actor'', json_of_text (rq_actor q)),
            (ascii ''stage'', json_str (stage_value (rq_stage q)))] @
            (if rq_stage q = Stage_Value
             then [(ascii ''original_title_is_zh'',
                    case rq_language q of None \<Rightarrow> JNull | Some b \<Rightarrow> JBool b)] else [])))"

definition json_digest :: "(nat list \<Rightarrow> string) \<Rightarrow> json \<Rightarrow> string" where
  "json_digest sha j = sha (canonical_bytes j)"

definition request_digest :: "(nat list \<Rightarrow> string) \<Rightarrow> request \<Rightarrow> string" where
  "request_digest sha q = json_digest sha (request_json q)"

definition receipt_id :: "(nat list \<Rightarrow> string) \<Rightarrow> request \<Rightarrow> basis \<Rightarrow> string \<Rightarrow> string" where
  "receipt_id sha q evidence fingerprint =
     (if rq_source q = Manual then
        json_digest sha
          (JObj [(ascii ''source'', json_str ''manual''),
             (ascii ''request_id'', json_of_text (rq_request_id q))])
      else
        json_digest sha
          (JObj [(ascii ''source'', json_str ''scheduled''),
             (ascii ''paper_id'', json_str (rq_paper_id q)),
             (ascii ''stage'', json_str (stage_value (rq_stage q))),
             (ascii ''fingerprint'', json_str fingerprint),
             (ascii ''scheduled_day'', json_opt_str (rq_scheduled_day q)),
             (ascii ''version_id'', json_str (bs_version_id evidence)),
             (ascii ''revision_no'', JInt (bs_revision_no evidence)),
             (ascii ''snapshot_id'', json_str (rq_snapshot_id q))]))"

definition retry_receipt_id :: "(nat list \<Rightarrow> string) \<Rightarrow> request \<Rightarrow> string" where
  "retry_receipt_id sha q =
     json_digest sha
       (JObj [(ascii ''source'', json_str ''retry''),
          (ascii ''request_id'', json_of_text (rq_request_id q))])"

section \<open>Replay\<close>

definition replayable :: "request \<Rightarrow> bool" where
  "replayable q \<longleftrightarrow> rq_parent q \<noteq> None \<or> rq_source q = Manual"

definition existing_receipt ::
    "(nat list \<Rightarrow> string) \<Rightarrow> request \<Rightarrow> request_rec \<times> task_rec \<times> budget_rec \<Rightarrow>
      (task_error, receipt) outcome" where
  "existing_receipt sha q row =
     (if re_sha256 (fst row) \<noteq> request_digest sha q then fails Request_Conflict
      else to_receipt row)"

definition replay_request ::
    "(nat list \<Rightarrow> string) \<Rightarrow> task_db \<Rightarrow> request \<Rightarrow> (task_error, receipt option) outcome" where
  "replay_request sha db q =
     (if \<not> replayable q then Inr None
      else
        (case find (\<lambda>r. re_request_id r = rq_request_id q \<and> re_request_id r \<noteq> None) (db_requests db) of
           None \<Rightarrow> Inr None
         | Some r \<Rightarrow>
             (case receipt_row db (re_receipt_id r) of
                None \<Rightarrow> fails Corrupt_Reference
              | Some row \<Rightarrow> and_then (existing_receipt sha q row) (\<lambda>x. Inr (Some x)))))"

section \<open>register_request\<close>

definition latest_task :: "task_db \<Rightarrow> string \<Rightarrow> task_rec option" where
  "latest_task db b =
     (let ts = filter (\<lambda>t. tk_budget_id t = b) (db_tasks db) in
      if ts = [] then None else find (\<lambda>t. tk_generation t = Max (set (map tk_generation ts))) ts)"

definition ensure_input :: "stage_input \<Rightarrow> stage \<Rightarrow> task_db \<Rightarrow> (task_error, task_db) outcome" where
  "ensure_input input st db =
     (case lookup in_fingerprint (db_inputs db) (si_fingerprint input) of
        None \<Rightarrow>
          insert_input
            \<lparr>in_fingerprint = si_fingerprint input, in_stage = st, in_payload = si_payload input,
             in_format_version = 1\<rparr> db
      | Some row \<Rightarrow>
          if in_payload row \<noteq> si_payload input \<or> in_stage row \<noteq> st
          then fails Corrupt_Reference else Inr db)"

definition request_language :: "request \<Rightarrow> bool option" where
  "request_language q = (if rq_stage q = Stage_Value then rq_language q else None)"

text \<open>The budget and the task a request joins: a new budget with its first task, or the latest
  task of the existing one.\<close>

definition ensure_budget ::
    "request \<Rightarrow> stage_input \<Rightarrow> basis \<Rightarrow> string \<Rightarrow> string \<Rightarrow> task_db \<Rightarrow>
      (task_error, (string \<times> string) \<times> task_db) outcome" where
  "ensure_budget q input basis new_budget new_task db =
     (case lookup bg_key (db_budgets db) (rq_paper_id q, rq_stage q, si_fingerprint input) of
        None \<Rightarrow>
          and_then
            (insert_budget
               \<lparr>bg_budget_id = new_budget, bg_paper_id = rq_paper_id q, bg_stage = rq_stage q,
                bg_fingerprint = si_fingerprint input, bg_snapshot_id = rq_snapshot_id q,
                bg_basis = basis, bg_language = request_language q\<rparr> db) (\<lambda>db1.
          and_then
            (insert_task
               \<lparr>tk_task_id = new_task, tk_budget_id = new_budget, tk_generation = 0,
                tk_parent = None\<rparr> db1) (\<lambda>db2.
            Inr ((new_budget, new_task), db2)))
      | Some b \<Rightarrow>
          if bg_language b \<noteq> request_language q then fails Context_Conflict
          else
            (case latest_task db (bg_budget_id b) of
               None \<Rightarrow> fails Corrupt_Reference
             | Some t \<Rightarrow> Inr ((bg_budget_id b, tk_task_id t), db)))"

definition cached_success :: "task_db \<Rightarrow> string \<Rightarrow> string option" where
  "cached_success db b = map_option su_success_id (lookup su_budget_id (db_successes db) b)"

definition new_request ::
    "(nat list \<Rightarrow> string) \<Rightarrow> request \<Rightarrow> string \<Rightarrow> string \<Rightarrow> basis \<Rightarrow> string option \<Rightarrow> request_rec" where
  "new_request sha q identifier task basis cached =
     \<lparr>re_receipt_id = identifier, re_request_id = rq_request_id q,
      re_sha256 = request_digest sha q, re_task_id = task, re_source = rq_source q,
      re_snapshot_id = rq_snapshot_id q, re_basis = basis, re_scheduled_day = rq_scheduled_day q,
      re_cached_success_id = cached, re_reason = rq_reason q, re_actor = rq_actor q\<rparr>"

definition insert_and_read ::
    "request_rec \<Rightarrow> task_db \<Rightarrow> (task_error, receipt \<times> task_db) outcome" where
  "insert_and_read r db =
     and_then (insert_request r db) (\<lambda>db'.
     and_then (or_raise (receipt_row db' (re_receipt_id r)) (Task_Error Corrupt_Reference None)) (\<lambda>row.
     and_then (to_receipt row) (\<lambda>x. Inr (x, db'))))"

definition register_request ::
    "(nat list \<Rightarrow> string) \<Rightarrow> request \<Rightarrow> stage_input \<Rightarrow> basis \<Rightarrow> string \<Rightarrow> string \<Rightarrow> receipt txn" where
  "register_request sha q input basis new_budget new_task db =
     and_then (replay_request sha db q) (\<lambda>replayed.
       case replayed of
         Some x \<Rightarrow> Inr (x, db)
       | None \<Rightarrow>
           (let identifier = receipt_id sha q basis (si_fingerprint input) in
            case receipt_row db identifier of
              Some row \<Rightarrow>
                if rq_stage q = Stage_Value \<and> bg_language (snd (snd row)) \<noteq> rq_language q
                then fails Context_Conflict
                else and_then (existing_receipt sha q row) (\<lambda>x. Inr (x, db))
            | None \<Rightarrow>
                and_then (ensure_input input (rq_stage q) db) (\<lambda>db1.
                and_then (ensure_budget q input basis new_budget new_task db1) (\<lambda>((b, t), db2).
                  insert_and_read
                    (new_request sha q identifier t basis (cached_success db2 b)) db2))))"

text \<open>
  \<open>ScreeningTasks.register\<close> without the feed and language extensions: replay before mapping,
  then the mapping, the language context of a value request, and a write transaction that
  resolves the paper again and registers.
\<close>

record register_env =
  rg_mapping :: screening_mapping
  rg_context_ok :: bool
  rg_current :: "(task_error, basis) outcome"
  rg_snapshot_known :: bool
  rg_new_budget :: string
  rg_new_task :: string

definition register_body ::
    "(nat list \<Rightarrow> string) \<Rightarrow> register_env \<Rightarrow> request \<Rightarrow> stage_input \<Rightarrow> basis \<Rightarrow> receipt txn" where
  "register_body sha env q input basis db =
     and_then (replay_request sha db q) (\<lambda>replayed.
       case replayed of
         Some x \<Rightarrow> Inr (x, db)
       | None \<Rightarrow>
           and_then (rg_current env) (\<lambda>current.
           and_then (require (current = basis) (Task_Error Facts_Changed None)) (\<lambda>_.
           and_then (require (rg_snapshot_known env) (Task_Error Corrupt_Reference None)) (\<lambda>_.
             register_request sha q input basis (rg_new_budget env) (rg_new_task env) db))))"

definition register_op ::
    "(nat list \<Rightarrow> string) \<Rightarrow> register_env \<Rightarrow> request \<Rightarrow> task_db \<Rightarrow> task_db \<Rightarrow>
      (task_error, receipt) outcome \<times> task_db" where
  "register_op sha env q db db2 =
     (case replay_request sha db q of
        Inl e \<Rightarrow> (Inl e, db2)
      | Inr (Some x) \<Rightarrow> (Inr x, db2)
      | Inr None \<Rightarrow>
          (case and_then (require_stage_mapping (rg_mapping env) (rq_stage q)) (\<lambda>vb.
                  and_then
                    (require (rq_stage q = Stage_Value \<longrightarrow> rg_context_ok env)
                       (Task_Error Invalid_Context None)) (\<lambda>_. Inr vb)) of
             Inl e \<Rightarrow> (Inl e, db2)
           | Inr (input, basis) \<Rightarrow> commit (register_body sha env q input basis) db2))"

section \<open>retry\<close>

record retry_env =
  ry_clock :: clock_reading
  ry_mapping :: screening_mapping
  ry_current :: "(task_error, basis) outcome"
  ry_new_task :: string

text \<open>The status of the parent, after recovering a second attempt whose lease has expired.\<close>

definition retry_status ::
    "string \<Rightarrow> instant \<Rightarrow> task_db \<Rightarrow> (task_error, task_status \<times> task_db) outcome" where
  "retry_status parent now db =
     and_then (read_attempts db parent) (\<lambda>rows.
     and_then (derive_status parent rows now) (\<lambda>st.
       if ts_state st = Lease_Expired \<and> ts_used_attempts st = attempts_per_generation then
         and_then (recover_attempt (last rows) now db) (\<lambda>db'.
         and_then (read_attempts db' parent) (\<lambda>rows'.
         and_then (derive_status parent rows' now) (\<lambda>st'. Inr (st', db'))))
       else Inr (st, db)))"

definition retry_body ::
    "(nat list \<Rightarrow> string) \<Rightarrow> retry_env \<Rightarrow> request \<Rightarrow> string \<Rightarrow> stage_input \<Rightarrow> basis \<Rightarrow> receipt txn" where
  "retry_body sha env q parent_id input basis db =
     and_then (replay_request sha db q) (\<lambda>replayed.
       case replayed of
         Some x \<Rightarrow> Inr (x, db)
       | None \<Rightarrow>
           and_then (ry_current env) (\<lambda>current.
           and_then (require (current = basis) (Task_Error Facts_Changed None)) (\<lambda>_.
           and_then
             (or_raise
                (Option.bind (lookup tk_task_id (db_tasks db) parent_id) (\<lambda>t.
                 Option.bind (lookup bg_budget_id (db_budgets db) (tk_budget_id t)) (\<lambda>b. Some (t, b))))
                (Task_Error Task_Not_Found None)) (\<lambda>(parent, budget).
           and_then
             (require (bg_key budget = (rq_paper_id q, rq_stage q, si_fingerprint input))
                (Task_Error Facts_Changed None)) (\<lambda>_.
           and_then
             (case lookup tk_parent (db_tasks db) (Some parent_id) of
                Some s \<Rightarrow> Inl (Task_Error Already_Retried (Some (tk_task_id s)))
              | None \<Rightarrow> Inr ()) (\<lambda>_.
           and_then (require (\<not> settled_on_budget db (tk_budget_id parent))
             (Task_Error Already_Succeeded None)) (\<lambda>_.
           and_then
             (require (map_option tk_task_id (latest_task db (tk_budget_id parent)) = Some parent_id)
                (Task_Error Not_Latest None)) (\<lambda>_.
           and_then (utc_now (ry_clock env)) (\<lambda>now.
           and_then (retry_status parent_id now db) (\<lambda>(st, db1).
           and_then (require (ts_state st = Failed) (Task_Error Not_Failed None)) (\<lambda>_.
           and_then
             (insert_task
                \<lparr>tk_task_id = ry_new_task env, tk_budget_id = tk_budget_id parent,
                 tk_generation = tk_generation parent + 1, tk_parent = Some parent_id\<rparr> db1) (\<lambda>db2.
             insert_and_read
               (new_request sha q (retry_receipt_id sha q) (ry_new_task env) basis None) db2))))))))))))"

definition retry_op ::
    "(nat list \<Rightarrow> string) \<Rightarrow> retry_env \<Rightarrow> request \<Rightarrow> string \<Rightarrow> task_db \<Rightarrow> task_db \<Rightarrow>
      (task_error, receipt) outcome \<times> task_db" where
  "retry_op sha env q parent db db2 =
     (case replay_request sha db q of
        Inl e \<Rightarrow> (Inl e, db2)
      | Inr (Some x) \<Rightarrow> (Inr x, db2)
      | Inr None \<Rightarrow>
          (case require_stage_mapping (ry_mapping env) (rq_stage q) of
             Inl e \<Rightarrow> (Inl e, db2)
           | Inr (input, basis) \<Rightarrow> commit (retry_body sha env q parent input basis) db2))"

end
