(* ===== verification/Task_Refinement.thy ===== *)
theory Task_Refinement
  imports Task_Invariant Task_Registration
begin

text \<open>
  The transactions of the services refine the abstract steps: from a sound database, a body
  that returns has performed a sequence of \<open>fact_step\<close>s.
\<close>

section \<open>Reading the attempts of a task\<close>

lemma read_attemptsD:
  "read_attempts db t = Inr rows \<Longrightarrow> rows = attempt_rows db t \<and> consistent_rows rows"
  by (auto simp: read_attempts_def Let_def split: if_splits)

lemma attempt_rows_set:
  "set (attempt_rows db t) = join_attempt db ` {a \<in> set (db_attempts db). at_task_id a = t}"
  by (auto simp: attempt_rows_def)

lemma join_attempt_simps [simp]:
  "ar_attempt (join_attempt db a) = a"
  by (simp add: join_attempt_def Let_def)

lemma read_row:
  assumes "read_attempts db t = Inr rows" and "r \<in> set rows"
  shows "ar_attempt r \<in> set (db_attempts db)" "at_task_id (ar_attempt r) = t"
    "r = join_attempt db (ar_attempt r)" "at_key (ar_attempt r) = (t, ar_no r)"
    "claimed db (t, ar_no r)"
proof -
  from assms obtain a where a: "a \<in> set (db_attempts db)" "at_task_id a = t" "r = join_attempt db a"
    by (auto dest!: read_attemptsD simp: attempt_rows_set)
  then show "ar_attempt r \<in> set (db_attempts db)" "at_task_id (ar_attempt r) = t"
    "r = join_attempt db (ar_attempt r)" "at_key (ar_attempt r) = (t, ar_no r)"
    by simp_all
  show "claimed db (t, ar_no r)"
    by (rule image_eqI [of _ _ a]) (simp_all add: a)
qed

lemma read_claimed:
  assumes "read_attempts db t = Inr rows" and "claimed db (t, n)"
  obtains r where "r \<in> set rows" "ar_no r = n"
proof -
  obtain a where "a \<in> set (db_attempts db)" "at_task_id a = t" "at_attempt_no a = n"
    by (rule claimedE [OF assms(2)])
  then have "join_attempt db a \<in> set rows" "ar_no (join_attempt db a) = n"
    using read_attemptsD [OF assms(1)] by (auto simp: attempt_rows_set)
  then show ?thesis by (rule that)
qed

lemma read_numbers:
  assumes "read_attempts db t = Inr rows"
  shows "length rows \<le> 2" "\<And>i. i < length rows \<Longrightarrow> ar_no (rows ! i) = i + 1"
    "rows \<noteq> [] \<Longrightarrow> ar_no (last rows) = length rows"
proof -
  from read_attemptsD [OF assms] have "consistent_rows rows" ..
  then have c: "map ar_no rows = [1 ..< length rows + 1]" "length rows \<le> 2"
    unfolding consistent_rows_def attempts_per_generation_def by blast+
  then show "length rows \<le> 2" by simp
  show nth: "ar_no (rows ! i) = i + 1" if "i < length rows" for i
    using arg_cong [OF c(1), of "\<lambda>l. l ! i"] that by (simp del: upt_Suc)
  show "ar_no (last rows) = length rows" if "rows \<noteq> []"
    using nth [of "length rows - 1"] that by (simp add: last_conv_nth)
qed

lemma lookup_failure:
  assumes "sound db"
  shows "lookup fl_key (db_failures db) k = Some f \<longleftrightarrow> f \<in> set (db_failures db) \<and> fl_key f = k"
  by (rule lookup_distinct) (rule keysD(8) [OF soundD(1) [OF assms]])

lemma lookup_lease:
  assumes "sound db"
  shows "lookup ls_key (db_leases db) k = Some l \<longleftrightarrow> l \<in> set (db_leases db) \<and> ls_key l = k"
  by (rule lookup_distinct) (rule keysD(7) [OF soundD(1) [OF assms]])

lemma join_kind_None: "ar_kind (join_attempt db a) = None \<longleftrightarrow> \<not> failed db (at_key a)"
  by (simp add: join_attempt_def Let_def lookup_None key_free_image)

lemma join_success_None: "ar_success_id (join_attempt db a) = None \<longleftrightarrow> \<not> succeeded db (at_key a)"
  by (simp add: join_attempt_def Let_def lookup_None key_free_image)

lemma row_kind_None:
  assumes "read_attempts db t = Inr rows" and "r \<in> set rows"
  shows "ar_kind r = None \<longleftrightarrow> \<not> failed db (t, ar_no r)"
  using join_kind_None [of db "ar_attempt r"] read_row(3,4) [OF assms] by metis

lemma row_success_None:
  assumes "read_attempts db t = Inr rows" and "r \<in> set rows"
  shows "ar_success_id r = None \<longleftrightarrow> \<not> succeeded db (t, ar_no r)"
  using join_success_None [of db "ar_attempt r"] read_row(3,4) [OF assms] by metis

lemma row_expires:
  assumes "sound db" "read_attempts db t = Inr rows" and "r \<in> set rows"
    and "ar_expires_at r = Some e" and "l \<in> set (db_leases db)" and "ls_key l = (t, ar_no r)"
  shows "ls_expires_at l = e"
proof -
  have "lookup ls_key (db_leases db) (at_key (ar_attempt r)) = Some l"
    using assms(5,6) read_row(4) [OF assms(2,3)] by (simp add: lookup_lease [OF assms(1)])
  moreover have "ar_expires_at (join_attempt db (ar_attempt r)) = Some e"
    using read_row(3) [OF assms(2,3)] assms(4) by metis
  ultimately show ?thesis by (simp add: join_attempt_def Let_def)
qed

lemma row_settled:
  assumes "read_attempts db t = Inr rows" and "r \<in> set rows" and "ar_kind r \<noteq> None"
  obtains f where "f \<in> set (db_failures db)" "fl_key f = (t, ar_no r)"
    "ar_settled_at r = Some (fl_settled_at f)" "ar_kind r = Some (fl_kind f)"
    "ar_origin r = Some (fl_origin f)" "ar_issues_json r = fl_issues_json f"
proof -
  have r: "r = join_attempt db (ar_attempt r)" by (rule read_row(3) [OF assms(1,2)])
  then have "ar_kind (join_attempt db (ar_attempt r)) \<noteq> None" using assms(3) by metis
  then obtain f where f: "lookup fl_key (db_failures db) (at_key (ar_attempt r)) = Some f"
    by (auto simp: join_attempt_def Let_def)
  have "ar_settled_at (join_attempt db (ar_attempt r)) = Some (fl_settled_at f)"
    "ar_kind (join_attempt db (ar_attempt r)) = Some (fl_kind f)"
    "ar_origin (join_attempt db (ar_attempt r)) = Some (fl_origin f)"
    "ar_issues_json (join_attempt db (ar_attempt r)) = fl_issues_json f"
    using f by (simp_all add: join_attempt_def Let_def)
  with r lookup_Some [OF f] read_row(4) [OF assms(1,2)] show ?thesis
    by (intro that [of f]) (metis | simp)+
qed

lemma attempt_of_key:
  assumes "sound db" "a \<in> set (db_attempts db)" "b \<in> set (db_attempts db)" "at_key a = at_key b"
  shows "a = b"
  using keysD(5) [OF soundD(1) [OF assms(1)]] assms(2-4) by (rule distinct_key_eq)

section \<open>Clocks and instants\<close>

definition good_clock :: "clock_reading \<Rightarrow> bool" where
  "good_clock c \<longleftrightarrow> (case c of Utc t \<Rightarrow> valid_instant t | _ \<Rightarrow> True)"

lemma utc_nowD: "utc_now c = Inr t \<Longrightarrow> good_clock c \<Longrightarrow> c = Utc t \<and> valid_instant t"
  by (cases c) (auto simp: good_clock_def)

lemma stored_instantD: "stored_instant (Some v) = Inr i \<longleftrightarrow> read_timestamp v = Some i"
  by (simp add: stored_instant_def)

lemma apart_now:
  "stored_instant (Some v) = Inr i \<Longrightarrow> i + d \<le> now \<Longrightarrow> valid_instant now \<Longrightarrow> apart d v (timestamp now)"
  by (simp add: stored_instantD apart_def read_timestamp_timestamp)

lemma require_attempt_timeD:
  "require_attempt_time row now = Inr u \<Longrightarrow> valid_instant now \<Longrightarrow>
     apart 0 (at_claimed_at (ar_attempt row)) (timestamp now)"
  by (auto simp: require_attempt_time_def result_simps intro: apart_now)

lemma lease_expiryD:
  "lease_expiry now = Inr e \<Longrightarrow> valid_instant now \<Longrightarrow> e = now + lease_span \<and> valid_instant e"
  by (auto simp: lease_expiry_def valid_instant_def lease_span_def lease_seconds_def split: if_splits)

section \<open>Recovery\<close>

lemma recover_refines:
  assumes "sound db" and "read_attempts db t = Inr rows" and "r \<in> set rows"
    and "ar_kind r = None" and "ar_success_id r = None"
    and "stored_instant (ar_expires_at r) = Inr e" and "e \<le> now" and "valid_instant now"
    and "recover_attempt r now db = Inr db'"
  shows "fact_step db db'"
proof -
  let ?f = "\<lparr>fl_task_id = at_task_id (ar_attempt r), fl_attempt_no = ar_no r,
          fl_issues_json = None, fl_submission = None, fl_audit_json = None,
          fl_kind = Outcome_Unknown, fl_origin = By_Recovery, fl_settled_at = timestamp now\<rparr>"
  note row = read_row [OF assms(2,3)]
  from assms(9) obtain u where u: "require_attempt_time r now = Inr u"
      and ins: "insert_failure ?f db = Inr db'"
    by (auto simp: recover_attempt_def result_simps)
  obtain ev where ev: "ar_expires_at r = Some ev" "read_timestamp ev = Some e"
    using assms(6) by (cases "ar_expires_at r") (auto simp: stored_instant_def)
  have key: "fl_key ?f = (t, ar_no r)" using row(2) by simp
  show ?thesis
  proof (rule settle_failure [OF ins])
    show "open_attempt db (fl_key ?f)"
      using row(5) row_kind_None [OF assms(2,3)] row_success_None [OF assms(2,3)] assms(4,5)
      by (simp only: key open_attempt_def) simp
    show "authority_ok ?f" by (simp add: authority_ok_def)
    show "failure_timely db ?f"
    proof (rule failure_timelyI)
      fix a assume "a \<in> set (db_attempts db)" "at_key a = fl_key ?f"
      then have "a = ar_attempt r"
        using row(1,4) by (intro attempt_of_key [OF assms(1)]) simp_all
      with require_attempt_timeD [OF u assms(8)]
      show "apart 0 (at_claimed_at a) (fl_settled_at ?f)" by simp
    next
      fix l assume "l \<in> set (db_leases db)" "ls_key l = fl_key ?f"
      then have "ls_expires_at l = ev" 
        by (intro row_expires [OF assms(1,2,3) ev(1)]) (simp_all only: key)
      then show "apart 0 (ls_expires_at l) (fl_settled_at ?f)"
        using ev(2) assms(7,8) by (simp add: apart_def read_timestamp_timestamp)
    qed
  qed
qed

section \<open>Receipts\<close>

text \<open>A receipt that was read from the tables names a task of its budget.\<close>

definition receipt_ok :: "task_db \<Rightarrow> receipt \<Rightarrow> bool" where
  "receipt_ok db r \<longleftrightarrow> on_budget db (rc_task_id r) (rc_budget_id r)"

lemma on_budget_unique:
  assumes "sound db" and "on_budget db t b" and "on_budget db t c"
  shows "b = c"
proof -
  obtain x y where "x \<in> set (db_tasks db)" "tk_task_id x = t" "tk_budget_id x = b"
    "y \<in> set (db_tasks db)" "tk_task_id y = t" "tk_budget_id y = c"
    using assms(2,3) by (auto simp: on_budget_def)
  moreover from this have "x = y"
    by (intro distinct_key_eq [OF keysD(2) [OF soundD(1) [OF assms(1)]]]) simp_all
  ultimately show ?thesis by simp
qed

lemma on_budget_extends: "on_budget db t b \<Longrightarrow> extends db db' \<Longrightarrow> on_budget db' t b"
  by (auto simp: on_budget_def extends_def)

lemma receipt_rowD:
  assumes "receipt_row db i = Some (r, t, b)"
  shows "r \<in> set (db_requests db)" "re_receipt_id r = i" "t \<in> set (db_tasks db)"
    "tk_task_id t = re_task_id r" "b \<in> set (db_budgets db)" "bg_budget_id b = tk_budget_id t"
proof -
  have "lookup re_receipt_id (db_requests db) i = Some r"
    "lookup tk_task_id (db_tasks db) (re_task_id r) = Some t"
    "lookup bg_budget_id (db_budgets db) (tk_budget_id t) = Some b"
    using assms by (auto simp: receipt_row_def bind_eq_Some_conv)
  then show "r \<in> set (db_requests db)" "re_receipt_id r = i" "t \<in> set (db_tasks db)"
    "tk_task_id t = re_task_id r" "b \<in> set (db_budgets db)" "bg_budget_id b = tk_budget_id t"
    by (auto dest: lookup_Some)
qed

lemma to_receiptD:
  assumes "receipt_row db i = Some row" and "to_receipt row = Inr receipt"
  shows "receipt_ok db receipt" "rc_receipt_id receipt = i"
proof -
  obtain r t b where row: "row = (r, t, b)" by (cases row)
  note D = receipt_rowD [OF assms(1) [unfolded row]]
  have "rc_task_id receipt = re_task_id r" "rc_budget_id receipt = tk_budget_id t"
    "rc_receipt_id receipt = re_receipt_id r"
    using assms(2) by (auto simp: row to_receipt_def split: if_splits)
  with D show "receipt_ok db receipt" "rc_receipt_id receipt = i"
    by (auto simp: receipt_ok_def on_budget_def)
qed

lemma succeeded_won:
  assumes "sound db" and "succeeded db (t, n)" and "on_budget db t b"
  shows "won db b"
proof -
  obtain s where s: "s \<in> set (db_successes db)" "su_task_id s = t"
    using assms(2) by auto
  with soundD(4) [OF assms(1)] have "on_budget db t (su_budget_id s)"
    by (auto simp: references_ok_def)
  then have "su_budget_id s = b" using assms(3) by (rule on_budget_unique [OF assms(1)])
  with s show ?thesis by (auto simp: won_def)
qed

section \<open>claim\<close>

lemma claim_insert_refines:
  assumes "sound db" and "valid_instant now" and "lease_expiry now = Inr expires"
    and task: "receipt_row db (rc_receipt_id receipt) = Some (r, t, b)" "re_task_id r = rc_task_id receipt"
    and free: "\<And>c. on_budget db (rc_task_id receipt) c \<Longrightarrow> \<not> won db c"
    and prev: "length rows + 1 = 2 \<Longrightarrow> \<exists>f \<in> set (db_failures db). fl_key f = (rc_task_id receipt, 1) \<and>
        apart 0 (fl_settled_at f) (timestamp now)"
    and ins: "insert_claimed sys env receipt basis rows now expires db = Inr db'"
  shows "fact_step db db'"
proof -
  let ?a = "new_attempt sys env receipt basis (length rows + 1) now"
  let ?l = "\<lparr>ls_task_id = rc_task_id receipt, ls_attempt_no = length rows + 1,
      ls_expires_at = timestamp expires\<rparr>"
  from ins obtain db1 where i: "insert_attempt ?a db = Inr db1" "insert_lease ?l db1 = Inr db'"
    by (auto simp: insert_claimed_def result_simps)
  have e: "expires = now + lease_span" "valid_instant expires"
    using lease_expiryD [OF assms(3,2)] by blast+
  show ?thesis
  proof (rule start_attempt [OF i])
    show "ls_key ?l = at_key ?a" by (simp add: new_attempt_def)
    show "apart lease_span (at_claimed_at ?a) (ls_expires_at ?l)"
      using e assms(2) by (simp add: new_attempt_def apart_timestamp)
    show "\<exists>r \<in> set (db_requests db). re_receipt_id r = at_receipt_id ?a \<and> re_task_id r = at_task_id ?a"
      using receipt_rowD(1,2) [OF task(1)] task(2) by (auto simp: new_attempt_def)
    show "at_attempt_no ?a = 2 \<longrightarrow> (\<exists>f \<in> set (db_failures db). fl_key f = (at_task_id ?a, 1) \<and>
        apart 0 (fl_settled_at f) (at_claimed_at ?a))"
      using prev by (simp add: new_attempt_def)
    show "\<forall>b. on_budget db (at_task_id ?a) b \<longrightarrow> \<not> won db b"
      using free by (simp add: new_attempt_def)
  qed
qed

lemma last_row_facts:
  assumes "sound db" and "read_attempts db t = Inr rows" and "rows \<noteq> []"
  shows "last rows \<in> set rows" "ar_no (last rows) = length rows"
  using assms(3) read_numbers(3) [OF assms(2,3)] by simp_all

text \<open>A settled last attempt was settled no later than \<open>refuse_early\<close> allows.\<close>

lemma refuse_early_settled:
  assumes "sound db" and "read_attempts db t = Inr rows" and "rows \<noteq> []"
    and "ar_kind (last rows) \<noteq> None" and "refuse_early rows now = Inr u" and "valid_instant now"
  obtains f where "f \<in> set (db_failures db)" "fl_key f = (t, length rows)"
    "apart 0 (fl_settled_at f) (timestamp now)"
proof -
  note last = last_row_facts [OF assms(1-3)]
  obtain f where f: "f \<in> set (db_failures db)" "fl_key f = (t, ar_no (last rows))"
      "ar_settled_at (last rows) = Some (fl_settled_at f)"
    by (rule row_settled [OF assms(2) last(1) assms(4)])
  from timesD(3) [OF soundD(6) [OF assms(1)] f(1) read_row(1) [OF assms(2) last(1)]] f(2)
    read_row(4) [OF assms(2) last(1)]
  have "apart 0 (at_claimed_at (ar_attempt (last rows))) (fl_settled_at f)" by simp
  then obtain i where i: "read_timestamp (fl_settled_at f) = Some i"
    by (rule apart_instants)
  have "truthy (fl_settled_at f)"
  proof (cases "fl_settled_at f")
    case Nil
    with i show ?thesis using read_timestamp_canonical [OF i] by (simp add: timestamp_def Let_def split: prod.splits)
  qed simp
  with assms(3,5) i f(3) have "i \<le> now"
    by (auto simp: refuse_early_def result_simps stored_instantD)
  with i assms(6) have "apart 0 (fl_settled_at f) (timestamp now)"
    by (simp add: apart_def read_timestamp_timestamp)
  with f(1,2) last(2) show ?thesis by (intro that [of f]) simp_all
qed

lemma claim_bodyD:
  assumes "claim_body sys env receipt basis db = Inr ((number, now, expires), db')"
  obtains r t b rows db1 where
    "receipt_row db (rc_receipt_id receipt) = Some (r, t, b)" "re_task_id r = rc_task_id receipt"
    "ce_current env = Inr basis"
    "read_attempts db (rc_task_id receipt) = Inr rows" "utc_now (ce_clock_in_txn env) = Inr now"
    "lease_expiry now = Inr expires" "\<not> settled_on_budget db (rc_budget_id receipt)"
    "refuse_running rows now = Inr ()" "recover_if_unsettled rows now db = Inr db1"
    "number = length rows + 1"
    "(if length rows + 1 \<le> attempts_per_generation
      then insert_claimed sys env receipt basis rows now expires db1 else Inr db1) = Inr db'"
  using assms unfolding claim_body_def
  by (auto simp: result_simps bind_eq_Some_conv split: if_splits)

text \<open>The recovery inside a claim: the expired attempt is settled, everything else stays.\<close>

lemma claim_recovery:
  assumes S: "sound db" and R: "on_budget db t b" and V: "valid_instant now"
    and rd: "read_attempts db t = Inr rows" and nw: "\<not> won db b"
    and run: "refuse_running rows now = Inr ()" and rec: "recover_if_unsettled rows now db = Inr db1"
  shows "fact_step\<^sup>*\<^sup>* db db1" "db_attempts db1 = db_attempts db" "db_leases db1 = db_leases db"
    "db_successes db1 = db_successes db" "\<And>i. receipt_row db1 i = receipt_row db i"
    "unsettled rows \<Longrightarrow> \<exists>f \<in> set (db_failures db1). fl_key f = (t, length rows) \<and> fl_settled_at f = timestamp now"
proof -
  have "fact_step\<^sup>*\<^sup>* db db1 \<and> db_attempts db1 = db_attempts db \<and> db_leases db1 = db_leases db \<and>
      db_successes db1 = db_successes db \<and> (\<forall>i. receipt_row db1 i = receipt_row db i) \<and>
      (unsettled rows \<longrightarrow>
        (\<exists>f \<in> set (db_failures db1). fl_key f = (t, length rows) \<and> fl_settled_at f = timestamp now))"
  proof (cases "unsettled rows")
    case u: True
    then have ne: "rows \<noteq> []" and k: "ar_kind (last rows) = None" by (auto simp: unsettled_def)
    note last = last_row_facts [OF S rd ne]
    have s: "ar_success_id (last rows) = None"
      using row_success_None [OF rd last(1)] succeeded_won [OF S _ R] nw by blast
    from run u obtain e where e: "stored_instant (ar_expires_at (last rows)) = Inr e" "e \<le> now"
      by (auto simp: refuse_running_def result_simps)
    from rec u have rc: "recover_attempt (last rows) now db = Inr db1"
      by (simp add: recover_if_unsettled_def)
    have "fact_step db db1" by (rule recover_refines [OF S rd last(1) k s e V rc])
    moreover from rc obtain f where "insert_failure f db = Inr db1" "fl_settled_at f = timestamp now"
        "fl_task_id f = at_task_id (ar_attempt (last rows))" "fl_attempt_no f = ar_no (last rows)"
      by (auto simp: recover_attempt_def result_simps)
    with read_row(2) [OF rd last(1)] last(2)
    have "db1 = db\<lparr>db_failures := db_failures db @ [f]\<rparr>" "fl_key f = (t, length rows)"
      "fl_settled_at f = timestamp now"
      by (simp_all add: insert_failureD)
    ultimately show ?thesis by (simp add: receipt_row_def)
  next
    case False
    with rec have "db1 = db" by (simp add: recover_if_unsettled_def)
    with False show ?thesis by simp
  qed
  then show "fact_step\<^sup>*\<^sup>* db db1" "db_attempts db1 = db_attempts db" "db_leases db1 = db_leases db"
    "db_successes db1 = db_successes db" "\<And>i. receipt_row db1 i = receipt_row db i"
    "unsettled rows \<Longrightarrow> \<exists>f \<in> set (db_failures db1). fl_key f = (t, length rows) \<and> fl_settled_at f = timestamp now"
    by blast+
qed

lemma claim_body_refines:
  assumes S: "sound db" and R: "receipt_ok db receipt" and G: "good_clock (ce_clock_in_txn env)"
    and body: "claim_body sys env receipt basis db = Inr ((number, now, expires), db')"
  shows "fact_step\<^sup>*\<^sup>* db db'"
proof -
  let ?t = "rc_task_id receipt"
  from claim_bodyD [OF body] obtain r t b rows db1 where
      row: "receipt_row db (rc_receipt_id receipt) = Some (r, t, b)" "re_task_id r = ?t"
    and rd: "read_attempts db ?t = Inr rows" and clock: "utc_now (ce_clock_in_txn env) = Inr now"
    and exp: "lease_expiry now = Inr expires" and nw: "\<not> settled_on_budget db (rc_budget_id receipt)"
    and run: "refuse_running rows now = Inr ()"
    and rec: "recover_if_unsettled rows now db = Inr db1"
    and ins: "(if length rows + 1 \<le> attempts_per_generation
        then insert_claimed sys env receipt basis rows now expires db1 else Inr db1) = Inr db'"
    by metis
  have V: "valid_instant now" using utc_nowD [OF clock G] by simp
  note C = claim_recovery [OF S R [unfolded receipt_ok_def] V rd nw [unfolded settled_on_budget_won] run rec]
  show ?thesis
  proof (cases "length rows + 1 \<le> attempts_per_generation")
    case False
    with ins C(1) show ?thesis by simp
  next
    case True
    with ins have ins': "insert_claimed sys env receipt basis rows now expires db1 = Inr db'" by simp
    have S1: "sound db1" by (rule steps_sound [OF C(1) S])
    have ext: "extends db db1" by (rule steps_extends [OF C(1)])
    have "fact_step db1 db'"
    proof (rule claim_insert_refines [OF S1 V exp _ row(2) _ _ ins'])
      show "receipt_row db1 (rc_receipt_id receipt) = Some (r, t, b)" using C(5) row(1) by simp
    next
      fix c assume "on_budget db1 ?t c"
      moreover have "on_budget db1 ?t (rc_budget_id receipt)"
        using R on_budget_extends [OF _ ext] by (simp add: receipt_ok_def)
      ultimately have "c = rc_budget_id receipt" by (rule on_budget_unique [OF S1])
      with nw show "\<not> won db1 c" by (simp add: settled_on_budget_won won_def C(4))
    next
      assume two: "length rows + 1 = 2"
      then have ne: "rows \<noteq> []" by auto
      show "\<exists>f \<in> set (db_failures db1). fl_key f = (?t, 1) \<and> apart 0 (fl_settled_at f) (timestamp now)"
      proof (cases "ar_kind (last rows) = None")
        case True
        with ne C(6) two V show ?thesis by (auto simp: unsettled_def apart_timestamp)
      next
        case False
        from ins' obtain u where "refuse_early rows now = Inr u"
          by (auto simp: insert_claimed_def result_simps)
        from refuse_early_settled [OF S rd ne False this V] obtain f where
          "f \<in> set (db_failures db)" "fl_key f = (?t, length rows)" "apart 0 (fl_settled_at f) (timestamp now)" .
        with two ext show ?thesis by (auto simp: extends_def)
      qed
    qed
    with C(1) show ?thesis by simp
  qed
qed

end
