(* ===== verification/Task_Settling.thy ===== *)
theory Task_Settling
  imports Task_Refinement
begin

text \<open>
  Renewal, executor failures, recovery and the settlement of a candidate refine the abstract
  steps. The settlement runs in two phases: what the read phase established about its plan
  (\<open>plan_ok\<close>) stays true in every later database.
\<close>

lemma unsettled_row_open:
  assumes "read_attempts db t = Inr rows" and "r \<in> set rows"
    and "ar_kind r = None" and "ar_success_id r = None"
  shows "open_attempt db (t, ar_no r)"
  using read_row(5) [OF assms(1,2)] row_kind_None [OF assms(1,2)] row_success_None [OF assms(1,2)]
    assms(3,4) by (simp add: open_attempt_def)

section \<open>renew\<close>

lemma renew_bodyD:
  assumes "renew_body sys clock handle db = Inr (expires, db')"
  obtains a rows now where "lookup at_renewal (db_attempts db) (digest (sy_sha sys) handle) = Some a"
    "read_attempts db (at_task_id a) = Inr rows"
    "at_renewal (ar_attempt (last rows)) = digest (sy_sha sys) handle"
    "ar_kind (last rows) = None" "ar_success_id (last rows) = None"
    "utc_now clock = Inr now" "require_attempt_time (last rows) now = Inr ()"
    "lease_expiry now = Inr expires"
    "db' = update_lease (at_task_id (ar_attempt (last rows))) (ar_no (last rows)) (timestamp expires) db"
  using assms by (auto simp: renew_body_def Let_def result_simps split: option.splits)

lemma renew_body_refines:
  assumes S: "sound db" and G: "good_clock clock"
    and body: "renew_body sys clock handle db = Inr (expires, db')"
  shows "fact_step db db'"
proof -
  from renew_bodyD [OF body] obtain a rows now where
      a: "lookup at_renewal (db_attempts db) (digest (sy_sha sys) handle) = Some a"
    and rd: "read_attempts db (at_task_id a) = Inr rows"
    and cur: "ar_kind (last rows) = None" "ar_success_id (last rows) = None"
    and clock: "utc_now clock = Inr now" and tm: "require_attempt_time (last rows) now = Inr ()"
    and ex: "lease_expiry now = Inr expires"
    and db': "db' = update_lease (at_task_id (ar_attempt (last rows))) (ar_no (last rows)) (timestamp expires) db"
    by metis
  have V: "valid_instant now" using utc_nowD [OF clock G] by simp
  have "claimed db (at_task_id a, at_attempt_no a)"
    using lookup_Some [OF a] by (intro keyI(1) [of a]) simp_all
  then obtain r where "r \<in> set rows" by (rule read_claimed [OF rd])
  then have ne: "rows \<noteq> []" by auto
  note last = last_row_facts(1) [OF S rd ne]
  note row = read_row [OF rd last]
  have e: "expires = now + lease_span" "valid_instant expires"
    using lease_expiryD [OF ex V] by blast+
  from tm obtain c where c: "read_timestamp (at_claimed_at (ar_attempt (last rows))) = Some c" "c \<le> now"
    by (auto simp: require_attempt_time_def result_simps stored_instantD)
  show ?thesis unfolding db'
  proof (rule extend_lease)
    show "open_attempt db (at_task_id (ar_attempt (last rows)), ar_no (last rows))"
      using unsettled_row_open [OF rd last cur] row(2) by simp
    show "\<forall>b \<in> set (db_attempts db). at_key b = (at_task_id (ar_attempt (last rows)), ar_no (last rows)) \<longrightarrow>
        apart lease_span (at_claimed_at b) (timestamp expires)"
    proof (intro ballI impI)
      fix b assume "b \<in> set (db_attempts db)"
        "at_key b = (at_task_id (ar_attempt (last rows)), ar_no (last rows))"
      then have "b = ar_attempt (last rows)" by (intro attempt_of_key [OF S _ row(1)]) simp_all
      with c e show "apart lease_span (at_claimed_at b) (timestamp expires)"
        by (simp add: apart_def read_timestamp_timestamp)
    qed
  qed
qed

section \<open>fail and reclaim\<close>

text \<open>A failure settled now on an unsettled row of a task.\<close>

lemma settle_row_refines:
  assumes S: "sound db" and rd: "read_attempts db t = Inr rows" and r: "r \<in> set rows"
    and un: "ar_kind r = None" "ar_success_id r = None"
    and tm: "require_attempt_time r now = Inr ()" and V: "valid_instant now"
    and f: "fl_key f = (t, ar_no r)" "fl_origin f \<noteq> By_Recovery" "fl_settled_at f = timestamp now"
    and auth: "authority_ok f" and ins: "insert_failure f db = Inr db'"
  shows "fact_step db db'"
proof (rule settle_failure [OF ins _ auth])
  show "open_attempt db (fl_key f)" unfolding f(1) by (rule unsettled_row_open [OF rd r un])
  show "failure_timely db f"
  proof (rule failure_timelyI)
    fix a assume "a \<in> set (db_attempts db)" "at_key a = fl_key f"
    then have "a = ar_attempt r"
      using read_row(4) [OF rd r] f(1) by (intro attempt_of_key [OF S _ read_row(1) [OF rd r]]) simp_all
    with require_attempt_timeD [OF tm V] f(3) show "apart 0 (at_claimed_at a) (fl_settled_at f)" by simp
  qed (use f(2) in simp)
qed

lemma find_row: "find (\<lambda>r. ar_no r = n) rows = Some row \<Longrightarrow> row \<in> set rows \<and> ar_no row = n"
  by (rule find_Some_set)

lemma credential_attemptD:
  assumes "credential_attempt sha db c = Inr (row, latest)"
  obtains rows where "read_attempts db (cl_task_id c) = Inr rows" "row \<in> set rows"
    "ar_no row = cl_attempt_no c" "at_credential (ar_attempt row) = digest sha (cl_credential c)"
    "latest \<longleftrightarrow> ar_no row = ar_no (last rows)"
  using assms
  by (auto simp: credential_attempt_def result_simps split: option.splits if_splits dest!: find_row)

lemma fail_body_refines:
  assumes S: "sound db" and G: "good_clock clock"
    and kind: "is_executor_failure kind"
    and origin: "origin = By_Executor \<or> (origin = By_Exception \<and> kind = Executor_Error)"
    and body: "fail_body sys clock c kind origin db = Inr (x, db')"
  shows "db' = db \<or> fact_step db db'"
proof -
  from body obtain row latest where cred: "credential_attempt (sy_sha sys) db c = Inr (row, latest)"
    by (auto simp: fail_body_def result_simps)
  from credential_attemptD [OF cred] obtain rows where rd: "read_attempts db (cl_task_id c) = Inr rows"
      and r: "row \<in> set rows" and no: "ar_no row = cl_attempt_no c" by metis
  show ?thesis
  proof (cases "ar_kind row = None \<and> ar_success_id row = None")
    case False
    with body cred show ?thesis by (auto simp: fail_body_def result_simps split: if_splits)
  next
    case True
    with body cred obtain now where clock: "utc_now clock = Inr now"
      and tm: "require_attempt_time row now = Inr ()"
      and ins: "insert_failure (plain_failure c kind origin now) db = Inr db'"
      by (auto simp: fail_body_def result_simps split: if_splits)
    have "fact_step db db'"
    proof (rule settle_row_refines [OF S rd r _ _ tm _ _ _ _ _ ins])
      show "authority_ok (plain_failure c kind origin now)"
        using kind origin
        by (auto simp: authority_ok_def plain_failure_def is_executor_failure_def executor_failures_def)
      show "valid_instant now" using utc_nowD [OF clock G] by simp
    qed (use True origin no in \<open>auto simp: plain_failure_def\<close>)
    then show ?thesis ..
  qed
qed

lemma reclaim_body_refines:
  assumes S: "sound db" and G: "good_clock clock"
    and body: "reclaim_body clock receipt db = Inr (st, db')"
  shows "db' = db \<or> fact_step db db'"
proof -
  let ?t = "rc_task_id receipt"
  from body obtain now rows where clock: "utc_now clock = Inr now"
      and rd: "read_attempts db ?t = Inr rows"
    by (auto simp: reclaim_body_def result_simps)
  have V: "valid_instant now" using utc_nowD [OF clock G] by simp
  show ?thesis
  proof (cases "unsettled rows \<and> ar_success_id (last rows) = None \<and>
      (\<exists>e. stored_instant (ar_expires_at (last rows)) = Inr e \<and> e \<le> now)")
    case False
    with body clock rd show ?thesis by (auto simp: reclaim_body_def result_simps split: if_splits)
  next
    case True
    then obtain e where u: "rows \<noteq> []" "ar_kind (last rows) = None" "ar_success_id (last rows) = None"
        and e: "stored_instant (ar_expires_at (last rows)) = Inr e" "e \<le> now"
      by (auto simp: unsettled_def)
    from body clock rd True e have "recover_attempt (last rows) now db = Inr db'"
      by (auto simp: reclaim_body_def result_simps split: if_splits)
    from recover_refines [OF S rd last_row_facts(1) [OF S rd u(1)] u(2,3) e V this] show ?thesis ..
  qed
qed

section \<open>Settlement of a candidate\<close>

definition plan_ok :: "task_db \<Rightarrow> claim \<Rightarrow> plan \<Rightarrow> bool" where
  "plan_ok db c p \<longleftrightarrow> on_budget db (cl_task_id c) (pl_budget p) \<and>
     (case pl_verdict p of
        Reject kind issues \<Rightarrow>
          kind \<in> {Output_Invalid, Model_Mismatch} \<and> (issues \<noteq> [] \<longrightarrow> kind = Output_Invalid)
      | Accept_Output out artifact \<Rightarrow> True)"

lemma plan_ok_extends: "plan_ok db c p \<Longrightarrow> extends db db' \<Longrightarrow> plan_ok db' c p"
  by (auto simp: plan_ok_def intro: on_budget_extends)

lemma precheckD:
  assumes "precheck sys env db c submission = Inr (row, replayed)"
  obtains rows where "read_attempts db (cl_task_id c) = Inr rows" "row \<in> set rows"
    "ar_no row = cl_attempt_no c" "at_credential (ar_attempt row) = digest (sy_sha sys) (cl_credential c)"
    "replayed = None \<longrightarrow> ar_kind row = None \<and> ar_success_id row = None"
proof -
  from assms obtain row' latest where cred: "credential_attempt (sy_sha sys) db c = Inr (row', latest)"
    by (auto simp: precheck_def result_simps)
  have "row' = row \<and> (replayed = None \<longrightarrow> ar_kind row = None \<and> ar_success_id row = None)"
  proof (cases "ar_success_id row'")
    case None
    with assms cred show ?thesis
      by (cases "ar_kind row'"; cases "lookup fl_key (db_failures db) (cl_task_id c, cl_attempt_no c)")
        (auto simp: precheck_def result_simps split: if_splits)
  next
    case (Some i)
    with assms cred show ?thesis by (auto simp: precheck_def result_simps split: if_splits)
  qed
  with credential_attemptD [OF cred] that show ?thesis by metis
qed

lemma judge_verdict:
  assumes "judge sys env cand (b, frozen) = Inr (Reject kind issues)"
  shows "kind \<in> {Output_Invalid, Model_Mismatch} \<and> (issues \<noteq> [] \<longrightarrow> kind = Output_Invalid)"
proof -
  from assms obtain ok where mm: "model_matches env cand (fz_snapshot_id frozen) = Inr ok"
    by (auto simp: judge_def result_simps)
  show ?thesis
  proof (cases ok)
    case True
    with assms mm obtain v where v: "validate_candidate_output env frozen (cd_raw cand) = Inr v"
      by (auto simp: judge_def result_simps)
    show ?thesis
    proof (cases v)
      case (Inl xs)
      with assms mm True v show ?thesis
        by (cases "encode_issues xs") (auto simp: judge_def result_simps)
    next
      case (Inr out)
      with assms mm True v show ?thesis
        by (cases "cv_publish env") (auto simp: judge_def result_simps)
    qed
  next
    case False
    with assms mm show ?thesis by (simp add: judge_def)
  qed
qed

lemma submit_planD:
  assumes "submit_plan sys env c cand db = Inr (Inr p)"
  obtains audit b frozen where "require_secret (cl_credential c) = Inr ()"
    "candidate_audit env cand = Inr audit" "pl_audit p = audit"
    "submission_digest (sy_sha sys) (cd_raw cand) audit = Inr (pl_submission p)"
    "submit_read sys env c cand (pl_submission p) db = Inr (Inr (b, frozen))"
    "judge sys env cand (b, frozen) = Inr (pl_verdict p)" "pl_budget p = bg_budget_id b"
proof -
  from assms obtain audit sub r where 1: "require_secret (cl_credential c) = Inr ()"
      "candidate_audit env cand = Inr audit"
      "submission_digest (sy_sha sys) (cd_raw cand) audit = Inr sub"
      "submit_read sys env c cand sub db = Inr r"
    by (auto simp: submit_plan_def result_simps)
  then obtain bf where r: "r = Inr bf"
    using assms by (cases r) (simp_all add: submit_plan_def)
  with assms 1 obtain v where "judge sys env cand bf = Inr v"
      "p = \<lparr>pl_submission = sub, pl_audit = audit, pl_budget = bg_budget_id (fst bf), pl_verdict = v\<rparr>"
    by (auto simp: submit_plan_def result_simps)
  with 1 r show ?thesis by (intro that [of audit "fst bf" "snd bf"]) simp_all
qed

lemma submit_readD:
  assumes "submit_read sys env c cand submission db = Inr (Inr (b, frozen))"
  obtains row r t where "precheck sys env db c submission = Inr (row, None)"
    "receipt_row db (at_receipt_id (ar_attempt row)) = Some (r, t, b)"
    "check_reference env c cand = Inr ()" "load_frozen env db b = Inr frozen"
proof -
  from assms obtain row replayed where 1: "precheck sys env db c submission = Inr (row, replayed)"
      "check_reference env c cand = Inr ()"
    by (auto simp: submit_read_def result_simps)
  then have 2: "replayed = None" using assms by (cases replayed) (simp_all add: submit_read_def)
  obtain r t b' where 3: "receipt_row db (at_receipt_id (ar_attempt row)) = Some (r, t, b')"
    using assms 1 2 by (cases "receipt_row db (at_receipt_id (ar_attempt row))") (auto simp: submit_read_def)
  with assms 1 2 have "b' = b" "load_frozen env db b = Inr frozen"
    by (auto simp: submit_read_def result_simps)
  with 1 2 3 show ?thesis by (intro that) simp_all
qed

lemma submit_plan_ok:
  assumes S: "sound db" and plan: "submit_plan sys env c cand db = Inr (Inr p)"
  shows "plan_ok db c p"
proof -
  from submit_planD [OF plan] obtain b frozen where
      rd: "submit_read sys env c cand (pl_submission p) db = Inr (Inr (b, frozen))"
    and jd: "judge sys env cand (b, frozen) = Inr (pl_verdict p)" and pb: "pl_budget p = bg_budget_id b"
    by metis
  from submit_readD [OF rd] obtain row r t where
      pre: "precheck sys env db c (pl_submission p) = Inr (row, None)"
    and rr: "receipt_row db (at_receipt_id (ar_attempt row)) = Some (r, t, b)" by metis
  from precheckD [OF pre] obtain rows where rows: "read_attempts db (cl_task_id c) = Inr rows"
      and r: "row \<in> set rows" by metis
  note D = receipt_rowD [OF rr]
  from soundD(4) [OF S] read_row(1) [OF rows r] obtain q where q: "q \<in> set (db_requests db)"
      "re_receipt_id q = at_receipt_id (ar_attempt row)" "re_task_id q = at_task_id (ar_attempt row)"
    by (auto simp: references_ok_def)
  have "q = r" using q D
    by (intro distinct_key_eq [OF keysD(4) [OF soundD(1) [OF S]]]) simp_all
  with q D read_row(2) [OF rows r] pb have "on_budget db (cl_task_id c) (pl_budget p)"
    by (auto simp: on_budget_def)
  with judge_verdict [of sys env cand b frozen] jd show ?thesis
    by (cases "pl_verdict p") (auto simp: plan_ok_def)
qed

lemma settle_body_refines:
  assumes S: "sound db" and G: "good_clock clock" and P: "plan_ok db c p"
    and body: "settle_body sys env clock new_id c cand p db = Inr (x, db')"
  shows "db' = db \<or> fact_step db db'"
proof -
  from body obtain row replayed where pre: "precheck sys env db c (pl_submission p) = Inr (row, replayed)"
    by (auto simp: settle_body_def result_simps)
  from precheckD [OF pre] obtain rows where rd: "read_attempts db (cl_task_id c) = Inr rows"
      and r: "row \<in> set rows" and no: "ar_no row = cl_attempt_no c"
      and un: "replayed = None \<longrightarrow> ar_kind row = None \<and> ar_success_id row = None" by metis
  show ?thesis
  proof (cases replayed)
    case (Some s)
    with body pre show ?thesis by (auto simp: settle_body_def result_simps)
  next
    case None
    with un have un': "ar_kind row = None" "ar_success_id row = None" by simp_all
    from body pre None obtain now where clock: "utc_now clock = Inr now"
        and tm: "require_attempt_time row now = Inr ()"
      by (auto simp: settle_body_def result_simps)
    have V: "valid_instant now" using utc_nowD [OF clock G] by simp
    show ?thesis
    proof (cases "pl_verdict p")
      case (Reject kind issues)
      with body pre None clock tm obtain t where t: "encode_issues issues = Some t"
        and ins: "insert_failure (submitted_failure c p kind t now) db = Inr db'"
        by (auto simp: settle_body_def result_simps split: option.splits)
      have "authority_ok (submitted_failure c p kind t now)"
        using P Reject t
        by (auto simp: plan_ok_def authority_ok_def submitted_failure_def encode_issues_def split: if_splits)
      from settle_row_refines [OF S rd r un' tm V _ _ _ this ins] have "fact_step db db'"
        by (simp add: submitted_failure_def no)
      then show ?thesis ..
    next
      case (Accept_Output out artifact)
      with body pre None clock tm obtain s where ins: "insert_success s db = Inr db'"
        and s: "su_task_id s = cl_task_id c" "su_attempt_no s = cl_attempt_no c"
          "su_budget_id s = pl_budget p" "su_settled_at s = timestamp now"
        by (auto simp: settle_body_def result_simps)
      have "\<forall>a \<in> set (db_attempts db). at_key a = su_key s \<longrightarrow> apart 0 (at_claimed_at a) (su_settled_at s)"
      proof (intro ballI impI)
        fix a assume "a \<in> set (db_attempts db)" "at_key a = su_key s"
        then have "a = ar_attempt row"
          using read_row(4) [OF rd r] no s
          by (intro attempt_of_key [OF S _ read_row(1) [OF rd r]]) simp_all
        with require_attempt_timeD [OF tm V] s show "apart 0 (at_claimed_at a) (su_settled_at s)" by simp
      qed
      then have "fact_step db db'"
        using P unsettled_row_open [OF rd r un'] no s
        by (intro settle_success [OF ins]) (simp_all add: plan_ok_def)
      then show ?thesis ..
    qed
  qed
qed

end
