(* ===== verification/Task_Opening.thy ===== *)
theory Task_Opening
  imports Task_Settling
begin

text \<open>Registration and retry refine the abstract steps.\<close>

lemma insert_and_readD:
  assumes "insert_and_read r db = Inr (x, db')"
  obtains row where "insert_request r db = Inr db'" "receipt_row db' (re_receipt_id r) = Some row"
    "to_receipt row = Inr x"
  using assms by (auto simp: insert_and_read_def result_simps)

lemma ensure_input_refines:
  assumes "ensure_input input st db = Inr db'"
  shows "fact_step\<^sup>*\<^sup>* db db'"
proof (cases "lookup in_fingerprint (db_inputs db) (si_fingerprint input)")
  case None
  with assms have "fact_step db db'" by (auto simp: ensure_input_def intro: freeze_input)
  then show ?thesis by simp
next
  case (Some row)
  with assms show ?thesis by (auto simp: ensure_input_def split: if_splits)
qed

lemma ensure_budget_refines:
  assumes "ensure_budget q input basis nb nt db = Inr ((b, t), db')"
  shows "fact_step\<^sup>*\<^sup>* db db'"
proof (cases "lookup bg_key (db_budgets db) (rq_paper_id q, rq_stage q, si_fingerprint input)")
  case None
  with assms obtain b1 db1 t1 where "insert_budget b1 db = Inr db1" "insert_task t1 db1 = Inr db'"
      "tk_budget_id t1 = bg_budget_id b1" "tk_generation t1 = 0" "tk_parent t1 = None"
    by (auto simp: ensure_budget_def result_simps)
  then have "fact_step db db'" by (rule open_budget)
  then show ?thesis by simp
next
  case (Some row)
  with assms have "db' = db"
    by (cases "latest_task db (bg_budget_id row)") (auto simp: ensure_budget_def split: if_splits)
  then show ?thesis by simp
qed

lemma register_request_cases:
  assumes "register_request sha q input basis nb nt db = Inr (x, db')"
  obtains (replayed) "replay_request sha db q = Inr (Some x)" "db' = db"
  | (known) row where "replay_request sha db q = Inr None"
      "receipt_row db (receipt_id sha q basis (si_fingerprint input)) = Some row"
      "existing_receipt sha q row = Inr x" "db' = db"
  | (fresh) db1 b t db2 where "replay_request sha db q = Inr None"
      "receipt_row db (receipt_id sha q basis (si_fingerprint input)) = None"
      "ensure_input input (rq_stage q) db = Inr db1"
      "ensure_budget q input basis nb nt db1 = Inr ((b, t), db2)"
      "insert_and_read (new_request sha q (receipt_id sha q basis (si_fingerprint input)) t basis
         (cached_success db2 b)) db2 = Inr (x, db')"
proof -
  from assms obtain rep where rep: "replay_request sha db q = Inr rep"
    by (auto simp: register_request_def result_simps)
  show ?thesis
  proof (cases rep)
    case (Some y)
    with assms rep show ?thesis by (intro replayed) (simp_all add: register_request_def)
  next
    case None
    show ?thesis
    proof (cases "receipt_row db (receipt_id sha q basis (si_fingerprint input))")
      case (Some row)
      with None assms rep show ?thesis
        by (intro known [of row]) (auto simp: register_request_def Let_def result_simps split: if_splits)
    next
      case row: None
      from assms rep None row obtain db1 b t db2 where
        "ensure_input input (rq_stage q) db = Inr db1"
        "ensure_budget q input basis nb nt db1 = Inr ((b, t), db2)"
        "insert_and_read (new_request sha q (receipt_id sha q basis (si_fingerprint input)) t basis
           (cached_success db2 b)) db2 = Inr (x, db')"
        by (auto simp: register_request_def Let_def result_simps)
      with rep None row show ?thesis by (intro fresh) simp_all
    qed
  qed
qed

lemma register_request_refines:
  assumes "register_request sha q input basis nb nt db = Inr (x, db')"
  shows "fact_step\<^sup>*\<^sup>* db db'"
  using assms
proof (cases rule: register_request_cases)
  case (fresh db1 b t db2)
  from fresh(5) obtain r where "insert_request r db2 = Inr db'"
    by (rule insert_and_readD)
  then have "fact_step db2 db'" by (rule add_request)
  with ensure_input_refines [OF fresh(3)] ensure_budget_refines [OF fresh(4)] show ?thesis by simp
qed simp_all

lemma register_bodyD:
  assumes "register_body sha env q input basis db = Inr (x, db')"
  shows "(replay_request sha db q = Inr (Some x) \<and> db' = db) \<or>
    (replay_request sha db q = Inr None \<and> rg_current env = Inr basis \<and> rg_snapshot_known env \<and>
     register_request sha q input basis (rg_new_budget env) (rg_new_task env) db = Inr (x, db'))"
proof -
  from assms obtain rep where rep: "replay_request sha db q = Inr rep"
    by (auto simp: register_body_def result_simps)
  with assms show ?thesis by (cases rep) (auto simp: register_body_def result_simps)
qed

lemma register_body_refines:
  "register_body sha env q input basis db = Inr (x, db') \<Longrightarrow> fact_step\<^sup>*\<^sup>* db db'"
  by (drule register_bodyD) (auto intro: register_request_refines)

section \<open>retry\<close>

lemma both_failed:
  assumes rd: "read_attempts db t = Inr rows" and st: "derive_status t rows now = Inr st"
    and F: "ts_state st = Failed"
  shows "failed db (t, 1)" "failed db (t, 2)"
proof -
  from st F have "rows \<noteq> []" "ar_kind (last rows) \<noteq> None" "length rows = 2"
    by (auto simp: derive_status_def last_row_def Let_def attempts_per_generation_def result_simps
        split: option.splits if_splits)
  moreover have "consistent_rows rows" using read_attemptsD [OF rd] ..
  ultimately obtain r1 r2 where rows: "rows = [r1, r2]" "ar_kind r1 \<noteq> None" "ar_kind r2 \<noteq> None"
    by (auto simp: consistent_rows_def numeral_2_eq_2 length_Suc_conv)
  then show "failed db (t, 1)" "failed db (t, 2)"
    using row_kind_None [OF rd, of r1] row_kind_None [OF rd, of r2]
      read_numbers(2) [OF rd, of 0] read_numbers(2) [OF rd, of 1] by auto
qed

lemma retry_status_refines:
  assumes S: "sound db" and V: "valid_instant now"
    and body: "retry_status parent now db = Inr (st, db')" and F: "ts_state st = Failed"
  shows "fact_step\<^sup>*\<^sup>* db db'" "failed db' (parent, 1)" "failed db' (parent, 2)"
    "db_tasks db' = db_tasks db" "db_successes db' = db_successes db"
proof -
  from body obtain rows st0 where rd: "read_attempts db parent = Inr rows"
      and st0: "derive_status parent rows now = Inr st0"
    by (auto simp: retry_status_def result_simps)
  have "fact_step\<^sup>*\<^sup>* db db' \<and> failed db' (parent, 1) \<and> failed db' (parent, 2) \<and>
    db_tasks db' = db_tasks db \<and> db_successes db' = db_successes db"
  proof (cases "ts_state st0 = Lease_Expired \<and> ts_used_attempts st0 = attempts_per_generation")
    case False
    with body rd st0 have "st = st0" "db' = db" by (auto simp: retry_status_def)
    with both_failed [OF rd st0] F show ?thesis by simp
  next
    case True
    from True st0 obtain e where u: "rows \<noteq> []" "ar_kind (last rows) = None"
        "ar_success_id (last rows) = None"
        and e: "stored_instant (ar_expires_at (last rows)) = Inr e" "e \<le> now"
      by (auto simp: derive_status_def last_row_def Let_def result_simps split: option.splits if_splits)
    from True body rd st0 obtain rows' where rec: "recover_attempt (last rows) now db = Inr db'"
        and rd': "read_attempts db' parent = Inr rows'" and st: "derive_status parent rows' now = Inr st"
      by (auto simp: retry_status_def result_simps)
    have "fact_step db db'"
      by (rule recover_refines [OF S rd last_row_facts(1) [OF S rd u(1)] u(2,3) e V rec])
    moreover have "db_tasks db' = db_tasks db" "db_successes db' = db_successes db"
      using rec by (auto simp: recover_attempt_def result_simps dest!: insert_failureD)
    ultimately show ?thesis using both_failed [OF rd' st F] by simp
  qed
  then show "fact_step\<^sup>*\<^sup>* db db'" "failed db' (parent, 1)" "failed db' (parent, 2)"
    "db_tasks db' = db_tasks db" "db_successes db' = db_successes db"
    by blast+
qed

lemma retry_bodyD:
  assumes "retry_body sha env q parent_id input basis db = Inr (x, db')"
  obtains (replayed) "replay_request sha db q = Inr (Some x)" "db' = db"
  | (fresh) parent now st db1 db2 where
      "replay_request sha db q = Inr None" "ry_current env = Inr basis"
      "lookup tk_task_id (db_tasks db) parent_id = Some parent"
      "lookup tk_parent (db_tasks db) (Some parent_id) = None"
      "\<not> settled_on_budget db (tk_budget_id parent)"
      "map_option tk_task_id (latest_task db (tk_budget_id parent)) = Some parent_id"
      "utc_now (ry_clock env) = Inr now"
      "retry_status parent_id now db = Inr (st, db1)" "ts_state st = Failed"
      "insert_task \<lparr>tk_task_id = ry_new_task env, tk_budget_id = tk_budget_id parent,
         tk_generation = tk_generation parent + 1, tk_parent = Some parent_id\<rparr> db1 = Inr db2"
      "insert_and_read (new_request sha q (retry_receipt_id sha q) (ry_new_task env) basis None) db2
         = Inr (x, db')"
proof -
  from assms obtain rep where rep: "replay_request sha db q = Inr rep"
    by (auto simp: retry_body_def result_simps)
  show ?thesis
  proof (cases rep)
    case (Some y)
    with assms rep show ?thesis by (intro replayed) (simp_all add: retry_body_def)
  next
    case None
    have free: "lookup tk_parent (db_tasks db) (Some parent_id) = None"
      using assms rep None
      by (cases "lookup tk_parent (db_tasks db) (Some parent_id)") (auto simp: retry_body_def result_simps)
    from assms rep None free obtain parent now st db1 db2 where
      "ry_current env = Inr basis" "lookup tk_task_id (db_tasks db) parent_id = Some parent"
      "\<not> settled_on_budget db (tk_budget_id parent)"
      "map_option tk_task_id (latest_task db (tk_budget_id parent)) = Some parent_id"
      "utc_now (ry_clock env) = Inr now"
      "retry_status parent_id now db = Inr (st, db1)" "ts_state st = Failed"
      "insert_task \<lparr>tk_task_id = ry_new_task env, tk_budget_id = tk_budget_id parent,
         tk_generation = tk_generation parent + 1, tk_parent = Some parent_id\<rparr> db1 = Inr db2"
      "insert_and_read (new_request sha q (retry_receipt_id sha q) (ry_new_task env) basis None) db2
         = Inr (x, db')"
      unfolding retry_body_def by (auto simp: result_simps bind_eq_Some_conv)
    with rep None free show ?thesis by (intro fresh) simp_all
  qed
qed

lemma retry_body_refines:
  assumes S: "sound db" and G: "good_clock (ry_clock env)"
    and body: "retry_body sha env q parent_id input basis db = Inr (x, db')"
  shows "fact_step\<^sup>*\<^sup>* db db'"
  using body
proof (cases rule: retry_bodyD)
  case (fresh parent now st db1 db2)
  have V: "valid_instant now" using utc_nowD [OF fresh(7) G] by simp
  note R = retry_status_refines [OF S V fresh(8,9)]
  note P = lookup_Some [OF fresh(3)]
  have "fact_step db1 db2"
  proof (rule open_generation [OF fresh(10)])
    show "parent \<in> set (db_tasks db1)" using P R(4) by simp
    show "failed db1 (tk_task_id parent, 1)" "failed db1 (tk_task_id parent, 2)"
      using P R(2,3) by simp_all
    show "\<not> won db1 (tk_budget_id parent)"
      using fresh(5) R(5) by (simp add: settled_on_budget_won won_def)
  qed (use P in simp_all)
  moreover obtain r where "insert_request r db2 = Inr db'"
    using insert_and_readD [OF fresh(11)] by metis
  then have "fact_step db2 db'" by (rule add_request)
  ultimately show ?thesis using R(1) by simp
qed simp

end
