(* ===== verification/Task_System.thy ===== *)
theory Task_System
  imports Task_Opening
begin

text \<open>
  The whole system: writers interleave one transaction at a time, between any two steps of
  another caller. A world holds the database, the receipts handed out and the settlement
  plans whose write phase is still to come; \<open>transition\<close> is one service call (or one phase of
  \<open>submit\<close>), \<open>reachable\<close> everything they lead to from empty tables.
\<close>

definition get_receipt_op :: "string \<Rightarrow> task_db \<Rightarrow> (task_error, receipt) outcome" where
  "get_receipt_op i db =
     and_then (require (hex64 i) (Task_Error Request_Not_Found None)) (\<lambda>_.
     and_then (or_raise (receipt_row db i) (Task_Error Request_Not_Found None)) to_receipt)"

record world =
  w_db :: task_db
  w_receipts :: "receipt list"
  w_plans :: "(claim \<times> candidate \<times> plan) list"

definition empty_db :: task_db where
  "empty_db = \<lparr>db_inputs = [], db_budgets = [], db_tasks = [], db_requests = [],
     db_attempts = [], db_leases = [], db_failures = [], db_successes = []\<rparr>"

definition initial_world :: world where
  "initial_world = \<lparr>w_db = empty_db, w_receipts = [], w_plans = []\<rparr>"

text \<open>The origins \<open>run_once\<close> passes to \<open>fail\<close>.\<close>

definition legal_origin :: "failure_origin \<Rightarrow> failure_kind \<Rightarrow> bool" where
  "legal_origin g k \<longleftrightarrow> g = By_Executor \<or> (g = By_Exception \<and> k = Executor_Error)"

inductive transition :: "system \<Rightarrow> world \<Rightarrow> world \<Rightarrow> bool" for sys where
  read_receipt:
    "get_receipt_op i (w_db w) = Inr r \<Longrightarrow>
     transition sys w (w\<lparr>w_receipts := r # w_receipts w\<rparr>)"
| claim:
    "r \<in> set (w_receipts w) \<Longrightarrow> good_clock (ce_clock_in_txn env) \<Longrightarrow>
     claim_op sys env r fp (w_db w) = (out, db') \<Longrightarrow> transition sys w (w\<lparr>w_db := db'\<rparr>)"
| renew:
    "good_clock clock \<Longrightarrow> renew_op sys clock handle (w_db w) = (out, db') \<Longrightarrow>
     transition sys w (w\<lparr>w_db := db'\<rparr>)"
| fail:
    "good_clock clock \<Longrightarrow> legal_origin origin kind \<Longrightarrow>
     fail_op sys clock c kind origin (w_db w) = (out, db') \<Longrightarrow> transition sys w (w\<lparr>w_db := db'\<rparr>)"
| reclaim:
    "r \<in> set (w_receipts w) \<Longrightarrow> good_clock clock \<Longrightarrow>
     reclaim_op clock r (w_db w) = (out, db') \<Longrightarrow> transition sys w (w\<lparr>w_db := db'\<rparr>)"
| submit_plan:
    "submit_plan sys env c cand (w_db w) = Inr (Inr p) \<Longrightarrow>
     transition sys w (w\<lparr>w_plans := (c, cand, p) # w_plans w\<rparr>)"
| submit_settle:
    "(c, cand, p) \<in> set (w_plans w) \<Longrightarrow> good_clock clock \<Longrightarrow>
     commit (settle_body sys env clock new_id c cand p) (w_db w) = (out, db') \<Longrightarrow>
     transition sys w (w\<lparr>w_db := db'\<rparr>)"
| register:
    "commit (register_body (sy_sha sys) renv q input b) (w_db w) = (out, db') \<Longrightarrow>
     transition sys w (w\<lparr>w_db := db'\<rparr>)"
| retry:
    "good_clock (ry_clock yenv) \<Longrightarrow>
     commit (retry_body (sy_sha sys) yenv q parent input b) (w_db w) = (out, db') \<Longrightarrow>
     transition sys w (w\<lparr>w_db := db'\<rparr>)"

inductive_cases transitionE: "transition sys w w'"

inductive reachable :: "system \<Rightarrow> world \<Rightarrow> bool" for sys where
  initial: "reachable sys initial_world"
| step: "reachable sys w \<Longrightarrow> transition sys w w' \<Longrightarrow> reachable sys w'"

section \<open>Every transition refines the abstract steps\<close>

definition world_ok :: "world \<Rightarrow> bool" where
  "world_ok w \<longleftrightarrow> sound (w_db w) \<and> (\<forall>r \<in> set (w_receipts w). receipt_ok (w_db w) r) \<and>
     (\<forall>(c, cand, p) \<in> set (w_plans w). plan_ok (w_db w) c p)"

lemma commit_cases:
  assumes "commit body db = (out, db')"
  obtains (returned) x where "body db = Inr (x, db')" "out = Inr x"
  | (raised) e where "out = Inl e" "db' = db" "body db = Inl e"
  using assms by (auto simp: commit_def split: sum.splits)

lemma claim_op_refines:
  assumes "sound db" "receipt_ok db r" "good_clock (ce_clock_in_txn env)"
    and op: "claim_op sys env r fp db = (out, db')"
  shows "fact_step\<^sup>*\<^sup>* db db'"
proof (cases "claim_prepare env r fp")
  case (Inr b)
  obtain o2 d2 where c: "commit (claim_body sys env r b) db = (o2, d2)" by (cases "commit (claim_body sys env r b) db")
  with op Inr have "d2 = db'" by (auto simp: claim_op_def split: sum.splits)
  from c show ?thesis
  proof (cases rule: commit_cases)
    case (returned x)
    obtain n t e where "x = (n, t, e)" by (cases x)
    with returned \<open>d2 = db'\<close> claim_body_refines [OF assms(1-3)] show ?thesis by blast
  qed (use \<open>d2 = db'\<close> in simp)
qed (use op in \<open>simp add: claim_op_def\<close>)

lemma renew_op_refines:
  assumes "sound db" "good_clock clock" and op: "renew_op sys clock handle db = (out, db')"
  shows "fact_step\<^sup>*\<^sup>* db db'"
proof (cases "require_secret handle")
  case (Inr u)
  with op have "commit (renew_body sys clock handle) db = (out, db')" by (simp add: renew_op_def)
  then show ?thesis
    by (cases rule: commit_cases) (auto dest: renew_body_refines [OF assms(1,2)])
qed (use op in \<open>simp add: renew_op_def\<close>)

lemma fail_op_refines:
  assumes "sound db" "good_clock clock" "legal_origin origin kind"
    and op: "fail_op sys clock c kind origin db = (out, db')"
  shows "fact_step\<^sup>*\<^sup>* db db'"
proof (cases "and_then (require_secret (cl_credential c)) (\<lambda>_.
    require (is_executor_failure kind) (Task_Error Invalid_Failure None))")
  case (Inr u)
  then have k: "is_executor_failure kind" by (simp add: result_simps)
  from op Inr have "commit (fail_body sys clock c kind origin) db = (out, db')" by (simp add: fail_op_def)
  then show ?thesis
    by (cases rule: commit_cases)
      (auto dest: fail_body_refines [OF assms(1,2) k assms(3) [unfolded legal_origin_def]])
qed (use op in \<open>simp add: fail_op_def\<close>)

lemma get_receipt_opD: "get_receipt_op i db = Inr r \<Longrightarrow> receipt_ok db r \<and> rc_receipt_id r = i"
  by (auto simp: get_receipt_op_def result_simps dest: to_receiptD)

lemma transition_refines:
  assumes "transition sys w w'" and "world_ok w"
  shows "fact_step\<^sup>*\<^sup>* (w_db w) (w_db w')"
  using assms
proof (induction rule: transition.induct)
  case (claim r w env fp out db')
  then show ?case using claim_op_refines [OF _ _ claim(2,3)] by (simp add: world_ok_def)
next
  case (renew clock handle w out db')
  then show ?case using renew_op_refines [OF _ renew(1,2)] by (simp add: world_ok_def)
next
  case (fail clock origin kind c w out db')
  then show ?case using fail_op_refines [OF _ fail(1-3)] by (simp add: world_ok_def)
next
  case (reclaim r w clock out db')
  then have S: "sound (w_db w)" by (simp add: world_ok_def)
  from reclaim(3) [unfolded reclaim_op_def] show ?case
    by (cases rule: commit_cases) (auto dest: reclaim_body_refines [OF S reclaim(2)])
next
  case (submit_settle c cand p w clock env new_id out db')
  then have S: "sound (w_db w)" and P: "plan_ok (w_db w) c p" by (auto simp: world_ok_def)
  from submit_settle(3) show ?case
    by (cases rule: commit_cases) (auto dest: settle_body_refines [OF S submit_settle(2) P])
next
  case (register renv q input b w out db')
  then show ?case by (auto elim!: commit_cases dest: register_body_refines)
next
  case (retry yenv q parent input b w out db')
  then have S: "sound (w_db w)" by (simp add: world_ok_def)
  from retry(2) show ?case
    by (cases rule: commit_cases) (auto dest: retry_body_refines [OF S retry(1)])
qed simp_all

lemma transition_ok:
  assumes T: "transition sys w w'" and W: "world_ok w"
  shows "world_ok w'"
proof -
  have R: "fact_step\<^sup>*\<^sup>* (w_db w) (w_db w')" by (rule transition_refines [OF T W])
  have S: "sound (w_db w')" using steps_sound [OF R] W by (simp add: world_ok_def)
  have E: "extends (w_db w) (w_db w')" by (rule steps_extends [OF R])
  have keep: "receipt_ok (w_db w') r" if "r \<in> set (w_receipts w)" for r
    using W that on_budget_extends [OF _ E] by (simp add: world_ok_def receipt_ok_def)
  have keep': "plan_ok (w_db w') c p" if "(c, cand, p) \<in> set (w_plans w)" for c cand p
    using W that plan_ok_extends [OF _ E] by (auto simp: world_ok_def)
  from T show ?thesis
  proof (cases rule: transition.cases)
    case (read_receipt i r)
    with W get_receipt_opD [OF read_receipt(2)] show ?thesis by (auto simp: world_ok_def)
  next
    case (submit_plan env c cand p)
    with W submit_plan_ok [OF _ submit_plan(2)] show ?thesis by (auto simp: world_ok_def)
  qed (use S keep keep' in \<open>auto simp: world_ok_def\<close>)
qed

lemma initial_ok: "world_ok initial_world"
  by (simp add: world_ok_def initial_world_def empty_db_def sound_def keys_distinct_def
      attempts_settled_once_def attempts_numbered_def references_ok_def generations_chained_def
      times_ok_def)

lemma reachable_ok: "reachable sys w \<Longrightarrow> world_ok w"
  by (induction rule: reachable.induct) (simp_all add: initial_ok transition_ok)

lemma reachable_sound: "reachable sys w \<Longrightarrow> sound (w_db w)"
  using reachable_ok by (simp add: world_ok_def)

section \<open>The reads never find a corrupt history\<close>

lemma sorted_numbers:
  assumes "sorted ns" "distinct ns" "set ns \<subseteq> {1, 2}" "2 \<in> set ns \<longrightarrow> 1 \<in> set ns"
  shows "ns = [1 ..< length ns + 1] \<and> length ns \<le> (2::nat)"
proof -
  consider "set ns = {}" | "set ns = {1}" | "set ns = {1, 2}"
  proof (cases "2 \<in> set ns")
    case True
    with assms(3,4) have "set ns = {1, 2}" by auto
    then show thesis by (rule that(3))
  next
    case False
    with assms(3) have "set ns \<subseteq> {1}" by auto
    with that(1,2) show thesis by (meson subset_singletonD)
  qed
  then show ?thesis
  proof cases
    case 1 then show ?thesis by simp
  next
    case 2
    with assms(1,2) sorted_distinct_set_unique [of ns "[1]"] show ?thesis by simp
  next
    case 3
    with assms(1,2) sorted_distinct_set_unique [of ns "[1, 2]"] show ?thesis
      by (simp add: numeral_2_eq_2)
  qed
qed

lemma attempt_rows_numbers: "map ar_no (attempt_rows db t) =
    map at_attempt_no (sort_key at_attempt_no (filter (\<lambda>a. at_task_id a = t) (db_attempts db)))"
  by (simp add: attempt_rows_def)

lemma sound_numbers:
  assumes "sound db"
  shows "map ar_no (attempt_rows db t) = [1 ..< length (attempt_rows db t) + 1] \<and>
    length (attempt_rows db t) \<le> 2"
proof -
  let ?as = "filter (\<lambda>a. at_task_id a = t) (db_attempts db)"
  have "distinct (map at_key ?as)"
    using keysD(5) [OF soundD(1) [OF assms]] by (rule distinct_map_filter)
  then have d: "distinct (map at_attempt_no ?as)"
    by (auto simp: distinct_map inj_on_def)
  have s: "set (map at_attempt_no ?as) = {n. claimed db (t, n)}"
  proof (intro set_eqI iffI)
    fix n assume "n \<in> set (map at_attempt_no ?as)"
    then obtain a where "a \<in> set (db_attempts db)" "at_task_id a = t" "at_attempt_no a = n" by auto
    then show "n \<in> {n. claimed db (t, n)}" using keyI(1) [of a db "(t, n)"] by simp
  next
    fix n assume "n \<in> {n. claimed db (t, n)}"
    then have "claimed db (t, n)" by simp
    then obtain a where "a \<in> set (db_attempts db)" "at_task_id a = t" "at_attempt_no a = n"
      by (rule claimedE)
    then show "n \<in> set (map at_attempt_no ?as)" by auto
  qed
  have "set (map ar_no (attempt_rows db t)) = {n. claimed db (t, n)}"
    unfolding attempt_rows_numbers using s by simp
  moreover have "{n. claimed db (t, n)} \<subseteq> {1, 2}"
    using numbersD(1) [OF assms] by blast
  moreover have "claimed db (t, 2) \<longrightarrow> claimed db (t, 1)"
    using numbersD(2) [OF assms, of t 2] soundD(2) [OF assms] by (auto simp: attempts_settled_once_def)
  moreover have "sorted (map ar_no (attempt_rows db t))"
    unfolding attempt_rows_numbers by (rule sorted_sort_key)
  moreover have "distinct (map ar_no (attempt_rows db t))"
    unfolding attempt_rows_numbers using d
    by (metis distinct_map distinct_sort set_sort)
  ultimately show ?thesis using sorted_numbers [of "map ar_no (attempt_rows db t)"] by simp
qed

lemma read_attempts_total:
  assumes "sound db"
  shows "read_attempts db t = Inr (attempt_rows db t)"
proof -
  note N = sound_numbers [OF assms, of t]
  have row: "r = join_attempt db (ar_attempt r)" "at_key (ar_attempt r) = (t, ar_no r)"
      "ar_attempt r \<in> set (db_attempts db)" if "r \<in> set (attempt_rows db t)" for r
    using that by (auto simp: attempt_rows_set)
  have leased: "ar_expires_at r \<noteq> None" if "r \<in> set (attempt_rows db t)" for r
  proof -
    have "at_key (ar_attempt r) \<in> ls_key ` set (db_leases db)"
      using row(3) [OF that] soundD(2) [OF assms] by (simp add: attempts_settled_once_def)
    then have "lookup ls_key (db_leases db) (at_key (ar_attempt r)) \<noteq> None"
      by (simp add: lookup_None key_free_image)
    then have "ar_expires_at (join_attempt db (ar_attempt r)) \<noteq> None"
      by (simp add: join_attempt_def Let_def)
    with row(1) [OF that] show ?thesis by metis
  qed
  have one: "\<not> (ar_success_id r \<noteq> None \<and> ar_kind r \<noteq> None)" if "r \<in> set (attempt_rows db t)" for r
  proof -
    have "\<not> (failed db (at_key (ar_attempt r)) \<and> succeeded db (at_key (ar_attempt r)))"
      using soundD(2) [OF assms] unfolding attempts_settled_once_def by (meson disjoint_iff)
    then have "ar_kind (join_attempt db (ar_attempt r)) = None \<or>
        ar_success_id (join_attempt db (ar_attempt r)) = None"
      unfolding join_kind_None join_success_None by blast
    with row(1) [OF that] show ?thesis by metis
  qed
  have prev: "ar_kind r \<noteq> None" if "r \<in> set (butlast (attempt_rows db t))" for r
  proof -
    have len: "length (attempt_rows db t) = 2" "r = attempt_rows db t ! 0"
      using that N by (cases "attempt_rows db t"; cases "tl (attempt_rows db t)"; auto)+
    then have "map ar_no (attempt_rows db t) = [1, 2]" using N by (simp add: upt_rec)
    with len have no: "ar_no r = 1" "2 \<in> ar_no ` set (attempt_rows db t)"
      by (cases "attempt_rows db t"; cases "tl (attempt_rows db t)"; auto)+
    from no(2) obtain r2 where r2: "r2 \<in> set (attempt_rows db t)" "ar_no r2 = 2" by (metis imageE)
    have "claimed db (t, 2)" using row(2,3) [OF r2(1)] r2(2) by (intro keyI(1)) simp_all
    then have "failed db (t, 1)" using numbersD(2) [OF assms] by simp
    moreover have "r \<in> set (attempt_rows db t)" using that by (rule in_set_butlastD)
    ultimately show ?thesis using row(1,2) join_kind_None [of db "ar_attempt r"] no(1) by metis
  qed
  have "consistent_rows (attempt_rows db t)"
    unfolding consistent_rows_def attempts_per_generation_def list_all_iff
  proof (intro conjI ballI)
    show "map ar_no (attempt_rows db t) = [1 ..< length (attempt_rows db t) + 1]"
      "length (attempt_rows db t) \<le> 2" using N by blast+
  qed (fact leased one prev)+
  then show ?thesis by (simp add: read_attempts_def Let_def)
qed

end
