(* ===== verification/Task_Laws.thy ===== *)
theory Task_Laws
  imports Task_System
begin

text \<open>What a caller of the screening task service can rely on, in every reachable world.\<close>

section \<open>Exclusion and bounds\<close>

lemma won_unique:
  assumes "sound db" "s \<in> set (db_successes db)" "u \<in> set (db_successes db)"
    "su_budget_id s = su_budget_id u"
  shows "s = u"
  using keysD(11) [OF soundD(1) [OF assms(1)]] assms(2-4) by (rule distinct_key_eq)

lemma attempt_bound:
  assumes "sound db"
  shows "card {n. claimed db (t, n)} \<le> 2"
proof -
  have "{n. claimed db (t, n)} \<subseteq> {1, 2}" using numbersD(1) [OF assms] by blast
  then have "card {n. claimed db (t, n)} \<le> card {1, 2::nat}" by (intro card_mono) simp_all
  then show ?thesis by simp
qed

section \<open>Claims\<close>

lemma claim_opD:
  assumes "claim_op sys env r fp db = (Inr c, db')"
  obtains basis number now expires where "claim_prepare env r fp = Inr basis"
    "claim_body sys env r basis db = Inr ((number, now, expires), db')" "number \<le> 2"
    "c = \<lparr>cl_task_id = rc_task_id r, cl_attempt_no = number, cl_receipt_id = rc_receipt_id r,
       cl_claimed_at = now, cl_expires_at = expires, cl_basis = basis,
       cl_credential = ce_credential env, cl_renewal_handle = ce_renewal env\<rparr>"
proof (cases "claim_prepare env r fp")
  case (Inr basis)
  obtain o2 d2 where cm: "commit (claim_body sys env r basis) db = (o2, d2)"
    by (cases "commit (claim_body sys env r basis) db")
  from cm show ?thesis
  proof (cases rule: commit_cases)
    case (returned x)
    obtain number now expires where x: "x = (number, now, expires)" by (cases x)
    with assms Inr cm returned have "\<not> number > attempts_per_generation" "d2 = db'"
        "c = \<lparr>cl_task_id = rc_task_id r, cl_attempt_no = number, cl_receipt_id = rc_receipt_id r,
       cl_claimed_at = now, cl_expires_at = expires, cl_basis = basis,
       cl_credential = ce_credential env, cl_renewal_handle = ce_renewal env\<rparr>"
      by (auto simp: claim_op_def split: if_splits)
    with Inr returned x that show ?thesis by (simp add: attempts_per_generation_def)
  next
    case (raised e)
    with assms Inr cm show ?thesis by (simp add: claim_op_def)
  qed
qed (use assms in \<open>simp add: claim_op_def\<close>)

lemma settled_claimed:
  assumes "sound db"
  shows "failed db k \<Longrightarrow> claimed db k" "succeeded db k \<Longrightarrow> claimed db k"
    "failed db k \<Longrightarrow> \<not> succeeded db k"
  using soundD(2) [OF assms] unfolding attempts_settled_once_def by (meson subsetD disjoint_iff)+

text \<open>The last row of a freshly claimed task is the new attempt, unsettled.\<close>

lemma fresh_last_row:
  assumes S1: "sound db1" and S': "sound db'"
    and ia: "insert_attempt a db1 = Inr dbx" and il: "insert_lease l dbx = Inr db'"
    and n: "at_attempt_no a = length (attempt_rows db1 (at_task_id a)) + 1"
  shows "length (attempt_rows db' (at_task_id a)) = at_attempt_no a"
    "last (attempt_rows db' (at_task_id a)) = join_attempt db' a"
    "ar_kind (join_attempt db' a) = None" "ar_success_id (join_attempt db' a) = None"
    "open_attempt db' (at_key a)"
proof -
  let ?t = "at_task_id a" and ?rows = "attempt_rows db' (at_task_id a)"
  have A: "db_attempts db' = db_attempts db1 @ [a]" "db_failures db' = db_failures db1"
      "db_successes db' = db_successes db1" and new: "\<not> claimed db1 (at_key a)"
    using insert_attemptD [OF ia] insert_leaseD [OF il] by simp_all
  have len: "length ?rows = at_attempt_no a"
    using n A by (simp add: attempt_rows_def)
  show "length ?rows = at_attempt_no a" by (rule len)
  have ne: "?rows \<noteq> []" using len n by auto
  note rd = read_attempts_total [OF S', of ?t]
  note last = last_row_facts [OF S' rd ne]
  have "at_key (ar_attempt (last ?rows)) = at_key a"
    using read_row(4) [OF rd last(1)] last(2) len by simp
  then have "ar_attempt (last ?rows) = a"
    using read_row(1) [OF rd last(1)] A(1) by (intro attempt_of_key [OF S']) simp_all
  then show "last ?rows = join_attempt db' a" using read_row(3) [OF rd last(1)] by metis
  have "\<not> failed db1 (at_key a)" "\<not> succeeded db1 (at_key a)"
    using settled_claimed [OF S1, of "at_key a"] new by blast+
  then show "ar_kind (join_attempt db' a) = None" "ar_success_id (join_attempt db' a) = None"
    "open_attempt db' (at_key a)"
    using A by (simp_all add: join_kind_None join_success_None open_attempt_def)
qed

lemma derive_status_unsettled:
  assumes "rows \<noteq> []" "ar_kind (last rows) = None" "ar_success_id (last rows) = None"
    and "stored_instant (ar_expires_at (last rows)) = Inr e"
  shows "derive_status t rows now = Inr
     \<lparr>ts_task_id = t, ts_state = (if now \<ge> e then Lease_Expired else Running),
      ts_used_attempts = length rows, ts_remaining_attempts = 2 - length rows,
      ts_last_failure = (if length rows > 1 then ar_kind (rows ! (length rows - 2)) else None)\<rparr>"
  using assms by (simp add: derive_status_def last_row_def Let_def attempts_per_generation_def)

lemma claim_contract_lemma:
  assumes S: "sound db" and R: "receipt_ok db r" and G: "good_clock (ce_clock_in_txn env)"
    and op: "claim_op sys env r fp db = (Inr c, db')"
  shows "cl_attempt_no c = length (attempt_rows db (rc_task_id r)) + 1" "cl_attempt_no c \<le> 2"
    "cl_expires_at c = cl_claimed_at c + lease_span"
    "open_attempt db' (rc_task_id r, cl_attempt_no c)" "\<not> won db (rc_budget_id r)"
    "valid_instant s \<Longrightarrow> \<exists>st. status_op (Utc s) r db' = Inr st \<and>
       ts_state st = (if cl_expires_at c \<le> s then Lease_Expired else Running) \<and>
       ts_used_attempts st = cl_attempt_no c"
proof -
  let ?t = "rc_task_id r"
  from claim_opD [OF op] obtain basis number now expires where
      body: "claim_body sys env r basis db = Inr ((number, now, expires), db')" and n2: "number \<le> 2"
    and c: "cl_attempt_no c = number" "cl_claimed_at c = now" "cl_expires_at c = expires"
    by (metis claim.select_convs)
  from claim_bodyD [OF body] obtain req t b rows db1 where
      rd: "read_attempts db ?t = Inr rows" and clock: "utc_now (ce_clock_in_txn env) = Inr now"
    and exp: "lease_expiry now = Inr expires" and nw: "\<not> settled_on_budget db (rc_budget_id r)"
    and run: "refuse_running rows now = Inr ()"
    and rec: "recover_if_unsettled rows now db = Inr db1" and num: "number = length rows + 1"
    and ins: "(if length rows + 1 \<le> attempts_per_generation
        then insert_claimed sys env r basis rows now expires db1 else Inr db1) = Inr db'"
    by metis
  have V: "valid_instant now" using utc_nowD [OF clock G] by simp
  note C = claim_recovery [OF S R [unfolded receipt_ok_def] V rd nw [unfolded settled_on_budget_won] run rec]
  have rows: "rows = attempt_rows db ?t" using read_attemptsD [OF rd] ..
  have S1: "sound db1" by (rule steps_sound [OF C(1) S])
  have S': "sound db'" by (rule steps_sound [OF claim_body_refines [OF S R G body] S])
  from ins n2 num obtain dbx where
      ia: "insert_attempt (new_attempt sys env r basis number now) db1 = Inr dbx"
    and il: "insert_lease \<lparr>ls_task_id = ?t, ls_attempt_no = number, ls_expires_at = timestamp expires\<rparr> dbx
       = Inr db'"
    by (auto simp: insert_claimed_def attempts_per_generation_def result_simps)
  let ?a = "new_attempt sys env r basis number now"
  have at: "at_task_id ?a = ?t" "at_attempt_no ?a = number" by (simp_all add: new_attempt_def)
  have "length (attempt_rows db1 ?t) = length rows"
    using C(2) by (simp add: rows attempt_rows_def)
  then have nn: "at_attempt_no ?a = length (attempt_rows db1 (at_task_id ?a)) + 1"
    using num at by simp
  note F = fresh_last_row [OF S1 S' ia il nn, unfolded at]
  show "cl_attempt_no c = length (attempt_rows db ?t) + 1" "cl_attempt_no c \<le> 2"
    using c num rows n2 by simp_all
  show "cl_expires_at c = cl_claimed_at c + lease_span"
    using c lease_expiryD [OF exp V] by simp
  show "open_attempt db' (?t, cl_attempt_no c)" using F(5) c by simp
  show "\<not> won db (rc_budget_id r)" using nw by (simp add: settled_on_budget_won)
  have lease: "lookup ls_key (db_leases db') (?t, number) =
      Some \<lparr>ls_task_id = ?t, ls_attempt_no = number, ls_expires_at = timestamp expires\<rparr>"
    using leases.lookup_insert [OF il, of "(?t, number)"] by simp
  then have "ar_expires_at (join_attempt db' ?a) = Some (timestamp expires)"
    using at by (simp add: join_attempt_def Let_def)
  then have e: "stored_instant (ar_expires_at (last (attempt_rows db' ?t))) = Inr expires"
    using F(2) lease_expiryD [OF exp V, THEN conjunct2] by (simp add: stored_instantD read_timestamp_timestamp)
  have ne: "attempt_rows db' ?t \<noteq> []" using F(1) num by auto
  show "\<exists>st. status_op (Utc s) r db' = Inr st \<and>
       ts_state st = (if cl_expires_at c \<le> s then Lease_Expired else Running) \<and>
       ts_used_attempts st = cl_attempt_no c"
    using derive_status_unsettled [OF ne _ _ e, of ?t s] F(1-4) c
    by (simp add: status_op_def read_attempts_total [OF S'])
qed

section \<open>Credentials in a sound database\<close>

lemma find_unique:
  assumes "\<And>x y. x \<in> set xs \<Longrightarrow> y \<in> set xs \<Longrightarrow> P x \<Longrightarrow> P y \<Longrightarrow> x = y"
  shows "find P xs = Some x \<longleftrightarrow> x \<in> set xs \<and> P x"
  using assms find_Some_set [of P xs] find_None_set [of P xs] by (cases "find P xs") fastforce+

lemma lookup_attempt:
  assumes "sound db"
  shows "lookup at_key (db_attempts db) k = Some a \<longleftrightarrow> a \<in> set (db_attempts db) \<and> at_key a = k"
  by (rule lookup_distinct) (rule keysD(5) [OF soundD(1) [OF assms]])

lemma find_attempt_row:
  assumes S: "sound db"
  shows "find (\<lambda>r. ar_no r = n) (attempt_rows db t) =
     map_option (join_attempt db) (lookup at_key (db_attempts db) (t, n))"
proof (cases "lookup at_key (db_attempts db) (t, n)")
  case None
  then have "r \<in> set (attempt_rows db t) \<Longrightarrow> ar_no r \<noteq> n" for r
    by (auto simp: lookup_None key_free_def attempt_rows_set)
  with None show ?thesis by (simp add: find_None_set)
next
  case (Some a)
  then have a: "a \<in> set (db_attempts db)" "at_task_id a = t" "at_attempt_no a = n"
    by (auto simp: lookup_attempt [OF S])
  have "find (\<lambda>r. ar_no r = n) (attempt_rows db t) = Some (join_attempt db a)"
  proof (subst find_unique)
    fix x y assume x: "x \<in> set (attempt_rows db t)" "ar_no x = n"
      and y: "y \<in> set (attempt_rows db t)" "ar_no y = n"
    note rd = read_attempts_total [OF S, of t]
    have "ar_attempt x = ar_attempt y"
      using read_row(1,4) [OF rd x(1)] read_row(1,4) [OF rd y(1)] x(2) y(2)
      by (intro attempt_of_key [OF S]) simp_all
    then show "x = y" using read_row(3) [OF rd x(1)] read_row(3) [OF rd y(1)] by metis
  qed (use a in \<open>auto simp: attempt_rows_set\<close>)
  with Some show ?thesis by simp
qed

text \<open>\<open>credential_attempt\<close> is a lookup by key and a comparison of digests.\<close>

lemma credential_lookup:
  assumes S: "sound db"
  shows "credential_attempt sha db c =
    (if hex64 (cl_credential c) then
       (case lookup at_key (db_attempts db) (cl_task_id c, cl_attempt_no c) of
          None \<Rightarrow> fails Invalid_Credential
        | Some a \<Rightarrow>
            if at_credential a \<noteq> digest sha (cl_credential c) then fails Invalid_Credential
            else Inr (join_attempt db a, at_attempt_no a = length (attempt_rows db (cl_task_id c))))
     else fails Invalid_Credential)"
proof (cases "hex64 (cl_credential c)")
  case True
  show ?thesis
  proof (cases "lookup at_key (db_attempts db) (cl_task_id c, cl_attempt_no c)")
    case None
    with True show ?thesis
      by (simp add: credential_attempt_def require_secret_def read_attempts_total [OF S] find_attempt_row [OF S])
  next
    case (Some a)
    note rd = read_attempts_total [OF S, of "cl_task_id c"]
    from Some have "join_attempt db a \<in> set (attempt_rows db (cl_task_id c))"
      by (auto simp: lookup_attempt [OF S] attempt_rows_set)
    then have "ar_no (last (attempt_rows db (cl_task_id c))) = length (attempt_rows db (cl_task_id c))"
      using read_numbers(3) [OF rd] by (metis list.set_cases list.distinct(1))
    with True Some rd show ?thesis
      by (simp add: credential_attempt_def require_secret_def find_attempt_row [OF S])
  qed
qed (simp add: credential_attempt_def require_secret_def)

section \<open>Fencing\<close>

lemma fail_unchanged:
  assumes "\<not> open_attempt db (cl_task_id c, cl_attempt_no c)"
    and op: "fail_op sys clock c kind origin db = (out, db')"
  shows "db' = db"
proof (rule ccontr)
  assume ch: "db' \<noteq> db"
  with op have "commit (fail_body sys clock c kind origin) db = (out, db')"
    by (auto simp: fail_op_def split: sum.splits)
  with ch obtain x where body: "fail_body sys clock c kind origin db = Inr (x, db')"
    by (auto elim: commit_cases)
  then obtain row latest where cred: "credential_attempt (sy_sha sys) db c = Inr (row, latest)"
    by (auto simp: fail_body_def result_simps)
  from credential_attemptD [OF cred] obtain rows where rd: "read_attempts db (cl_task_id c) = Inr rows"
      and r: "row \<in> set rows" and no: "ar_no row = cl_attempt_no c" by metis
  from body cred ch have "ar_success_id row = None" "ar_kind row = None"
    by (auto simp: fail_body_def result_simps split: if_splits)
  with unsettled_row_open [OF rd r] no assms(1) show False by simp
qed

lemma settle_unchanged:
  assumes "\<not> open_attempt db (cl_task_id c, cl_attempt_no c)"
    and op: "commit (settle_body sys env clock i c cand p) db = (out, db')"
  shows "db' = db"
proof (rule ccontr)
  assume ch: "db' \<noteq> db"
  with op obtain x where body: "settle_body sys env clock i c cand p db = Inr (x, db')"
    by (auto elim: commit_cases)
  then obtain row replayed where pre: "precheck sys env db c (pl_submission p) = Inr (row, replayed)"
      and ref: "check_reference env c cand = Inr ()"
    by (auto simp: settle_body_def result_simps)
  with body ch have "replayed = None"
    by (cases replayed) (auto simp: settle_body_def)
  with precheckD [OF pre] obtain rows where rd: "read_attempts db (cl_task_id c) = Inr rows"
      and r: "row \<in> set rows" and no: "ar_no row = cl_attempt_no c"
      and "ar_kind row = None" "ar_success_id row = None" by metis
  with unsettled_row_open [OF rd r] no assms(1) show False by simp
qed

lemma superseded_closed:
  assumes "sound db" "claimed db (t, m)" "n < m"
  shows "\<not> open_attempt db (t, n)"
proof
  assume "open_attempt db (t, n)"
  then have n: "claimed db (t, n)" "\<not> failed db (t, n)" unfolding open_attempt_def by blast+
  have "m = 2" "n = 1"
    using numbersD(1) [OF assms(1,2)] numbersD(1) [OF assms(1) n(1)] assms(3) by auto
  with numbersD(2) [OF assms(1,2)] n(2) show False by simp
qed

lemma join_failure:
  assumes "sound db" "f \<in> set (db_failures db)" "fl_key f = at_key a"
  shows "ar_kind (join_attempt db a) = Some (fl_kind f)"
    "ar_origin (join_attempt db a) = Some (fl_origin f)"
    "ar_settled_at (join_attempt db a) = Some (fl_settled_at f)"
    "ar_issues_json (join_attempt db a) = fl_issues_json f"
    "ar_success_id (join_attempt db a) = None"
proof -
  have "lookup fl_key (db_failures db) (at_key a) = Some f"
    using assms by (simp add: lookup_failure)
  then show "ar_kind (join_attempt db a) = Some (fl_kind f)"
    "ar_origin (join_attempt db a) = Some (fl_origin f)"
    "ar_settled_at (join_attempt db a) = Some (fl_settled_at f)"
    "ar_issues_json (join_attempt db a) = fl_issues_json f"
    by (simp_all add: join_attempt_def Let_def)
  have "failed db (at_key a)" by (rule keyI(2) [OF assms(2,3)])
  then show "ar_success_id (join_attempt db a) = None"
    unfolding join_success_None by (rule settled_claimed(3) [OF assms(1)])
qed

text \<open>An attempt that was recovered belongs to nobody: its credential is refused everywhere.\<close>

lemma recovered_fenced:
  assumes S: "sound db" and f: "f \<in> set (db_failures db)" "fl_key f = (cl_task_id c, cl_attempt_no c)"
    "fl_origin f = By_Recovery" and k: "is_executor_failure kind"
  shows "fail_op sys clock c kind origin db = (fails Invalid_Credential, db)"
    "commit (settle_body sys env clock i c cand p) db = (fails Invalid_Credential, db)"
proof -
  have cr: "credential_attempt (sy_sha sys) db c = fails Invalid_Credential \<or>
    (\<exists>a latest. credential_attempt (sy_sha sys) db c = Inr (join_attempt db a, latest) \<and>
       at_key a = fl_key f)"
    using f(2) by (auto simp: credential_lookup [OF S] lookup_attempt [OF S] split: option.splits)
  have lk: "lookup fl_key (db_failures db) (cl_task_id c, cl_attempt_no c) = Some f"
    using f by (simp add: lookup_failure [OF S])
  show "fail_op sys clock c kind origin db = (fails Invalid_Credential, db)"
    using cr
  proof (elim disjE exE conjE)
    fix a latest assume c: "credential_attempt (sy_sha sys) db c = Inr (join_attempt db a, latest)"
      and a: "at_key a = fl_key f"
    note J = join_failure [OF S f(1) a [symmetric]]
    have "hex64 (cl_credential c)" using c by (auto simp: credential_lookup [OF S] split: if_splits)
    with c J k f(3) show ?thesis
      by (simp add: fail_op_def require_secret_def commit_def fail_body_def)
  next
    assume "credential_attempt (sy_sha sys) db c = fails Invalid_Credential"
    with k show ?thesis
      by (simp add: fail_op_def require_secret_def commit_def fail_body_def require_def)
  qed
  show "commit (settle_body sys env clock i c cand p) db = (fails Invalid_Credential, db)"
    using cr
  proof (elim disjE exE conjE)
    fix a latest assume c: "credential_attempt (sy_sha sys) db c = Inr (join_attempt db a, latest)"
      and a: "at_key a = fl_key f"
    note J = join_failure [OF S f(1) a [symmetric]]
    with c lk f(3) show ?thesis by (simp add: commit_def settle_body_def precheck_def)
  qed (simp add: commit_def settle_body_def precheck_def)
qed

section \<open>Leases\<close>

text \<open>The expiry of a lease is as it was, or its attempt was still open and the new expiry is ten minutes after the
  claim at least.\<close>

definition lease_changed :: "task_db \<Rightarrow> lease_rec \<Rightarrow> lease_rec \<Rightarrow> bool" where
  "lease_changed db l l' \<longleftrightarrow>
     ls_expires_at l' = ls_expires_at l \<or>
     open_attempt db (ls_key l) \<and>
       (\<forall>a \<in> set (db_attempts db). at_key a = ls_key l \<longrightarrow> apart lease_span (at_claimed_at a) (ls_expires_at l'))"

definition leases_kept :: "task_db \<Rightarrow> task_db \<Rightarrow> bool" where
  "leases_kept db db' \<longleftrightarrow>
     (\<forall>l \<in> set (db_leases db). \<exists>l' \<in> set (db_leases db'). ls_key l' = ls_key l \<and> lease_changed db l l')"

lemma leases_kept_same: "set (db_leases db) \<subseteq> set (db_leases db') \<Longrightarrow> leases_kept db db'"
  by (auto simp: leases_kept_def lease_changed_def)

lemma step_leases: "fact_step db db' \<Longrightarrow> leases_kept db db'"
proof (induction rule: fact_step.induct)
  case (extend_lease db t n e)
  show ?case
    unfolding leases_kept_def
  proof
    fix l assume l: "l \<in> set (db_leases db)"
    let ?l = "if ls_key l = (t, n) then l\<lparr>ls_expires_at := e\<rparr> else l"
    have "?l \<in> set (db_leases (update_lease t n e db))" using l by (simp add: update_lease_def)
    moreover have "ls_key ?l = ls_key l" by simp
    moreover have "lease_changed db l ?l" using extend_lease by (simp add: lease_changed_def)
    ultimately show "\<exists>l' \<in> set (db_leases (update_lease t n e db)). ls_key l' = ls_key l \<and> lease_changed db l l'"
      by blast
  qed
qed (auto intro!: leases_kept_same dest!: insertD)

lemma leases_kept_trans:
  assumes S: "sound db" and E: "extends db db1" and K: "leases_kept db db1" and K1: "leases_kept db1 db2"
  shows "leases_kept db db2"
  unfolding leases_kept_def
proof
  fix l assume l: "l \<in> set (db_leases db)"
  from K l obtain l1 where l1: "l1 \<in> set (db_leases db1)" "ls_key l1 = ls_key l" "lease_changed db l l1"
    unfolding leases_kept_def by blast
  from K1 l1(1) obtain l2 where l2: "l2 \<in> set (db_leases db2)" "ls_key l2 = ls_key l1" "lease_changed db1 l1 l2"
    unfolding leases_kept_def by blast
  have "leased db (ls_key l)" using l by (rule imageI)
  then have "claimed db (ls_key l)" using soundD(2) [OF S] by (simp only: attempts_settled_once_def)
  then have "open_attempt db1 (ls_key l) \<Longrightarrow> open_attempt db (ls_key l)"
    using E unfolding open_attempt_def extends_def by (meson image_mono subsetD)
  moreover have "set (db_attempts db) \<subseteq> set (db_attempts db1)" using E unfolding extends_def by blast
  ultimately have "lease_changed db l1 l2"
    using l2(3) unfolding lease_changed_def l1(2) by (meson subsetD)
  with l1(2,3) have "lease_changed db l l2" unfolding lease_changed_def by auto
  with l2(1,2) l1(2) show "\<exists>l' \<in> set (db_leases db2). ls_key l' = ls_key l \<and> lease_changed db l l'"
    by auto
qed

lemma steps_leases: "fact_step\<^sup>*\<^sup>* db db' \<Longrightarrow> sound db \<Longrightarrow> leases_kept db db'"
proof (induction rule: rtranclp_induct)
  case (step y z)
  then show ?case using leases_kept_trans [OF step.prems steps_extends [OF step.hyps(1)]] step_leases by blast
qed (simp add: leases_kept_same)

section \<open>The fence of a renewal\<close>

definition renewal_of :: "system \<Rightarrow> task_db \<Rightarrow> claim \<Rightarrow> bool" where
  "renewal_of sys db c \<longleftrightarrow>
     (\<exists>a \<in> set (db_attempts db). at_key a = (cl_task_id c, cl_attempt_no c) \<and>
        at_renewal a = digest (sy_sha sys) (cl_renewal_handle c))"

lemma renewal_unique:
  assumes "sound db" "a \<in> set (db_attempts db)" "b \<in> set (db_attempts db)" "at_renewal a = at_renewal b"
  shows "a = b"
  using soundD(1) [OF assms(1)] assms(2-4) unfolding keys_distinct_def by (meson distinct_key_eq)

lemma renew_refused:
  assumes S: "sound db" and R: "renewal_of sys db c" and closed: "\<not> open_attempt db (cl_task_id c, cl_attempt_no c)"
  shows "renew_op sys clock (cl_renewal_handle c) db = (fails Invalid_Credential, db)"
proof (cases "require_secret (cl_renewal_handle c)")
  case (Inl e)
  then have "e = Task_Error Invalid_Credential None" by (auto simp: require_secret_def require_def split: if_splits)
  with Inl show ?thesis by (simp add: renew_op_def)
next
  case (Inr u)
  let ?d = "digest (sy_sha sys) (cl_renewal_handle c)"
  from R obtain a where a: "a \<in> set (db_attempts db)" "at_key a = (cl_task_id c, cl_attempt_no c)" "at_renewal a = ?d"
    unfolding renewal_of_def by blast
  then have t: "at_task_id a = cl_task_id c" by simp
  have look: "lookup at_renewal (db_attempts db) ?d = Some a"
    using soundD(1) [OF S] a by (simp add: keys_distinct_def lookup_distinct)
  note rd = read_attempts_total [OF S, of "cl_task_id c"]
  let ?rows = "attempt_rows db (cl_task_id c)"
  have "claimed db (cl_task_id c, cl_attempt_no c)" using keyI(1) [OF a(1,2)] .
  then obtain x where "x \<in> set ?rows" by (rule read_claimed [OF rd])
  then have last: "last ?rows \<in> set ?rows" by (metis last_in_set list.set_cases list.distinct(1))
  note row = read_row [OF rd last]
  have "\<not> (at_renewal (ar_attempt (last ?rows)) = ?d \<and> ar_kind (last ?rows) = None \<and> ar_success_id (last ?rows) = None)"
  proof
    assume same: "at_renewal (ar_attempt (last ?rows)) = ?d \<and> ar_kind (last ?rows) = None \<and> ar_success_id (last ?rows) = None"
    with renewal_unique [OF S row(1) a(1)] a(3) have "ar_attempt (last ?rows) = a" by simp
    with a(2) row(4) have "ar_no (last ?rows) = cl_attempt_no c" by simp
    with unsettled_row_open [OF rd last] same closed show False by simp
  qed
  with look rd t Inr show ?thesis
    by (auto simp: renew_op_def renew_body_def Let_def commit_def result_simps require_def)
qed

text \<open>A claim that was issued holds the renewal handle of its attempt.\<close>

lemma claim_renewal_of:
  assumes "claim_op sys env r fp db = (Inr c, db')" "extends db' db3"
  shows "renewal_of sys db3 c"
proof -
  from assms(1) obtain basis number now expires where
    body: "claim_body sys env r basis db = Inr ((number, now, expires), db')" and n: "number \<le> attempts_per_generation"
    and c: "c = \<lparr>cl_task_id = rc_task_id r, cl_attempt_no = number, cl_receipt_id = rc_receipt_id r, cl_claimed_at = now,
        cl_expires_at = expires, cl_basis = basis, cl_credential = ce_credential env, cl_renewal_handle = ce_renewal env\<rparr>"
    by (auto simp: claim_op_def commit_def split: sum.splits prod.splits if_splits)
  from claim_bodyD [OF body] obtain rows db1 where "number = length rows + 1"
    "(if length rows + 1 \<le> attempts_per_generation
      then insert_claimed sys env r basis rows now expires db1 else Inr db1) = Inr db'"
    by metis
  with n obtain db2 where "insert_attempt (new_attempt sys env r basis number now) db1 = Inr db2"
    "insert_lease \<lparr>ls_task_id = rc_task_id r, ls_attempt_no = number, ls_expires_at = timestamp expires\<rparr> db2 = Inr db'"
    by (auto simp: insert_claimed_def result_simps)
  then have "new_attempt sys env r basis number now \<in> set (db_attempts db')" by (auto dest!: insertD)
  with assms(2) have "new_attempt sys env r basis number now \<in> set (db_attempts db3)" by (auto simp: extends_def)
  then show ?thesis by (force simp: renewal_of_def c new_attempt_def)
qed

end
