(* ===== verification/Task_Replay.thy ===== *)
theory Task_Replay
  imports Task_Laws
begin

text \<open>
  Repeating a call: settled failures, submissions, recoveries, registrations answer a second
  time what they answered first and change nothing more.
\<close>

section \<open>fail\<close>

lemma fail_replay_lemma:
  assumes S: "sound db" and G: "good_clock clock" and L: "legal_origin origin kind"
    and op: "fail_op sys clock c kind origin db = (Inr x, db')"
  shows "fail_op sys clock2 c kind origin db' = (Inr x, db')"
proof -
  from op have sec: "require_secret (cl_credential c) = Inr ()" and k: "is_executor_failure kind"
    and cm: "commit (fail_body sys clock c kind origin) db = (Inr x, db')"
    by (auto simp: fail_op_def result_simps require_def split: sum.splits if_splits)
  from cm have body: "fail_body sys clock c kind origin db = Inr (x, db')"
    by (auto elim: commit_cases)
  then obtain row latest where cred: "credential_attempt (sy_sha sys) db c = Inr (row, latest)"
    by (auto simp: fail_body_def result_simps)
  have again: "fail_body sys clock2 c kind origin db' = Inr (x, db')"
  proof (cases "ar_kind row")
    case (Some y)
    with body cred have "db' = db"
      by (auto simp: fail_body_def result_simps split: if_splits)
    with body cred Some show ?thesis by (auto simp: fail_body_def split: if_splits)
  next
    case None
    with body cred obtain now where "ar_success_id row = None" latest and clock: "utc_now clock = Inr now"
      and ins: "insert_failure (plain_failure c kind origin now) db = Inr db'"
      and x: "x = \<lparr>fr_task_id = cl_task_id c, fr_attempt_no = cl_attempt_no c, fr_kind = kind,
             fr_origin = origin, fr_settled_at = now, fr_issues = []\<rparr>"
      by (auto simp: fail_body_def result_simps split: if_splits)
    have S': "sound db'"
      using fail_op_refines [OF S G L op] steps_sound S by blast
    from cred obtain a where a: "a \<in> set (db_attempts db)" "at_key a = (cl_task_id c, cl_attempt_no c)"
        "at_credential a = digest (sy_sha sys) (cl_credential c)"
      by (auto simp: credential_lookup [OF S] lookup_attempt [OF S] split: if_splits option.splits)
    let ?f = "plain_failure c kind origin now"
    have db': "db_attempts db' = db_attempts db" "?f \<in> set (db_failures db')"
      using insert_failureD [OF ins] by simp_all
    have "lookup at_key (db_attempts db') (cl_task_id c, cl_attempt_no c) = Some a"
      using a db' by (simp add: lookup_attempt [OF S])
    with a(3) sec obtain l where cred': "credential_attempt (sy_sha sys) db' c = Inr (join_attempt db' a, l)"
      by (auto simp: credential_lookup [OF S'] require_secret_def)
    have fk: "fl_key ?f = at_key a" using a(2) by (simp add: plain_failure_def)
    note J = join_failure [OF S' db'(2) fk]
    have V: "valid_instant now" using utc_nowD [OF clock G] by simp
    have "origin \<noteq> By_Recovery" using L by (auto simp: legal_origin_def)
    with cred' J V a(2) x show ?thesis
      by (simp add: fail_body_def failure_receipt_of_def plain_failure_def stored_instant_def
          read_timestamp_timestamp decode_issues_def)
  qed
  with sec k show ?thesis by (simp add: fail_op_def commit_def)
qed

section \<open>reclaim\<close>

lemma derive_status_task: "derive_status t rows now = Inr st \<Longrightarrow> ts_task_id st = t"
  by (auto simp: derive_status_def Let_def result_simps split: option.splits if_splits)

lemma reclaim_again:
  assumes S: "sound db" and G: "good_clock clock"
    and op: "reclaim_op clock r db = (Inr st, db')"
  shows "reclaim_op clock r db' = (Inr st, db')" and "ts_state st \<noteq> Lease_Expired"
proof -
  let ?t = "rc_task_id r"
  from op have body: "reclaim_body clock r db = Inr (st, db')"
    by (auto simp: reclaim_op_def elim: commit_cases)
  then obtain now where clock: "utc_now clock = Inr now" by (auto simp: reclaim_body_def result_simps)
  note rd = read_attempts_total [OF S, of ?t]
  let ?rows = "attempt_rows db ?t"
  have "reclaim_body clock r db' = Inr (st, db') \<and> ts_state st \<noteq> Lease_Expired"
  proof (cases "unsettled ?rows \<and> ar_success_id (last ?rows) = None")
    case False
    with body clock rd have st: "db' = db" "derive_status ?t ?rows now = Inr st"
      by (auto simp: reclaim_body_def result_simps split: if_splits)
    have "ts_state st \<noteq> Lease_Expired"
      using st(2) False
      by (auto simp: derive_status_def last_row_def Let_def unsettled_def result_simps
          split: if_splits option.splits)
    with st body show ?thesis by simp
  next
    case True
    then obtain e where e: "stored_instant (ar_expires_at (last ?rows)) = Inr e"
      using body clock rd by (auto simp: reclaim_body_def result_simps split: if_splits)
    show ?thesis
    proof (cases "e \<le> now")
      case False
      with True body clock rd e have st: "db' = db" "derive_status ?t ?rows now = Inr st"
        by (auto simp: reclaim_body_def result_simps split: if_splits)
      have "ts_state st \<noteq> Lease_Expired"
        using st(2) True e False
        by (auto simp: derive_status_def last_row_def Let_def unsettled_def result_simps
            split: if_splits option.splits)
      with st body show ?thesis by simp
    next
      case le: True
      with True body clock rd e have
        rec: "recover_attempt (last ?rows) now db = Inr db'"
        by (auto simp: reclaim_body_def result_simps split: if_splits)
      have S': "sound db'"
        using reclaim_body_refines [OF S G body] step_sound S by blast
      note rd' = read_attempts_total [OF S', of ?t]
      from True le body clock rd e rec rd' have st: "derive_status ?t (attempt_rows db' ?t) now = Inr st"
        by (auto simp: reclaim_body_def result_simps split: if_splits)
      have ne: "?rows \<noteq> []" using True by (auto simp: unsettled_def)
      note last = last_row_facts [OF S rd ne]
      from rec obtain f where ins: "insert_failure f db = Inr db'"
          "fl_task_id f = at_task_id (ar_attempt (last ?rows))" "fl_attempt_no f = ar_no (last ?rows)"
        by (auto simp: recover_attempt_def result_simps)
      have same: "db_attempts db' = db_attempts db" "f \<in> set (db_failures db')"
        using insert_failureD [OF ins(1)] by simp_all
      have len: "length (attempt_rows db' ?t) = length ?rows"
        using same by (simp add: attempt_rows_def)
      then have ne': "attempt_rows db' ?t \<noteq> []" using ne by auto
      note last' = last_row_facts [OF S' rd' ne']
      have "fl_key f = (?t, ar_no (last (attempt_rows db' ?t)))"
        using ins(2,3) last(2) last'(2) len read_row(2) [OF rd last(1)] by simp
      then have "failed db' (?t, ar_no (last (attempt_rows db' ?t)))"
        by (rule keyI(2) [OF same(2)])
      then have k: "ar_kind (last (attempt_rows db' ?t)) \<noteq> None"
        using row_kind_None [OF rd' last'(1)] by simp
      then have "\<not> unsettled (attempt_rows db' ?t)" by (simp add: unsettled_def)
      with clock rd' st have "reclaim_body clock r db' = Inr (st, db')"
        by (simp add: reclaim_body_def)
      moreover have "ts_state st \<noteq> Lease_Expired"
        using st k ne'
        by (auto simp: derive_status_def last_row_def Let_def split: if_splits option.splits)
      ultimately show ?thesis by simp
    qed
  qed
  then show "reclaim_op clock r db' = (Inr st, db')" "ts_state st \<noteq> Lease_Expired"
    by (simp_all add: reclaim_op_def commit_def)
qed

text \<open>A reclaim that changes the tables recovers an attempt that is open, at or after the expiry of its lease.\<close>

lemma reclaim_changes:
  assumes S: "sound db" and op: "reclaim_op clock r db = (out, db')" and ne: "db' \<noteq> db"
  obtains now l e where "clock = Utc now" "l \<in> set (db_leases db)" "ls_task_id l = rc_task_id r"
    "open_attempt db (ls_key l)" "read_timestamp (ls_expires_at l) = Some e" "e \<le> now"
    "unsettled (attempt_rows db (rc_task_id r))" "ar_success_id (last (attempt_rows db (rc_task_id r))) = None"
    "stored_instant (ar_expires_at (last (attempt_rows db (rc_task_id r)))) = Inr e"
proof -
  let ?t = "rc_task_id r"
  let ?rows = "attempt_rows db ?t"
  note rd = read_attempts_total [OF S, of ?t]
  from op ne obtain st where body: "reclaim_body clock r db = Inr (st, db')"
    unfolding reclaim_op_def by (auto elim: commit_cases)
  then obtain now where clock: "utc_now clock = Inr now" by (auto simp: reclaim_body_def result_simps)
  from body ne rd clock have u: "unsettled ?rows" "ar_success_id (last ?rows) = None"
    by (auto simp: reclaim_body_def result_simps split: if_splits)
  from body u rd clock ne obtain e where e: "stored_instant (ar_expires_at (last ?rows)) = Inr e" "e \<le> now"
    by (auto simp: reclaim_body_def result_simps split: if_splits)
  from u have k: "?rows \<noteq> []" "ar_kind (last ?rows) = None" by (simp_all add: unsettled_def)
  note last = last_row_facts(1) [OF S rd k(1)]
  note row = read_row [OF rd last]
  have op: "open_attempt db (?t, ar_no (last ?rows))" by (rule unsettled_row_open [OF rd last k(2) u(2)])
  have "claimed db (?t, ar_no (last ?rows))" by (rule row(5))
  then have "leased db (?t, ar_no (last ?rows))" using soundD(2) [OF S] by (simp add: attempts_settled_once_def)
  then obtain l where l: "l \<in> set (db_leases db)" "ls_key l = (?t, ar_no (last ?rows))" by (elim imageE) metis
  obtain v where v: "ar_expires_at (last ?rows) = Some v" "read_timestamp v = Some e"
    using e(1) by (cases "ar_expires_at (last ?rows)") (auto simp: stored_instant_def)
  have "ls_expires_at l = v" by (rule row_expires [OF S rd last v(1) l])
  moreover have "clock = Utc now" using clock by (cases clock) auto
  moreover have "ls_task_id l = ?t" using l(2) by simp
  ultimately show thesis using that [of now l e] l op v(2) e u by simp
qed

lemma reclaim_running:
  assumes S: "sound db" and again: "reclaim_op clock r db = (Inr st, db)" and L: "ts_state st \<noteq> Lease_Expired"
    and op: "reclaim_op clock2 r db = (out, db2)" and ne: "db2 \<noteq> db"
  shows "ts_state st = Running"
proof -
  note rd = read_attempts_total [OF S, of "rc_task_id r"]
  from reclaim_changes [OF S op ne] obtain e where u: "unsettled (attempt_rows db (rc_task_id r))"
    "ar_success_id (last (attempt_rows db (rc_task_id r))) = None"
    "stored_instant (ar_expires_at (last (attempt_rows db (rc_task_id r)))) = Inr e" by metis
  from again have body: "reclaim_body clock r db = Inr (st, db)"
    by (auto simp: reclaim_op_def elim: commit_cases)
  then obtain now where clock: "utc_now clock = Inr now" by (auto simp: reclaim_body_def result_simps)
  have "derive_status (rc_task_id r) (attempt_rows db (rc_task_id r)) now = Inr st"
  proof (cases "e \<le> now")
    case True
    with body u rd clock obtain f where "insert_failure f db = Inr db"
      by (auto simp: reclaim_body_def recover_attempt_def result_simps split: if_splits)
    then have "db = db\<lparr>db_failures := db_failures db @ [f]\<rparr>" by (simp add: insert_failureD)
    then have "db_failures db = db_failures db @ [f]" by (rule arg_cong [where f = db_failures, THEN trans]) simp
    then show ?thesis by simp
  next
    case False
    with body u rd clock show ?thesis by (auto simp: reclaim_body_def result_simps split: if_splits)
  qed
  with u L show ?thesis
    by (auto simp: derive_status_def last_row_def Let_def unsettled_def result_simps split: if_splits option.splits)
qed

section \<open>submit\<close>

text \<open>A wider set of field names admits every location a narrower one admits.\<close>

lemma legal_parts_mono:
  assumes "set ns \<subseteq> set ms" and "legal_parts nd ns s"
  shows "legal_parts nd ms s"
  using assms
proof (induction nd ns s rule: legal_parts.induct)
  case (1 nd names s)
  show ?case
  proof (cases s)
    case Nil
    then show ?thesis by (simp add: legal_parts.simps)
  next
    case (Cons c t)
    consider "c = 46" | "c = 91" | "c \<noteq> 46" "c \<noteq> 91" by blast
    then show ?thesis
    proof cases
      case 1
      from 1 "1.prems"(2) Cons obtain n where n: "n \<in> set names" "prefix n t"
          "legal_parts nd names (drop (length n) t)"
        by (subst (asm) legal_parts.simps) (auto simp: list_ex_iff)
      have "legal_parts nd ms (drop (length n) t)"
        by (rule "1.IH"(1) [OF Cons 1 n(1) "1.prems"(1) n(3)])
      with n "1.prems"(1) Cons 1 show ?thesis
        by (subst legal_parts.simps) (auto simp: list_ex_iff)
    next
      case 2
      from 2 "1.prems"(2) Cons obtain u where u: "takeWhile nd t \<noteq> []" "dropWhile nd t = 93 # u"
          "legal_parts nd names u"
        by (subst (asm) legal_parts.simps) (auto split: list.splits)
      have "c \<noteq> 46" using 2 by simp
      from "1.IH"(2) [OF Cons this 2 u(2) "1.prems"(1) u(3)] have "legal_parts nd ms u" .
      with u Cons 2 show ?thesis by (subst legal_parts.simps) simp
    next
      case 3
      with "1.prems"(2) Cons show ?thesis by (subst (asm) legal_parts.simps) simp
    qed
  qed
qed

lemma location_names_wide: "set (location_names st) \<subseteq> set (location_names None)"
  by (auto simp: location_names_def split: option.splits stage.splits)

lemma decode_issue_wide:
  assumes "decode_issue nd st j = Some i"
  shows "decode_issue nd None j = Some i"
proof -
  from assms obtain kvs l c where j: "j = JObj kvs"
      "set (map fst kvs) = {ascii ''location'', ascii ''category''}"
      "map_of kvs (ascii ''location'') = Some (JStr l)" "map_of kvs (ascii ''category'') = Some (JStr c)"
      "legal_location nd (location_names st) l"
      "map_option (\<lambda>cat. \<lparr>oi_location = l, oi_category = cat, oi_guidance = frozen_guidance\<rparr>)
         (category_of c) = Some i"
    by (auto simp: decode_issue_def split: json.splits if_splits option.splits)
  have "legal_location nd (location_names None) l"
    using j(5) legal_parts_mono [OF location_names_wide] by (auto simp: legal_location_def split: list.splits)
  with j show ?thesis by (simp add: decode_issue_def del: set_map)
qed

lemma decode_issues_wide:
  assumes "decode_issues nd st v = Inr issues"
  shows "decode_issues nd None v = Inr issues" "encode_issues issues = Some v"
proof -
  have "decode_issues nd None v = Inr issues \<and> encode_issues issues = Some v"
  proof (cases v)
    case None
    with assms show ?thesis by (auto simp: decode_issues_def encode_issues_def)
  next
    case (Some t)
    with assms obtain js where js: "loads plain_hooks t = Some (JArr js)"
        "all_some (map (decode_issue nd st) js) = Some issues" "js \<noteq> []"
        "encode_issues issues = Some (Some t)"
      by (auto simp: decode_issues_def split: option.splits json.splits if_splits)
    from all_some_map [OF js(2) decode_issue_wide] js Some show ?thesis
      by (simp add: decode_issues_def)
  qed
  then show "decode_issues nd None v = Inr issues" "encode_issues issues = Some v" by blast+
qed

text \<open>The issues of a plan read back as themselves.\<close>

lemma judge_issues:
  assumes "judge sys env cand bf = Inr (Reject kind issues)"
  shows "\<exists>v. encode_issues issues = Some v \<and> decode_issues (sy_nd sys) None v = Inr issues"
proof -
  obtain b frozen where bf: "bf = (b, frozen)" by (cases bf)
  from assms bf obtain ok where mm: "model_matches env cand (fz_snapshot_id frozen) = Inr ok"
    by (auto simp: judge_def result_simps)
  show ?thesis
  proof (cases ok)
    case True
    with assms bf mm obtain v where v: "validate_candidate_output env frozen (cd_raw cand) = Inr v"
      by (auto simp: judge_def result_simps)
    show ?thesis
    proof (cases v)
      case (Inl xs)
      with assms bf mm True v obtain t where
        "decode_issues (sy_nd sys) (Some (bg_stage b)) t = Inr issues"
        by (cases "encode_issues xs") (auto simp: judge_def result_simps)
      from decode_issues_wide [OF this] show ?thesis by blast
    next
      case (Inr out)
      with assms bf mm True v show ?thesis
        by (cases "cv_publish env") (auto simp: judge_def result_simps)
    qed
  next
    case False
    with assms bf mm show ?thesis by (simp add: judge_def encode_issues_def decode_issues_def)
  qed
qed

lemma lookup_extends:
  "lookup key rows k = Some r \<Longrightarrow> set rows \<subseteq> set rows' \<Longrightarrow> distinct (map key rows') \<Longrightarrow>
     lookup key rows' k = Some r"
  by (drule lookup_Some) (auto simp: lookup_distinct)

lemma extendsD:
  assumes "extends db db'"
  shows "set (db_budgets db) \<subseteq> set (db_budgets db')" "set (db_tasks db) \<subseteq> set (db_tasks db')"
    "set (db_requests db) \<subseteq> set (db_requests db')" "set (db_attempts db) \<subseteq> set (db_attempts db')"
    "set (db_failures db) \<subseteq> set (db_failures db')" "set (db_successes db) \<subseteq> set (db_successes db')"
  using assms by (simp_all add: extends_def)

lemma success_row_extends:
  assumes "sound db'" "extends db db'" "success_row db i = Some sb"
  shows "success_row db' i = Some sb"
proof -
  from assms(3) obtain s b where "lookup su_success_id (db_successes db) i = Some s"
      "lookup bg_budget_id (db_budgets db) (su_budget_id s) = Some b" "sb = (s, b)"
    by (auto simp: success_row_def bind_eq_Some_conv)
  then show ?thesis
    using lookup_extends [OF _ extendsD(6) [OF assms(2)] keysD(10) [OF soundD(1) [OF assms(1)]]]
      lookup_extends [OF _ extendsD(1) [OF assms(2)] keysD(1) [OF soundD(1) [OF assms(1)]]]
    by (simp add: success_row_def)
qed

lemma join_success:
  assumes "sound db" "s \<in> set (db_successes db)" "su_key s = at_key a"
  shows "ar_success_id (join_attempt db a) = Some (su_success_id s)"
proof -
  have "lookup su_key (db_successes db) (at_key a) = Some s"
    using assms keysD(9) [OF soundD(1) [OF assms(1)]] by (simp add: lookup_distinct)
  then show ?thesis by (simp add: join_attempt_def Let_def)
qed

lemma credential_attempt_row:
  assumes "sound db" "credential_attempt sha db c = Inr (row, latest)"
  obtains a where "a \<in> set (db_attempts db)" "at_key a = (cl_task_id c, cl_attempt_no c)"
    "at_credential a = digest sha (cl_credential c)" "row = join_attempt db a"
    "require_secret (cl_credential c) = Inr ()"
  using assms(2)
  by (auto simp: credential_lookup [OF assms(1)] lookup_attempt [OF assms(1)] require_secret_def
      split: if_splits option.splits)

lemma credential_attempt_extends:
  assumes S': "sound db'" and E: "extends db db'"
    and a: "a \<in> set (db_attempts db)" "at_key a = (cl_task_id c, cl_attempt_no c)"
      "at_credential a = digest sha (cl_credential c)" "require_secret (cl_credential c) = Inr ()"
  shows "\<exists>l. credential_attempt sha db' c = Inr (join_attempt db' a, l)"
proof -
  have "lookup at_key (db_attempts db') (cl_task_id c, cl_attempt_no c) = Some a"
    using a extendsD(4) [OF E] by (auto simp: lookup_attempt [OF S'])
  with a show ?thesis by (simp add: credential_lookup [OF S'] require_secret_def)
qed

lemma failure_row_fields:
  assumes "sound db" "lookup fl_key (db_failures db) (at_key a) = Some f"
  shows "failure_receipt_of nd (join_attempt db a) =
    and_then (stored_instant (Some (fl_settled_at f))) (\<lambda>settled.
    and_then (decode_issues nd None (fl_issues_json f)) (\<lambda>issues.
      Inr \<lparr>fr_task_id = at_task_id a, fr_attempt_no = at_attempt_no a, fr_kind = fl_kind f,
        fr_origin = fl_origin f, fr_settled_at = settled, fr_issues = issues\<rparr>))"
proof -
  have f: "f \<in> set (db_failures db)" "fl_key f = at_key a" using lookup_Some [OF assms(2)] by simp_all
  show ?thesis by (simp add: failure_receipt_of_def join_failure [OF assms(1) f])
qed

text \<open>An answer of the precheck stays the answer while rows are only added.\<close>

lemma precheck_stable:
  assumes S: "sound db" and S': "sound db'" and E: "extends db db'"
    and pre: "precheck sys env db c sub = Inr (row, Some x)"
  shows "\<exists>row'. precheck sys env db' c sub = Inr (row', Some x)"
proof -
  from pre obtain row0 latest where cred: "credential_attempt (sy_sha sys) db c = Inr (row0, latest)"
    by (auto simp: precheck_def result_simps)
  from credential_attempt_row [OF S cred] obtain a where a: "a \<in> set (db_attempts db)"
      "at_key a = (cl_task_id c, cl_attempt_no c)" "at_credential a = digest (sy_sha sys) (cl_credential c)"
      "require_secret (cl_credential c) = Inr ()" and row0: "row0 = join_attempt db a" by metis
  obtain l where cred': "credential_attempt (sy_sha sys) db' c = Inr (join_attempt db' a, l)"
    using credential_attempt_extends [OF S' E a] by blast
  show ?thesis
  proof (cases "ar_success_id row0")
    case (Some i)
    then obtain s where s: "s \<in> set (db_successes db)" "su_key s = at_key a" "su_success_id s = i"
      by (auto simp: row0 join_attempt_def Let_def dest: lookup_Some)
    have i': "ar_success_id (join_attempt db' a) = Some i"
      using join_success [OF S' _ s(2)] s extendsD(6) [OF E] by blast
    from pre cred Some obtain sb r where sb: "success_row db i = Some sb" "su_submission (fst sb) = sub"
        "success_receipt_of env sb = Inr r" "x = Settled_Success r"
      by (auto simp: precheck_def result_simps split: if_splits)
    with success_row_extends [OF S' E sb(1)] cred' i' show ?thesis by (simp add: precheck_def)
  next
    case None
    with pre cred have k: "ar_kind row0 \<noteq> None" by (auto simp: precheck_def split: if_splits)
    then obtain f where f: "lookup fl_key (db_failures db) (at_key a) = Some f"
      by (auto simp: row0 join_attempt_def Let_def)
    with pre cred None k a(2) obtain r where r: "fl_origin f \<noteq> By_Recovery" "fl_submission f = Some sub"
        "failure_receipt_of (sy_nd sys) row0 = Inr r" "x = Settled_Failure r"
      by (auto simp: precheck_def result_simps split: if_splits)
    have f': "lookup fl_key (db_failures db') (at_key a) = Some f"
      by (rule lookup_extends [OF f extendsD(5) [OF E] keysD(8) [OF soundD(1) [OF S']]])
    note J = join_failure [OF S' conjunct1 [OF lookup_Some [OF f']] conjunct2 [OF lookup_Some [OF f']]]
    have "failure_receipt_of (sy_nd sys) (join_attempt db' a) = Inr r"
      using r(3) failure_row_fields [OF S f] failure_row_fields [OF S' f'] by (simp add: row0)
    with cred' J r f' a(2) show ?thesis by (simp add: precheck_def)
  qed
qed

text \<open>After a settlement of its own the precheck answers the settlement.\<close>

lemma precheck_settled:
  assumes S: "sound db" and G: "good_clock clock" and P: "plan_ok db c p"
    and I: "\<And>k xs. pl_verdict p = Reject k xs \<Longrightarrow>
      \<exists>v. encode_issues xs = Some v \<and> decode_issues (sy_nd sys) None v = Inr xs"
    and body: "settle_body sys env clock new_id c cand p db = Inr (x, db')"
  shows "\<exists>row. precheck sys env db' c (pl_submission p) = Inr (row, Some x)"
    and "check_reference env c cand = Inr ()" and "sound db'"
proof -
  have R: "db' = db \<or> fact_step db db'" by (rule settle_body_refines [OF S G P body])
  then show S': "sound db'" using step_sound S by blast
  have E: "extends db db'" using R step_extends by auto
  from body obtain row replayed where pre: "precheck sys env db c (pl_submission p) = Inr (row, replayed)"
      and ref: "check_reference env c cand = Inr ()"
    by (auto simp: settle_body_def result_simps)
  show "check_reference env c cand = Inr ()" by (rule ref)
  show "\<exists>row. precheck sys env db' c (pl_submission p) = Inr (row, Some x)"
  proof (cases replayed)
    case (Some s)
    with body pre ref have "db' = db" "s = x" by (auto simp: settle_body_def)
    with pre Some show ?thesis by auto
  next
    case None
    from pre obtain row0 latest where cred: "credential_attempt (sy_sha sys) db c = Inr (row0, latest)"
      by (auto simp: precheck_def result_simps)
    from credential_attempt_row [OF S cred] obtain a where a: "a \<in> set (db_attempts db)"
        "at_key a = (cl_task_id c, cl_attempt_no c)" "at_credential a = digest (sy_sha sys) (cl_credential c)"
        "require_secret (cl_credential c) = Inr ()" by metis
    obtain l where cred': "credential_attempt (sy_sha sys) db' c = Inr (join_attempt db' a, l)"
      using credential_attempt_extends [OF S' E a] by blast
    from body pre ref None obtain now where clock: "utc_now clock = Inr now"
      and tm: "require_attempt_time row now = Inr ()"
      by (auto simp: settle_body_def result_simps)
    have V: "valid_instant now" using utc_nowD [OF clock G] by simp
    show ?thesis
    proof (cases "pl_verdict p")
      case (Reject kind issues)
      from I [OF Reject] obtain t where t: "encode_issues issues = Some t"
          "decode_issues (sy_nd sys) None t = Inr issues" by blast
      let ?f = "submitted_failure c p kind t now"
      from Reject body pre ref None clock tm t have
        ins: "insert_failure ?f db = Inr db'" and
        x: "x = Settled_Failure \<lparr>fr_task_id = cl_task_id c, fr_attempt_no = cl_attempt_no c,
          fr_kind = kind, fr_origin = By_Executor, fr_settled_at = now, fr_issues = issues\<rparr>"
        by (auto simp: settle_body_def result_simps)
      have f: "?f \<in> set (db_failures db')" "fl_key ?f = at_key a"
        using insert_failureD [OF ins] a(2) by (simp_all add: submitted_failure_def)
      then have lk: "lookup fl_key (db_failures db') (at_key a) = Some ?f"
        by (simp add: lookup_failure [OF S'])
      note J = join_failure [OF S' f]
      have "failure_receipt_of (sy_nd sys) (join_attempt db' a) =
          Inr \<lparr>fr_task_id = cl_task_id c, fr_attempt_no = cl_attempt_no c,
          fr_kind = kind, fr_origin = By_Executor, fr_settled_at = now, fr_issues = issues\<rparr>"
        using failure_row_fields [OF S' lk] t(2) V a(2)
        by (simp add: submitted_failure_def stored_instant_def read_timestamp_timestamp)
      with cred' J lk a(2) x show ?thesis by (simp add: precheck_def submitted_failure_def)
    next
      case (Accept_Output out artifact)
      from Accept_Output body pre ref None clock tm obtain s sb r where
        ins: "insert_success s db = Inr db'" and
        s: "su_success_id s = new_id" "su_task_id s = cl_task_id c" "su_attempt_no s = cl_attempt_no c"
          "su_submission s = pl_submission p" and
        sb: "success_row db' new_id = Some sb" "success_receipt_of env sb = Inr r" "x = Settled_Success r"
        by (auto simp: settle_body_def result_simps)
      have mem: "s \<in> set (db_successes db')" using insert_successD [OF ins] by simp
      have "ar_success_id (join_attempt db' a) = Some new_id"
        using join_success [OF S' mem] s a(2) by simp
      moreover have "fst sb = s"
      proof -
        obtain s' b where sb': "sb = (s', b)" by (cases sb)
        with sb(1) have "lookup su_success_id (db_successes db') new_id = Some s'"
          by (auto simp: success_row_def bind_eq_Some_conv)
        moreover have "lookup su_success_id (db_successes db') new_id = Some s"
          using mem s(1) keysD(10) [OF soundD(1) [OF S']] by (simp add: lookup_distinct)
        ultimately show ?thesis using sb' by simp
      qed
      ultimately show ?thesis using cred' sb s(4) by (simp add: precheck_def)
    qed
  qed
qed

lemma submit_replay_lemma:
  assumes S: "sound db" "sound db2" and E: "extends db db2" and G: "good_clock clock"
    and op: "submit_op sys env clock new_id c cand db db2 = (Inr x, db')"
  shows "submit_op sys env clock2 id2 c cand db' db' = (Inr x, db')"
proof -
  from op obtain r where plan: "submit_plan sys env c cand db = Inr r"
    by (auto simp: submit_op_def split: sum.splits)
  then obtain audit sub where front: "require_secret (cl_credential c) = Inr ()"
      "candidate_audit env cand = Inr audit" "submission_digest (sy_sha sys) (cd_raw cand) audit = Inr sub"
    by (auto simp: submit_plan_def result_simps)
  have "(\<exists>row. precheck sys env db' c sub = Inr (row, Some x)) \<and> check_reference env c cand = Inr ()"
  proof (cases r)
    case (Inl s)
    obtain rr where rr: "submit_read sys env c cand sub db = Inr rr"
      using plan front by (auto simp: submit_plan_def result_simps)
    have rd: "submit_read sys env c cand sub db = Inr (Inl s)"
      using plan front rr Inl by (cases rr) (auto simp: submit_plan_def result_simps)
    from rd obtain row replayed where pre: "precheck sys env db c sub = Inr (row, replayed)"
        and ref: "check_reference env c cand = Inr ()"
      by (auto simp: submit_read_def result_simps)
    then have "replayed = Some s" using rd
      by (cases replayed) (auto simp: submit_read_def result_simps split: option.splits)
    with precheck_stable [OF S E] pre have "\<exists>row. precheck sys env db2 c sub = Inr (row, Some s)" by blast
    moreover have "x = s" "db' = db2" using op plan Inl by (simp_all add: submit_op_def)
    ultimately show ?thesis using ref by simp
  next
    case (Inr p)
    with plan have p: "submit_plan sys env c cand db = Inr (Inr p)" by simp
    from op p have "commit (settle_body sys env clock new_id c cand p) db2 = (Inr x, db')"
      by (simp add: submit_op_def)
    then have body: "settle_body sys env clock new_id c cand p db2 = Inr (x, db')"
      by (auto elim: commit_cases)
    have P: "plan_ok db2 c p" using plan_ok_extends [OF submit_plan_ok [OF S(1) p] E] .
    have sub: "pl_submission p = sub"
      and jd: "\<exists>bf. judge sys env cand bf = Inr (pl_verdict p)"
      using submit_planD [OF p] front by (metis Inr_inject)+
    have I: "\<exists>v. encode_issues xs = Some v \<and> decode_issues (sy_nd sys) None v = Inr xs"
      if "pl_verdict p = Reject k xs" for k xs
      using jd judge_issues that by metis
    from precheck_settled [OF S(2) G P I body] sub show ?thesis by simp
  qed
  then show ?thesis using front
    by (auto simp: submit_op_def submit_plan_def submit_read_def)
qed

end
