(* ===== verification/Task_Repeat.thy ===== *)
theory Task_Repeat
  imports Task_Replay
begin

text \<open>Registration is idempotent and a task has one successor.\<close>

section \<open>A registration repeated\<close>

text \<open>The request the replay looks for: \<open>None\<close> when the request is not replayable by its id.\<close>

lemma replay_request_none:
  assumes "\<not> (replayable q \<and> rq_request_id q \<noteq> None)"
  shows "replay_request sha db q = Inr None"
proof -
  have "find (\<lambda>r. re_request_id r = rq_request_id q \<and> re_request_id r \<noteq> None) (db_requests db) = None"
    if "rq_request_id q = None" using that by (auto simp: find_None_set)
  with assms show ?thesis by (auto simp: replay_request_def)
qed

lemma replay_request_known:
  assumes "replayable q" "rq_request_id q \<noteq> None" "r \<in> set (db_requests db)"
    and "re_request_id r = rq_request_id q"
    and "\<And>r'. r' \<in> set (db_requests db) \<Longrightarrow> re_request_id r' = rq_request_id q \<Longrightarrow> r' = r"
    and "receipt_row db (re_receipt_id r) = Some row" "existing_receipt sha q row = Inr x"
  shows "replay_request sha db q = Inr (Some x)"
proof -
  have "find (\<lambda>r. re_request_id r = rq_request_id q \<and> re_request_id r \<noteq> None) (db_requests db) = Some r"
  proof (subst find_unique)
    show "x = y" if "re_request_id x = rq_request_id q \<and> re_request_id x \<noteq> None"
      "re_request_id y = rq_request_id q \<and> re_request_id y \<noteq> None"
      "x \<in> set (db_requests db)" "y \<in> set (db_requests db)" for x y
      using assms(5) [of x] assms(5) [of y] that by simp
  qed (use assms(2-4) in simp)
  with assms(1,6,7) show ?thesis by (simp add: replay_request_def)
qed

lemma receipt_row_fields:
  assumes "receipt_row db (re_receipt_id r) = Some row" "lookup re_receipt_id (db_requests db) (re_receipt_id r) = Some r"
  shows "fst row = r" "lookup tk_task_id (db_tasks db) (re_task_id r) = Some (fst (snd row))"
    "lookup bg_budget_id (db_budgets db) (tk_budget_id (fst (snd row))) = Some (snd (snd row))"
  using assms by (auto simp: receipt_row_def bind_eq_Some_conv)

lemma inserted_request:
  assumes "insert_and_read r db = Inr (x, db')"
  obtains row where "db' = db\<lparr>db_requests := db_requests db @ [r]\<rparr>" "fst row = r"
    "receipt_row db' (re_receipt_id r) = Some row" "to_receipt row = Inr x" "request_shape r"
    "free_opt re_request_id (db_requests db) (re_request_id r)"
proof -
  obtain row where ins: "insert_request r db = Inr db'" and row: "receipt_row db' (re_receipt_id r) = Some row"
      "to_receipt row = Inr x"
    using assms by (rule insert_and_readD)
  have lk: "lookup re_receipt_id (db_requests db') (re_receipt_id r) = Some r"
    using requests.lookup_insert [OF ins] by simp
  from ins have "request_shape r" "free_opt re_request_id (db_requests db) (re_request_id r)"
    by (auto simp: insert_request_def)
  with row insert_requestD [OF ins] receipt_row_fields(1) [OF row(1) lk] show ?thesis
    by (intro that [of row]) simp_all
qed

lemma ensure_budget_language:
  assumes "ensure_budget q input basis nb nt db = Inr ((b, t), db')" "sound db"
  shows "\<exists>tr br. lookup tk_task_id (db_tasks db') t = Some tr \<and>
    lookup bg_budget_id (db_budgets db') (tk_budget_id tr) = Some br \<and> bg_language br = request_language q"
proof (cases "lookup bg_key (db_budgets db) (rq_paper_id q, rq_stage q, si_fingerprint input)")
  case None
  with assms obtain br db1 tr where new: "insert_budget br db = Inr db1" "insert_task tr db1 = Inr db'"
      "tk_task_id tr = t" "tk_budget_id tr = bg_budget_id br" "bg_language br = request_language q"
    by (auto simp: ensure_budget_def result_simps)
  have "lookup tk_task_id (db_tasks db') t = Some tr" using tasks.lookup_insert [OF new(2)] new(3) by simp
  moreover have "db_budgets db' = db_budgets db1" using insert_taskD [OF new(2)] by simp
  then have "lookup bg_budget_id (db_budgets db') (bg_budget_id br) = Some br"
    using budgets.lookup_insert [OF new(1)] by simp
  ultimately show ?thesis using new(4,5) by auto
next
  case (Some br)
  then obtain tr where tr: "latest_task db (bg_budget_id br) = Some tr" "t = tk_task_id tr" "db' = db"
      and lang: "bg_language br = request_language q"
    using assms(1) by (cases "latest_task db (bg_budget_id br)") (auto simp: ensure_budget_def split: if_splits)
  then have "tr \<in> set (db_tasks db) \<and> tk_budget_id tr = bg_budget_id br"
    by (auto simp: latest_task_def Let_def dest!: find_Some_set split: if_splits)
  moreover have "br \<in> set (db_budgets db)" using lookup_Some [OF Some] ..
  ultimately have "lookup tk_task_id (db_tasks db) t = Some tr"
    "lookup bg_budget_id (db_budgets db) (tk_budget_id tr) = Some br"
    using keysD(1,2) [OF soundD(1) [OF assms(2)]] tr(2) by (simp_all add: lookup_distinct)
  with tr(3) lang show ?thesis by auto
qed

lemma register_repeat_lemma:
  assumes S: "sound db" and body: "register_body sha env q input basis db = Inr (x, db')"
  shows "register_body sha env q input basis db' = Inr (x, db')"
proof (cases "replay_request sha db q = Inr (Some x)")
  case True
  with body have "db' = db" by (simp add: register_body_def)
  with body show ?thesis by simp
next
  case False
  with register_bodyD [OF body] have outer: "replay_request sha db q = Inr None" "rg_current env = Inr basis"
      "rg_snapshot_known env"
    and rr: "register_request sha q input basis (rg_new_budget env) (rg_new_task env) db = Inr (x, db')"
    by auto
  let ?id = "receipt_id sha q basis (si_fingerprint input)"
  from rr show ?thesis
  proof (cases rule: register_request_cases)
    case (known row)
    with body show ?thesis by simp
  next
    case (fresh db1 b t db2)
    let ?r = "new_request sha q ?id t basis (cached_success db2 b)"
    have r: "re_receipt_id ?r = ?id" "re_request_id ?r = rq_request_id q" "re_task_id ?r = t"
        "re_sha256 ?r = request_digest sha q"
      by (simp_all add: new_request_def)
    from fresh(5) obtain row where db': "db' = db2\<lparr>db_requests := db_requests db2 @ [?r]\<rparr>"
        and row: "fst row = ?r" "receipt_row db' (re_receipt_id ?r) = Some row" "to_receipt row = Inr x"
        and free: "free_opt re_request_id (db_requests db2) (re_request_id ?r)"
      by (rule inserted_request) blast
    have ex: "existing_receipt sha q row = Inr x"
      using row(1,3) r(4) by (simp add: existing_receipt_def)
    show ?thesis
    proof (cases "replayable q \<and> rq_request_id q \<noteq> None")
      case True
      have "replay_request sha db' q = Inr (Some x)"
      proof (rule replay_request_known [where r = ?r])
        show "re_request_id r' = rq_request_id q \<Longrightarrow> r' = ?r" if "r' \<in> set (db_requests db')" for r'
          using that free True db' r(2) by (auto simp: free_opt_def key_free_def)
      qed (use True db' r row(2) ex in auto)
      then show ?thesis by (simp add: register_body_def)
    next
      case False
      note none = replay_request_none [OF False]
      have S1: "sound db1" by (rule steps_sound [OF ensure_input_refines [OF fresh(3)] S])
      from ensure_budget_language [OF fresh(4) S1] obtain tr br where
        lk: "lookup tk_task_id (db_tasks db2) t = Some tr"
          "lookup bg_budget_id (db_budgets db2) (tk_budget_id tr) = Some br"
          "bg_language br = request_language q" by blast
      from row(2) have "snd (snd row) = br"
        using lk db' row(1) r(3) by (auto simp: receipt_row_def bind_eq_Some_conv)
      then have lang: "\<not> (rq_stage q = Stage_Value \<and> bg_language (snd (snd row)) \<noteq> rq_language q)"
        using lk(3) by (simp add: request_language_def)
      have "register_request sha q input basis (rg_new_budget env) (rg_new_task env) db' = Inr (x, db')"
        using none row(2) r(1) ex lang by (simp add: register_request_def Let_def)
      with none outer(2,3) show ?thesis by (simp add: register_body_def)
    qed
  qed (use outer in simp)
qed

end
