(* ===== verification/Task_Progress.thy ===== *)
theory Task_Progress
  imports Task_Repeat
begin

text \<open>The successor of a retried task, the status of a task over its tables, and the progress of
  a claim.\<close>

section \<open>One successor\<close>

lemma successor_lookup:
  assumes "sound db" "t \<in> set (db_tasks db)" "tk_parent t = Some p"
  shows "\<exists>s. lookup tk_parent (db_tasks db) (Some p) = Some s \<and> s \<in> set (db_tasks db) \<and> tk_parent s = Some p"
proof (cases "lookup tk_parent (db_tasks db) (Some p)")
  case None
  with assms(2,3) show ?thesis by (auto simp: lookup_None key_free_def)
next
  case (Some s)
  with lookup_Some [OF Some] show ?thesis by auto
qed

text \<open>Two tasks with the same parent are the same task: both are the next generation of its
  budget.\<close>

lemma successor_unique:
  assumes S: "sound db" and t: "t \<in> set (db_tasks db)" "tk_parent t = Some p"
    and u: "u \<in> set (db_tasks db)" "tk_parent u = Some p"
  shows "t = u"
proof -
  have next_key: "\<exists>q \<in> set (db_tasks db). tk_task_id q = p \<and> tk_key v = (tk_budget_id q, tk_generation q + 1)"
    if "v \<in> set (db_tasks db)" "tk_parent v = Some p" for v
    using soundD(5) [OF S] that by (fastforce simp: generations_chained_def)
  from next_key [OF t] next_key [OF u] have "tk_key t = tk_key u"
    using keysD(2) [OF soundD(1) [OF S]] by (metis distinct_key_eq)
  then show ?thesis using keysD(3) [OF soundD(1) [OF S]] t(1) u(1) distinct_key_eq [of tk_key] by blast
qed

lemma retry_successor_lemma:
  assumes S: "sound db" and G: "good_clock (ry_clock env)"
    and body: "retry_body sha env q parent input basis db = Inr (x, db')"
    and new: "replay_request sha db q = Inr None"
    and S2: "sound db2" and E: "extends db' db2"
    and q2: "replay_request sha db2 q2 = Inr None" "ry_current env2 = Inr basis2"
      "rq_paper_id q2 = rq_paper_id q" "rq_stage q2 = rq_stage q" "si_fingerprint input2 = si_fingerprint input"
  shows "retry_body sha env2 q2 parent input2 basis2 db2 =
    Inl (Task_Error Already_Retried (Some (ry_new_task env)))"
  using body
proof (cases rule: retry_bodyD)
  case replayed
  with new show ?thesis by simp
next
  case (fresh p now st db1 dbt)
  let ?t = "\<lparr>tk_task_id = ry_new_task env, tk_budget_id = tk_budget_id p,
    tk_generation = tk_generation p + 1, tk_parent = Some parent\<rparr>"
  from insert_taskD [OF fresh(10)] have "?t \<in> set (db_tasks dbt)" by simp
  moreover obtain r where "insert_request r dbt = Inr db'"
    using fresh(11) by (rule insert_and_readD)
  then have "db_tasks db' = db_tasks dbt" using insert_requestD by fastforce
  ultimately have t: "?t \<in> set (db_tasks db2)" using extendsD(2) [OF E] by auto
  obtain s where s: "lookup tk_parent (db_tasks db2) (Some parent) = Some s" "s \<in> set (db_tasks db2)"
      "tk_parent s = Some parent"
    using successor_lookup [OF S2 t, of parent] by auto
  have "s = ?t" by (rule successor_unique [OF S2 s(2,3) t]) simp
  with s(1) have succ: "lookup tk_parent (db_tasks db2) (Some parent) = Some ?t" by simp
  from body fresh(1-3) obtain b where b: "lookup bg_budget_id (db_budgets db) (tk_budget_id p) = Some b"
      "bg_key b = (rq_paper_id q, rq_stage q, si_fingerprint input)"
    unfolding retry_body_def by (auto simp: result_simps bind_eq_Some_conv)
  have E0: "extends db db2"
    using steps_extends [OF retry_body_refines [OF S G body]] E by (rule extends_trans)
  have "lookup tk_task_id (db_tasks db2) parent = Some p"
    by (rule lookup_extends [OF fresh(3) extendsD(2) [OF E0] keysD(2) [OF soundD(1) [OF S2]]])
  moreover have "lookup bg_budget_id (db_budgets db2) (tk_budget_id p) = Some b"
    by (rule lookup_extends [OF b(1) extendsD(1) [OF E0] keysD(1) [OF soundD(1) [OF S2]]])
  ultimately show ?thesis using succ b(2) q2 by (simp add: retry_body_def)
qed

section \<open>The status over the tables\<close>

text \<open>What \<open>derive_status\<close> means in terms of the facts, without the row of the last attempt.\<close>

definition lease_live :: "task_db \<Rightarrow> string \<times> nat \<Rightarrow> instant \<Rightarrow> bool" where
  "lease_live db k now \<longleftrightarrow>
     (\<exists>l \<in> set (db_leases db). ls_key l = k \<and> (\<exists>e. read_timestamp (ls_expires_at l) = Some e \<and> now < e))"

definition state_spec :: "task_db \<Rightarrow> string \<Rightarrow> instant \<Rightarrow> task_state" where
  "state_spec db t now =
     (if \<exists>n. succeeded db (t, n) then Succeeded
      else if \<exists>n. open_attempt db (t, n) \<and> lease_live db (t, n) now then Running
      else if \<exists>n. open_attempt db (t, n) then Lease_Expired
      else if failed db (t, 1) \<and> failed db (t, 2) then Failed
      else if failed db (t, 1) then Retryable
      else Ready)"

lemma claimed_numbers:
  assumes "sound db"
  shows "{n. claimed db (t, n)} = {1 .. length (attempt_rows db t)}"
proof -
  have "set (map ar_no (attempt_rows db t)) = {1 .. length (attempt_rows db t)}"
    using sound_numbers [OF assms, of t] by (auto simp: atLeastAtMost_def)
  moreover have "n \<in> set (map ar_no (attempt_rows db t)) \<longleftrightarrow> claimed db (t, n)" for n
    using read_claimed [OF read_attempts_total [OF assms]] read_row(5) [OF read_attempts_total [OF assms]]
    by (metis (no_types, lifting) imageE image_eqI list.set_map)
  ultimately show ?thesis by auto
qed

lemma stored_expiry:
  assumes S: "sound db" and rows: "attempt_rows db t \<noteq> []" and r: "r = last (attempt_rows db t)"
  obtains l e where "l \<in> set (db_leases db)" "ls_key l = (t, length (attempt_rows db t))"
    "stored_instant (ar_expires_at r) = Inr e" "read_timestamp (ls_expires_at l) = Some e"
proof -
  note rd = read_attempts_total [OF S, of t]
  note last = last_row_facts [OF S rd rows]
  have k: "at_key (ar_attempt r) = (t, length (attempt_rows db t))"
    using read_row(4) [OF rd last(1)] last(2) r by simp
  have a: "ar_attempt r \<in> set (db_attempts db)" using read_row(1) [OF rd last(1)] r by simp
  then have "leased db (at_key (ar_attempt r))"
    using soundD(2) [OF S] by (simp add: attempts_settled_once_def)
  then obtain l where l: "l \<in> set (db_leases db)" "ls_key l = at_key (ar_attempt r)"
    by (elim imageE) (erule that, erule sym)
  then have "lookup ls_key (db_leases db) (at_key (ar_attempt r)) = Some l" by (simp add: lookup_lease [OF S])
  then have "ar_expires_at (join_attempt db (ar_attempt r)) = Some (ls_expires_at l)"
    by (simp add: join_attempt_def Let_def)
  then have ex: "ar_expires_at r = Some (ls_expires_at l)" using read_row(3) [OF rd last(1)] r by metis
  from timesD(1) [OF soundD(6) [OF S] a l] obtain i where "read_timestamp (ls_expires_at l) = Some i"
    by (rule apart_instants)
  with ex l k show ?thesis by (intro that [of l i]) (simp_all add: stored_instantD)
qed

lemma lease_live_iff:
  assumes S: "sound db" and l: "l \<in> set (db_leases db)" "ls_key l = k" "read_timestamp (ls_expires_at l) = Some e"
  shows "lease_live db k now \<longleftrightarrow> now < e"
proof -
  have "l' = l" if "l' \<in> set (db_leases db)" "ls_key l' = k" for l'
    by (rule distinct_key_eq [OF keysD(7) [OF soundD(1) [OF S]] that(1) l(1)]) (simp only: that(2) l(2))
  then show ?thesis unfolding lease_live_def using l by (metis option.inject)
qed

lemma status_spec_lemma:
  assumes S: "sound db"
  shows "\<exists>st. derive_status t (attempt_rows db t) now = Inr st \<and> ts_state st = state_spec db t now \<and>
    ts_used_attempts st = card {n. claimed db (t, n)} \<and>
    ts_remaining_attempts st = 2 - card {n. claimed db (t, n)}"
proof -
  let ?rows = "attempt_rows db t" and ?n = "length (attempt_rows db t)"
  note rd = read_attempts_total [OF S, of t]
  note C = claimed_numbers [OF S, of t]
  have used: "card {n. claimed db (t, n)} = ?n" using C by simp
  have n2: "?n \<le> 2" using sound_numbers [OF S, of t] ..
  have cl: "claimed db (t, m) \<longleftrightarrow> 1 \<le> m \<and> m \<le> ?n" for m using C by (auto simp: set_eq_iff)
  have fs: "failed db (t, m) \<Longrightarrow> 1 \<le> m \<and> m \<le> ?n" "succeeded db (t, m) \<Longrightarrow> 1 \<le> m \<and> m \<le> ?n" for m
    using settled_claimed [OF S, of "(t, m)"] cl by blast+
  have older: "failed db (t, m)" if "1 \<le> m" "m < ?n" for m
  proof -
    have "m = 1" "?n = 2" using that n2 by auto
    moreover have "claimed db (t, 2)" using cl [of 2] calculation by simp
    ultimately show ?thesis using numbersD(2) [OF S, of t 2] by simp
  qed
  show ?thesis
  proof (cases "?rows = []")
    case True
    have nf: "\<not> failed db (t, m)" "\<not> succeeded db (t, m)" for m using fs [of m] True by fastforce+
    have no: "\<not> open_attempt db (t, m)" for m using cl [of m] True by (simp add: open_attempt_def)
    have "state_spec db t now = Ready"
      unfolding state_spec_def by (simp only: nf no ex_simps simp_thms if_False)
    with True used show ?thesis
      by (simp add: derive_status_def last_row_def Let_def attempts_per_generation_def)
  next
    case False
    let ?r = "last ?rows"
    note last = last_row_facts [OF S rd False]
    have n1: "1 \<le> ?n" using False by (cases ?rows) simp_all
    have un: "ar_kind ?r = None \<longleftrightarrow> \<not> failed db (t, ?n)" "ar_success_id ?r = None \<longleftrightarrow> \<not> succeeded db (t, ?n)"
      using row_kind_None [OF rd last(1)] row_success_None [OF rd last(1)] last(2) by simp_all
    have suc: "(\<exists>m. succeeded db (t, m)) \<longleftrightarrow> succeeded db (t, ?n)"
    proof
      assume "\<exists>m. succeeded db (t, m)"
      then obtain m where m: "succeeded db (t, m)" ..
      have "\<not> m < ?n" using older [of m] fs(2) [OF m] settled_claimed(3) [OF S, of "(t, m)"] m by blast
      with fs(2) [OF m] m show "succeeded db (t, ?n)" by (simp add: not_less le_antisym)
    qed (rule exI)
    have opn: "open_attempt db (t, m) \<longleftrightarrow> m = ?n \<and> \<not> failed db (t, ?n) \<and> \<not> succeeded db (t, ?n)" for m
    proof
      assume "open_attempt db (t, m)"
      then have m: "claimed db (t, m)" "\<not> failed db (t, m)" "\<not> succeeded db (t, m)"
        unfolding open_attempt_def by blast+
      have "\<not> m < ?n" using older [of m] m(2) iffD1 [OF cl m(1)] by blast
      then have "m = ?n" using iffD1 [OF cl m(1)] by simp
      with m show "m = ?n \<and> \<not> failed db (t, ?n) \<and> \<not> succeeded db (t, ?n)" by simp
    next
      assume "m = ?n \<and> \<not> failed db (t, ?n) \<and> \<not> succeeded db (t, ?n)"
      then show "open_attempt db (t, m)" unfolding open_attempt_def using cl [of ?n] n1 by simp
    qed
    show ?thesis
    proof (cases "succeeded db (t, ?n)")
      case True
      then have "state_spec db t now = Succeeded" using suc by (auto simp: state_spec_def)
      with True un used False show ?thesis
        by (auto simp: derive_status_def last_row_def Let_def attempts_per_generation_def)
    next
      case ns: False
      show ?thesis
      proof (cases "failed db (t, ?n)")
        case True
        then obtain k where k: "ar_kind ?r = Some k" using un(1) by auto
        have "state_spec db t now = (if ?n = 2 then Failed else Retryable)"
        proof (cases "?n = 2")
          case True
          with \<open>failed db (t, ?n)\<close> older [of 1] have "failed db (t, 1)" "failed db (t, 2)" by simp_all
          with True suc ns opn \<open>failed db (t, ?n)\<close> show ?thesis by (simp add: state_spec_def)
        next
          case False
          with n1 n2 have n: "?n = 1" by simp
          then have "\<not> failed db (t, 2)" using fs(1) [of 2] by (metis numeral_le_one_iff semiring_norm(69))
          with n suc ns opn \<open>failed db (t, ?n)\<close> show ?thesis by (simp add: state_spec_def)
        qed
        with k ns un used False show ?thesis
          by (simp add: derive_status_def last_row_def Let_def attempts_per_generation_def)
      next
        case nf: False
        obtain l e where l: "l \<in> set (db_leases db)" "ls_key l = (t, ?n)"
            "stored_instant (ar_expires_at ?r) = Inr e" "read_timestamp (ls_expires_at l) = Some e"
          using stored_expiry [OF S False refl] by metis
        note live = lease_live_iff [OF S l(1,2,4)]
        have "state_spec db t now = (if now \<ge> e then Lease_Expired else Running)"
          unfolding state_spec_def opn using suc ns nf live by auto
        with derive_status_unsettled [OF False _ _ l(3), of t now] un ns nf used show ?thesis by simp
      qed
    qed
  qed
qed

end
