(* ===== verification/Task_Liveness.thy ===== *)
theory Task_Liveness
  imports Task_Progress
begin

text \<open>A claim succeeds whenever the history allows one: no hidden state can refuse it.\<close>

lemma receipt_read_fields:
  assumes "get_receipt_op i db = Inr x"
  obtains r t b where "receipt_row db i = Some (r, t, b)" "re_task_id r = rc_task_id x"
    "tk_budget_id t = rc_budget_id x" "tk_task_id t = rc_task_id x" "rc_receipt_id x = i"
proof -
  from assms obtain row where row: "receipt_row db i = Some row" "to_receipt row = Inr x"
    by (auto simp: get_receipt_op_def result_simps)
  obtain r t b where rtb: "row = (r, t, b)" by (cases row)
  with row have "re_task_id r = rc_task_id x" "tk_budget_id t = rc_budget_id x" "rc_receipt_id x = re_receipt_id r"
    by (auto simp: to_receipt_def split: if_splits)
  with row(1) rtb that [of r t b] receipt_rowD [of db i r t b] show ?thesis by simp
qed

text \<open>No failure of the task lies in the future of the clock.\<close>

definition past_failures :: "task_db \<Rightarrow> string \<Rightarrow> instant \<Rightarrow> bool" where
  "past_failures db t now \<longleftrightarrow>
     (\<forall>f \<in> set (db_failures db). fl_task_id f = t \<longrightarrow> apart 0 (fl_settled_at f) (timestamp now))"

lemma refuse_early_past:
  assumes S: "sound db" and P: "past_failures db t now" and V: "valid_instant now"
  shows "refuse_early (attempt_rows db t) now = Inr ()"
proof (cases "attempt_rows db t = []")
  case False
  let ?r = "last (attempt_rows db t)"
  note rd = read_attempts_total [OF S, of t]
  note last = last_row_facts [OF S rd False]
  show ?thesis
  proof (cases "ar_kind ?r = None")
    case True
    then have "ar_settled_at ?r = None"
      using read_row(3) [OF rd last(1)] by (metis (no_types, lifting) attempt_row.select_convs(3,5) join_attempt_def map_option_is_None)
    with False V show ?thesis by (simp add: refuse_early_def stored_instant_def read_timestamp_timestamp)
  next
    case settled: False
    then obtain f where f: "f \<in> set (db_failures db)" "fl_key f = (t, ar_no ?r)"
        "ar_settled_at ?r = Some (fl_settled_at f)"
      using row_settled [OF rd last(1)] by metis
    from P f(1,2) have "apart 0 (fl_settled_at f) (timestamp now)" by (simp add: past_failures_def)
    then obtain i where i: "read_timestamp (fl_settled_at f) = Some i" "i \<le> now"
      using V by (auto simp: apart_def read_timestamp_timestamp split: option.splits)
    with False f(3) V show ?thesis
      by (simp add: refuse_early_def stored_instant_def read_timestamp_timestamp)
  qed
qed (simp add: refuse_early_def)

lemma recover_expired:
  assumes S: "sound db" and un: "unsettled (attempt_rows db t)" and nw: "\<not> succeeded db (t, length (attempt_rows db t))"
    and st: "state_spec db t now \<noteq> Running" and V: "valid_instant now"
  shows "refuse_running (attempt_rows db t) now = Inr ()"
    "\<exists>db1. recover_attempt (last (attempt_rows db t)) now db = Inr db1"
proof -
  let ?rows = "attempt_rows db t" and ?n = "length (attempt_rows db t)"
  let ?r = "last ?rows"
  note rd = read_attempts_total [OF S, of t]
  have ne: "?rows \<noteq> []" and k: "ar_kind ?r = None" using un by (simp_all add: unsettled_def)
  note last = last_row_facts [OF S rd ne]
  have nf: "\<not> failed db (t, ?n)" using row_kind_None [OF rd last(1)] last(2) k by simp
  have cl: "claimed db (t, ?n)" using read_row(5) [OF rd last(1)] last(2) by simp
  have op: "open_attempt db (t, ?n)" unfolding open_attempt_def using cl nf nw by blast
  have "\<not> succeeded db (t, m)" for m
  proof
    assume m: "succeeded db (t, m)"
    then have "claimed db (t, m)" "\<not> failed db (t, m)" using settled_claimed [OF S, of "(t, m)"] by blast+
    moreover have "m = ?n"
    proof (rule ccontr)
      assume "m \<noteq> ?n"
      with calculation(1) claimed_numbers [OF S, of t] have "m < ?n" by (auto simp: set_eq_iff)
      then have "\<not> open_attempt db (t, m)" using superseded_closed [OF S cl] by simp
      with calculation m have False using \<open>m < ?n\<close> numbersD [OF S cl] numbersD(1) [OF S \<open>claimed db (t, m)\<close>] by auto
      then show False .
    qed
    ultimately show False using m nw by simp
  qed
  then have "\<not> lease_live db (t, ?n) now" using st op by (auto simp: state_spec_def split: if_splits)
  moreover obtain l e where l: "l \<in> set (db_leases db)" "ls_key l = (t, ?n)"
      "stored_instant (ar_expires_at ?r) = Inr e" "read_timestamp (ls_expires_at l) = Some e"
    using stored_expiry [OF S ne refl] by metis
  ultimately have e: "e \<le> now" using lease_live_iff [OF S l(1,2,4)] by simp
  then show "refuse_running ?rows now = Inr ()" using un l(3) by (simp add: refuse_running_def)
  have a: "ar_attempt ?r \<in> set (db_attempts db)" "at_key (ar_attempt ?r) = (t, ?n)"
    using read_row(1,4) [OF rd last(1)] last(2) by simp_all
  have "apart lease_span (at_claimed_at (ar_attempt ?r)) (ls_expires_at l)"
    using timesD(1) [OF soundD(6) [OF S] a(1) l(1)] a(2) l(2) by simp
  then obtain i where "read_timestamp (at_claimed_at (ar_attempt ?r)) = Some i" "i + lease_span \<le> e"
    using l(4) by (auto elim: apart_instants)
  then have "require_attempt_time ?r now = Inr ()"
    using e by (simp add: require_attempt_time_def stored_instant_def lease_span_def lease_seconds_def)
  moreover have "at_task_id (ar_attempt ?r) = t" "ar_no ?r = ?n" using a(2) last(2) by simp_all
  ultimately show "\<exists>db1. recover_attempt ?r now db = Inr db1"
    using nf cl by (simp add: recover_attempt_def insert_failure_def enforce_def key_free_image)
qed

lemma claim_progress_lemma:
  assumes S: "sound db" and R: "get_receipt_op (rc_receipt_id r) db = Inr r"
    and prep: "claim_prepare env r fp = Inr basis" and cur: "ce_current env = Inr basis"
    and clock: "ce_clock_in_txn env = Utc now" "valid_instant now" "lease_expiry now = Inr expires"
    and pre: "ce_preclaim env = None" and nw: "\<not> won db (rc_budget_id r)"
    and st: "state_spec db (rc_task_id r) now \<in> {Ready, Retryable, Lease_Expired}"
    and few: "card {n. claimed db (rc_task_id r, n)} < 2"
    and past: "past_failures db (rc_task_id r) now"
    and fresh: "digest (sy_sha sys) (ce_credential env) \<notin> at_credential ` set (db_attempts db)"
      "digest (sy_sha sys) (ce_renewal env) \<notin> at_renewal ` set (db_attempts db)"
  shows "\<exists>c db'. claim_op sys env r fp db = (Inr c, db') \<and>
    cl_attempt_no c = card {n. claimed db (rc_task_id r, n)} + 1"
proof -
  let ?t = "rc_task_id r" and ?rows = "attempt_rows db (rc_task_id r)"
  let ?n = "length ?rows"
  note rd = read_attempts_total [OF S, of ?t]
  note C = claimed_numbers [OF S, of ?t]
  have n: "card {n. claimed db (?t, n)} = ?n" "?n < 2" using C few by simp_all
  from R obtain q t b where row: "receipt_row db (rc_receipt_id r) = Some (q, t, b)" "re_task_id q = ?t"
      "tk_budget_id t = rc_budget_id r" "tk_task_id t = ?t"
    by (rule receipt_read_fields)
  note rowD = receipt_rowD [OF row(1)]
  have ob: "on_budget db ?t (rc_budget_id r)" unfolding on_budget_def using rowD(3) row(3,4) by blast
  have ns: "\<not> succeeded db (?t, m)" for m using succeeded_won [OF S _ ob] nw by blast
  have rec: "refuse_running ?rows now = Inr () \<and> (\<exists>db1. recover_if_unsettled ?rows now db = Inr db1)"
  proof (cases "unsettled ?rows")
    case True
    have "state_spec db ?t now \<noteq> Running" using st by auto
    from recover_expired [OF S True ns this clock(2)] True show ?thesis
      by (simp add: recover_if_unsettled_def)
  qed (simp add: refuse_running_def recover_if_unsettled_def)
  then obtain db1 where rec1: "recover_if_unsettled ?rows now db = Inr db1" by blast
  have run: "refuse_running ?rows now = Inr ()" using rec ..
  note K = claim_recovery [OF S ob clock(2) rd nw run rec1]
  have S1: "sound db1" by (rule steps_sound [OF K(1) S])
  have E: "extends db db1" by (rule steps_extends [OF K(1)])
  let ?a = "new_attempt sys env r basis (?n + 1) now"
  have a: "at_key ?a = (?t, ?n + 1)" "at_receipt_id ?a = rc_receipt_id r" "at_task_id ?a = ?t"
      "at_attempt_no ?a = ?n + 1"
      "at_credential ?a = digest (sy_sha sys) (ce_credential env)" "at_renewal ?a = digest (sy_sha sys) (ce_renewal env)"
    by (simp_all add: new_attempt_def)
  have new: "\<not> claimed db (?t, ?n + 1)" using C by (auto simp: set_eq_iff)
  have tk: "?t \<in> tk_task_id ` set (db_tasks db1)"
    using rowD(3) row(4) extendsD(2) [OF E] by (metis imageI subsetD)
  have rq: "rc_receipt_id r \<in> re_receipt_id ` set (db_requests db1)"
    using rowD(1,2) E unfolding extends_def by (metis imageI subsetD)
  let ?dbx = "db1\<lparr>db_attempts := db_attempts db1 @ [?a]\<rparr>"
  have no: "?n + 1 \<in> {1, 2}"
  proof -
    from n(2) consider "?n = 0" | "?n = 1" by linarith
    then show ?thesis by cases simp_all
  qed
  have ia: "insert_attempt ?a db1 = Inr ?dbx"
    unfolding insert_attempt_def enforce_def key_free_image a K(2) using new fresh tk rq no by simp
  have "\<not> leased db1 (?t, ?n + 1)"
    using soundD(2) [OF S] new K(3) unfolding attempts_settled_once_def by metis
  moreover have "(?t, ?n + 1) \<in> at_key ` set (db_attempts ?dbx)" using a(1) by simp
  ultimately obtain db2 where
    il: "insert_lease \<lparr>ls_task_id = ?t, ls_attempt_no = ?n + 1, ls_expires_at = timestamp expires\<rparr> ?dbx = Inr db2"
    by (simp add: insert_lease_def enforce_def key_free_image)
  have "insert_claimed sys env r basis ?rows now expires db1 = Inr db2"
    using refuse_early_past [OF S past clock(2)] ia il by (simp add: insert_claimed_def)
  then have "claim_body sys env r basis db = Inr ((?n + 1, now, expires), db2)"
    using row cur rd clock nw run rec1 pre n(2)
    by (simp add: claim_body_def settled_on_budget_won attempts_per_generation_def)
  with prep n show ?thesis by (simp add: claim_op_def commit_def attempts_per_generation_def)
qed

end
