(* ===== verification/Task_Samples.thy ===== *)
theory Task_Samples
  imports Task_Liveness
begin

text \<open>A concrete history, reached by the services themselves: a manual boundary request is
  registered, its receipt read, an attempt claimed, failed and claimed again.\<close>

definition sample_sha :: "nat list \<Rightarrow> string" where
  "sample_sha bs =
     (let digit = (\<lambda>n. ''0123456789abcdef'' ! (n mod 16)); n = foldr (+) bs 0 in
      replicate 61 (CHR ''0'') @ [digit (n div 256), digit (n div 16), digit n])"

definition sample_sys :: system where
  "sample_sys = \<lparr>sy_sha = sample_sha, sy_nd = (\<lambda>c. 48 \<le> c \<and> c \<le> 57)\<rparr>"

definition sample_basis :: basis where
  "sample_basis = \<lparr>bs_version_id = ''v'', bs_revision_no = 1, bs_selection_id = None\<rparr>"

definition sample_input :: stage_input where
  "sample_input = \<lparr>si_fingerprint = ''f'', si_payload = [1, 2], si_stage = Stage_Boundary\<rparr>"

definition sample_mapping :: screening_mapping where
  "sample_mapping =
     \<lparr>mp_boundary = \<lparr>sm_value = Some sample_input, sm_reason = None, sm_evidence = Some sample_basis\<rparr>,
      mp_value = \<lparr>sm_value = None, sm_reason = Some Missing_Abstract, sm_evidence = None\<rparr>\<rparr>"

definition sample_request :: request where
  "sample_request = \<lparr>rq_paper_id = ''p'', rq_snapshot_id = ''c'', rq_stage = Stage_Boundary,
     rq_source = Manual, rq_scheduled_day = None, rq_request_id = Some (ascii ''r''),
     rq_reason = Some (ascii ''why''), rq_actor = Some (ascii ''who''), rq_language = None,
     rq_parent = None\<rparr>"

definition sample_register_env :: register_env where
  "sample_register_env = \<lparr>rg_mapping = sample_mapping, rg_context_ok = True,
     rg_current = Inr sample_basis, rg_snapshot_known = True, rg_new_budget = ''b'',
     rg_new_task = ''t''\<rparr>"

definition sample_now :: instant where "sample_now = 63000000000000000"

definition sample_credential :: "nat \<Rightarrow> string" where
  "sample_credential n = replicate n (CHR ''1'') @ replicate (64 - n) (CHR ''0'')"

definition sample_claim_env :: "nat \<Rightarrow> instant \<Rightarrow> claim_env" where
  "sample_claim_env n now = \<lparr>ce_clock = Utc now, ce_clock_in_txn = Utc now,
     ce_mapping = sample_mapping, ce_current = Inr sample_basis,
     ce_credential = sample_credential n, ce_renewal = sample_credential n, ce_preclaim = None\<rparr>"

definition sample_rid :: string where
  "sample_rid = receipt_id sample_sha sample_request sample_basis ''f''"

definition sample_budget :: budget_rec where
  "sample_budget = \<lparr>bg_budget_id = ''b'', bg_paper_id = ''p'', bg_stage = Stage_Boundary,
     bg_fingerprint = ''f'', bg_snapshot_id = ''c'', bg_basis = sample_basis, bg_language = None\<rparr>"

definition sample_task :: task_rec where
  "sample_task = \<lparr>tk_task_id = ''t'', tk_budget_id = ''b'', tk_generation = 0, tk_parent = None\<rparr>"

definition sample_row :: request_rec where
  "sample_row = new_request sample_sha sample_request sample_rid ''t'' sample_basis None"

definition sample_db1 :: task_db where
  "sample_db1 = empty_db
     \<lparr>db_inputs := [\<lparr>in_fingerprint = ''f'', in_stage = Stage_Boundary, in_payload = [1, 2],
        in_format_version = 1\<rparr>],
      db_budgets := [sample_budget], db_tasks := [sample_task], db_requests := [sample_row]\<rparr>"

definition sample_receipt :: receipt where
  "sample_receipt = \<lparr>rc_receipt_id = sample_rid, rc_task_id = ''t'', rc_budget_id = ''b'',
     rc_paper_id = ''p'', rc_stage = Stage_Boundary, rc_fingerprint = ''f'', rc_generation = 0,
     rc_source = Manual, rc_basis = sample_basis, rc_snapshot_id = ''c'', rc_scheduled_day = None,
     rc_cached_success_id = None\<rparr>"

lemmas sample_defs = sample_basis_def sample_input_def sample_mapping_def sample_request_def
  sample_register_env_def sample_budget_def sample_task_def sample_row_def sample_receipt_def
  sample_claim_env_def

lemma valid_sample: "valid_instant sample_now" by code_simp

lemma sample_hex: "hex64 sample_rid" by code_simp

lemma sample_receipt_row: "receipt_row sample_db1 sample_rid = Some (sample_row, sample_task, sample_budget)"
  by (simp add: receipt_row_def lookup_def sample_db1_def sample_defs new_request_def)

lemma sample_to_receipt: "to_receipt (sample_row, sample_task, sample_budget) = Inr sample_receipt"
  by (simp add: to_receipt_def sample_defs new_request_def)

lemma sample_register:
  "register_body sample_sha sample_register_env sample_request sample_input sample_basis empty_db =
     Inr (sample_receipt, sample_db1)"
proof -
  let ?dA = "empty_db\<lparr>db_inputs := [\<lparr>in_fingerprint = ''f'', in_stage = Stage_Boundary,
    in_payload = [1, 2], in_format_version = 1\<rparr>]\<rparr>"
  let ?dB = "?dA\<lparr>db_budgets := [sample_budget], db_tasks := [sample_task]\<rparr>"
  have replay: "replay_request sample_sha empty_db sample_request = Inr None"
    by (simp add: replay_request_def empty_db_def)
  have none: "receipt_row empty_db i = None" for i by (simp add: receipt_row_def empty_db_def)
  have input: "ensure_input sample_input Stage_Boundary empty_db = Inr ?dA"
    by (simp add: ensure_input_def insert_input_def enforce_def key_free_def empty_db_def sample_input_def)
  have budget: "ensure_budget sample_request sample_input sample_basis ''b'' ''t'' ?dA = Inr ((''b'', ''t''), ?dB)"
    by (simp add: ensure_budget_def insert_budget_def insert_task_def enforce_def key_free_def empty_db_def
        lookup_def free_opt_def request_language_def sample_defs)
  have "insert_request sample_row ?dB = Inr sample_db1"
    by (simp add: insert_request_def enforce_def key_free_def empty_db_def free_opt_def request_shape_def
        sample_db1_def sample_defs new_request_def)
  then have read: "insert_and_read sample_row ?dB = Inr (sample_receipt, sample_db1)"
    using sample_receipt_row sample_to_receipt
    by (simp add: insert_and_read_def sample_row_def new_request_def)
  have cached: "cached_success ?dB ''b'' = None" by (simp add: cached_success_def empty_db_def)
  have id: "receipt_id sample_sha sample_request sample_basis (si_fingerprint sample_input) = sample_rid"
    by (simp add: sample_rid_def sample_input_def)
  have st: "rq_stage sample_request = Stage_Boundary" by (simp add: sample_request_def)
  have "register_request sample_sha sample_request sample_input sample_basis ''b'' ''t'' empty_db =
      Inr (sample_receipt, sample_db1)"
    using replay none input budget read cached id st
    by (simp add: register_request_def Let_def sample_row_def)
  with replay show ?thesis
    by (simp add: register_body_def sample_register_env_def)
qed

section \<open>Two attempts\<close>

definition later :: "int \<Rightarrow> instant" where
  "later s = sample_now + s * 1000000"

lemma later_valid: "0 \<le> s \<Longrightarrow> s \<le> 1000000 \<Longrightarrow> valid_instant (later s)"
  by (simp add: later_def sample_now_def valid_instant_def max_instant_def us_per_day_def)

lemma later_expiry: "0 \<le> s \<Longrightarrow> s \<le> 1000000 \<Longrightarrow> lease_expiry (later s) = Inr (later (s + 600))"
  by (simp add: later_def sample_now_def lease_expiry_def lease_span_def lease_seconds_def max_instant_def
      us_per_day_def)

lemma later_stored [simp]: "0 \<le> s \<Longrightarrow> s \<le> 1000000 \<Longrightarrow>
    stored_instant (Some (timestamp (later s))) = Inr (later s)"
  by (simp add: stored_instant_def read_timestamp_timestamp later_valid)

definition sample_digest :: "nat \<Rightarrow> string" where
  "sample_digest n = digest sample_sha (sample_credential n)"

definition sample_attempt :: "nat \<Rightarrow> int \<Rightarrow> attempt_rec" where
  "sample_attempt n s = \<lparr>at_task_id = ''t'', at_attempt_no = n, at_receipt_id = sample_rid,
     at_basis = sample_basis, at_claimed_at = timestamp (later s),
     at_credential = sample_digest n, at_renewal = sample_digest n\<rparr>"

definition sample_lease :: "nat \<Rightarrow> int \<Rightarrow> lease_rec" where
  "sample_lease n s = \<lparr>ls_task_id = ''t'', ls_attempt_no = n, ls_expires_at = timestamp (later (s + 600))\<rparr>"

definition sample_claim :: "nat \<Rightarrow> int \<Rightarrow> claim" where
  "sample_claim n s = \<lparr>cl_task_id = ''t'', cl_attempt_no = n, cl_receipt_id = sample_rid,
     cl_claimed_at = later s, cl_expires_at = later (s + 600), cl_basis = sample_basis,
     cl_credential = sample_credential n, cl_renewal_handle = sample_credential n\<rparr>"

definition sample_db2 :: task_db where
  "sample_db2 = sample_db1\<lparr>db_attempts := [sample_attempt 1 0], db_leases := [sample_lease 1 0]\<rparr>"

lemma sample_prepare: "0 \<le> s \<Longrightarrow> s \<le> 1000000 \<Longrightarrow>
    claim_prepare (sample_claim_env n (later s)) sample_receipt ''f'' = Inr sample_basis"
  by (simp add: claim_prepare_def sample_claim_env_def sample_receipt_def require_stage_mapping_def Let_def
      stage_mapping_of_def sample_mapping_def sample_input_def later_expiry)

lemma sample_rows1: "attempt_rows sample_db1 ''t'' = []"
  by (simp add: attempt_rows_def sample_db1_def empty_db_def)

lemma sample_row_fields: "re_task_id sample_row = ''t''" "re_receipt_id sample_row = sample_rid"
  by (simp_all add: sample_row_def new_request_def)

lemma sample_new_attempt:
  "new_attempt sample_sys (sample_claim_env n (later s)) sample_receipt sample_basis n (later s) = sample_attempt n s"
  by (simp add: new_attempt_def sample_attempt_def sample_claim_env_def sample_receipt_def sample_digest_def
      sample_sys_def)

lemma sample_claim1:
  "claim_op sample_sys (sample_claim_env 1 (later 0)) sample_receipt ''f'' sample_db1 =
     (Inr (sample_claim 1 0), sample_db2)"
proof -
  have read: "read_attempts sample_db1 ''t'' = Inr []"
    by (simp add: read_attempts_def sample_rows1 consistent_rows_def)
  have attempt: "insert_attempt (sample_attempt 1 0) sample_db1 =
      Inr (sample_db1\<lparr>db_attempts := [sample_attempt 1 0]\<rparr>)"
    by (simp add: insert_attempt_def enforce_def key_free_def sample_db1_def empty_db_def sample_attempt_def
        sample_row_fields sample_task_def)
  have lease: "insert_lease (sample_lease 1 0) (sample_db1\<lparr>db_attempts := [sample_attempt 1 0]\<rparr>) = Inr sample_db2"
    by (simp add: insert_lease_def enforce_def key_free_def sample_db1_def sample_db2_def empty_db_def
        sample_attempt_def sample_lease_def)
  have ins: "insert_claimed sample_sys (sample_claim_env 1 (later 0)) sample_receipt sample_basis [] (later 0)
      (later 600) sample_db1 = Inr sample_db2"
    using attempt lease sample_new_attempt [of 1 0]
    by (simp add: insert_claimed_def refuse_early_def sample_receipt_def sample_lease_def)
  have "claim_body sample_sys (sample_claim_env 1 (later 0)) sample_receipt sample_basis sample_db1 =
      Inr ((1, later 0, later 600), sample_db2)"
    using read ins sample_receipt_row later_expiry [of 0]
    by (simp add: claim_body_def sample_row_fields sample_receipt_def sample_claim_env_def
        settled_on_budget_def key_free_def sample_db1_def empty_db_def refuse_running_def unsettled_def
        recover_if_unsettled_def attempts_per_generation_def)
  then show ?thesis
    using sample_prepare [of 0 1]
    by (simp add: claim_op_def commit_def attempts_per_generation_def sample_claim_def sample_receipt_def
        sample_claim_env_def)
qed

section \<open>The worlds\<close>

definition sample_world :: "task_db \<Rightarrow> (claim \<times> candidate \<times> plan) list \<Rightarrow> world" where
  "sample_world db plans = \<lparr>w_db = db, w_receipts = [sample_receipt], w_plans = plans\<rparr>"

lemma sample_world_simps [simp]:
  "w_db (sample_world db ps) = db" "w_receipts (sample_world db ps) = [sample_receipt]"
  "w_plans (sample_world db ps) = ps" "sample_world db ps\<lparr>w_db := db'\<rparr> = sample_world db' ps"
  "sample_world db ps\<lparr>w_plans := ps'\<rparr> = sample_world db ps'"
  by (simp_all add: sample_world_def)

lemma sample_read: "get_receipt_op sample_rid sample_db1 = Inr sample_receipt"
  using sample_hex sample_receipt_row sample_to_receipt by (simp add: get_receipt_op_def)

lemma reachable1: "reachable sample_sys (sample_world sample_db1 [])"
proof -
  have "transition sample_sys initial_world (initial_world\<lparr>w_db := sample_db1\<rparr>)"
    by (rule transition.register [where renv = sample_register_env and q = sample_request
          and input = sample_input and b = sample_basis and out = "Inr sample_receipt"])
      (simp add: commit_def sample_sys_def sample_register initial_world_def)
  then have 1: "reachable sample_sys (initial_world\<lparr>w_db := sample_db1\<rparr>)"
    by (rule reachable.step [OF reachable.initial])
  moreover have "transition sample_sys (initial_world\<lparr>w_db := sample_db1\<rparr>) (sample_world sample_db1 [])"
    using transition.read_receipt [of sample_rid "initial_world\<lparr>w_db := sample_db1\<rparr>" sample_receipt sample_sys]
      sample_read by (simp add: initial_world_def sample_world_def)
  ultimately show ?thesis by (rule reachable.step)
qed

lemma sample_clock: "0 \<le> s \<Longrightarrow> s \<le> 1000000 \<Longrightarrow> good_clock (Utc (later s))"
  by (simp add: good_clock_def later_valid)

lemma reachable2: "reachable sample_sys (sample_world sample_db2 [])"
proof (rule reachable.step [OF reachable1])
  show "transition sample_sys (sample_world sample_db1 []) (sample_world sample_db2 [])"
    using transition.claim [of sample_receipt "sample_world sample_db1 []" "sample_claim_env 1 (later 0)"
        sample_sys "''f''" "Inr (sample_claim 1 0)" sample_db2]
      sample_claim1 sample_clock [of 0] by (simp add: sample_claim_env_def)
qed

lemma sample_rows2: "attempt_rows sample_db2 ''t'' =
    [\<lparr>ar_attempt = sample_attempt 1 0, ar_expires_at = Some (timestamp (later 600)), ar_kind = None,
      ar_origin = None, ar_settled_at = None, ar_issues_json = None, ar_success_id = None\<rparr>]"
  by (simp add: attempt_rows_def join_attempt_def lookup_def sample_db2_def sample_db1_def empty_db_def
      sample_attempt_def sample_lease_def)

lemma sample_sound2: "sound sample_db2"
  using reachable_sound [OF reachable2] by simp

lemma sample_credential_hex: "hex64 (sample_credential 1)" "hex64 (sample_credential 2)"
  by code_simp+

definition failed_rec :: failure_rec where
  "failed_rec = plain_failure (sample_claim 1 0) Timeout By_Executor (later 1)"

definition sample_db3 :: task_db where
  "sample_db3 = sample_db2\<lparr>db_failures := [failed_rec]\<rparr>"

definition sample_failure_receipt :: failure_receipt where
  "sample_failure_receipt = \<lparr>fr_task_id = ''t'', fr_attempt_no = 1, fr_kind = Timeout, fr_origin = By_Executor,
     fr_settled_at = later 1, fr_issues = []\<rparr>"

lemma sample_credential2: "credential_attempt sample_sha sample_db2 (sample_claim 1 0) =
    Inr (hd (attempt_rows sample_db2 ''t''), True)"
  using sample_credential_hex
  by (simp add: credential_attempt_def require_secret_def read_attempts_total [OF sample_sound2] sample_rows2
      sample_claim_def sample_attempt_def sample_digest_def)

lemma later_le: "later a \<le> later b \<longleftrightarrow> a \<le> b" "later a < later b \<longleftrightarrow> a < b"
  by (simp_all add: later_def)

lemma sample_fail: "fail_op sample_sys (Utc (later 1)) (sample_claim 1 0) Timeout By_Executor sample_db2 =
    (Inr sample_failure_receipt, sample_db3)"
proof -
  have "insert_failure failed_rec sample_db2 = Inr sample_db3"
    by (simp add: insert_failure_def enforce_def key_free_def sample_db3_def sample_db2_def sample_db1_def
        empty_db_def failed_rec_def plain_failure_def sample_claim_def sample_attempt_def)
  then have "fail_body sample_sys (Utc (later 1)) (sample_claim 1 0) Timeout By_Executor sample_db2 =
      Inr (sample_failure_receipt, sample_db3)"
    using sample_credential2
    by (simp add: fail_body_def sample_sys_def sample_rows2 require_attempt_time_def sample_attempt_def later_le
        failed_rec_def sample_failure_receipt_def sample_claim_def)
  then show ?thesis using sample_credential_hex
    by (simp add: fail_op_def require_secret_def commit_def is_executor_failure_def executor_failures_def
        sample_claim_def)
qed

lemma reachable3: "reachable sample_sys (sample_world sample_db3 [])"
proof (rule reachable.step [OF reachable2])
  show "transition sample_sys (sample_world sample_db2 []) (sample_world sample_db3 [])"
    using transition.fail [of "Utc (later 1)" By_Executor Timeout sample_sys "sample_claim 1 0"
        "sample_world sample_db2 []" "Inr sample_failure_receipt" sample_db3]
      sample_fail sample_clock [of 1] by (simp add: legal_origin_def)
qed

section \<open>A recovered attempt\<close>

definition recovered_rec :: failure_rec where
  "recovered_rec = \<lparr>fl_task_id = ''t'', fl_attempt_no = 1, fl_issues_json = None, fl_submission = None,
     fl_audit_json = None, fl_kind = Outcome_Unknown, fl_origin = By_Recovery,
     fl_settled_at = timestamp (later 600)\<rparr>"

definition sample_db4 :: task_db where
  "sample_db4 = sample_db2\<lparr>db_failures := [recovered_rec]\<rparr>"

definition sample_status :: task_status where
  "sample_status = \<lparr>ts_task_id = ''t'', ts_state = Retryable, ts_used_attempts = 1,
     ts_remaining_attempts = 1, ts_last_failure = Some Outcome_Unknown\<rparr>"

lemma sample_recovery: "insert_failure recovered_rec sample_db2 = Inr sample_db4"
  by (simp add: insert_failure_def enforce_def key_free_def sample_db4_def sample_db2_def sample_db1_def
      empty_db_def recovered_rec_def sample_attempt_def)

lemma sample_reclaim: "reclaim_op (Utc (later 600)) sample_receipt sample_db2 = (Inr sample_status, sample_db4)"
proof -
  have "fact_step sample_db2 sample_db4"
    by (rule settle_failure [OF sample_recovery])
      (simp_all add: open_attempt_def authority_ok_def failure_timely_def recovered_rec_def sample_db2_def
        sample_db1_def empty_db_def sample_attempt_def sample_lease_def apart_timestamp later_valid later_le)
  then have S4: "sound sample_db4" using sample_sound2 by (rule step_sound)
  have rows: "attempt_rows sample_db4 ''t'' =
    [\<lparr>ar_attempt = sample_attempt 1 0, ar_expires_at = Some (timestamp (later 600)), ar_kind = Some Outcome_Unknown,
      ar_origin = Some By_Recovery, ar_settled_at = Some (timestamp (later 600)), ar_issues_json = None,
      ar_success_id = None\<rparr>]"
    by (simp add: attempt_rows_def join_attempt_def lookup_def sample_db4_def sample_db2_def sample_db1_def empty_db_def
      sample_attempt_def sample_lease_def recovered_rec_def)
  have "recover_attempt (hd (attempt_rows sample_db2 ''t'')) (later 600) sample_db2 = Inr sample_db4"
    using sample_recovery
    by (simp add: recover_attempt_def require_attempt_time_def sample_rows2 sample_attempt_def later_le recovered_rec_def)
  then show ?thesis
    by (simp add: reclaim_op_def commit_def reclaim_body_def read_attempts_total [OF sample_sound2]
        read_attempts_total [OF S4] rows sample_rows2 unsettled_def sample_receipt_def derive_status_def
        last_row_def Let_def attempts_per_generation_def sample_status_def)
qed

lemma reachable4: "reachable sample_sys (sample_world sample_db4 [])"
proof (rule reachable.step [OF reachable2])
  show "transition sample_sys (sample_world sample_db2 []) (sample_world sample_db4 [])"
    using transition.reclaim [of sample_receipt "sample_world sample_db2 []" "Utc (later 600)"
        "Inr sample_status" sample_db4 sample_sys]
      sample_reclaim sample_clock [of 600] by simp
qed

section \<open>A submission from the wrong model\<close>

definition sample_candidate :: candidate where
  "sample_candidate = \<lparr>cd_raw = [123, 125], cd_kind = Test_Executor, cd_provider = Some (ascii ''x''),
     cd_model = None, cd_request_id = None, cd_input_tokens = None, cd_output_tokens = None,
     cd_execution = None\<rparr>"

definition sample_candidate_env :: candidate_env where
  "sample_candidate_env = \<lparr>cv_pi_audit = (\<lambda>_. None), cv_pi_legacy = (\<lambda>_. None), cv_pi_execution = (\<lambda>_. None),
     cv_reference_ok = (\<lambda>_ _ _. True), cv_replay = (\<lambda>_ _ _. Some sample_input),
     cv_model = (\<lambda>_. Some (ascii ''provider'', ascii ''model'')), cv_context = (\<lambda>_ _ _. None),
     cv_publish = None, cv_output = undefined\<rparr>"

definition sample_audit :: pystr where
  "sample_audit = dumps (JObj (audit_members sample_candidate))"

definition sample_submission :: string where
  "sample_submission = sample_sha (canonical_bytes (JObj [(ascii ''raw_sha256'', JStr (ascii (sample_sha [123, 125]))),
     (ascii ''audit'', sorted_members (JObj (audit_members sample_candidate)))]))"

lemmas audit_defs = audit_members_def sample_candidate_def ascii_def json_of_text_def json_of_int_def

lemma sample_audit_canonical: "canonical (JObj (audit_members sample_candidate)) = Some sample_audit"
  by (simp add: canonical_def audit_defs sample_audit_def print_string_def escape_char_def encodable_def
      high_surrogate_def low_surrogate_def)

lemma sample_candidate_audit: "candidate_audit sample_candidate_env sample_candidate = Inr sample_audit"
proof -
  have "bounded_text (ascii ''x'')"
    by (simp add: bounded_text_def strip_def ascii_def white_space_def utf8_encode_def encodable_def
        high_surrogate_def low_surrogate_def encode_char_def)
  then have "candidate_fields_ok sample_candidate"
    by (simp add: candidate_fields_ok_def sample_candidate_def)
  moreover have "audit_value sample_candidate_env sample_candidate = Some (JObj (audit_members sample_candidate))"
    by (simp add: audit_value_def sample_candidate_def)
  ultimately show ?thesis using sample_audit_canonical by (simp add: candidate_audit_def)
qed

lemma sample_submission_digest: "submission_digest sample_sha [123, 125] sample_audit = Inr sample_submission"
proof -
  have "plain_json (JObj (audit_members sample_candidate))" by (simp add: audit_defs)
  from canonical_loads [OF sample_audit_canonical this] show ?thesis
    by (simp add: submission_digest_def sample_submission_def)
qed

definition sample_plan :: plan where
  "sample_plan = \<lparr>pl_submission = sample_submission, pl_audit = sample_audit, pl_budget = ''b'',
     pl_verdict = Reject Model_Mismatch []\<rparr>"

definition sample_frozen :: frozen_input where
  "sample_frozen = \<lparr>fz_fingerprint = ''f'', fz_stage_input = sample_input, fz_snapshot_id = ''c'', fz_language = None\<rparr>"

lemma sample_candidate_raw [simp]: "cd_raw sample_candidate = [123, 125]"
  by (simp add: sample_candidate_def)

lemma sample_precheck: "precheck sample_sys sample_candidate_env sample_db2 (sample_claim 1 0) sample_submission =
    Inr (hd (attempt_rows sample_db2 ''t''), None)"
  using sample_credential2 by (simp add: precheck_def sample_sys_def sample_rows2)

lemma sample_submit_plan:
  "submit_plan sample_sys sample_candidate_env (sample_claim 1 0) sample_candidate sample_db2 = Inr (Inr sample_plan)"
proof -
  have row: "receipt_row sample_db2 sample_rid = Some (sample_row, sample_task, sample_budget)"
    using sample_receipt_row by (simp add: receipt_row_def sample_db2_def)
  have frozen: "load_frozen sample_candidate_env sample_db2 sample_budget = Inr sample_frozen"
    by (simp add: load_frozen_def lookup_def sample_db2_def sample_db1_def empty_db_def sample_budget_def
        sample_candidate_env_def sample_input_def sample_frozen_def)
  have "submit_read sample_sys sample_candidate_env (sample_claim 1 0) sample_candidate sample_submission sample_db2 =
      Inr (Inr (sample_budget, sample_frozen))"
    using sample_precheck row frozen
    by (simp add: submit_read_def check_reference_def sample_candidate_def sample_rows2 sample_attempt_def)
  moreover have "judge sample_sys sample_candidate_env sample_candidate (sample_budget, sample_frozen) =
      Inr (Reject Model_Mismatch [])"
    by (simp add: judge_def model_matches_def sample_candidate_env_def sample_candidate_def sample_frozen_def ascii_def)
  ultimately show ?thesis
    using sample_credential_hex sample_candidate_audit sample_submission_digest
    by (simp add: submit_plan_def require_secret_def sample_claim_def sample_sys_def sample_plan_def
        sample_budget_def)
qed

definition mismatch_rec :: failure_rec where
  "mismatch_rec = submitted_failure (sample_claim 1 0) sample_plan Model_Mismatch None (later 1)"

definition sample_db5 :: task_db where
  "sample_db5 = sample_db2\<lparr>db_failures := [mismatch_rec]\<rparr>"

definition sample_settlement :: settlement where
  "sample_settlement = Settled_Failure \<lparr>fr_task_id = ''t'', fr_attempt_no = 1, fr_kind = Model_Mismatch,
     fr_origin = By_Executor, fr_settled_at = later 1, fr_issues = []\<rparr>"

lemma sample_submit:
  "submit_op sample_sys sample_candidate_env (Utc (later 1)) [] (sample_claim 1 0) sample_candidate sample_db2 sample_db2 =
     (Inr sample_settlement, sample_db5)"
proof -
  have ins: "insert_failure mismatch_rec sample_db2 = Inr sample_db5"
    by (simp add: insert_failure_def enforce_def key_free_def sample_db5_def sample_db2_def sample_db1_def
        empty_db_def mismatch_rec_def submitted_failure_def sample_claim_def sample_attempt_def)
  have "settle_body sample_sys sample_candidate_env (Utc (later 1)) [] (sample_claim 1 0) sample_candidate
      sample_plan sample_db2 = Inr (sample_settlement, sample_db5)"
    using sample_precheck ins
    by (simp add: settle_body_def sample_plan_def check_reference_def sample_candidate_def require_attempt_time_def
        sample_rows2 sample_attempt_def later_le encode_issues_def mismatch_rec_def sample_settlement_def
        sample_claim_def)
  then show ?thesis using sample_submit_plan by (simp add: submit_op_def commit_def)
qed

end
