(* ===== verification/Task_Samples_Retry.thy ===== *)
theory Task_Samples_Retry
  imports Task_Samples
begin

text \<open>The history continued: a second claim, its failure, and the retry of the failed task.\<close>

section \<open>The second attempt\<close>

definition sample_db6 :: task_db where
  "sample_db6 = sample_db3
     \<lparr>db_attempts := [sample_attempt 1 0, sample_attempt 2 2], db_leases := [sample_lease 1 0, sample_lease 2 2]\<rparr>"

lemmas sample_dbs = sample_db6_def sample_db3_def sample_db2_def sample_db1_def empty_db_def

lemma sample_sound3: "sound sample_db3"
  using reachable_sound [OF reachable3] by simp

lemma failed_rec_fields: "fl_task_id failed_rec = ''t''" "fl_attempt_no failed_rec = 1"
  "fl_kind failed_rec = Timeout" "fl_origin failed_rec = By_Executor"
  "fl_settled_at failed_rec = timestamp (later 1)" "fl_issues_json failed_rec = None"
  by (simp_all add: failed_rec_def plain_failure_def sample_claim_def)

lemma sample_rows3: "attempt_rows sample_db3 ''t'' =
    [\<lparr>ar_attempt = sample_attempt 1 0, ar_expires_at = Some (timestamp (later 600)), ar_kind = Some Timeout,
      ar_origin = Some By_Executor, ar_settled_at = Some (timestamp (later 1)), ar_issues_json = None,
      ar_success_id = None\<rparr>]"
  by (simp add: attempt_rows_def join_attempt_def lookup_def sample_dbs sample_attempt_def sample_lease_def
      failed_rec_fields)

lemma sample_digests: "sample_digest 1 \<noteq> sample_digest 2"
  by code_simp

lemma sample_claim2:
  "claim_op sample_sys (sample_claim_env 2 (later 2)) sample_receipt ''f'' sample_db3 =
     (Inr (sample_claim 2 2), sample_db6)"
proof -
  have attempt: "insert_attempt (sample_attempt 2 2) sample_db3 =
      Inr (sample_db3\<lparr>db_attempts := [sample_attempt 1 0, sample_attempt 2 2]\<rparr>)"
    using sample_digests
    by (simp add: insert_attempt_def enforce_def key_free_def sample_dbs sample_attempt_def sample_row_fields
        sample_task_def)
  have lease: "insert_lease (sample_lease 2 2) (sample_db3\<lparr>db_attempts := [sample_attempt 1 0, sample_attempt 2 2]\<rparr>) =
      Inr sample_db6"
    by (simp add: insert_lease_def enforce_def key_free_def sample_dbs sample_attempt_def sample_lease_def)
  have ins: "insert_claimed sample_sys (sample_claim_env 2 (later 2)) sample_receipt sample_basis
      (attempt_rows sample_db3 ''t'') (later 2) (later 602) sample_db3 = Inr sample_db6"
    using attempt lease sample_new_attempt [of 2 2]
    by (simp add: insert_claimed_def refuse_early_def sample_rows3 later_le sample_receipt_def sample_lease_def
        numeral_2_eq_2)
  have open_budget: "\<not> settled_on_budget sample_db3 ''b''"
    by (simp add: settled_on_budget_def key_free_def sample_dbs)
  have row: "receipt_row sample_db3 sample_rid = Some (sample_row, sample_task, sample_budget)"
    using sample_receipt_row by (simp add: receipt_row_def sample_db3_def sample_db2_def)
  have "claim_body sample_sys (sample_claim_env 2 (later 2)) sample_receipt sample_basis sample_db3 =
      Inr ((2, later 2, later 602), sample_db6)"
    using read_attempts_total [OF sample_sound3, of "''t''"] ins row later_expiry [of 2] open_budget
    by (simp add: claim_body_def sample_row_fields sample_receipt_def sample_claim_env_def
        refuse_running_def unsettled_def sample_rows3 recover_if_unsettled_def attempts_per_generation_def)
  then show ?thesis
    using sample_prepare [of 2 2]
    by (simp add: claim_op_def commit_def attempts_per_generation_def sample_claim_def sample_receipt_def
        sample_claim_env_def)
qed

lemma reachable6: "reachable sample_sys (sample_world sample_db6 [])"
proof (rule reachable.step [OF reachable3])
  show "transition sample_sys (sample_world sample_db3 []) (sample_world sample_db6 [])"
    using transition.claim [of sample_receipt "sample_world sample_db3 []" "sample_claim_env 2 (later 2)"
        sample_sys "''f''" "Inr (sample_claim 2 2)" sample_db6]
      sample_claim2 sample_clock [of 2] by (simp add: sample_claim_env_def)
qed

section \<open>The recovery of the second attempt by a retry\<close>

definition sample_now7 :: instant where "sample_now7 = later 700"

definition recovered_rec2 :: failure_rec where
  "recovered_rec2 = \<lparr>fl_task_id = ''t'', fl_attempt_no = 2, fl_issues_json = None, fl_submission = None,
     fl_audit_json = None, fl_kind = Outcome_Unknown, fl_origin = By_Recovery,
     fl_settled_at = timestamp (later 700)\<rparr>"

definition sample_retry :: "string \<Rightarrow> request" where
  "sample_retry i = \<lparr>rq_paper_id = ''p'', rq_snapshot_id = ''c'', rq_stage = Stage_Boundary,
     rq_source = From_Retry, rq_scheduled_day = None, rq_request_id = Some (ascii i),
     rq_reason = Some (ascii ''again''), rq_actor = Some (ascii ''who''), rq_language = None,
     rq_parent = Some ''t''\<rparr>"

definition sample_retry_env :: "string \<Rightarrow> retry_env" where
  "sample_retry_env t = \<lparr>ry_clock = Utc (later 700), ry_mapping = sample_mapping, ry_current = Inr sample_basis,
     ry_new_task = t\<rparr>"

definition sample_retry_row :: request_rec where
  "sample_retry_row = new_request sample_sha (sample_retry ''q'') (retry_receipt_id sample_sha (sample_retry ''q''))
     ''u'' sample_basis None"

definition sample_successor :: task_rec where
  "sample_successor = \<lparr>tk_task_id = ''u'', tk_budget_id = ''b'', tk_generation = 1, tk_parent = Some ''t''\<rparr>"

definition sample_db7 :: task_db where
  "sample_db7 = sample_db6\<lparr>db_failures := [failed_rec, recovered_rec2]\<rparr>"

definition sample_db8 :: task_db where
  "sample_db8 = sample_db7
     \<lparr>db_tasks := [sample_task, sample_successor], db_requests := [sample_row, sample_retry_row]\<rparr>"

definition sample_retry_receipt :: receipt where
  "sample_retry_receipt = \<lparr>rc_receipt_id = retry_receipt_id sample_sha (sample_retry ''q''), rc_task_id = ''u'',
     rc_budget_id = ''b'', rc_paper_id = ''p'', rc_stage = Stage_Boundary, rc_fingerprint = ''f'',
     rc_generation = 1, rc_source = From_Retry, rc_basis = sample_basis, rc_snapshot_id = ''c'',
     rc_scheduled_day = None, rc_cached_success_id = None\<rparr>"

lemma sample_sound6: "sound sample_db6"
  using reachable_sound [OF reachable6] by simp

lemma sample_rows6: "attempt_rows sample_db6 ''t'' =
    [\<lparr>ar_attempt = sample_attempt 1 0, ar_expires_at = Some (timestamp (later 600)), ar_kind = Some Timeout,
      ar_origin = Some By_Executor, ar_settled_at = Some (timestamp (later 1)), ar_issues_json = None,
      ar_success_id = None\<rparr>,
     \<lparr>ar_attempt = sample_attempt 2 2, ar_expires_at = Some (timestamp (later 602)), ar_kind = None,
      ar_origin = None, ar_settled_at = None, ar_issues_json = None, ar_success_id = None\<rparr>]"
  by (simp add: attempt_rows_def join_attempt_def lookup_def sample_dbs sample_attempt_def sample_lease_def
      failed_rec_fields)

lemma sample_recovery7: "insert_failure recovered_rec2 sample_db6 = Inr sample_db7"
  by (simp add: insert_failure_def enforce_def key_free_def sample_db7_def sample_dbs recovered_rec2_def
      sample_attempt_def failed_rec_fields)

lemma sample_sound7: "sound sample_db7"
proof -
  have "fact_step sample_db6 sample_db7"
    by (rule settle_failure [OF sample_recovery7])
      (simp_all add: open_attempt_def authority_ok_def failure_timely_def recovered_rec2_def sample_dbs
        sample_attempt_def sample_lease_def apart_timestamp later_valid later_le failed_rec_fields)
  then show ?thesis using sample_sound6 by (rule step_sound)
qed

lemma sample_rows7: "attempt_rows sample_db7 ''t'' =
    [hd (attempt_rows sample_db6 ''t''),
     \<lparr>ar_attempt = sample_attempt 2 2, ar_expires_at = Some (timestamp (later 602)), ar_kind = Some Outcome_Unknown,
      ar_origin = Some By_Recovery, ar_settled_at = Some (timestamp (later 700)), ar_issues_json = None,
      ar_success_id = None\<rparr>]"
  by (simp add: attempt_rows_def join_attempt_def lookup_def sample_db7_def sample_dbs sample_attempt_def
      sample_lease_def failed_rec_fields recovered_rec2_def)

definition sample_status7 :: task_status where
  "sample_status7 = \<lparr>ts_task_id = ''t'', ts_state = Failed, ts_used_attempts = 2,
     ts_remaining_attempts = 0, ts_last_failure = Some Outcome_Unknown\<rparr>"

lemma sample_retry_status: "retry_status ''t'' (later 700) sample_db6 = Inr (sample_status7, sample_db7)"
proof -
  have "recover_attempt (last (attempt_rows sample_db6 ''t'')) (later 700) sample_db6 = Inr sample_db7"
    using sample_recovery7
    by (simp add: recover_attempt_def require_attempt_time_def sample_rows6 sample_attempt_def later_le
        recovered_rec2_def)
  then show ?thesis
    by (simp add: retry_status_def read_attempts_total [OF sample_sound6] read_attempts_total [OF sample_sound7]
        sample_rows6 sample_rows7 derive_status_def last_row_def Let_def attempts_per_generation_def later_le
        sample_status7_def)
qed

lemma sample_retry_id: "retry_receipt_id sample_sha (sample_retry ''q'') \<noteq> sample_rid"
  by code_simp

lemma sample_retry_body:
  "retry_body sample_sha (sample_retry_env ''u'') (sample_retry ''q'') ''t'' sample_input sample_basis sample_db6 =
     Inr (sample_retry_receipt, sample_db8)"
proof -
  have replay: "replay_request sample_sha sample_db6 (sample_retry ''q'') = Inr None"
    by (simp add: replay_request_def sample_dbs sample_row_def new_request_def sample_request_def sample_retry_def
        ascii_def)
  have task: "insert_task sample_successor sample_db7 = Inr (sample_db7\<lparr>db_tasks := [sample_task, sample_successor]\<rparr>)"
    by (simp add: insert_task_def enforce_def key_free_def free_opt_def sample_db7_def sample_dbs sample_task_def
        sample_successor_def sample_budget_def)
  have "insert_request sample_retry_row (sample_db7\<lparr>db_tasks := [sample_task, sample_successor]\<rparr>) = Inr sample_db8"
    using sample_retry_id
    by (simp add: insert_request_def enforce_def key_free_def free_opt_def sample_db8_def sample_db7_def sample_dbs
        request_shape_def sample_retry_row_def sample_row_def new_request_def sample_retry_def sample_request_def
        sample_successor_def ascii_def)
  moreover have "receipt_row sample_db8 (re_receipt_id sample_retry_row) =
      Some (sample_retry_row, sample_successor, sample_budget)"
    using sample_retry_id
    by (simp add: receipt_row_def lookup_def sample_db8_def sample_db7_def sample_dbs sample_retry_row_def
        sample_row_def new_request_def sample_task_def sample_successor_def sample_budget_def)
  moreover have "to_receipt (sample_retry_row, sample_successor, sample_budget) = Inr sample_retry_receipt"
    by (simp add: to_receipt_def sample_retry_row_def new_request_def sample_retry_def sample_successor_def
        sample_budget_def sample_retry_receipt_def)
  ultimately have read: "insert_and_read sample_retry_row (sample_db7\<lparr>db_tasks := [sample_task, sample_successor]\<rparr>) =
      Inr (sample_retry_receipt, sample_db8)"
    by (simp add: insert_and_read_def)
  have lk: "lookup tk_task_id (db_tasks sample_db6) ''t'' = Some sample_task"
      "lookup bg_budget_id (db_budgets sample_db6) ''b'' = Some sample_budget"
      "lookup tk_parent (db_tasks sample_db6) (Some ''t'') = None"
      "latest_task sample_db6 ''b'' = Some sample_task" "\<not> settled_on_budget sample_db6 ''b''"
    by (simp_all add: lookup_def sample_dbs sample_task_def sample_budget_def latest_task_def settled_on_budget_def
        key_free_def)
  show ?thesis
    using replay lk task read sample_retry_status
    by (simp add: retry_body_def sample_retry_env_def sample_task_def sample_budget_def sample_retry_def
        sample_input_def sample_status7_def sample_successor_def sample_retry_row_def)
qed

lemma reachable8: "reachable sample_sys (sample_world sample_db8 [])"
proof (rule reachable.step [OF reachable6])
  show "transition sample_sys (sample_world sample_db6 []) (sample_world sample_db8 [])"
    using transition.retry [of "sample_retry_env ''u''" sample_sys "sample_retry ''q''" "''t''" sample_input
        sample_basis "sample_world sample_db6 []" "Inr sample_retry_receipt" sample_db8]
      sample_retry_body sample_clock [of 700]
    by (simp add: sample_retry_env_def sample_sys_def commit_def)
qed

section \<open>A renewed lease\<close>

definition sample_renewed :: "int \<Rightarrow> task_db" where
  "sample_renewed s = sample_db2\<lparr>db_leases := [sample_lease 1 s]\<rparr>"

lemma sample_renewed_lease: "update_lease ''t'' 1 (timestamp (later (s + 600))) (sample_renewed e) = sample_renewed s"
  by (simp add: update_lease_def sample_renewed_def sample_lease_def)

lemma later_span: "later a + lease_span \<le> later b \<longleftrightarrow> a + 600 \<le> b"
  unfolding later_def lease_span_def lease_seconds_def by linarith

lemma sample_renewed_sound:
  assumes "0 \<le> s" "s \<le> 1000"
  shows "sound (sample_renewed s)"
proof -
  have "fact_step (sample_renewed 0) (update_lease ''t'' 1 (timestamp (later (s + 600))) (sample_renewed 0))"
    by (rule extend_lease) (use assms in \<open>simp_all add: open_attempt_def sample_renewed_def sample_db2_def sample_db1_def empty_db_def
      sample_attempt_def apart_timestamp later_valid later_span\<close>)
  moreover have "sample_renewed 0 = sample_db2" by (simp add: sample_renewed_def sample_db2_def)
  ultimately show ?thesis using step_sound sample_sound2 unfolding sample_renewed_lease by metis
qed

lemma sample_renew:
  assumes "0 \<le> e" "e \<le> 1000" "0 \<le> s" "s \<le> 1000"
  shows "renew_op sample_sys (Utc (later s)) (sample_credential 1) (sample_renewed e) =
    (Inr (later (s + 600)), sample_renewed s)"
proof -
  note S = sample_renewed_sound [OF assms(1,2)]
  have rows: "attempt_rows (sample_renewed e) ''t'' =
    [\<lparr>ar_attempt = sample_attempt 1 0, ar_expires_at = Some (timestamp (later (e + 600))), ar_kind = None,
      ar_origin = None, ar_settled_at = None, ar_issues_json = None, ar_success_id = None\<rparr>]"
    by (simp add: attempt_rows_def join_attempt_def lookup_def sample_renewed_def sample_db2_def sample_db1_def
        empty_db_def sample_attempt_def sample_lease_def)
  have "lookup at_renewal (db_attempts (sample_renewed e)) (sample_digest 1) = Some (sample_attempt 1 0)"
    by (simp add: lookup_def sample_renewed_def sample_db2_def sample_attempt_def)
  then show ?thesis
    using sample_credential_hex assms read_attempts_total [OF S, of "''t''"] later_expiry [of s] sample_renewed_lease [of s e]
    by (simp add: renew_op_def renew_body_def Let_def require_secret_def commit_def rows sample_digest_def [symmetric] sample_sys_def
        require_attempt_time_def sample_attempt_def later_le)
qed

lemma reachable_renewed:
  assumes "0 \<le> s" "s \<le> 1000"
  shows "reachable sample_sys (sample_world (sample_renewed s) [])"
proof (rule reachable.step [OF reachable2])
  have "sample_renewed 0 = sample_db2" by (simp add: sample_renewed_def sample_db2_def)
  then show "transition sample_sys (sample_world sample_db2 []) (sample_world (sample_renewed s) [])"
    using transition.renew [of "Utc (later s)" sample_sys "sample_credential 1" "sample_world sample_db2 []"
        "Inr (later (s + 600))" "sample_renewed s"] sample_renew [of 0 s] sample_clock [of s] assms by simp
qed

end
