(* ===== verification/Screening_Output_Laws.thy ===== *)
theory Screening_Output_Laws
  imports Screening_Output
begin

text \<open>
  The declarative contract of the screening outputs and the proofs that the validator of
  \<open>Screening_Output\<close> decides it, that it reports nothing but contract names and indices, and
  that the worklist test of the decoded payload is the structural one.
\<close>

section \<open>The worklist\<close>

fun all_encodable :: "json \<Rightarrow> bool" where
  "all_encodable (JStr s) = encodable s"
| "all_encodable (JArr xs) = (\<forall>x \<in> set xs. all_encodable x)"
| "all_encodable (JObj kvs) = (\<forall>(k, v) \<in> set kvs. encodable k \<and> all_encodable v)"
| "all_encodable j = True"

lemma require_json_unicode_iff:
  "require_json_unicode stack \<longleftrightarrow> (\<forall>j \<in> set stack. all_encodable j)"
  by (induction stack rule: require_json_unicode.induct) (auto simp: ball_Un)

section \<open>The loops over lists\<close>

lemma value_type_issues_Nil:
  "value_type_issues i seen ts = [] \<longleftrightarrow> distinct ts \<and> set ts \<inter> seen = {}"
  by (induction i seen ts rule: value_type_issues.induct) auto

lemma topic_issues_Nil:
  "topic_issues enabled i seen ts = [] \<longleftrightarrow> distinct ts \<and> set ts \<inter> seen = {} \<and> set ts \<subseteq> enabled"
  by (induction enabled i seen ts rule: topic_issues.induct) auto

lemma adaptation_issues_Nil:
  "adaptation_issues cf i as = [] \<longleftrightarrow> (\<forall>a \<in> set as. is_meaningful_text cf a)"
  by (induction cf i as rule: adaptation_issues.induct) auto

lemma text_issue_Nil [simp]: "text_issue cf l v = [] \<longleftrightarrow> is_meaningful_text cf v"
  by (simp add: text_issue_def)

lemma scan_fold:
  fixes kinds :: "(pystr \<times> excerpt_kind) list"
  defines "run \<equiv> \<lambda>n ids s. fold (excerpt_step kinds) (enumerate n ids) s"
  shows "es_seen (run n ids s) = es_seen s \<union> set ids"
    and "es_unknown (run n ids s) \<longleftrightarrow>
      es_unknown s \<or> (\<exists>e \<in> set ids - es_seen s. map_of kinds e = None)"
    and "es_kinds (run n ids s) =
      es_kinds s \<union> {k. \<exists>e \<in> set ids - es_seen s. map_of kinds e = Some k}"
    and "es_issues (run n ids s) = [] \<longleftrightarrow>
      es_issues s = [] \<and> distinct ids \<and> set ids \<inter> es_seen s = {} \<and>
      (\<forall>e \<in> set ids. map_of kinds e \<noteq> None)"
  unfolding run_def
  by (induction ids arbitrary: n s)
    (auto simp: excerpt_step_def Let_def split: option.splits)

section \<open>The declarative contract\<close>

definition valid_value ::
    "(nat \<Rightarrow> pystr) \<Rightarrow> value_prediction_context \<Rightarrow> value_prediction_output \<Rightarrow> bool" where
  "valid_value cf c out \<longleftrightarrow>
     is_meaningful_text cf (vo_research_value_reason_zh out) \<and>
     is_meaningful_text cf (vo_reuse_feasibility_reason_zh out) \<and>
     is_meaningful_text cf (vo_abstract_brief_zh out) \<and>
     is_meaningful_text cf (vo_why_it_may_matter_zh out) \<and>
     (\<forall>title. vo_display_title_zh out = Some title \<longrightarrow>
        \<not> vc_original_title_is_zh c \<and> is_meaningful_text cf title) \<and>
     (vo_reuse_feasibility_inferable out \<or>
        states_input_is_insufficient cf (vo_reuse_feasibility_reason_zh out)) \<and>
     (vo_research_value out \<ge> 3 \<longrightarrow> vo_value_types out \<noteq> []) \<and>
     distinct (vo_value_types out) \<and> distinct (vo_topic_ids out) \<and>
     set (vo_topic_ids out) \<subseteq> vc_enabled_topic_ids c"

lemma value_business_issues_Nil:
  "value_prediction_business_issues cf out c = [] \<longleftrightarrow> valid_value cf c out"
  by (cases "vo_display_title_zh out")
    (auto simp: value_prediction_business_issues_def valid_value_def value_type_issues_Nil
      topic_issues_Nil)

definition cited_kinds :: "reuse_assessment_context \<Rightarrow> reuse_assessment_output \<Rightarrow> excerpt_kind set" where
  "cited_kinds c out =
     {k. \<exists>e \<in> set (ro_excerpt_ids out). map_of (rc_excerpt_kinds c) e = Some k}"

definition valid_reuse ::
    "(nat \<Rightarrow> pystr) \<Rightarrow> reuse_assessment_context \<Rightarrow> reuse_assessment_output \<Rightarrow> bool" where
  "valid_reuse cf c out \<longleftrightarrow>
     is_meaningful_text cf (ro_reuse_feasibility_reason_zh out) \<and>
     (\<forall>a \<in> set (ro_required_adaptations out). is_meaningful_text cf a) \<and>
     ro_excerpt_ids out \<noteq> [] \<and> distinct (ro_excerpt_ids out) \<and>
     (\<forall>e \<in> set (ro_excerpt_ids out). map_of (rc_excerpt_kinds c) e \<noteq> None) \<and>
     cited_kinds c out =
       (if ro_excerpt_kind out = Both then {Availability, Methods} else {ro_excerpt_kind out})"

lemma reuse_business_issues_Nil:
  "reuse_assessment_business_issues cf out c = [] \<longleftrightarrow> valid_reuse cf c out"
proof (cases "ro_excerpt_ids out = []")
  case True
  then show ?thesis by (simp add: reuse_assessment_business_issues_def valid_reuse_def)
next
  case False
  let ?s = "scan_excerpts (rc_excerpt_kinds c) (ro_excerpt_ids out)"
  have issues: "es_issues ?s = [] \<longleftrightarrow> distinct (ro_excerpt_ids out) \<and>
      (\<forall>e \<in> set (ro_excerpt_ids out). map_of (rc_excerpt_kinds c) e \<noteq> None)"
    by (simp add: scan_excerpts_def scan_fold)
  have kinds: "es_kinds ?s = cited_kinds c out"
    by (simp add: scan_excerpts_def scan_fold cited_kinds_def)
  have unknown: "es_unknown ?s \<longleftrightarrow>
      (\<exists>e \<in> set (ro_excerpt_ids out). map_of (rc_excerpt_kinds c) e = None)"
    by (simp add: scan_excerpts_def scan_fold)
  have cited: "cited_kinds c out \<noteq> {}"
    if "\<forall>e \<in> set (ro_excerpt_ids out). map_of (rc_excerpt_kinds c) e \<noteq> None"
  proof -
    obtain e where e: "e \<in> set (ro_excerpt_ids out)" using False by (cases "ro_excerpt_ids out") auto
    with that obtain k where "map_of (rc_excerpt_kinds c) e = Some k" by blast
    with e show ?thesis by (auto simp: cited_kinds_def)
  qed
  show ?thesis
  proof (cases "\<forall>e \<in> set (ro_excerpt_ids out). map_of (rc_excerpt_kinds c) e \<noteq> None")
    case True
    then have "\<not> es_unknown ?s" using unknown by blast
    then have mismatch: "kind_mismatch (ro_excerpt_kind out) ?s \<longleftrightarrow> cited_kinds c out \<noteq>
        (if ro_excerpt_kind out = Both then {Availability, Methods} else {ro_excerpt_kind out})"
      using cited [OF True] by (auto simp: kind_mismatch_def kinds)
    with False True show ?thesis
      by (auto simp: reuse_assessment_business_issues_def valid_reuse_def Let_def issues
          adaptation_issues_Nil)
  next
    case F: False
    then have "es_issues ?s \<noteq> []" "\<not> valid_reuse cf c out" by (auto simp: issues valid_reuse_def)
    with False show ?thesis by (simp add: reuse_assessment_business_issues_def Let_def)
  qed
qed

section \<open>Acceptance\<close>

text \<open>The context a validator works with, when it accepts the argument.\<close>

definition usable_context :: "(context_arg \<Rightarrow> 'c option) \<Rightarrow> 'c validator \<Rightarrow> context_arg \<Rightarrow> 'c \<Rightarrow> bool" where
  "usable_context instance_of model context c \<longleftrightarrow>
     context \<noteq> No_Context \<and>
     (instance_of context = Some c \<or>
      (instance_of context = None \<and>
       (\<exists>kvs. context = Mapping_Context kvs \<and> model (JObj (dict_of kvs)) = Inr c)))"

definition parsed :: "env \<Rightarrow> 'a validator \<Rightarrow> payload \<Rightarrow> 'a \<Rightarrow> bool" where
  "parsed env model payload out \<longleftrightarrow>
     (\<exists>j. decode_payload (env_float env) payload = Some j \<and> model j = Inr out)"

lemma validate_context_Inr:
  "validate_context f context model known = Inr c \<longleftrightarrow> usable_context f model context c"
  by (auto simp: validate_context_def usable_context_def
      split: option.splits context_arg.splits sum.splits)

lemma validate_model_Inr:
  "validate_model (env_float env) model payload known = Inr out \<longleftrightarrow> parsed env model payload out"
  by (auto simp: validate_model_def parsed_def split: option.splits sum.splits)

lemma reject_if_Inr [simp]: "reject_if issues x = Inr y \<longleftrightarrow> issues = [] \<and> x = y"
  by (auto simp: reject_if_def)

lemma and_then_Inr_iff: "and_then m f = Inr y \<longleftrightarrow> (\<exists>x. m = Inr x \<and> f x = Inr y)"
  by (cases m) (simp_all add: and_then_def)

lemma map_sum_Inr_iff: "map_sum id f m = Inr y \<longleftrightarrow> (\<exists>x. m = Inr x \<and> y = f x)"
  by (cases m) auto

lemmas accept_simps = and_then_Inr_iff map_sum_Inr_iff validate_context_Inr validate_model_Inr
  value_business_issues_Nil reuse_business_issues_Nil

lemma validate_value_Inr:
  "validate_value_output env payload context = Inr out \<longleftrightarrow>
     (\<exists>c. usable_context value_instance (md_value_context (env_models env)) context c \<and>
        parsed env (md_value (env_models env)) payload out \<and> valid_value (env_fold env) c out)"
  by (auto simp: validate_value_output_def accept_simps)

lemma validate_reuse_Inr:
  "validate_reuse_output env payload context = Inr out \<longleftrightarrow>
     (\<exists>c. usable_context reuse_instance (md_reuse_context (env_models env)) context c \<and>
        parsed env (md_reuse (env_models env)) payload out \<and> valid_reuse (env_fold env) c out)"
  by (auto simp: validate_reuse_output_def accept_simps)

lemma validate_boundary_Inr:
  "validate_boundary_output env payload context = Inr out \<longleftrightarrow>
     context \<in> {No_Context, Mapping_Context []} \<and>
     parsed env (md_boundary (env_models env)) payload out \<and>
     is_meaningful_text (env_fold env) (bo_reason_zh out)"
  by (auto simp: validate_boundary_output_def accept_simps)

section \<open>What a rejection reports\<close>

definition contract_names :: "pystr set" where
  "contract_names =
     boundary_fields \<union> value_fields \<union> reuse_fields \<union> value_context_fields \<union> reuse_context_fields \<union>
     {ascii ''context'', ascii ''kind'', extra_field_mask}"

definition contract_parts :: "pystr set" where
  "contract_parts = range index_text \<union> (\<lambda>n. 46 # n) ` contract_names"

text \<open>The issues whose text is made of contract vocabulary alone: the location is \<open>$\<close>
  followed by names of the contract, the mask and indices, and the guidance is the fixed text
  of the category.\<close>

definition contract_issues :: "output_issue set" where
  "contract_issues =
     {i. (\<exists>ps. set ps \<subseteq> contract_parts \<and> oi_location i = ascii ''$'' @ concat ps) \<and>
         oi_guidance i = guidance_text (oi_category i)}"

definition reported :: "'a validated \<Rightarrow> output_issue set" where
  "reported r = (case r of Inl issues \<Rightarrow> set issues | Inr x \<Rightarrow> {})"

lemma reported_simps [simp]: "reported (Inl is) = set is" "reported (Inr x) = {}"
  by (simp_all add: reported_def)

lemma reported_and_then:
  "reported (and_then m f) \<subseteq> S \<longleftrightarrow> reported m \<subseteq> S \<and> (\<forall>x. m = Inr x \<longrightarrow> reported (f x) \<subseteq> S)"
  by (cases m) (auto simp: and_then_def)

lemma reported_reject_if [simp]: "reported (reject_if is x) = set is"
  by (simp add: reject_if_def)

lemma reported_map [simp]: "reported (map_sum id f m) = reported m"
  by (cases m) auto

lemma mk_issue_contract:
  "set ps \<subseteq> contract_parts \<Longrightarrow> l = ascii ''$'' @ concat ps \<Longrightarrow> mk_issue l c \<in> contract_issues"
  by (auto simp: contract_issues_def mk_issue_def)

lemma index_contract [simp]: "index_text i \<in> contract_parts"
  by (simp add: contract_parts_def)

lemma name_contract: "n \<in> contract_names \<Longrightarrow> 46 # n \<in> contract_parts"
  by (simp add: contract_parts_def)

lemma mask_contract: "46 # extra_field_mask \<in> contract_parts"
  by (rule name_contract) (simp add: contract_names_def)

lemma root_issue [simp]: "mk_issue (ascii ''$'') c \<in> contract_issues"
  by (rule mk_issue_contract [of "[]"]) simp_all

lemma field_issue: "n \<in> contract_names \<Longrightarrow> mk_issue (ascii ''$'' @ 46 # n) c \<in> contract_issues"
  by (rule mk_issue_contract [of "[46 # n]"]) (simp_all add: name_contract)

lemma indexed_issue:
  "n \<in> contract_names \<Longrightarrow> mk_issue ((ascii ''$'' @ 46 # n) @ index_text i) c \<in> contract_issues"
  by (rule mk_issue_contract [of "[46 # n, index_text i]"]) (simp_all add: name_contract)

lemma safe_part_contract: "known \<subseteq> contract_names \<Longrightarrow> safe_part known p \<in> contract_parts"
  by (cases p) (auto intro: name_contract mask_contract)

lemma safe_issue:
  assumes "known \<subseteq> contract_names" "set root \<subseteq> contract_parts"
  shows "mk_issue (safe_location parts cat known (ascii ''$'' @ concat root)) c \<in> contract_issues"
proof (cases "cat = Extra_Field")
  case True
  with assms mask_contract show ?thesis
    by (intro mk_issue_contract [of "root @ [46 # extra_field_mask]"]) (auto simp: safe_location_def)
next
  case False
  with assms safe_part_contract show ?thesis
    by (intro mk_issue_contract [of "root @ map (safe_part known) parts"])
      (auto simp: safe_location_def)
qed

lemma issues_from_pydantic_contract:
  assumes "known \<subseteq> contract_names"
  shows "set (issues_from_pydantic errors known) \<subseteq> contract_issues"
  using safe_issue [OF assms, of "[]"] by (auto simp: issues_from_pydantic_def Let_def)

lemma validate_model_contract:
  "known \<subseteq> contract_names \<Longrightarrow> reported (validate_model fl model payload known) \<subseteq> contract_issues"
  using issues_from_pydantic_contract
  by (auto simp: validate_model_def split: option.splits sum.splits)

lemma known_contract [simp]:
  "boundary_fields \<subseteq> contract_names" "value_fields \<subseteq> contract_names"
  "reuse_fields \<subseteq> contract_names" "value_context_fields \<subseteq> contract_names"
  "reuse_context_fields \<subseteq> contract_names"
  by (auto simp: contract_names_def)

lemma contract_name_literals [simp]:
  "ascii ''context'' \<in> contract_names" "ascii ''kind'' \<in> contract_names"
  "ascii ''research_value_reason_zh'' \<in> contract_names"
  "ascii ''reuse_feasibility_reason_zh'' \<in> contract_names"
  "ascii ''abstract_brief_zh'' \<in> contract_names" "ascii ''why_it_may_matter_zh'' \<in> contract_names"
  "ascii ''display_title_zh'' \<in> contract_names" "ascii ''value_types'' \<in> contract_names"
  "ascii ''topic_ids'' \<in> contract_names" "ascii ''required_adaptations'' \<in> contract_names"
  "ascii ''excerpt_ids'' \<in> contract_names" "ascii ''excerpt_kind'' \<in> contract_names"
  "ascii ''reason_zh'' \<in> contract_names"
  by (simp_all add: contract_names_def value_fields_def reuse_fields_def boundary_fields_def)

lemma literal_issue:
  "ascii n \<in> contract_names \<Longrightarrow> mk_issue (ascii (''$.'' @ n)) c \<in> contract_issues"
  using field_issue [of "ascii n" c] by (simp add: ascii_def)

lemma literal_indexed:
  "ascii n \<in> contract_names \<Longrightarrow> mk_issue (indexed (''$.'' @ n) i) c \<in> contract_issues"
  using indexed_issue [of "ascii n" "int i" c] by (simp add: ascii_def indexed_def)

lemmas literal_issues [simp] =
  literal_issue [of "''context''", simplified] literal_issue [of "''kind''", simplified]
  literal_issue [of "''research_value_reason_zh''", simplified]
  literal_issue [of "''reuse_feasibility_reason_zh''", simplified]
  literal_issue [of "''abstract_brief_zh''", simplified]
  literal_issue [of "''why_it_may_matter_zh''", simplified]
  literal_issue [of "''display_title_zh''", simplified]
  literal_issue [of "''value_types''", simplified] literal_issue [of "''excerpt_ids''", simplified]
  literal_issue [of "''excerpt_kind''", simplified] literal_issue [of "''reason_zh''", simplified]
  literal_indexed [of "''value_types''", simplified] literal_indexed [of "''topic_ids''", simplified]
  literal_indexed [of "''required_adaptations''", simplified]
  literal_indexed [of "''excerpt_ids''", simplified]

lemma text_issue_contract:
  "mk_issue (ascii l) Invalid_Text \<in> contract_issues \<Longrightarrow> set (text_issue cf l v) \<subseteq> contract_issues"
  by (simp add: text_issue_def)

lemma list_issues_contract:
  "set (value_type_issues i seen ts) \<subseteq> contract_issues"
  "set (topic_issues enabled i seen2 ns) \<subseteq> contract_issues"
  "set (adaptation_issues cf i ns) \<subseteq> contract_issues"
proof -
  show "set (value_type_issues i seen ts) \<subseteq> contract_issues"
    by (induction i seen ts rule: value_type_issues.induct) auto
  show "set (topic_issues enabled i seen2 ns) \<subseteq> contract_issues"
    by (induction enabled i seen2 ns rule: topic_issues.induct) auto
  show "set (adaptation_issues cf i ns) \<subseteq> contract_issues"
    by (induction cf i ns rule: adaptation_issues.induct) auto
qed

lemma excerpt_step_contract:
  "set (es_issues s) \<subseteq> contract_issues \<Longrightarrow> set (es_issues (excerpt_step kinds ie s)) \<subseteq> contract_issues"
  by (cases ie) (auto simp: excerpt_step_def Let_def split: option.splits)

lemma scan_excerpts_contract: "set (es_issues (scan_excerpts kinds ids)) \<subseteq> contract_issues"
proof -
  have "set (es_issues (fold (excerpt_step kinds) xs s)) \<subseteq> contract_issues"
    if "set (es_issues s) \<subseteq> contract_issues" for xs s
    using that by (induction xs arbitrary: s) (simp_all add: excerpt_step_contract)
  then show ?thesis by (simp add: scan_excerpts_def)
qed

lemma set_if_issue:
  "{x. x = a \<and> P} \<subseteq> S \<longleftrightarrow> (P \<longrightarrow> a \<in> S)"
  "(set (if P then xs else ys) \<subseteq> S) \<longleftrightarrow> (if P then set xs \<subseteq> S else set ys \<subseteq> S)"
  by auto

lemma value_issues_contract: "set (value_prediction_business_issues cf out c) \<subseteq> contract_issues"
  unfolding value_prediction_business_issues_def
  by (cases "vo_display_title_zh out")
    (simp_all add: list_issues_contract text_issue_contract set_if_issue)

lemma reuse_issues_contract: "set (reuse_assessment_business_issues cf out c) \<subseteq> contract_issues"
  unfolding reuse_assessment_business_issues_def Let_def
  by (simp add: list_issues_contract text_issue_contract scan_excerpts_contract set_if_issue)

lemma context_issue_contract:
  assumes "known \<subseteq> contract_names" shows "context_issue known e \<in> contract_issues"
proof -
  have root: "ascii ''$.context'' = ascii ''$'' @ concat [46 # ascii ''context'']"
    by (simp add: ascii_def)
  show ?thesis
    unfolding context_issue_def Let_def root
    by (rule safe_issue [OF assms]) (simp add: name_contract)
qed

lemma validate_context_contract:
  "known \<subseteq> contract_names \<Longrightarrow> reported (validate_context f context model known) \<subseteq> contract_issues"
  using context_issue_contract
  by (auto simp: validate_context_def split: option.splits context_arg.splits sum.splits)

lemma validate_output_contract:
  "reported (validate_output env kind payload context) \<subseteq> contract_issues"
  by (cases kind)
    (simp_all add: validate_output_def validate_value_output_def validate_reuse_output_def
      validate_boundary_output_def reported_and_then text_issue_contract value_issues_contract
      reuse_issues_contract validate_model_contract validate_context_contract
      split: output_kind.split)

section \<open>Masking of unknown names\<close>

fun rename_part :: "(pystr \<Rightarrow> pystr) \<Rightarrow> loc_part \<Rightarrow> loc_part" where
  "rename_part f (Index i) = Index i"
| "rename_part f (Name n) = Name (f n)"

definition rename_error :: "(pystr \<Rightarrow> pystr) \<Rightarrow> pydantic_error \<Rightarrow> pydantic_error" where
  "rename_error f e = e\<lparr>pe_loc := map (rename_part f) (pe_loc e)\<rparr>"

lemma safe_location_rename:
  assumes "\<And>n. n \<in> known \<Longrightarrow> f n = n" "\<And>n. n \<notin> known \<Longrightarrow> f n \<notin> known"
  shows "safe_location (map (rename_part f) parts) category known root =
    safe_location parts category known root"
proof -
  have "safe_part known (rename_part f p) = safe_part known p" for p
    using assms by (cases p) auto
  then show ?thesis by (simp add: safe_location_def comp_def)
qed

lemma category_rename [simp]:
  "category_for_pydantic_error (rename_error f e) = category_for_pydantic_error e"
  by (simp add: category_for_pydantic_error_def rename_error_def)

lemma all_encodable_decoded: "decode_text fl s = Some j \<Longrightarrow> all_encodable j"
  by (auto simp: decode_text_def require_json_unicode_iff split: option.splits if_splits)

lemma validate_reason_Inr:
  "validate_screening_reason env payload = Inr r \<longleftrightarrow>
     (\<exists>x i. parsed env (md_reason (env_models env)) payload x \<and>
        invalid_combination_fields x = [] \<and> ri_source x \<in> identity_sources i \<and> r = Some (i, x))"
proof -
  have ident: "identity_model s = Some j \<longleftrightarrow> s \<in> identity_sources j" for s j
    using identity_model_total [of s] identity_model_unique by fastforce
  have build: "invalid_combination_fields x = [] \<Longrightarrow>
      build_screening_reason x = r \<longleftrightarrow> (\<exists>i. ri_source x \<in> identity_sources i \<and> r = Some (i, x))"
    for x r
  proof -
    assume legal: "invalid_combination_fields x = []"
    then obtain c where "build_screening_reason x = Some c" using build_None_iff [of x] by auto
    moreover from this have "c = (fst c, x)" "ri_source x \<in> identity_sources (fst c)"
      by (cases c; simp add: build_Some_iff ident)+
    moreover have "fst c = i" if "ri_source x \<in> identity_sources i" for i
      using that calculation(3) ident [of "ri_source x"] by (metis option.inject)
    ultimately show ?thesis by (metis)
  qed
  have "validate_screening_reason env payload = Inr r \<longleftrightarrow>
     (\<exists>x. parsed env (md_reason (env_models env)) payload x \<and>
        invalid_combination_fields x = [] \<and> build_screening_reason x = r)"
    by (auto simp: validate_screening_reason_def and_then_Inr_iff validate_model_Inr
        split: if_splits)
  then show ?thesis using build by blast
qed

section \<open>Properties\<close>

text \<open>
  C40: the public validator accepts exactly what the contract admits: for each kind, the
  context must be usable, the payload must decode and satisfy the model, and the business
  rules must hold in their declarative form; an unregistered kind is never accepted.
\<close>

theorem validate_output_accepts_iff:
  "(validate_output env kind payload context = Inr (Value_Out v) \<longleftrightarrow>
      kind = Some Kind_Value_Prediction \<and>
      (\<exists>c. usable_context value_instance (md_value_context (env_models env)) context c \<and>
         parsed env (md_value (env_models env)) payload v \<and> valid_value (env_fold env) c v)) \<and>
   (validate_output env kind payload context = Inr (Reuse_Out r) \<longleftrightarrow>
      kind = Some Kind_Reuse_Assessment \<and>
      (\<exists>c. usable_context reuse_instance (md_reuse_context (env_models env)) context c \<and>
         parsed env (md_reuse (env_models env)) payload r \<and> valid_reuse (env_fold env) c r)) \<and>
   (validate_output env kind payload context = Inr (Boundary_Out b) \<longleftrightarrow>
      kind = Some Kind_Boundary \<and> context \<in> {No_Context, Mapping_Context []} \<and>
      parsed env (md_boundary (env_models env)) payload b \<and>
      is_meaningful_text (env_fold env) (bo_reason_zh b))"
  by (auto simp: validate_output_def map_sum_Inr_iff validate_value_Inr validate_reuse_Inr
      validate_boundary_Inr split: option.splits output_kind.splits)

text \<open>
  A rejection leaks nothing of what was submitted: every location it reports is built from
  \<open>$\<close>, the contract's own names, list indices and one fixed mask, and every guidance is the
  fixed text of its category.
\<close>

theorem rejection_reports_contract_only:
  "reported (validate_output env kind payload context) \<subseteq> contract_issues"
  by (rule validate_output_contract)

text \<open>
  unknown names are masked: two error lists of the model validation that differ only in
  the names the contract does not know produce the same issues.
\<close>

theorem unknown_names_masked:
  assumes "\<And>n. n \<in> known \<Longrightarrow> f n = n" and "\<And>n. n \<notin> known \<Longrightarrow> f n \<notin> known"
  shows "issues_from_pydantic (map (rename_error f) errors) known = issues_from_pydantic errors known"
proof -
  have "safe_location (pe_loc (rename_error f e)) c known root = safe_location (pe_loc e) c known root"
    for e c root
    using safe_location_rename [of known f "pe_loc e" c root, OF assms]
    by (simp add: rename_error_def)
  then show ?thesis by (simp add: issues_from_pydantic_def comp_def)
qed

theorem unknown_names_masked_witness:
  "issues_from_pydantic
     (map (rename_error (\<lambda>n. if n = ascii ''secret'' then ascii ''token'' else n))
        [\<lparr>pe_type = ''string_type'', pe_loc = [Name (ascii ''secret''), Index 2],
          pe_input_is_str = False\<rparr>]) boundary_fields =
   issues_from_pydantic
     [\<lparr>pe_type = ''string_type'', pe_loc = [Name (ascii ''secret''), Index 2],
       pe_input_is_str = False\<rparr>] boundary_fields"
  by (rule unknown_names_masked) (auto simp: boundary_fields_def ascii_def)

text \<open>
  the worklist test of a decoded payload is the structural one: it answers yes exactly
  when every string and every key at any depth of every pending value can be written as UTF-8.
\<close>

theorem require_json_unicode_structural:
  "require_json_unicode pending = list_all all_encodable pending"
  by (simp add: require_json_unicode_iff list_all_iff)

text \<open>
  the reason validator returns a record exactly for the decoded legal triples, always
  with the identity of its source; the escape \<open>None\<close> of the final construction is impossible.
\<close>

theorem validate_screening_reason_legal:
  "validate_screening_reason env payload = Inr r \<longleftrightarrow>
     (\<exists>x i. parsed env (md_reason (env_models env)) payload x \<and>
        invalid_combination_fields x = [] \<and> ri_source x \<in> identity_sources i \<and> r = Some (i, x))"
  by (rule validate_reason_Inr)

text \<open>
  a placeholder is no content however it is padded and whatever the case of its ASCII
  letters, and padding never changes the verdict on any text.
\<close>

definition ascii_lower :: "nat \<Rightarrow> nat" where
  "ascii_lower c = (if 65 \<le> c \<and> c \<le> 90 then c + 32 else c)"

theorem placeholder_rejected:
  assumes "\<forall>c < 128. cf c = [ascii_lower c]"
    and "\<forall>c \<in> set s. c < 128" "map ascii_lower (strip s) \<in> set explicit_placeholder_texts"
    and "\<forall>c \<in> set pre. white_space c" "\<forall>c \<in> set post. white_space c"
  shows "\<not> is_meaningful_text cf (pre @ s @ post) \<and>
    is_meaningful_text cf (pre @ t @ post) = is_meaningful_text cf t"
proof
  have "set (strip s) \<subseteq> set s"
    by (auto simp: strip_def dest!: set_dropWhileD)
  then have "\<forall>c \<in> set (strip s). cf c = [ascii_lower c]" using assms(1,2) by auto
  then have "casefold cf (strip s) = map ascii_lower (strip s)"
    by (simp add: casefold_def concat_map_singleton cong: map_cong)
  then have "\<not> is_meaningful_text cf s" using assms(3) by (simp add: is_meaningful_text_def)
  then show "\<not> is_meaningful_text cf (pre @ s @ post)" using assms(4,5) by (simp add: is_meaningful_padding)
  show "is_meaningful_text cf (pre @ t @ post) = is_meaningful_text cf t"
    using assms(4,5) by (rule is_meaningful_padding)
qed

theorem placeholder_rejected_witness:
  "\<not> is_meaningful_text (\<lambda>c. [ascii_lower c]) ([32, 0x3000] @ ascii ''TbD'' @ [10]) \<and>
   is_meaningful_text (\<lambda>c. [ascii_lower c]) ([32, 0x3000] @ ascii ''ok'' @ [10]) =
   is_meaningful_text (\<lambda>c. [ascii_lower c]) (ascii ''ok'')"
  by (rule placeholder_rejected)
    (auto simp: ascii_def ascii_lower_def strip_def white_space_def explicit_placeholder_texts_def)

end
