(* ===== verification/Task_Records.thy ===== *)
theory Task_Records
  imports Task_Replay Screening_Output_Laws
begin

text \<open>
  The rejections the output validator reports can always be recorded: their locations match the
  pattern \<open>decode_issues\<close> accepts for the stage, and the stored text reads back.
\<close>

section \<open>Locations made of contract names\<close>

definition name_parts :: "pystr list \<Rightarrow> pystr set" where
  "name_parts names = (\<lambda>n. 46 # n) ` set names \<union> {index_text i |i. 0 \<le> i}"

text \<open>\<open>\<backslash>d\<close> contains the ASCII digits and not the bracket.\<close>

definition digit_class :: "(nat \<Rightarrow> bool) \<Rightarrow> bool" where
  "digit_class nd \<longleftrightarrow> (\<forall>c. 48 \<le> c \<and> c \<le> 57 \<longrightarrow> nd c) \<and> \<not> nd 93"

lemma digit_index:
  assumes "digit_class nd" "0 \<le> i"
  shows "takeWhile nd (dec_int i @ 93 # s) = dec_int i" "dropWhile nd (dec_int i @ 93 # s) = 93 # s"
proof -
  have d: "nd c" if "c \<in> set (dec_int i)" for c
  proof -
    have "is_digit c" using that assms(2) dec_digits [of c "nat i"] by (simp add: dec_int_def)
    with assms(1) show ?thesis by (simp add: digit_class_def is_digit_def)
  qed
  from assms(1) have n: "\<not> nd 93" by (simp add: digit_class_def)
  from d n show "takeWhile nd (dec_int i @ 93 # s) = dec_int i" by (subst takeWhile_append2) simp_all
  from d n show "dropWhile nd (dec_int i @ 93 # s) = 93 # s" by (subst dropWhile_append2) simp_all
qed

lemma legal_parts_concat:
  assumes "digit_class nd" "set ps \<subseteq> name_parts names"
  shows "legal_parts nd names (concat ps)"
  using assms(2)
proof (induction ps)
  case Nil
  then show ?case by (simp add: legal_parts.simps)
next
  case (Cons p ps)
  then have IH: "legal_parts nd names (concat ps)" by simp
  from Cons.prems consider n where "p = 46 # n" "n \<in> set names" | i where "p = index_text i" "0 \<le> i"
    by (auto simp: name_parts_def)
  then show ?case
  proof cases
    case 1
    have "prefix n (n @ concat ps) \<and> legal_parts nd names (drop (length n) (n @ concat ps))"
      using IH by simp
    with 1 have "list_ex (\<lambda>n'. prefix n' (n @ concat ps) \<and> legal_parts nd names (drop (length n') (n @ concat ps))) names"
      unfolding list_ex_iff using 1(2) by blast
    then show ?thesis unfolding 1(1) by (simp add: legal_parts.simps [of nd names "46 # n @ concat ps"])
  next
    case 2
    have "legal_parts nd names (91 # dec_int i @ 93 # concat ps)"
      using IH digit_index [OF assms(1) 2(2), of "concat ps"] 2(2)
      by (subst legal_parts.simps) (simp add: dec_int_def)
    with 2 show ?thesis by (simp add: index_text_def)
  qed
qed

definition located :: "pystr list \<Rightarrow> output_issue set" where
  "located names = {i. \<exists>ps. set ps \<subseteq> name_parts names \<and> oi_location i = ascii ''$'' @ concat ps}"

lemma located_legal:
  assumes "digit_class nd" "i \<in> located names"
  shows "legal_location nd names (oi_location i)"
  using assms legal_parts_concat [OF assms(1)] by (auto simp: located_def legal_location_def ascii_def)

lemma located_mono: "set ns \<subseteq> set ms \<Longrightarrow> located ns \<subseteq> located ms"
  unfolding located_def name_parts_def by blast

section \<open>The codec\<close>

definition frozen_issue :: "output_issue \<Rightarrow> output_issue" where
  "frozen_issue i = i\<lparr>oi_guidance := frozen_guidance\<rparr>"

lemma category_of_value [simp]: "category_of (ascii (category_value c)) = Some c"
  by (cases c) (simp_all add: category_of_def all_categories_def ascii_def)

lemma issue_json_frozen [simp]: "issue_json (frozen_issue i) = issue_json i"
  by (simp add: issue_json_def frozen_issue_def)

lemma decode_issue_json:
  assumes "legal_location nd (location_names st) (oi_location i)"
  shows "decode_issue nd st (sorted_members (issue_json i)) = Some (frozen_issue i)"
proof -
  have ne: "ascii ''category'' \<le> ascii ''location''" "ascii ''category'' \<noteq> ascii ''location''"
    "ascii ''location'' \<noteq> ascii ''category''"
    by (simp_all add: ascii_def)
  then have "sorted_members (issue_json i) =
      JObj [(ascii ''category'', JStr (ascii (category_value (oi_category i)))),
            (ascii ''location'', JStr (oi_location i))]"
    by (simp add: issue_json_def)
  with assms ne(2,3) show ?thesis
    by (cases i) (simp add: decode_issue_def frozen_issue_def insert_commute)
qed

lemma decode_encode_issues:
  assumes legal: "\<forall>i \<in> set issues. legal_location nd (location_names st) (oi_location i)"
    and enc: "encode_issues issues = Some v"
  shows "decode_issues nd st v = Inr (map frozen_issue issues)"
proof (cases "issues = []")
  case True
  with enc show ?thesis by (simp add: encode_issues_def decode_issues_def)
next
  case False
  with enc obtain t where t: "v = Some t" "canonical (JArr (map issue_json issues)) = Some t"
    by (auto simp: encode_issues_def)
  have "plain_json (JArr (map issue_json issues))"
    by (auto simp: issue_json_def ascii_def)
  from canonical_loads [OF t(2) this]
  have l: "loads plain_hooks t = Some (JArr (map (sorted_members \<circ> issue_json) issues))" by simp
  have "map (decode_issue nd st) (map (sorted_members \<circ> issue_json) issues) = map (\<lambda>i. Some (frozen_issue i)) issues"
    using legal by (simp add: decode_issue_json)
  then have "all_some (map (decode_issue nd st) (map (sorted_members \<circ> issue_json) issues)) = Some (map frozen_issue issues)"
    by (simp only: all_some_Some)
  moreover have "encode_issues (map frozen_issue issues) = encode_issues issues"
    by (simp add: encode_issues_def comp_def)
  ultimately show ?thesis using l False t(1) enc by (simp add: decode_issues_def)
qed

section \<open>Every located issue can be encoded\<close>

lemma encodable_append [simp]: "encodable (s @ t) \<longleftrightarrow> encodable s \<and> encodable t"
  by (auto simp: encodable_def)

lemma encodable_Cons [simp]: "encodable (c # t) \<longleftrightarrow> \<not> high_surrogate c \<and> \<not> low_surrogate c \<and> encodable t"
  by (auto simp: encodable_def)

lemma encodable_Nil [simp]: "encodable []"
  by (simp add: encodable_def)

lemma small_plain [simp]: "c < 0xD800 \<Longrightarrow> \<not> high_surrogate c \<and> \<not> low_surrogate c"
  by (simp add: high_surrogate_def low_surrogate_def)

lemma encodable_small: "\<forall>c \<in> set s. c < 0xD800 \<Longrightarrow> encodable s"
  by (simp add: encodable_def)

lemma encodable_ascii [simp]: "encodable (ascii s)"
proof (rule encodable_small, rule ballI)
  fix c assume "c \<in> set (ascii s)"
  then obtain x where x: "c = of_char x" by (auto simp: ascii_def)
  have "of_char x < (256 :: nat)" by (rule nat_of_char_less_256)
  also have "\<dots> < 0xD800" by simp
  finally show "c < 0xD800" unfolding x .
qed

lemma encodable_print:
  assumes "encodable s" shows "encodable (print_string s)"
proof -
  have "hex_digit (c div 16) < 0xD800" "hex_digit (c mod 16) < 0xD800" if "c < 32" for c
    using that mod_less_divisor [of 16 c] by (cases "c mod 16 < 10"; simp add: hex_digit_def; linarith)+
  then have "encodable (escape_char c)" if "\<not> high_surrogate c" "\<not> low_surrogate c" for c
    using that by (simp add: escape_char_def)
  with assms have "encodable (concat (map escape_char s))" by (induction s) simp_all
  then show ?thesis by (simp add: print_string_def)
qed

lemma encodable_commas: "encodable (commas xs) \<longleftrightarrow> (\<forall>x \<in> set xs. encodable x)"
proof -
  have "encodable (concat (map (\<lambda>z. 44 # z) ys)) \<longleftrightarrow> (\<forall>y \<in> set ys. encodable y)" for ys
    by (induction ys) simp_all
  then show ?thesis by (cases xs) (simp_all add: commas_def)
qed

lemma encodable_dec_int: "encodable (dec_int i)"
proof -
  have "encodable (dec n)" for n
    by (rule encodable_small) (auto dest: dec_digits simp: is_digit_def)
  then show ?thesis by (simp add: dec_int_def)
qed

lemma encode_located:
  assumes "\<forall>n \<in> set names. encodable n" "set issues \<subseteq> located names"
  shows "encode_issues issues \<noteq> None"
proof -
  have loc: "encodable (oi_location i)" if i: "i \<in> set issues" for i
  proof -
    obtain ps where ps: "set ps \<subseteq> name_parts names" "oi_location i = ascii ''$'' @ concat ps"
      using assms(2) i by (auto simp: located_def)
    have "encodable p" if "p \<in> name_parts names" for p
      using that assms(1) encodable_dec_int by (auto simp: name_parts_def index_text_def)
    then have "encodable (concat ps)" using ps(1) by (induction ps) auto
    with ps(2) show ?thesis by simp
  qed
  have "encodable (dumps (issue_json i))" if "i \<in> set issues" for i
    using loc [OF that]
    by (simp add: issue_json_def encodable_commas encodable_print)
  then have "encodable (dumps (JArr (map issue_json issues)))"
    by (simp add: encodable_commas)
  moreover have "printable_json (JArr (map issue_json issues))" by (simp add: issue_json_def)
  ultimately show ?thesis by (simp add: encode_issues_def canonical_def)
qed

section \<open>What the validator reports is located\<close>

text \<open>pydantic's list positions are never negative.\<close>

definition positions_ok :: "'a validator \<Rightarrow> bool" where
  "positions_ok model \<longleftrightarrow>
     (\<forall>j errs. model j = Inl errs \<longrightarrow> (\<forall>e \<in> set errs. \<forall>i. Index i \<in> set (pe_loc e) \<longrightarrow> 0 \<le> i))"

lemma located_parts:
  "set ps \<subseteq> name_parts names \<Longrightarrow> l = ascii ''$'' @ concat ps \<Longrightarrow> mk_issue l c \<in> located names"
  by (auto simp: located_def mk_issue_def)

lemma located_root [simp]: "mk_issue (ascii ''$'') c \<in> located names"
  by (rule located_parts [of "[]"]) simp_all

lemma located_field:
  assumes "ascii n \<in> set names" shows "mk_issue (ascii (''$.'' @ n)) c \<in> located names"
  using assms by (intro located_parts [of "[46 # ascii n]"]) (simp_all add: name_parts_def ascii_def)

lemma located_indexed:
  assumes "ascii n \<in> set names" shows "mk_issue (indexed (''$.'' @ n) i) c \<in> located names"
  using assms
  by (intro located_parts [of "[46 # ascii n, index_text (int i)]"]) (auto simp: name_parts_def ascii_def indexed_def)

lemma located_pydantic:
  assumes "known \<union> {extra_field_mask} \<subseteq> set names"
    and "\<forall>e \<in> set errs. \<forall>i. Index i \<in> set (pe_loc e) \<longrightarrow> 0 \<le> i"
  shows "set (issues_from_pydantic errs known) \<subseteq> located names"
proof
  fix x assume "x \<in> set (issues_from_pydantic errs known)"
  then obtain e where e: "e \<in> set errs"
      "x = mk_issue (safe_location (pe_loc e) (category_for_pydantic_error e) known (ascii ''$'')) (category_for_pydantic_error e)"
    by (auto simp: issues_from_pydantic_def Let_def)
  have "safe_part known q \<in> name_parts names" if "q \<in> set (pe_loc e)" for q
    using assms e(1) that by (cases q) (auto simp: name_parts_def)
  moreover have "46 # extra_field_mask \<in> name_parts names" using assms(1) by (simp add: name_parts_def)
  ultimately show "x \<in> located names" unfolding e(2)
    by (intro located_parts [of "if category_for_pydantic_error e = Extra_Field then [46 # extra_field_mask]
        else map (safe_part known) (pe_loc e)"]) (auto simp: safe_location_def)
qed

lemma located_model:
  assumes "known \<union> {extra_field_mask} \<subseteq> set names" "positions_ok model"
  shows "reported (validate_model fl model payload known) \<subseteq> located names"
proof (cases "decode_payload fl payload")
  case (Some j)
  show ?thesis
  proof (cases "model j")
    case (Inl errs)
    with assms(2) have "\<forall>e \<in> set errs. \<forall>i. Index i \<in> set (pe_loc e) \<longrightarrow> 0 \<le> i"
      by (simp add: positions_ok_def)
    from located_pydantic [OF assms(1) this] Some Inl show ?thesis by (simp add: validate_model_def)
  qed (use Some in \<open>simp add: validate_model_def\<close>)
qed (simp add: validate_model_def)

lemma located_text: "ascii n \<in> set names \<Longrightarrow> set (text_issue cf (''$.'' @ n) v) \<subseteq> located names"
  using located_field by (simp add: text_issue_def)

lemma located_boundary:
  assumes "positions_ok (md_boundary (env_models env))"
  shows "reported (validate_output env (Some Kind_Boundary) payload No_Context) \<subseteq> located (location_names (Some Stage_Boundary))"
proof -
  let ?names = "location_names (Some Stage_Boundary)"
  have sub: "boundary_fields \<union> {extra_field_mask} \<subseteq> set ?names"
    by (auto simp: location_names_def boundary_names_def boundary_fields_def)
  have "ascii ''reason_zh'' \<in> set ?names" by (simp add: location_names_def boundary_names_def)
  from located_text [OF this] located_model [OF sub assms] show ?thesis
    by (simp add: validate_output_def validate_boundary_output_def reported_and_then)
qed

lemma located_lists:
  assumes "ascii ''value_types'' \<in> set names" "ascii ''topic_ids'' \<in> set names"
  shows "set (value_type_issues i seen ts) \<subseteq> located names" "set (topic_issues enabled i seen2 ns) \<subseteq> located names"
proof -
  show "set (value_type_issues i seen ts) \<subseteq> located names"
    using located_indexed [OF assms(1)] by (induction i seen ts rule: value_type_issues.induct) auto
  show "set (topic_issues enabled i seen2 ns) \<subseteq> located names"
    using located_indexed [OF assms(2)] by (induction enabled i seen2 ns rule: topic_issues.induct) auto
qed

lemma located_business: "set (value_prediction_business_issues cf out c) \<subseteq> located (location_names (Some Stage_Value))"
proof -
  let ?names = "location_names (Some Stage_Value)"
  have n: "ascii ''research_value_reason_zh'' \<in> set ?names" "ascii ''reuse_feasibility_reason_zh'' \<in> set ?names"
      "ascii ''abstract_brief_zh'' \<in> set ?names" "ascii ''why_it_may_matter_zh'' \<in> set ?names"
      "ascii ''display_title_zh'' \<in> set ?names" "ascii ''value_types'' \<in> set ?names" "ascii ''topic_ids'' \<in> set ?names"
    by (simp_all add: location_names_def value_names_def)
  note T = located_text [OF n(1)] located_text [OF n(2)] located_text [OF n(3)] located_text [OF n(4)] located_text [OF n(5)]
  note F = located_field [OF n(5)] located_field [OF n(2)] located_field [OF n(6)]
  show ?thesis
    unfolding value_prediction_business_issues_def
    using T [simplified] F [simplified] located_lists [OF n(6,7)]
    by (cases "vo_display_title_zh out") (simp_all add: set_if_issue)
qed

lemma located_value:
  assumes "positions_ok (md_value (env_models env))"
  shows "reported (validate_output env (Some Kind_Value_Prediction) payload (Value_Context c)) \<subseteq>
    located (location_names (Some Stage_Value))"
proof -
  have sub: "value_fields \<union> {extra_field_mask} \<subseteq> set (location_names (Some Stage_Value))"
    by (auto simp: location_names_def value_names_def value_fields_def)
  have "validate_context value_instance (Value_Context c) m known = Inr c" for m known
    by (simp add: validate_context_def)
  with located_model [OF sub assms] located_business show ?thesis
    by (simp add: validate_output_def validate_value_output_def reported_and_then)
qed

section \<open>A rejection can be recorded\<close>

lemma stage_names_encodable: "\<forall>n \<in> set (location_names st). encodable n"
  by (cases st rule: option.exhaust; (cases "the st")?)
    (simp_all add: location_names_def boundary_names_def value_names_def extra_field_mask_def)

lemma rejection_recordable_lemma:
  assumes nd: "digit_class nd"
    and models: "positions_ok (md_boundary (env_models (cv_output env)))" "positions_ok (md_value (env_models (cv_output env)))"
    and rej: "validate_candidate_output env frozen raw = Inr (Inl issues)"
  shows "\<exists>v. encode_issues issues = Some v \<and>
    decode_issues nd (Some (si_stage (fz_stage_input frozen))) v = Inr (map frozen_issue issues)"
proof -
  let ?st = "si_stage (fz_stage_input frozen)"
  have loc: "set issues \<subseteq> located (location_names (Some ?st))"
  proof (cases ?st)
    case Stage_Boundary
    with rej have v: "validate_output (cv_output env) (Some Kind_Boundary) (Bytes_Payload raw) No_Context = Inl issues"
      by (simp add: validate_candidate_output_def)
    from located_boundary [OF models(1), of "Bytes_Payload raw"] show ?thesis
      unfolding v Stage_Boundary by simp
  next
    case Stage_Value
    with rej obtain c where v: "validate_output (cv_output env) (Some Kind_Value_Prediction) (Bytes_Payload raw)
        (Value_Context c) = Inl issues"
      by (auto simp: validate_candidate_output_def split: option.splits)
    from located_value [OF models(2), of "Bytes_Payload raw" c] show ?thesis
      unfolding v Stage_Value by simp
  qed
  then obtain v where v: "encode_issues issues = Some v"
    using encode_located [OF stage_names_encodable] by blast
  have "\<forall>i \<in> set issues. legal_location nd (location_names (Some ?st)) (oi_location i)"
    using located_legal [OF nd] loc by blast
  from decode_encode_issues [OF this v] v show ?thesis by blast
qed

end
