(* ===== verification/Task_Properties.thy ===== *)
theory Task_Properties
  imports Task_Samples_Retry Task_Records
begin

text \<open>The properties of the screening task service, over every world its transactions can reach
  (\<open>reachable\<close>), each with a concrete history at which it applies.\<close>

text \<open>A model validation that rejects every output, for a rejection to be recorded.\<close>

definition strict_models :: models where
  "strict_models = \<lparr>md_boundary = (\<lambda>_. Inl [\<lparr>pe_type = ''missing'', pe_loc = [Name (ascii ''boundary'')],
       pe_input_is_str = False\<rparr>]),
     md_value = (\<lambda>_. Inl []), md_reuse = (\<lambda>_. Inl []), md_value_context = (\<lambda>_. Inl []),
     md_reuse_context = (\<lambda>_. Inl []), md_reason = (\<lambda>_. Inl [])\<rparr>"

definition strict_env :: env where
  "strict_env = \<lparr>env_float = id, env_fold = (\<lambda>c. [c]), env_models = strict_models\<rparr>"

lemma dumps_sorted_members: "dumps (sorted_members j) = dumps j"
proof (induction j rule: dumps.induct)
  case (6 xs)
  then show ?case by (simp cong: map_cong)
next
  case (7 kvs)
  let ?p = "\<lambda>(k, v). (k, print_string k @ 58 # dumps v)" and ?s = "\<lambda>(k, v). (k, sorted_members v)"
  have "map ?p (sort_key fst (map ?s kvs)) = map ?p (map ?s (sort_key fst kvs))"
    by (simp only: sort_key_fst_map)
  also have "\<dots> = map ?p (sort_key fst kvs)" using 7 by auto
  also have "\<dots> = sort_key fst (map ?p kvs)" by (simp only: sort_key_fst_map)
  finally have "sort_key fst (map ?p (sort_key fst (map ?s kvs))) = sort_key fst (map ?p kvs)" by simp
  then show ?case by (simp only: sorted_members.simps dumps.simps)
qed simp_all

lemma printable_sorted_members: "printable_json (sorted_members j) = printable_json j"
  by (induction j rule: dumps.induct) (auto simp: case_prod_unfold)

section \<open>The history\<close>

text \<open>
  C1: in every reachable world the task history is sound: keys are unique, every attempt has
  a lease and at most one settlement, attempts are numbered 1 and 2 with the first failed before
  the second starts, generations chain through failed tasks, and instants never run backwards.
\<close>

theorem history_sound:
  assumes "reachable sys w"
  shows "sound (w_db w)"
  using assms by (rule reachable_sound)

theorem history_sound_witness: "sound sample_db8"
  using history_sound [OF reachable8] by simp

text \<open>
  C2: every service call refines the abstract contract: from a reachable world it performs a
  sequence of legal fact steps, and never removes or rewrites a recorded row, with one exception: the
  expiry of a lease may change, later or earlier, while its attempt is open, to an instant that is
  ten minutes after the claim at least.
\<close>

theorem transition_refines_steps:
  assumes "reachable sys w" and "transition sys w w'"
  shows "fact_step\<^sup>*\<^sup>* (w_db w) (w_db w') \<and> extends (w_db w) (w_db w') \<and> leases_kept (w_db w) (w_db w')"
  using transition_refines [OF assms(2) reachable_ok [OF assms(1)]] steps_extends steps_leases reachable_sound [OF assms(1)]
  by blast

text \<open>A renewal under an earlier clock brings the expiry forward, from 900 to 700 seconds.\<close>

theorem transition_refines_steps_witness:
  "transition sample_sys (sample_world (sample_renewed 300) []) (sample_world (sample_renewed 100) []) \<and>
     ls_expires_at (sample_lease 1 100) \<noteq> ls_expires_at (sample_lease 1 300) \<and>
     leases_kept (sample_renewed 300) (sample_renewed 100)"
proof -
  have t: "transition sample_sys (sample_world (sample_renewed 300) []) (sample_world (sample_renewed 100) [])"
    using transition.renew [of "Utc (later 100)" sample_sys "sample_credential 1" "sample_world (sample_renewed 300) []"
        "Inr (later 700)" "sample_renewed 100"] sample_renew [of 300 100] sample_clock [of 100] by simp
  have "ls_expires_at (sample_lease 1 100) \<noteq> ls_expires_at (sample_lease 1 300)"
    using read_timestamp_timestamp [OF later_valid [of 700]] read_timestamp_timestamp [OF later_valid [of 900]]
    by (auto simp: sample_lease_def later_def)
  with transition_refines_steps [OF reachable_renewed t] t show ?thesis by simp
qed

text \<open>
  C3: exclusion: of all attempts of all generations of a budget, at most one is not failed;
  in particular a budget never has two running attempts.
\<close>

theorem one_unfailed_attempt:
  assumes "reachable sys w"
    and "claimed (w_db w) (t, n)" "\<not> failed (w_db w) (t, n)" "on_budget (w_db w) t b"
    and "claimed (w_db w) (u, m)" "\<not> failed (w_db w) (u, m)" "on_budget (w_db w) u b"
  shows "t = u \<and> n = m"
  using unfailed_unique [OF reachable_sound [OF assms(1)] assms(2-7)] .

theorem one_unfailed_attempt_witness:
  "{n. claimed sample_db6 (''t'', n) \<and> \<not> failed sample_db6 (''t'', n)} = {2}"
proof -
  have two: "claimed sample_db6 (''t'', 2)" "\<not> failed sample_db6 (''t'', 2)" "on_budget sample_db6 ''t'' ''b''"
    by (simp_all add: sample_dbs sample_attempt_def failed_rec_fields on_budget_def sample_task_def)
  have only: "n = 2" if "claimed sample_db6 (''t'', n) \<and> \<not> failed sample_db6 (''t'', n)" for n
    using one_unfailed_attempt [OF reachable6, of "''t''" n "''b''" "''t''" 2] that two by simp
  show ?thesis
  proof (rule Collect_cong [THEN trans])
    show "claimed sample_db6 (''t'', n) \<and> \<not> failed sample_db6 (''t'', n) \<longleftrightarrow> n = 2" for n
    proof
      assume "n = 2"
      then show "claimed sample_db6 (''t'', n) \<and> \<not> failed sample_db6 (''t'', n)"
        using two(1,2) by (simp only: not_False_eq_True simp_thms)
    qed (rule only)
  qed simp
qed

text \<open>
  C28: bounds: a task has at most two attempts, a budget at most one success, and no attempt is
  both failed and succeeded.
\<close>

theorem attempts_bounded:
  assumes "reachable sys w"
  shows "card {n. claimed (w_db w) (t, n)} \<le> 2 \<and>
    card {s \<in> set (db_successes (w_db w)). su_budget_id s = b} \<le> 1 \<and>
    \<not> (failed (w_db w) k \<and> succeeded (w_db w) k)"
proof -
  note S = reachable_sound [OF assms]
  have "card {s \<in> set (db_successes (w_db w)). su_budget_id s = b} \<le> 1"
  proof (cases "{s \<in> set (db_successes (w_db w)). su_budget_id s = b} = {}")
    case False
    then obtain s where s: "s \<in> set (db_successes (w_db w))" "su_budget_id s = b" by blast
    have "{s \<in> set (db_successes (w_db w)). su_budget_id s = b} = {s}"
      using s won_unique [OF S] by blast
    then show ?thesis by simp
  next
    case True
    show ?thesis unfolding True by simp
  qed
  with attempt_bound [OF S] settled_claimed(3) [OF S, of k] show ?thesis by blast
qed

theorem attempts_bounded_witness: "card {n. claimed sample_db8 (''t'', n)} \<le> 2"
  using attempts_bounded [OF reachable8, of "''t''"] by simp

text \<open>
  C27: reads never fail on a reachable history: \<open>read_attempts\<close> returns the rows of every task, and
  a receipt handed out still names a task of its budget.
\<close>

theorem reads_never_corrupt:
  assumes "reachable sys w"
  shows "read_attempts (w_db w) t = Inr (attempt_rows (w_db w) t) \<and>
    (\<forall>r \<in> set (w_receipts w). on_budget (w_db w) (rc_task_id r) (rc_budget_id r))"
  using reachable_ok [OF assms] read_attempts_total by (auto simp: world_ok_def receipt_ok_def)

theorem reads_never_corrupt_witness: "read_attempts sample_db6 ''t'' = Inr (attempt_rows sample_db6 ''t'')"
  using reads_never_corrupt [OF reachable6, of "''t''"] by simp

text \<open>
  The derived status of a task is a function of its facts: succeeded, running, expired, failed,
  retryable or ready as \<open>state_spec\<close> reads them off the tables, with the number of attempts used
  and left.
\<close>

theorem status_reads_facts:
  assumes "reachable sys w"
  shows "\<exists>st. status_op (Utc now) r (w_db w) = Inr st \<and> ts_task_id st = rc_task_id r \<and>
    ts_state st = state_spec (w_db w) (rc_task_id r) now \<and>
    ts_used_attempts st = card {n. claimed (w_db w) (rc_task_id r, n)} \<and>
    ts_remaining_attempts st = 2 - card {n. claimed (w_db w) (rc_task_id r, n)}"
proof -
  note S = reachable_sound [OF assms]
  from status_spec_lemma [OF S, of "rc_task_id r" now] show ?thesis
    by (auto simp: status_op_def read_attempts_total [OF S] dest: derive_status_task)
qed

theorem status_reads_facts_witness:
  "\<exists>st. status_op (Utc (later 1)) sample_receipt sample_db2 = Inr st \<and> ts_state st = Running"
proof -
  have "state_spec sample_db2 ''t'' (later 1) = Running"
    by (auto simp: state_spec_def lease_live_def open_attempt_def sample_db2_def sample_db1_def empty_db_def
        sample_attempt_def sample_lease_def read_timestamp_timestamp later_valid later_le)
  with status_reads_facts [OF reachable2, of "later 1" sample_receipt] show ?thesis
    by (auto simp: sample_receipt_def)
qed

section \<open>Claims\<close>

text \<open>
  C4: what a returned claim guarantees: it is the next attempt of its task, within the two of a
  generation, on a budget not yet won; its lease lasts ten minutes; the attempt is open in the
  database the claim leaves; and the status shows it running until the lease expires.
\<close>

theorem claim_contract:
  assumes "reachable sys w" "r \<in> set (w_receipts w)" "good_clock (ce_clock_in_txn env)"
    and "claim_op sys env r fp (w_db w) = (Inr c, db')" "valid_instant s"
  shows "cl_attempt_no c = card {n. claimed (w_db w) (rc_task_id r, n)} + 1 \<and> cl_attempt_no c \<le> 2 \<and>
    \<not> won (w_db w) (rc_budget_id r) \<and> cl_expires_at c = cl_claimed_at c + 600 * 1000000 \<and>
    open_attempt db' (rc_task_id r, cl_attempt_no c) \<and>
    (\<exists>st. status_op (Utc s) r db' = Inr st \<and> ts_used_attempts st = cl_attempt_no c \<and>
       ts_state st = (if cl_expires_at c \<le> s then Lease_Expired else Running))"
proof -
  have W: "world_ok w" by (rule reachable_ok [OF assms(1)])
  then have S: "sound (w_db w)" and R: "receipt_ok (w_db w) r" using assms(2) by (auto simp: world_ok_def)
  note C = claim_contract_lemma [OF S R assms(3,4)]
  have "card {n. claimed (w_db w) (rc_task_id r, n)} = length (attempt_rows (w_db w) (rc_task_id r))"
    using claimed_numbers [OF S] by simp
  with C(1-5) C(6) [OF assms(5)] show ?thesis by (auto simp: lease_span_def lease_seconds_def)
qed

theorem claim_contract_witness: "open_attempt sample_db2 (''t'', 1)"
  using claim_contract [OF reachable1, of sample_receipt "sample_claim_env 1 (later 0)" "''f''" "sample_claim 1 0"
      sample_db2 "later 0"] sample_claim1 sample_clock [of 0] later_valid [of 0]
  by (simp add: sample_claim_env_def sample_claim_def sample_receipt_def)

text \<open>
  C5: progress: a claim returns whenever the history allows one. If the receipt is current, the facts
  are unchanged, the budget is not won, fewer than two attempts were used, none is running, no
  failure lies in the future and the random credentials are new, then the claim succeeds with
  the next number.
\<close>

theorem claim_progress:
  assumes "reachable sys w" and "get_receipt_op (rc_receipt_id r) (w_db w) = Inr r"
    and "claim_prepare env r fp = Inr basis" "ce_current env = Inr basis"
    and "ce_clock_in_txn env = Utc now" "valid_instant now" "lease_expiry now = Inr expires"
    and "ce_preclaim env = None" "\<not> won (w_db w) (rc_budget_id r)"
    and "state_spec (w_db w) (rc_task_id r) now \<in> {Ready, Retryable, Lease_Expired}"
    and "card {n. claimed (w_db w) (rc_task_id r, n)} < 2" "past_failures (w_db w) (rc_task_id r) now"
    and "digest (sy_sha sys) (ce_credential env) \<notin> at_credential ` set (db_attempts (w_db w))"
    and "digest (sy_sha sys) (ce_renewal env) \<notin> at_renewal ` set (db_attempts (w_db w))"
  shows "\<exists>c db'. claim_op sys env r fp (w_db w) = (Inr c, db') \<and>
    cl_attempt_no c = card {n. claimed (w_db w) (rc_task_id r, n)} + 1"
  by (rule claim_progress_lemma [OF reachable_sound [OF assms(1)] assms(2-)])

theorem claim_progress_witness:
  "\<exists>c db'. claim_op sample_sys (sample_claim_env 1 (later 0)) sample_receipt ''f'' sample_db1 = (Inr c, db') \<and>
     cl_attempt_no c = 1"
proof -
  have "state_spec sample_db1 ''t'' (later 0) = Ready"
    by (simp add: state_spec_def open_attempt_def sample_db1_def empty_db_def)
  moreover have "claim_prepare (sample_claim_env 1 (later 0)) sample_receipt ''f'' = Inr sample_basis"
    by (simp add: sample_prepare)
  ultimately show ?thesis
    using claim_progress [OF reachable1, of sample_receipt "sample_claim_env 1 (later 0)" "''f''" sample_basis
        "later 0" "later 600"] sample_read later_valid [of 0] later_expiry [of 0]
    by (simp add: sample_receipt_def sample_claim_env_def sample_db1_def empty_db_def won_def past_failures_def)
qed

section \<open>Fencing and replay\<close>



text \<open>
  C7: an attempt recovered after its lease expired belongs to nobody: its credential is refused for
  every failure report and every settlement.
\<close>

theorem recovered_claim_refused:
  assumes "reachable sys w" "f \<in> set (db_failures (w_db w))"
    and "fl_key f = (cl_task_id c, cl_attempt_no c)" "fl_origin f = By_Recovery" "is_executor_failure kind"
  shows "fail_op sys clock c kind origin (w_db w) = (fails Invalid_Credential, w_db w) \<and>
    commit (settle_body sys env clock i c cand p) (w_db w) = (fails Invalid_Credential, w_db w)"
  using recovered_fenced [OF reachable_sound [OF assms(1)] assms(2-5)] by blast

theorem recovered_claim_refused_witness:
  "fail_op sample_sys (Utc (later 700)) (sample_claim 1 0) Timeout By_Executor sample_db4 =
     (fails Invalid_Credential, sample_db4)"
proof -
  have "recovered_rec \<in> set (db_failures sample_db4)" "fl_key recovered_rec = (cl_task_id (sample_claim 1 0), cl_attempt_no (sample_claim 1 0))"
      "fl_origin recovered_rec = By_Recovery" "is_executor_failure Timeout"
    by (simp_all add: sample_db4_def recovered_rec_def sample_claim_def is_executor_failure_def executor_failures_def)
  with recovered_claim_refused [OF reachable4, of recovered_rec "sample_claim 1 0" Timeout] show ?thesis by simp
qed

text \<open>
  C9: a failure report is idempotent: repeating it, at any later clock, returns the same receipt and
  leaves the database as the first report left it.
\<close>

theorem fail_replays:
  assumes "reachable sys w" "good_clock clock" "legal_origin origin kind"
    and "fail_op sys clock c kind origin (w_db w) = (Inr x, db')"
  shows "fail_op sys clock2 c kind origin db' = (Inr x, db')"
  using fail_replay_lemma [OF reachable_sound [OF assms(1)] assms(2-4)] .

theorem fail_replays_witness:
  "fail_op sample_sys (Utc (later 9)) (sample_claim 1 0) Timeout By_Executor sample_db3 =
     (Inr sample_failure_receipt, sample_db3)"
  using fail_replays [OF reachable2, of "Utc (later 1)" By_Executor Timeout "sample_claim 1 0"
      sample_failure_receipt sample_db3 "Utc (later 9)"] sample_fail sample_clock [of 1]
  by (simp add: legal_origin_def)

text \<open>
  C8: a submission is idempotent: when it settled the attempt, whatever other writers did between its
  two phases, submitting the same candidate again returns the same settlement and changes
  nothing.
\<close>

theorem submit_replays:
  assumes "reachable sys w" "reachable sys w2" "extends (w_db w) (w_db w2)" "good_clock clock"
    and "submit_op sys env clock new_id c cand (w_db w) (w_db w2) = (Inr x, db')"
  shows "submit_op sys env clock2 id2 c cand db' db' = (Inr x, db')"
  using submit_replay_lemma [OF reachable_sound [OF assms(1)] reachable_sound [OF assms(2)] assms(3-5)] .

theorem submit_replays_witness:
  "submit_op sample_sys sample_candidate_env (Utc (later 9)) [] (sample_claim 1 0) sample_candidate sample_db5 sample_db5 =
     (Inr sample_settlement, sample_db5)"
  using submit_replays [OF reachable2 reachable2, of "Utc (later 1)" sample_candidate_env "[]" "sample_claim 1 0"
      sample_candidate sample_settlement sample_db5 "Utc (later 9)" "[]"] sample_submit sample_clock [of 1]
  by simp

text \<open>
  C10: reclaiming settles: after a reclaim the status is never an expired lease, and a second reclaim
  at the same clock changes nothing and reports the same status. At any other clock a second reclaim
  changes nothing either, unless the status is running and the lease of the open attempt has expired
  by then.
\<close>

theorem reclaim_settles:
  assumes "reachable sys w" "good_clock clock" "reclaim_op clock r (w_db w) = (Inr st, db')"
  shows "reclaim_op clock r db' = (Inr st, db') \<and> ts_state st \<noteq> Lease_Expired \<and>
    (snd (reclaim_op clock2 r db') = db' \<or>
     ts_state st = Running \<and>
       (\<exists>now. clock2 = Utc now \<and> (\<exists>l \<in> set (db_leases db'). ls_task_id l = rc_task_id r \<and> open_attempt db' (ls_key l) \<and>
          (\<exists>e. read_timestamp (ls_expires_at l) = Some e \<and> e \<le> now))))"
proof -
  have S: "sound (w_db w)" by (rule reachable_sound [OF assms(1)])
  note A = reclaim_again [OF S assms(2,3)]
  have S': "sound db'"
  proof -
    from assms(3) have "reclaim_body clock r (w_db w) = Inr (st, db')" by (auto simp: reclaim_op_def elim: commit_cases)
    from reclaim_body_refines [OF S assms(2) this] S show ?thesis by (auto dest: step_sound)
  qed
  obtain out db2 where op: "reclaim_op clock2 r db' = (out, db2)" by (metis surj_pair)
  show ?thesis
  proof (cases "db2 = db'")
    case False
    from reclaim_changes [OF S' op False] obtain now l e where "clock2 = Utc now" "l \<in> set (db_leases db')"
      "ls_task_id l = rc_task_id r" "open_attempt db' (ls_key l)" "read_timestamp (ls_expires_at l) = Some e" "e \<le> now"
      by metis
    with A reclaim_running [OF S' A op False] show ?thesis by blast
  qed (use A op in simp)
qed

theorem reclaim_settles_witness:
  "reclaim_op (Utc (later 600)) sample_receipt sample_db4 = (Inr sample_status, sample_db4)"
  using reclaim_settles [OF reachable2, of "Utc (later 600)" sample_receipt sample_status sample_db4]
    sample_reclaim sample_clock [of 600] by simp

section \<open>Registration and retry\<close>

text \<open>
  C11: a registration is idempotent: the same request on the database it left returns the same receipt
  and inserts nothing.
\<close>

theorem register_repeats:
  assumes "reachable sys w" "register_body sha env q input basis (w_db w) = Inr (x, db')"
  shows "register_body sha env q input basis db' = Inr (x, db')"
  using register_repeat_lemma [OF reachable_sound [OF assms(1)] assms(2)] .

theorem register_repeats_witness:
  "register_body sample_sha sample_register_env sample_request sample_input sample_basis sample_db1 =
     Inr (sample_receipt, sample_db1)"
  using register_repeats [OF reachable.initial, of sample_sha sample_register_env sample_request sample_input
      sample_basis sample_receipt sample_db1] sample_register by (simp add: initial_world_def)

text \<open>
  C12: a task is retried once: after a retry opened its successor, every other retry request for the
  same task, in any later world, is refused with the successor it must follow.
\<close>

theorem retry_has_one_successor:
  assumes "reachable sys w" "good_clock (ry_clock env)"
    and "retry_body sha env q parent input basis (w_db w) = Inr (x, db')"
    and "replay_request sha (w_db w) q = Inr None"
    and "reachable sys w2" "extends db' (w_db w2)"
    and "replay_request sha (w_db w2) q2 = Inr None" "ry_current env2 = Inr basis2"
      "rq_paper_id q2 = rq_paper_id q" "rq_stage q2 = rq_stage q" "si_fingerprint input2 = si_fingerprint input"
  shows "retry_body sha env2 q2 parent input2 basis2 (w_db w2) =
    Inl (Task_Error Already_Retried (Some (ry_new_task env)))"
  using retry_successor_lemma [OF reachable_sound [OF assms(1)] assms(2-4) reachable_sound [OF assms(5)] assms(6-)] .

theorem retry_has_one_successor_witness:
  "retry_body sample_sha (sample_retry_env ''z'') (sample_retry ''q2'') ''t'' sample_input sample_basis sample_db8 =
     Inl (Task_Error Already_Retried (Some ''u''))"
proof -
  have 1: "replay_request sample_sha sample_db6 (sample_retry ''q'') = Inr None"
    by (simp add: replay_request_def sample_dbs sample_row_def new_request_def sample_request_def sample_retry_def
        ascii_def)
  have 2: "replay_request sample_sha sample_db8 (sample_retry ''q2'') = Inr None"
    by (simp add: replay_request_def sample_db8_def sample_row_def sample_retry_row_def new_request_def
        sample_request_def sample_retry_def ascii_def)
  show ?thesis
    using retry_has_one_successor [OF reachable6 _ _ _ reachable8, of "sample_retry_env ''u''" sample_sha
        "sample_retry ''q''" "''t''" sample_input sample_basis sample_retry_receipt sample_db8 "sample_retry ''q2''"
        "sample_retry_env ''z''" sample_basis sample_input]
      sample_retry_body 1 2 sample_clock [of 700]
    by (simp add: sample_retry_env_def sample_retry_def)
qed

section \<open>Records\<close>

text \<open>
  C29: every rejection of the output validator can be recorded: its locations match the pattern the
  failure record accepts for the stage, and the stored text reads back as the same issues with
  the frozen guidance, so a rejected candidate never turns into a corrupt record.
\<close>

theorem rejection_recordable:
  assumes "digit_class nd" "positions_ok (md_boundary (env_models (cv_output env)))"
    "positions_ok (md_value (env_models (cv_output env)))"
    and "validate_candidate_output env frozen raw = Inr (Inl issues)"
  shows "\<exists>v. encode_issues issues = Some v \<and>
    decode_issues nd (Some (si_stage (fz_stage_input frozen))) v = Inr (map frozen_issue issues)"
  using rejection_recordable_lemma [OF assms] .

theorem rejection_recordable_witness:
  "\<exists>issues v. validate_candidate_output (sample_candidate_env\<lparr>cv_output := strict_env\<rparr>) sample_frozen [123, 125] =
     Inr (Inl issues) \<and> encode_issues issues = Some v \<and>
     decode_issues (sy_nd sample_sys) (Some Stage_Boundary) v = Inr (map frozen_issue issues)"
proof -
  let ?env = "sample_candidate_env\<lparr>cv_output := strict_env\<rparr>"
  obtain issues where rej: "validate_candidate_output ?env sample_frozen [123, 125] = Inr (Inl issues)"
    by (cases "decode_payload (env_float strict_env) (Bytes_Payload [123, 125])")
      (simp_all add: validate_candidate_output_def sample_frozen_def sample_input_def validate_output_def
        validate_boundary_output_def validate_model_def strict_env_def strict_models_def)
  have "digit_class (sy_nd sample_sys)" by (simp add: digit_class_def sample_sys_def)
  moreover have "positions_ok (md_boundary (env_models (cv_output ?env)))" "positions_ok (md_value (env_models (cv_output ?env)))"
    by (simp_all add: positions_ok_def strict_env_def strict_models_def)
  ultimately show ?thesis
    using rejection_recordable [OF _ _ _ rej, of "sy_nd sample_sys"] rej
    by (auto simp: sample_frozen_def sample_input_def)
qed

text \<open>
  The stored instants round trip: \<open>read_timestamp\<close> reads back what \<open>timestamp\<close> wrote for every
  instant of the years 1 to 9999, and accepts no other text.
\<close>

theorem timestamp_round_trip:
  assumes "valid_instant i"
  shows "read_timestamp (timestamp i) = Some i \<and> {v. read_timestamp v = Some i} = {timestamp i}"
  using read_timestamp_timestamp [OF assms] read_timestamp_canonical [of _ i] by blast

theorem timestamp_round_trip_witness: "read_timestamp (timestamp 63000000000000000) = Some 63000000000000000"
  using timestamp_round_trip [of 63000000000000000] valid_sample by (simp add: sample_now_def)

text \<open>
  The canonical JSON of the digests and records round trips: reading what \<open>canonical\<close> wrote,
  under any of the program's hooks, gives the value with its members sorted.
\<close>

theorem canonical_round_trip:
  assumes "canonical j = Some t" "plain_json j"
  shows "loads h t = Some (sorted_members j) \<and> canonical (sorted_members j) = Some t"
  using canonical_loads [OF assms] assms(1)
  by (auto simp: canonical_def dumps_sorted_members printable_sorted_members split: if_splits)

theorem canonical_round_trip_witness:
  "loads plain_hooks sample_audit = Some (sorted_members (JObj (audit_members sample_candidate)))"
  using canonical_round_trip [OF sample_audit_canonical, of plain_hooks] by (simp add: audit_defs)

end
