(* ===== verification/Task_Rows.thy ===== *)
theory Task_Rows
  imports Task_Liveness
begin

text \<open>
  The contents of the recorded rows: secrets are digests, the issues of a failure read back,
  success identifiers are canonical UUIDs, and every budget has a task. With \<open>sound\<close> this is
  what the queries and the audits rely on.
\<close>

definition issues_readable :: "(nat \<Rightarrow> bool) \<Rightarrow> pystr option \<Rightarrow> bool" where
  "issues_readable nd v \<longleftrightarrow> (\<exists>issues. decode_issues nd None v = Inr issues)"

definition rows_ok :: "system \<Rightarrow> task_db \<Rightarrow> bool" where
  "rows_ok sys db \<longleftrightarrow>
     (\<forall>a \<in> set (db_attempts db). at_credential a \<in> range (digest (sy_sha sys)) \<and>
        at_renewal a \<in> range (digest (sy_sha sys))) \<and>
     (\<forall>f \<in> set (db_failures db). issues_readable (sy_nd sys) (fl_issues_json f)) \<and>
     (\<forall>s \<in> set (db_successes db). canonical_uuid (su_success_id s)) \<and>
     (\<forall>r \<in> set (db_requests db). \<forall>i \<in> set_option (re_cached_success_id r). canonical_uuid i) \<and>
     (\<forall>b \<in> set (db_budgets db). \<exists>t \<in> set (db_tasks db). tk_budget_id t = bg_budget_id b)"

lemma readable_None [simp]: "issues_readable nd None"
  by (simp add: issues_readable_def decode_issues_def)

lemma rows_attempt:
  "insert_attempt a db = Inr db' \<Longrightarrow> rows_ok sys db \<Longrightarrow> at_credential a \<in> range (digest (sy_sha sys)) \<Longrightarrow>
     at_renewal a \<in> range (digest (sy_sha sys)) \<Longrightarrow> rows_ok sys db'"
  by (frule insert_attemptD) (auto simp: rows_ok_def)

lemma rows_lease: "insert_lease l db = Inr db' \<Longrightarrow> rows_ok sys db \<Longrightarrow> rows_ok sys db'"
  by (frule insert_leaseD) (auto simp: rows_ok_def)

lemma rows_failure:
  "insert_failure f db = Inr db' \<Longrightarrow> rows_ok sys db \<Longrightarrow> issues_readable (sy_nd sys) (fl_issues_json f) \<Longrightarrow>
     rows_ok sys db'"
  by (frule insert_failureD) (auto simp: rows_ok_def)

lemma rows_success:
  "insert_success s db = Inr db' \<Longrightarrow> rows_ok sys db \<Longrightarrow> canonical_uuid (su_success_id s) \<Longrightarrow> rows_ok sys db'"
  by (frule insert_successD) (auto simp: rows_ok_def)

lemma rows_request:
  "insert_request r db = Inr db' \<Longrightarrow> rows_ok sys db \<Longrightarrow>
     \<forall>i \<in> set_option (re_cached_success_id r). canonical_uuid i \<Longrightarrow> rows_ok sys db'"
  by (frule insert_requestD) (auto simp: rows_ok_def)

lemma rows_input: "insert_input i db = Inr db' \<Longrightarrow> rows_ok sys db \<Longrightarrow> rows_ok sys db'"
  by (frule insert_inputD) (auto simp: rows_ok_def)

lemma rows_task: "insert_task t db = Inr db' \<Longrightarrow> rows_ok sys db \<Longrightarrow> rows_ok sys db'"
  by (frule insert_taskD) (auto simp: rows_ok_def)

lemma rows_budget:
  "insert_budget b db = Inr db1 \<Longrightarrow> insert_task t db1 = Inr db' \<Longrightarrow> tk_budget_id t = bg_budget_id b \<Longrightarrow>
     rows_ok sys db \<Longrightarrow> rows_ok sys db'"
  by (frule insert_budgetD, frule insert_taskD) (auto simp: rows_ok_def)

lemma rows_renewed [simp]: "rows_ok sys (update_lease t n e db) \<longleftrightarrow> rows_ok sys db"
  by (simp add: rows_ok_def update_lease_def)

lemmas rows_inserts = rows_attempt rows_lease rows_failure rows_success rows_request rows_input rows_task
  rows_budget

section \<open>Every transaction keeps them\<close>

lemma rows_recover: "recover_attempt r now db = Inr db' \<Longrightarrow> rows_ok sys db \<Longrightarrow> rows_ok sys db'"
  by (auto simp: recover_attempt_def result_simps intro: rows_failure)

lemma rows_claim:
  assumes "claim_body sys env r b db = Inr ((n, now, e), db')" "rows_ok sys db"
  shows "rows_ok sys db'"
  using assms(1)
proof (rule claim_bodyD)
  fix rr t bb rows db1
  assume rec: "recover_if_unsettled rows now db = Inr db1"
    and ins: "(if length rows + 1 \<le> attempts_per_generation
      then insert_claimed sys env r b rows now e db1 else Inr db1) = Inr db'"
  have "rows_ok sys db1"
    using rec assms(2) rows_recover by (auto simp: recover_if_unsettled_def split: if_splits)
  show ?thesis
  proof (cases "length rows + 1 \<le> attempts_per_generation")
    case True
    with ins obtain dbx l where ia: "insert_attempt (new_attempt sys env r b (length rows + 1) now) db1 = Inr dbx"
        and il: "insert_lease l dbx = Inr db'"
      by (auto simp: insert_claimed_def result_simps)
    have "rows_ok sys dbx"
      by (rule rows_attempt [OF ia \<open>rows_ok sys db1\<close>]) (simp_all add: new_attempt_def)
    then show ?thesis by (rule rows_lease [OF il])
  qed (use ins \<open>rows_ok sys db1\<close> in simp)
qed

lemma rows_renew: "renew_body sys clock h db = Inr (x, db') \<Longrightarrow> rows_ok sys db \<Longrightarrow> rows_ok sys db'"
  by (erule renew_bodyD) simp

lemma rows_fail: "fail_body sys clock c k g db = Inr (x, db') \<Longrightarrow> rows_ok sys db \<Longrightarrow> rows_ok sys db'"
  by (auto simp: fail_body_def result_simps plain_failure_def split: if_splits intro: rows_failure)

lemma rows_reclaim:
  assumes "reclaim_body clock r db = Inr (x, db')" "rows_ok sys db"
  shows "rows_ok sys db'"
  using assms by (auto simp: reclaim_body_def result_simps split: if_splits intro: rows_recover)

definition plan_readable :: "(nat \<Rightarrow> bool) \<Rightarrow> plan \<Rightarrow> bool" where
  "plan_readable nd p \<longleftrightarrow>
     (case pl_verdict p of
        Reject k issues \<Rightarrow> \<forall>v. encode_issues issues = Some v \<longrightarrow> issues_readable nd v
      | Accept_Output out artifact \<Rightarrow> True)"

lemma plan_is_readable:
  assumes "submit_plan sys env c cand db = Inr (Inr p)"
  shows "plan_readable (sy_nd sys) p"
proof -
  obtain bf where jd: "judge sys env cand bf = Inr (pl_verdict p)"
    using submit_planD [OF assms] by metis
  show ?thesis
  proof (cases "pl_verdict p")
    case (Reject k issues)
    with judge_issues [of sys env cand bf k issues] jd show ?thesis
      by (auto simp: plan_readable_def issues_readable_def)
  qed (simp add: plan_readable_def)
qed

lemma rows_settle:
  assumes "settle_body sys env clock i c cand p db = Inr (x, db')" "rows_ok sys db"
    and "plan_readable (sy_nd sys) p"
  shows "rows_ok sys db'"
proof -
  obtain row replayed where pre: "precheck sys env db c (pl_submission p) = Inr (row, replayed)"
      and ref: "check_reference env c cand = Inr ()"
    using assms(1) by (auto simp: settle_body_def result_simps)
  show ?thesis
  proof (cases replayed)
    case (Some s)
    with assms(1,2) pre ref show ?thesis by (simp add: settle_body_def)
  next
    case None
    show ?thesis
    proof (cases "pl_verdict p")
      case (Reject kind issues)
      with assms(1) pre ref None obtain t now where "encode_issues issues = Some t"
          "insert_failure (submitted_failure c p kind t now) db = Inr db'"
        by (cases "encode_issues issues") (auto simp: settle_body_def result_simps)
      with assms(2,3) Reject show ?thesis
        by (auto simp: plan_readable_def submitted_failure_def intro: rows_failure)
    next
      case (Accept_Output out artifact)
      with assms(1) pre ref None obtain s sb r where ins: "insert_success s db = Inr db'" "su_success_id s = i"
          and sb: "success_row db' i = Some sb" "success_receipt_of env sb = Inr r"
        by (auto simp: settle_body_def result_simps)
      obtain u b where u: "sb = (u, b)" by (cases sb)
      from sb(1) u have "lookup su_success_id (db_successes db') i = Some u"
        by (auto simp: success_row_def bind_eq_Some_conv)
      then have i: "su_success_id u = i" by (rule lookup_Some [THEN conjunct2])
      have "canonical_uuid i"
        using sb(2) unfolding u success_receipt_of_def by (cases "canonical_uuid i") (simp_all add: i)
      with ins show ?thesis by (intro rows_success [OF ins(1) assms(2)]) simp
    qed
  qed
qed

lemma cached_canonical: "rows_ok sys db \<Longrightarrow> \<forall>i \<in> set_option (cached_success db b). canonical_uuid i"
  using lookup_Some [of su_budget_id "db_successes db" b] by (auto simp: cached_success_def rows_ok_def)

lemma rows_ensure_budget:
  assumes "ensure_budget q input basis nb nt db = Inr ((b, t), db')" "rows_ok sys db"
  shows "rows_ok sys db'"
proof (cases "lookup bg_key (db_budgets db) (rq_paper_id q, rq_stage q, si_fingerprint input)")
  case None
  with assms show ?thesis
    by (auto simp: ensure_budget_def result_simps intro: rows_budget)
next
  case (Some r)
  with assms show ?thesis
    by (cases "latest_task db (bg_budget_id r)") (auto simp: ensure_budget_def split: if_splits)
qed

lemma rows_register_request:
  assumes "register_request sha q input basis nb nt db = Inr (x, db')" "rows_ok sys db"
  shows "rows_ok sys db'"
  using assms(1)
proof (cases rule: register_request_cases)
  case (fresh db1 b t db2)
  have "rows_ok sys db1"
    using fresh(3) assms(2)
    by (cases "lookup in_fingerprint (db_inputs db) (si_fingerprint input)")
      (auto simp: ensure_input_def split: if_splits intro: rows_input)
  then have R: "rows_ok sys db2" by (rule rows_ensure_budget [OF fresh(4)])
  from fresh(5) show ?thesis
    by (rule insert_and_readD)
      (use R cached_canonical [OF R] in \<open>auto simp: new_request_def intro: rows_request\<close>)
qed (use assms(2) in simp_all)

lemma rows_register: "register_body sha env q input b db = Inr (x, db') \<Longrightarrow> rows_ok sys db \<Longrightarrow> rows_ok sys db'"
  by (drule register_bodyD) (auto intro: rows_register_request)

lemma rows_retry:
  assumes "retry_body sha env q parent input basis db = Inr (x, db')" "rows_ok sys db"
  shows "rows_ok sys db'"
  using assms(1)
proof (cases rule: retry_bodyD)
  case (fresh p now st db1 db2)
  have "rows_ok sys db1"
    using fresh(8) assms(2) by (auto simp: retry_status_def result_simps split: if_splits intro: rows_recover)
  then have "rows_ok sys db2" by (rule rows_task [OF fresh(10)])
  with fresh(11) show ?thesis
    by (elim insert_and_readD) (auto simp: new_request_def intro: rows_request)
qed (use assms(2) in simp)

lemma rows_claim_op:
  assumes "claim_op sys env r fp db = (out, db')" "rows_ok sys db"
  shows "rows_ok sys db'"
proof (cases "claim_prepare env r fp")
  case (Inr b)
  obtain o2 d2 where c: "commit (claim_body sys env r b) db = (o2, d2)" by (cases "commit (claim_body sys env r b) db")
  with assms(1) Inr have "d2 = db'" by (auto simp: claim_op_def split: sum.splits)
  with c assms(2) show ?thesis
    by (cases rule: commit_cases) (auto dest: rows_claim)
qed (use assms in \<open>simp add: claim_op_def\<close>)

definition world_rows_ok :: "system \<Rightarrow> world \<Rightarrow> bool" where
  "world_rows_ok sys w \<longleftrightarrow> rows_ok sys (w_db w) \<and> (\<forall>(c, cand, p) \<in> set (w_plans w). plan_readable (sy_nd sys) p)"

lemma transition_rows: "transition sys w w' \<Longrightarrow> world_rows_ok sys w \<Longrightarrow> world_rows_ok sys w'"
proof (induction rule: transition.induct)
  case (claim r w env fp out db')
  then show ?case by (auto simp: world_rows_ok_def dest: rows_claim_op)
next
  case (renew clock handle w out db')
  then show ?case
    by (auto simp: world_rows_ok_def renew_op_def split: sum.splits elim!: commit_cases dest: rows_renew)
next
  case (fail clock origin kind c w out db')
  then show ?case
    by (auto simp: world_rows_ok_def fail_op_def split: sum.splits elim!: commit_cases dest: rows_fail)
next
  case (reclaim r w clock out db')
  then show ?case
    by (auto simp: world_rows_ok_def reclaim_op_def elim!: commit_cases dest: rows_reclaim)
next
  case (submit_plan env c cand w p)
  then show ?case by (auto simp: world_rows_ok_def dest: plan_is_readable)
next
  case (submit_settle c cand p w clock env new_id out db')
  then have "plan_readable (sy_nd sys) p" by (auto simp: world_rows_ok_def)
  with submit_settle show ?case by (auto simp: world_rows_ok_def elim!: commit_cases dest: rows_settle)
next
  case (register renv q input b w out db')
  then show ?case by (auto simp: world_rows_ok_def elim!: commit_cases dest: rows_register)
next
  case (retry yenv q parent input b w out db')
  then show ?case by (auto simp: world_rows_ok_def elim!: commit_cases dest: rows_retry)
qed (simp_all add: world_rows_ok_def)

lemma reachable_rows: "reachable sys w \<Longrightarrow> rows_ok sys (w_db w)"
proof -
  have "reachable sys w \<Longrightarrow> world_rows_ok sys w"
  proof (induction rule: reachable.induct)
    case initial
    show ?case by (simp add: world_rows_ok_def rows_ok_def initial_world_def empty_db_def)
  qed (rule transition_rows)
  then show "reachable sys w \<Longrightarrow> rows_ok sys (w_db w)" by (simp add: world_rows_ok_def)
qed

end
