(* ===== verification/Task_Integrity.thy ===== *)
theory Task_Integrity
  imports Task_Rows
begin

text \<open>
  \<open>attempt_integrity.py\<close>: the audit of the execution facts. It reads neither a clock nor reclaims
  a lease; every broken expectation is a corrupt reference. The paper facts of a stored revision
  are parameters. The rows of a table are the dictionaries the code builds, since primary keys
  make the keys unique.
\<close>

record audit_env =
  ae_resolve :: "string \<Rightarrow> int \<Rightarrow> (task_error, string \<times> basis) outcome"
  ae_map :: "string \<Rightarrow> int \<Rightarrow> string \<Rightarrow> (task_error, screening_mapping) outcome"

abbreviation expect_fact :: "bool \<Rightarrow> (task_error, unit) outcome" where
  "expect_fact b \<equiv> require b (Task_Error Corrupt_Reference None)"

definition audit_tables :: "task_db \<Rightarrow> (task_error, unit) outcome" where
  "audit_tables db =
     (let keys = at_key ` set (db_attempts db); lease_keys = ls_key ` set (db_leases db);
          failure_keys = fl_key ` set (db_failures db); success_keys = su_key ` set (db_successes db) in
      and_then (expect_fact (success_keys \<inter> failure_keys = {})) (\<lambda>_.
      and_then (expect_fact (keys = lease_keys \<and> failure_keys \<subseteq> keys \<and> success_keys \<subseteq> keys)) (\<lambda>_.
        expect_fact (\<forall>a \<in> set (db_attempts db). at_task_id a \<in> tk_task_id ` set (db_tasks db)))))"

text \<open>The credentials seen so far must not repeat.\<close>

definition audit_secret :: "string \<Rightarrow> string set \<Rightarrow> (task_error, unit) outcome" where
  "audit_secret v known =
     and_then (expect_fact (hex64 v)) (\<lambda>_. expect_fact (v \<notin> known))"

definition audit_facts :: "audit_env \<Rightarrow> task_db \<Rightarrow> attempt_rec \<Rightarrow> (task_error, unit) outcome" where
  "audit_facts env db a =
     and_then (or_raise (receipt_row db (at_receipt_id a)) (Task_Error Corrupt_Reference None)) (\<lambda>(r, t, b).
     and_then (expect_fact (re_task_id r = at_task_id a)) (\<lambda>_.
     and_then (ae_resolve env (bs_version_id (at_basis a)) (bs_revision_no (at_basis a))) (\<lambda>(paper, evidence).
     and_then (expect_fact (paper = bg_paper_id b \<and> evidence = at_basis a)) (\<lambda>_.
     and_then (ae_map env (bs_version_id (at_basis a)) (bs_revision_no (at_basis a)) (re_snapshot_id r)) (\<lambda>m.
       (let mapped = stage_mapping_of m (bg_stage b) in
        and_then (expect_fact (sm_reason mapped = None \<and> sm_value mapped \<noteq> None)) (\<lambda>_.
          case sm_value mapped of
            Some v \<Rightarrow> expect_fact (si_fingerprint v = bg_fingerprint b)
          | None \<Rightarrow> fails Corrupt_Reference)))))))"

definition audit_origin :: "failure_rec \<Rightarrow> instant \<Rightarrow> instant \<Rightarrow> (task_error, unit) outcome" where
  "audit_origin f settled expires =
     (case fl_origin f of
        By_Recovery \<Rightarrow> expect_fact (fl_kind f = Outcome_Unknown \<and> settled \<ge> expires)
      | By_Exception \<Rightarrow> expect_fact (fl_kind f = Executor_Error)
      | By_Executor \<Rightarrow>
          expect_fact (fl_kind f \<in> {Output_Invalid, Model_Mismatch, Timeout, Cancelled, Protocol_Error,
            Executor_Error}))"

definition audit_times :: "task_db \<Rightarrow> attempt_rec \<Rightarrow> (task_error, unit) outcome" where
  "audit_times db a =
     and_then (stored_instant (Some (at_claimed_at a))) (\<lambda>claimed.
     and_then (stored_instant (map_option ls_expires_at (lookup ls_key (db_leases db) (at_key a)))) (\<lambda>expires.
     and_then (expect_fact (expires - claimed \<ge> lease_span)) (\<lambda>_.
       case lookup fl_key (db_failures db) (at_key a) of
         None \<Rightarrow> Inr ()
       | Some f \<Rightarrow>
           and_then (stored_instant (Some (fl_settled_at f))) (\<lambda>settled.
           and_then (expect_fact (settled \<ge> claimed)) (\<lambda>_. audit_origin f settled expires)))))"

fun audit_attempts ::
    "audit_env \<Rightarrow> task_db \<Rightarrow> string set \<Rightarrow> string set \<Rightarrow> attempt_rec list \<Rightarrow> (task_error, unit) outcome" where
  "audit_attempts env db credentials renewals [] = Inr ()"
| "audit_attempts env db credentials renewals (a # as) =
     and_then (audit_secret (at_credential a) credentials) (\<lambda>_.
     and_then (audit_secret (at_renewal a) renewals) (\<lambda>_.
     and_then (audit_facts env db a) (\<lambda>_.
     and_then (audit_times db a) (\<lambda>_.
       audit_attempts env db (insert (at_credential a) credentials) (insert (at_renewal a) renewals) as))))"

fun audit_pairs :: "task_db \<Rightarrow> attempt_rec list \<Rightarrow> (task_error, unit) outcome" where
  "audit_pairs db (previous # current # rest) =
     and_then (or_raise (lookup fl_key (db_failures db) (at_key previous)) (Task_Error Corrupt_Reference None)) (\<lambda>f.
     and_then (stored_instant (Some (fl_settled_at f))) (\<lambda>settled.
     and_then (stored_instant (Some (at_claimed_at current))) (\<lambda>claimed.
     and_then (expect_fact (settled \<le> claimed)) (\<lambda>_. audit_pairs db (current # rest)))))"
| "audit_pairs db _ = Inr ()"

definition audit_task :: "task_db \<Rightarrow> string \<Rightarrow> (task_error, unit) outcome" where
  "audit_task db t =
     (let ordered = sort_key at_attempt_no (filter (\<lambda>a. at_task_id a = t) (db_attempts db)) in
      and_then
        (expect_fact
           (map at_attempt_no ordered = [1 ..< length ordered + 1] \<and>
            length ordered \<le> attempts_per_generation)) (\<lambda>_. audit_pairs db ordered))"

fun audit_each :: "('a \<Rightarrow> (task_error, unit) outcome) \<Rightarrow> 'a list \<Rightarrow> (task_error, unit) outcome" where
  "audit_each f [] = Inr ()"
| "audit_each f (x # xs) = and_then (f x) (\<lambda>_. audit_each f xs)"

text \<open>The tasks in the order their first attempt is met (\<open>setdefault\<close>).\<close>

definition audited_tasks :: "task_db \<Rightarrow> string list" where
  "audited_tasks db = rev (remdups (rev (map at_task_id (db_attempts db))))"

definition validate_attempts :: "audit_env \<Rightarrow> task_db \<Rightarrow> (task_error, unit) outcome" where
  "validate_attempts env db =
     and_then (audit_tables db) (\<lambda>_.
     and_then (audit_attempts env db {} {} (db_attempts db)) (\<lambda>_.
       audit_each (audit_task db) (audited_tasks db)))"

section \<open>What the audit accepts\<close>

lemma audit_each_Inr: "audit_each f xs = Inr () \<longleftrightarrow> (\<forall>x \<in> set xs. f x = Inr ())"
  by (induction xs) (auto simp: result_simps)

lemma audited_tasks_set: "set (audited_tasks db) = at_task_id ` set (db_attempts db)"
  by (simp add: audited_tasks_def)

lemma audit_attempts_Inr:
  "audit_attempts env db C R as = Inr () \<longleftrightarrow>
     (\<forall>a \<in> set as. hex64 (at_credential a) \<and> hex64 (at_renewal a) \<and>
        audit_facts env db a = Inr () \<and> audit_times db a = Inr ()) \<and>
     distinct (map at_credential as) \<and> distinct (map at_renewal as) \<and>
     C \<inter> at_credential ` set as = {} \<and> R \<inter> at_renewal ` set as = {}"
proof (induction as arbitrary: C R)
  case (Cons a as)
  then show ?case
    by (auto simp: result_simps audit_secret_def)
qed simp

section \<open>The declarative audit\<close>

definition origin_ok :: "failure_rec \<Rightarrow> bool" where
  "origin_ok f \<longleftrightarrow>
     (case fl_origin f of
        By_Recovery \<Rightarrow> fl_kind f = Outcome_Unknown
      | By_Exception \<Rightarrow> fl_kind f = Executor_Error
      | By_Executor \<Rightarrow> fl_kind f \<noteq> Outcome_Unknown)"

text \<open>The facts of one attempt: its receipt names a request for its task, a task and a budget; its revision resolves
  to the paper of the budget and to its basis, and maps the stage of the budget to the frozen fingerprint.\<close>

definition attempt_resolves :: "audit_env \<Rightarrow> task_db \<Rightarrow> attempt_rec \<Rightarrow> bool" where
  "attempt_resolves env db a \<longleftrightarrow>
     (\<exists>r \<in> set (db_requests db). \<exists>t \<in> set (db_tasks db). \<exists>b \<in> set (db_budgets db).
        re_receipt_id r = at_receipt_id a \<and> re_task_id r = at_task_id a \<and> tk_task_id t = at_task_id a \<and>
        bg_budget_id b = tk_budget_id t \<and>
        ae_resolve env (bs_version_id (at_basis a)) (bs_revision_no (at_basis a)) = Inr (bg_paper_id b, at_basis a) \<and>
        (\<exists>m v. ae_map env (bs_version_id (at_basis a)) (bs_revision_no (at_basis a)) (re_snapshot_id r) = Inr m \<and>
           sm_reason (stage_mapping_of m (bg_stage b)) = None \<and> sm_value (stage_mapping_of m (bg_stage b)) = Some v \<and>
           si_fingerprint v = bg_fingerprint b))"

definition execution_ok :: "audit_env \<Rightarrow> task_db \<Rightarrow> bool" where
  "execution_ok env db \<longleftrightarrow>
     attempts_settled_once db \<and> attempts_numbered db \<and>
     (\<forall>a \<in> set (db_attempts db). at_task_id a \<in> tk_task_id ` set (db_tasks db) \<and>
        hex64 (at_credential a) \<and> hex64 (at_renewal a) \<and> attempt_resolves env db a) \<and>
     (\<forall>a \<in> set (db_attempts db). \<forall>l \<in> set (db_leases db). ls_key l = at_key a \<longrightarrow>
        apart lease_span (at_claimed_at a) (ls_expires_at l)) \<and>
     (\<forall>f \<in> set (db_failures db). origin_ok f \<and> failure_timely db f)"

lemma receipt_row_iff:
  assumes "keys_distinct db"
  shows "receipt_row db i = Some (r, t, b) \<longleftrightarrow>
    r \<in> set (db_requests db) \<and> re_receipt_id r = i \<and> t \<in> set (db_tasks db) \<and> tk_task_id t = re_task_id r \<and>
    b \<in> set (db_budgets db) \<and> bg_budget_id b = tk_budget_id t"
  using assms by (auto simp: receipt_row_def bind_eq_Some_conv keys_distinct_def lookup_distinct)

lemma audit_facts_Inr:
  assumes K: "keys_distinct db"
  shows "audit_facts env db a = Inr () \<longleftrightarrow> attempt_resolves env db a"
proof
  assume "audit_facts env db a = Inr ()"
  then obtain r t b m v where row: "receipt_row db (at_receipt_id a) = Some (r, t, b)"
    and rest: "re_task_id r = at_task_id a"
      "ae_resolve env (bs_version_id (at_basis a)) (bs_revision_no (at_basis a)) = Inr (bg_paper_id b, at_basis a)"
      "ae_map env (bs_version_id (at_basis a)) (bs_revision_no (at_basis a)) (re_snapshot_id r) = Inr m"
      "sm_reason (stage_mapping_of m (bg_stage b)) = None" "sm_value (stage_mapping_of m (bg_stage b)) = Some v"
      "si_fingerprint v = bg_fingerprint b"
    by (auto simp: audit_facts_def result_simps Let_def split: option.splits)
  from row [unfolded receipt_row_iff [OF K]] rest show "attempt_resolves env db a"
    unfolding attempt_resolves_def by metis
next
  assume "attempt_resolves env db a"
  then obtain r t b m v where "r \<in> set (db_requests db)" "t \<in> set (db_tasks db)" "b \<in> set (db_budgets db)"
      "re_receipt_id r = at_receipt_id a" "re_task_id r = at_task_id a" "tk_task_id t = at_task_id a"
      "bg_budget_id b = tk_budget_id t"
    and rest: "ae_resolve env (bs_version_id (at_basis a)) (bs_revision_no (at_basis a)) = Inr (bg_paper_id b, at_basis a)"
      "ae_map env (bs_version_id (at_basis a)) (bs_revision_no (at_basis a)) (re_snapshot_id r) = Inr m"
      "sm_reason (stage_mapping_of m (bg_stage b)) = None" "sm_value (stage_mapping_of m (bg_stage b)) = Some v"
      "si_fingerprint v = bg_fingerprint b"
    unfolding attempt_resolves_def by blast
  then have "receipt_row db (at_receipt_id a) = Some (r, t, b)" by (simp add: receipt_row_iff [OF K])
  with rest \<open>re_task_id r = at_task_id a\<close> show "audit_facts env db a = Inr ()"
    by (simp add: audit_facts_def Let_def)
qed

lemma audit_tables_Inr:
  "audit_tables db = Inr () \<longleftrightarrow> attempts_settled_once db \<and>
     (\<forall>a \<in> set (db_attempts db). at_task_id a \<in> tk_task_id ` set (db_tasks db))"
  unfolding audit_tables_def Let_def attempts_settled_once_def
  by (simp only: and_then_eq_Inr require_eq_Inr simp_thms) (metis Int_commute)

lemma read_le: "apart d s t \<longleftrightarrow> (\<exists>i j. read_timestamp s = Some i \<and> read_timestamp t = Some j \<and> i + d \<le> j)"
  by (auto simp: apart_def split: option.splits)

lemma lookup_key:
  assumes "keys_distinct db"
  shows "lookup ls_key (db_leases db) k = Some l \<longleftrightarrow> l \<in> set (db_leases db) \<and> ls_key l = k"
    "lookup fl_key (db_failures db) k = Some f \<longleftrightarrow> f \<in> set (db_failures db) \<and> fl_key f = k"
  by (rule lookup_distinct, rule keysD(7) [OF assms]) (rule lookup_distinct, rule keysD(8) [OF assms])

lemma attempt_lease:
  assumes "attempts_settled_once db" "a \<in> set (db_attempts db)"
  obtains l where "l \<in> set (db_leases db)" "ls_key l = at_key a"
proof -
  have "leased db (at_key a)" using assms by (simp add: attempts_settled_once_def)
  then show ?thesis by (elim imageE) (erule that, erule sym)
qed

text \<open>The times of one attempt.\<close>

definition attempt_timed :: "task_db \<Rightarrow> attempt_rec \<Rightarrow> bool" where
  "attempt_timed db a \<longleftrightarrow>
     (\<forall>l \<in> set (db_leases db). ls_key l = at_key a \<longrightarrow> apart lease_span (at_claimed_at a) (ls_expires_at l)) \<and>
     (\<forall>f \<in> set (db_failures db). fl_key f = at_key a \<longrightarrow>
        origin_ok f \<and> apart 0 (at_claimed_at a) (fl_settled_at f) \<and>
        (fl_origin f = By_Recovery \<longrightarrow>
          (\<forall>l \<in> set (db_leases db). ls_key l = at_key a \<longrightarrow> apart 0 (ls_expires_at l) (fl_settled_at f))))"

lemma audit_origin_Inr:
  "audit_origin f settled expires = Inr () \<longleftrightarrow> origin_ok f \<and> (fl_origin f = By_Recovery \<longrightarrow> expires \<le> settled)"
  by (cases "fl_kind f"; cases "fl_origin f") (simp_all add: audit_origin_def origin_ok_def)

lemma audit_times_Inr:
  assumes K: "keys_distinct db" and O: "attempts_settled_once db" and a: "a \<in> set (db_attempts db)"
  shows "audit_times db a = Inr () \<longleftrightarrow> attempt_timed db a"
proof -
  obtain l where l: "l \<in> set (db_leases db)" "ls_key l = at_key a"
    using O a by (rule attempt_lease)
  then have ll: "lookup ls_key (db_leases db) (at_key a) = Some l" by (simp add: lookup_key(1) [OF K])
  have lu: "(\<forall>l' \<in> set (db_leases db). ls_key l' = at_key a \<longrightarrow> P l') \<longleftrightarrow> P l" for P
    using lookup_key(1) [OF K, of "at_key a"] ll l by (metis option.inject)
  show ?thesis
  proof (cases "lookup fl_key (db_failures db) (at_key a)")
    case None
    then have "fl_key f \<noteq> at_key a" if "f \<in> set (db_failures db)" for f
      using that by (simp add: lookup_None key_free_def)
    then have "attempt_timed db a \<longleftrightarrow> apart lease_span (at_claimed_at a) (ls_expires_at l)"
      unfolding attempt_timed_def lu by blast
    with ll None show ?thesis
      by (auto simp: audit_times_def result_simps stored_instantD read_le)
  next
    case (Some f)
    have fu: "(\<forall>f' \<in> set (db_failures db). fl_key f' = at_key a \<longrightarrow> P f') \<longleftrightarrow> P f" for P
      using lookup_key(2) [OF K, of "at_key a"] Some by (metis option.inject)
    have "attempt_timed db a \<longleftrightarrow> apart lease_span (at_claimed_at a) (ls_expires_at l) \<and> origin_ok f \<and>
        apart 0 (at_claimed_at a) (fl_settled_at f) \<and>
        (fl_origin f = By_Recovery \<longrightarrow> apart 0 (ls_expires_at l) (fl_settled_at f))"
      unfolding attempt_timed_def lu fu ..
    with ll Some show ?thesis
      by (auto simp: audit_times_def result_simps stored_instantD read_le audit_origin_Inr)
  qed
qed

lemma failure_attempt:
  assumes "attempts_settled_once db" "f \<in> set (db_failures db)"
  obtains a where "a \<in> set (db_attempts db)" "at_key a = fl_key f"
proof -
  have "failed db (fl_key f)" using assms(2) by simp
  then have "claimed db (fl_key f)" using assms(1) unfolding attempts_settled_once_def by (meson subsetD)
  then show ?thesis by (elim imageE) (erule that, erule sym)
qed

lemma all_timed:
  assumes O: "attempts_settled_once db"
  shows "(\<forall>a \<in> set (db_attempts db). attempt_timed db a) \<longleftrightarrow>
    (\<forall>a \<in> set (db_attempts db). \<forall>l \<in> set (db_leases db). ls_key l = at_key a \<longrightarrow>
       apart lease_span (at_claimed_at a) (ls_expires_at l)) \<and>
    (\<forall>f \<in> set (db_failures db). origin_ok f \<and> failure_timely db f)"
    (is "?L \<longleftrightarrow> ?R")
proof
  assume L: ?L
  have "origin_ok f \<and> failure_timely db f" if f: "f \<in> set (db_failures db)" for f
  proof -
    obtain a where a: "a \<in> set (db_attempts db)" "at_key a = fl_key f" using O f by (rule failure_attempt)
    with L f have "origin_ok f" and rec: "fl_origin f = By_Recovery \<Longrightarrow> l \<in> set (db_leases db) \<Longrightarrow>
        ls_key l = fl_key f \<Longrightarrow> apart 0 (ls_expires_at l) (fl_settled_at f)" for l
      unfolding attempt_timed_def by metis+
    moreover have "failure_timely db f"
      by (rule failure_timelyI) (use L f rec in \<open>auto simp: attempt_timed_def\<close>)
    ultimately show ?thesis by simp
  qed
  with L show ?R by (simp add: attempt_timed_def)
next
  assume R: ?R
  then show ?L
    unfolding attempt_timed_def failure_timely_def by metis
qed

section \<open>The numbers of a task\<close>

definition ordered_attempts :: "task_db \<Rightarrow> string \<Rightarrow> attempt_rec list" where
  "ordered_attempts db t = sort_key at_attempt_no (filter (\<lambda>a. at_task_id a = t) (db_attempts db))"

lemma ordered_set: "a \<in> set (ordered_attempts db t) \<longleftrightarrow> a \<in> set (db_attempts db) \<and> at_task_id a = t"
  by (auto simp: ordered_attempts_def)

text \<open>The numbers of the attempts of one task.\<close>

definition task_numbered :: "task_db \<Rightarrow> string \<Rightarrow> bool" where
  "task_numbered db t \<longleftrightarrow>
     (\<forall>a \<in> set (db_attempts db). at_task_id a = t \<longrightarrow> at_attempt_no a \<in> {1, 2} \<and>
       (at_attempt_no a = 2 \<longrightarrow> (\<exists>f \<in> set (db_failures db). fl_key f = (t, 1) \<and>
          apart 0 (fl_settled_at f) (at_claimed_at a))))"

lemma ordered_numbers:
  assumes K: "keys_distinct db" and O: "attempts_settled_once db" and N: "task_numbered db t"
  shows "map at_attempt_no (ordered_attempts db t) = [1 ..< length (ordered_attempts db t) + 1] \<and>
    length (ordered_attempts db t) \<le> 2"
proof -
  let ?os = "ordered_attempts db t"
  have "distinct (map at_key (filter (\<lambda>a. at_task_id a = t) (db_attempts db)))"
    using keysD(5) [OF K] by (rule distinct_map_filter)
  then have "distinct (map at_attempt_no (filter (\<lambda>a. at_task_id a = t) (db_attempts db)))"
    by (auto simp: distinct_map inj_on_def)
  then have 1: "distinct (map at_attempt_no ?os)"
    unfolding ordered_attempts_def by (metis distinct_map distinct_sort set_sort)
  have 2: "sorted (map at_attempt_no ?os)" unfolding ordered_attempts_def by (rule sorted_sort_key)
  have 3: "set (map at_attempt_no ?os) \<subseteq> {1, 2}"
    using N by (auto simp: ordered_set task_numbered_def)
  have 4: "2 \<in> set (map at_attempt_no ?os) \<longrightarrow> 1 \<in> set (map at_attempt_no ?os)"
  proof
    assume "2 \<in> set (map at_attempt_no ?os)"
    then obtain a where "a \<in> set (db_attempts db)" "at_task_id a = t" "at_attempt_no a = 2"
      by (auto simp: ordered_set)
    with N obtain f where f: "f \<in> set (db_failures db)" "fl_key f = (t, 1)"
      by (force simp: task_numbered_def)
    obtain b where "b \<in> set (db_attempts db)" "at_key b = fl_key f" using O f(1) by (rule failure_attempt)
    then have "b \<in> set ?os" "at_attempt_no b = 1" using f(2) by (simp_all add: ordered_set)
    then show "1 \<in> set (map at_attempt_no ?os)" by force
  qed
  from sorted_numbers [OF 2 1 3 4] show ?thesis by simp
qed

lemma audit_task_Inr:
  assumes K: "keys_distinct db" and O: "attempts_settled_once db"
    and T: "\<forall>a \<in> set (db_attempts db). attempt_timed db a"
  shows "audit_task db t = Inr () \<longleftrightarrow> task_numbered db t"
proof -
  let ?os = "ordered_attempts db t"
  have at: "audit_task db t = Inr () \<longleftrightarrow>
      map at_attempt_no ?os = [1 ..< length ?os + 1] \<and> length ?os \<le> 2 \<and> audit_pairs db ?os = Inr ()"
    by (simp add: audit_task_def Let_def ordered_attempts_def result_simps attempts_per_generation_def)
  have pair: "audit_pairs db [a, b] = Inr () \<longleftrightarrow>
      (\<exists>f \<in> set (db_failures db). fl_key f = at_key a \<and> apart 0 (fl_settled_at f) (at_claimed_at b))" for a b
    by (auto simp: result_simps lookup_key(2) [OF K] stored_instantD read_le)
  show ?thesis
  proof
    assume "audit_task db t = Inr ()"
    then have A: "map at_attempt_no ?os = [1 ..< length ?os + 1]" "length ?os \<le> 2" "audit_pairs db ?os = Inr ()"
      using at by blast+
    consider "?os = []" | x where "?os = [x]" | x y where "?os = [x, y]"
      using A(2) by (cases ?os rule: remdups_adj.cases) auto
    then show "task_numbered db t"
      unfolding task_numbered_def
    proof cases
      case (3 x y)
      with A(1) have "at_attempt_no x = 1" "at_attempt_no y = 2" by (simp_all add: numeral_2_eq_2)
      moreover have "at_task_id x = t" using ordered_set [of x db t] 3 by simp
      moreover have "a \<in> {x, y}" if "a \<in> set (db_attempts db)" "at_task_id a = t" for a
        using ordered_set [of a db t] that 3 by simp
      ultimately show "\<forall>a \<in> set (db_attempts db). at_task_id a = t \<longrightarrow> at_attempt_no a \<in> {1, 2} \<and>
          (at_attempt_no a = 2 \<longrightarrow> (\<exists>f \<in> set (db_failures db). fl_key f = (t, 1) \<and>
             apart 0 (fl_settled_at f) (at_claimed_at a)))"
        using A(3) pair [of x y] 3 by fastforce
    next
      case (2 x)
      with A(1) have "at_attempt_no x = 1" by simp
      moreover have "a = x" if "a \<in> set (db_attempts db)" "at_task_id a = t" for a
        using ordered_set [of a db t] that 2 by simp
      ultimately show "\<forall>a \<in> set (db_attempts db). at_task_id a = t \<longrightarrow> at_attempt_no a \<in> {1, 2} \<and>
          (at_attempt_no a = 2 \<longrightarrow> (\<exists>f \<in> set (db_failures db). fl_key f = (t, 1) \<and>
             apart 0 (fl_settled_at f) (at_claimed_at a)))" by auto
    qed (use ordered_set [of _ db t] in auto)
  next
    assume spec: "task_numbered db t"
    note N = ordered_numbers [OF K O spec]
    from N consider "?os = []" | x where "?os = [x]" | x y where "?os = [x, y]"
      by (cases ?os rule: remdups_adj.cases) auto
    then have "audit_pairs db ?os = Inr ()"
    proof cases
      case (3 x y)
      with N have no: "at_attempt_no x = 1" "at_attempt_no y = 2" by (simp_all add: numeral_2_eq_2)
      have "x \<in> set (db_attempts db)" "at_task_id x = t" "y \<in> set (db_attempts db)" "at_task_id y = t"
        using ordered_set [of x db t] ordered_set [of y db t] 3 by simp_all
      with no spec have "\<exists>f \<in> set (db_failures db). fl_key f = at_key x \<and> apart 0 (fl_settled_at f) (at_claimed_at y)"
        by (auto simp: task_numbered_def)
      then show ?thesis unfolding 3 by (simp only: pair)
    qed simp_all
    with N at show "audit_task db t = Inr ()" by blast
  qed
qed

lemma ball_group: "(\<forall>x \<in> A. P x (f x)) \<longleftrightarrow> (\<forall>t \<in> f ` A. \<forall>x \<in> A. f x = t \<longrightarrow> P x t)"
  by auto

lemma numbered_tasks:
  assumes "attempts_settled_once db"
  shows "attempts_numbered db \<longleftrightarrow> (\<forall>t \<in> at_task_id ` set (db_attempts db). task_numbered db t)"
  unfolding attempts_numbered_def task_numbered_def
  by (rule ball_group [where f = at_task_id])

lemma validate_attempts_iff:
  assumes K: "keys_distinct db"
  shows "validate_attempts env db = Inr () \<longleftrightarrow> execution_ok env db"
proof (cases "attempts_settled_once db")
  case True
  have times: "(\<forall>a \<in> set (db_attempts db). audit_times db a = Inr ()) \<longleftrightarrow>
      (\<forall>a \<in> set (db_attempts db). attempt_timed db a)"
    using audit_times_Inr [OF K True] by blast
  have secrets: "distinct (map at_credential (db_attempts db))" "distinct (map at_renewal (db_attempts db))"
    using K by (simp_all add: keys_distinct_def)
  have "validate_attempts env db = Inr () \<longleftrightarrow>
     (\<forall>a \<in> set (db_attempts db). at_task_id a \<in> tk_task_id ` set (db_tasks db) \<and>
        hex64 (at_credential a) \<and> hex64 (at_renewal a) \<and> attempt_resolves env db a) \<and>
     (\<forall>a \<in> set (db_attempts db). attempt_timed db a) \<and>
     (\<forall>t \<in> at_task_id ` set (db_attempts db). audit_task db t = Inr ())"
    unfolding times [symmetric] using True secrets
    by (auto simp: validate_attempts_def result_simps audit_tables_Inr audit_attempts_Inr audit_each_Inr
        audited_tasks_set audit_facts_Inr [OF K])
  also have "\<dots> \<longleftrightarrow> execution_ok env db"
    unfolding execution_ok_def all_timed [OF True, symmetric] numbered_tasks [OF True]
    using True audit_task_Inr [OF K True] by blast
  finally show ?thesis .
next
  case False
  then show ?thesis by (simp add: validate_attempts_def result_simps audit_tables_Inr execution_ok_def)
qed

section \<open>The audit of a reachable history\<close>

text \<open>Stored revisions are immutable: each attempt's revision still resolves to its paper and basis and
  still maps to the fingerprint of its budget.\<close>

definition facts_stable :: "audit_env \<Rightarrow> task_db \<Rightarrow> bool" where
  "facts_stable env db \<longleftrightarrow>
     (\<forall>a \<in> set (db_attempts db). \<forall>r t b. receipt_row db (at_receipt_id a) = Some (r, t, b) \<longrightarrow>
        ae_resolve env (bs_version_id (at_basis a)) (bs_revision_no (at_basis a)) =
          Inr (bg_paper_id b, at_basis a) \<and>
        (\<exists>m v. ae_map env (bs_version_id (at_basis a)) (bs_revision_no (at_basis a)) (re_snapshot_id r) = Inr m \<and>
          sm_reason (stage_mapping_of m (bg_stage b)) = None \<and> sm_value (stage_mapping_of m (bg_stage b)) = Some v \<and>
          si_fingerprint v = bg_fingerprint b))"

lemma receipt_row_total:
  assumes S: "sound db" and r: "r \<in> set (db_requests db)"
  obtains t b where "receipt_row db (re_receipt_id r) = Some (r, t, b)"
proof -
  have "lookup re_receipt_id (db_requests db) (re_receipt_id r) = Some r"
    using soundD(1) [OF S] r by (simp add: keys_distinct_def lookup_distinct)
  moreover have "re_task_id r \<in> tk_task_id ` set (db_tasks db)"
    using soundD(4) [OF S] r by (simp add: references_ok_def)
  then obtain t where t: "t \<in> set (db_tasks db)" "tk_task_id t = re_task_id r" by (metis imageE)
  then have "lookup tk_task_id (db_tasks db) (re_task_id r) = Some t"
    using keysD(2) [OF soundD(1) [OF S]] by (simp add: lookup_distinct)
  moreover have "tk_budget_id t \<in> bg_budget_id ` set (db_budgets db)"
    using soundD(4) [OF S] t(1) by (simp add: references_ok_def)
  then obtain b where "b \<in> set (db_budgets db)" "bg_budget_id b = tk_budget_id t" by (metis imageE)
  then have "lookup bg_budget_id (db_budgets db) (tk_budget_id t) = Some b"
    using keysD(1) [OF soundD(1) [OF S]] by (simp add: lookup_distinct)
  ultimately show ?thesis by (intro that) (simp add: receipt_row_def)
qed

lemma audit_accepts:
  assumes S: "sound db" and R: "rows_ok sys db" and F: "facts_stable env db" and H: "\<And>bs. hex64 (sy_sha sys bs)"
  shows "validate_attempts env db = Inr ()"
proof -
  have "audit_facts env db a = Inr ()" if a: "a \<in> set (db_attempts db)" for a
  proof -
    obtain r where r: "r \<in> set (db_requests db)" "re_receipt_id r = at_receipt_id a" "re_task_id r = at_task_id a"
      using soundD(4) [OF S] a by (auto simp: references_ok_def)
    obtain t b where row: "receipt_row db (at_receipt_id a) = Some (r, t, b)"
      using receipt_row_total [OF S r(1)] r(2) by metis
    from F a row have res: "ae_resolve env (bs_version_id (at_basis a)) (bs_revision_no (at_basis a)) =
        Inr (bg_paper_id b, at_basis a)" unfolding facts_stable_def by blast
    from F a row obtain m v where m: "ae_map env (bs_version_id (at_basis a)) (bs_revision_no (at_basis a))
        (re_snapshot_id r) = Inr m" "sm_reason (stage_mapping_of m (bg_stage b)) = None"
        "sm_value (stage_mapping_of m (bg_stage b)) = Some v" "si_fingerprint v = bg_fingerprint b"
      unfolding facts_stable_def by blast
    from row res m show ?thesis by (simp add: audit_facts_def r(3) Let_def)
  qed
  moreover have "at_task_id a \<in> tk_task_id ` set (db_tasks db)" if "a \<in> set (db_attempts db)" for a
    using soundD(4) [OF S] that unfolding references_ok_def by metis
  moreover have "hex64 (at_credential a)" "hex64 (at_renewal a)" if "a \<in> set (db_attempts db)" for a
    using R that H by (auto simp: rows_ok_def digest_def)
  moreover have "origin_ok f" if "f \<in> set (db_failures db)" for f
    using timesD(2) [OF soundD(6) [OF S] that] by (simp add: authority_ok_def origin_ok_def)
  ultimately have "execution_ok env db"
    using soundD(2,3,6) [OF S] audit_facts_Inr [OF soundD(1) [OF S]] by (simp add: execution_ok_def times_ok_def)
  with soundD(1) [OF S] show ?thesis by (simp add: validate_attempts_iff)
qed

end
