(* ===== verification/Task_Query.thy ===== *)
theory Task_Query
  imports Task_Integrity
begin

text \<open>
  \<open>query.py\<close> with \<open>query_models.py\<close>, and the remaining reads of \<open>service.py\<close>: one consistent view of
  the budgets, generations, attempts and requests of a paper at a stage. The mapping of the
  current paper facts is an argument.
\<close>

datatype input_applicability = Current_Input | Historical_Input | Undeterminable_Input

record attempt_view =
  av_attempt_no :: nat
  av_receipt_id :: string
  av_basis :: basis
  av_claimed_at :: instant
  av_expires_at :: instant
  av_failure :: "failure_receipt option"
  av_success_id :: "string option"

record task_view =
  tv_task_id :: string
  tv_budget_id :: string
  tv_generation :: nat
  tv_parent :: "string option"
  tv_state :: task_state
  tv_used_attempts :: nat
  tv_remaining_attempts :: nat
  tv_requests :: "receipt list"
  tv_attempts :: "attempt_view list"

record budget_view =
  bv_budget_id :: string
  bv_fingerprint :: string
  bv_applicability :: input_applicability
  bv_reason :: "paper_reason option"
  bv_latest_generation :: nat
  bv_latest_task_id :: string
  bv_tasks :: "task_view list"

record query_result =
  qr_paper_id :: string
  qr_stage :: stage
  qr_snapshot_id :: string
  qr_fingerprint :: "string option"
  qr_reason :: "paper_reason option"
  qr_budgets :: "budget_view list"
  qr_failures :: "task_view list"

definition view_attempt :: "(nat \<Rightarrow> bool) \<Rightarrow> attempt_row \<Rightarrow> (task_error, attempt_view) outcome" where
  "view_attempt nd row =
     and_then (stored_instant (Some (at_claimed_at (ar_attempt row)))) (\<lambda>claimed.
     and_then (stored_instant (ar_expires_at row)) (\<lambda>expires.
     and_then
       (if ar_kind row \<noteq> None then and_then (failure_receipt_of nd row) (\<lambda>r. Inr (Some r)) else Inr None)
       (\<lambda>failure.
         Inr \<lparr>av_attempt_no = ar_no row, av_receipt_id = at_receipt_id (ar_attempt row),
           av_basis = at_basis (ar_attempt row), av_claimed_at = claimed, av_expires_at = expires,
           av_failure = failure, av_success_id = ar_success_id row\<rparr>)))"

definition read_receipt_row :: "task_db \<Rightarrow> string \<Rightarrow> (task_error, receipt) outcome" where
  "read_receipt_row db i =
     and_then (or_raise (receipt_row db i) (Task_Error Corrupt_Reference None)) to_receipt"

definition task_receipt_ids :: "task_db \<Rightarrow> string \<Rightarrow> string list" where
  "task_receipt_ids db t =
     sort (map re_receipt_id (filter (\<lambda>r. re_task_id r = t) (db_requests db)))"

definition view_task ::
    "(nat \<Rightarrow> bool) \<Rightarrow> task_db \<Rightarrow> instant \<Rightarrow> budget_rec \<Rightarrow> task_rec \<Rightarrow> (task_error, task_view) outcome" where
  "view_task nd db now b t =
     and_then (read_attempts db (tk_task_id t)) (\<lambda>rows.
     and_then (derive_status (tk_task_id t) rows now) (\<lambda>st.
     and_then (each_row (read_receipt_row db) (task_receipt_ids db (tk_task_id t))) (\<lambda>receipts.
     and_then (each_row (view_attempt nd) rows) (\<lambda>attempts.
       Inr \<lparr>tv_task_id = tk_task_id t, tv_budget_id = bg_budget_id b,
         tv_generation = tk_generation t, tv_parent = tk_parent t, tv_state = ts_state st,
         tv_used_attempts = ts_used_attempts st, tv_remaining_attempts = ts_remaining_attempts st,
         tv_requests = receipts, tv_attempts = attempts\<rparr>))))"

definition applicability_of :: "stage_mapping \<Rightarrow> string \<Rightarrow> input_applicability" where
  "applicability_of mapped fingerprint =
     (if sm_reason mapped \<noteq> None then Undeterminable_Input
      else if map_option si_fingerprint (sm_value mapped) = Some fingerprint then Current_Input
      else Historical_Input)"

definition budget_tasks :: "task_db \<Rightarrow> budget_rec \<Rightarrow> task_rec list" where
  "budget_tasks db b = sort_key tk_generation (filter (\<lambda>t. tk_budget_id t = bg_budget_id b) (db_tasks db))"

definition view_budget ::
    "(nat \<Rightarrow> bool) \<Rightarrow> task_db \<Rightarrow> instant \<Rightarrow> stage_mapping \<Rightarrow> budget_rec \<Rightarrow> (task_error, budget_view) outcome" where
  "view_budget nd db now mapped b =
     and_then (each_row (view_task nd db now b) (budget_tasks db b)) (\<lambda>views.
       if views = [] then fails Corrupt_Reference
       else Inr \<lparr>bv_budget_id = bg_budget_id b, bv_fingerprint = bg_fingerprint b,
         bv_applicability = applicability_of mapped (bg_fingerprint b), bv_reason = sm_reason mapped,
         bv_latest_generation = tv_generation (last views), bv_latest_task_id = tv_task_id (last views),
         bv_tasks = views\<rparr>)"

definition paper_budgets :: "task_db \<Rightarrow> string \<Rightarrow> stage \<Rightarrow> budget_rec list" where
  "paper_budgets db paper st =
     sort_key bg_budget_id (filter (\<lambda>b. bg_paper_id b = paper \<and> bg_stage b = st) (db_budgets db))"

definition current_failure :: "budget_view \<Rightarrow> bool" where
  "current_failure v \<longleftrightarrow> bv_applicability v = Current_Input \<and> tv_state (last (bv_tasks v)) = Failed"

definition query_op ::
    "(nat \<Rightarrow> bool) \<Rightarrow> clock_reading \<Rightarrow> (task_error, screening_mapping) outcome \<Rightarrow> string \<Rightarrow> stage \<Rightarrow> string \<Rightarrow>
      task_db \<Rightarrow> (task_error, query_result) outcome" where
  "query_op nd clock mapping paper st snapshot db =
     and_then (utc_now clock) (\<lambda>now.
     and_then mapping (\<lambda>m.
       (let mapped = stage_mapping_of m st in
        if sm_reason mapped = None \<and> sm_value mapped = None then fails Corrupt_Reference
        else
          and_then (each_row (view_budget nd db now mapped) (paper_budgets db paper st)) (\<lambda>views.
            Inr \<lparr>qr_paper_id = paper, qr_stage = st, qr_snapshot_id = snapshot,
              qr_fingerprint =
                (if sm_reason mapped = None then map_option si_fingerprint (sm_value mapped) else None),
              qr_reason = sm_reason mapped, qr_budgets = views,
              qr_failures = map (last \<circ> bv_tasks) (filter current_failure views)\<rparr>))))"

text \<open>\<open>receipts\<close>: the receipts of a paper, in the order of their identifiers.\<close>

definition receipts_op :: "string \<Rightarrow> task_db \<Rightarrow> (task_error, receipt list) outcome" where
  "receipts_op paper db =
     (let of_paper = (\<lambda>r. \<exists>t \<in> set (db_tasks db). \<exists>b \<in> set (db_budgets db).
            re_task_id r = tk_task_id t \<and> tk_budget_id t = bg_budget_id b \<and> bg_paper_id b = paper) in
      each_row to_receipt
        (List.map_filter (receipt_row db) (sort (map re_receipt_id (filter of_paper (db_requests db))))))"

section \<open>Queries of a sound history return\<close>

lemma each_row_mem:
  assumes "each_row f xs = Inr ys" "y \<in> set ys"
  obtains x where "x \<in> set xs" "f x = Inr y"
proof -
  from assms(1) have "list_all2 (\<lambda>x y. f x = Inr y) xs ys" by (simp add: each_row_all2)
  then have "\<exists>x \<in> set xs. f x = Inr y" using assms(2) by (induction rule: list_all2_induct) auto
  then show ?thesis using that by blast
qed

lemma view_attempt_total:
  assumes S: "sound db" and R: "rows_ok sys db" and r: "r \<in> set (attempt_rows db t)"
  shows "\<exists>v. view_attempt (sy_nd sys) r = Inr v"
proof -
  note rd = read_attempts_total [OF S, of t]
  note row = read_row [OF rd r]
  obtain l where l: "l \<in> set (db_leases db)" "ls_key l = at_key (ar_attempt r)"
    using soundD(2) [OF S] row(1) by (rule attempt_lease)
  then have "lookup ls_key (db_leases db) (at_key (ar_attempt r)) = Some l" by (simp add: lookup_lease [OF S])
  then have "ar_expires_at (join_attempt db (ar_attempt r)) = Some (ls_expires_at l)"
    by (simp add: join_attempt_def Let_def)
  then have ex: "ar_expires_at r = Some (ls_expires_at l)" using row(3) by metis
  from timesD(1) [OF soundD(6) [OF S] row(1) l] obtain i j where
    ij: "read_timestamp (at_claimed_at (ar_attempt r)) = Some i" "read_timestamp (ls_expires_at l) = Some j"
    by (rule apart_instants)
  have "\<exists>x. failure_receipt_of (sy_nd sys) r = Inr x" if k: "ar_kind r \<noteq> None"
  proof -
    obtain f where f: "f \<in> set (db_failures db)" "fl_key f = (t, ar_no r)"
        "ar_settled_at r = Some (fl_settled_at f)" "ar_kind r = Some (fl_kind f)"
        "ar_origin r = Some (fl_origin f)" "ar_issues_json r = fl_issues_json f"
      by (rule row_settled [OF rd r k])
    have "apart 0 (at_claimed_at (ar_attempt r)) (fl_settled_at f)"
      using timesD(3) [OF soundD(6) [OF S] f(1) row(1)] f(2) row(4) by simp
    then obtain s where "read_timestamp (fl_settled_at f) = Some s" by (rule apart_instants)
    moreover obtain issues where "decode_issues (sy_nd sys) None (fl_issues_json f) = Inr issues"
      using R f(1) by (auto simp: rows_ok_def issues_readable_def)
    ultimately show ?thesis using f by (simp add: failure_receipt_of_def stored_instant_def)
  qed
  with ex ij show ?thesis
    by (cases "ar_kind r = None") (auto simp: view_attempt_def stored_instant_def)
qed

lemma read_receipt_total:
  assumes S: "sound db" and R: "rows_ok sys db" and r: "r \<in> set (db_requests db)"
  shows "\<exists>x. read_receipt_row db (re_receipt_id r) = Inr x"
proof -
  obtain t b where "receipt_row db (re_receipt_id r) = Some (r, t, b)" using receipt_row_total [OF S r] by metis
  with R r show ?thesis by (auto simp: read_receipt_row_def to_receipt_def rows_ok_def)
qed

lemma view_task_total:
  assumes S: "sound db" and R: "rows_ok sys db"
  obtains v where "view_task (sy_nd sys) db now b t = Inr v"
proof -
  obtain st where "derive_status (tk_task_id t) (attempt_rows db (tk_task_id t)) now = Inr st"
    using status_spec_lemma [OF S] by metis
  moreover obtain receipts where "each_row (read_receipt_row db) (task_receipt_ids db (tk_task_id t)) = Inr receipts"
    by (rule each_row_total [of "task_receipt_ids db (tk_task_id t)"])
      (auto simp: task_receipt_ids_def intro: read_receipt_total [OF S R])
  moreover obtain attempts where "each_row (view_attempt (sy_nd sys)) (attempt_rows db (tk_task_id t)) = Inr attempts"
    by (rule each_row_total [of "attempt_rows db (tk_task_id t)"]) (rule view_attempt_total [OF S R])
  ultimately show ?thesis
    by (intro that) (simp add: view_task_def read_attempts_total [OF S])
qed

lemma view_task_fields:
  assumes S: "sound db" and v: "view_task nd db now b t = Inr v"
  shows "tv_task_id v = tk_task_id t" "tv_generation v = tk_generation t" "tv_budget_id v = bg_budget_id b"
    "tv_state v = state_spec db (tk_task_id t) now"
    "tv_used_attempts v = card {n. claimed db (tk_task_id t, n)}"
    "map rc_receipt_id (tv_requests v) = task_receipt_ids db (tk_task_id t)"
    "length (tv_attempts v) = tv_used_attempts v"
proof -
  from v obtain st receipts attempts where
    d: "derive_status (tk_task_id t) (attempt_rows db (tk_task_id t)) now = Inr st" and
    rs: "each_row (read_receipt_row db) (task_receipt_ids db (tk_task_id t)) = Inr receipts" and
    as: "each_row (view_attempt nd) (attempt_rows db (tk_task_id t)) = Inr attempts" and
    v: "v = \<lparr>tv_task_id = tk_task_id t, tv_budget_id = bg_budget_id b,
         tv_generation = tk_generation t, tv_parent = tk_parent t, tv_state = ts_state st,
         tv_used_attempts = ts_used_attempts st, tv_remaining_attempts = ts_remaining_attempts st,
         tv_requests = receipts, tv_attempts = attempts\<rparr>"
    by (auto simp: view_task_def read_attempts_total [OF S] result_simps)
  obtain st' where "derive_status (tk_task_id t) (attempt_rows db (tk_task_id t)) now = Inr st'"
      "ts_state st' = state_spec db (tk_task_id t) now"
      "ts_used_attempts st' = card {n. claimed db (tk_task_id t, n)}"
    using status_spec_lemma [OF S] by metis
  with d v show "tv_task_id v = tk_task_id t" "tv_generation v = tk_generation t" "tv_budget_id v = bg_budget_id b"
    "tv_state v = state_spec db (tk_task_id t) now"
    "tv_used_attempts v = card {n. claimed db (tk_task_id t, n)}"
    by simp_all
  have "map rc_receipt_id receipts = map id (task_receipt_ids db (tk_task_id t))"
    by (rule each_row_map [OF rs])
      (auto simp: read_receipt_row_def result_simps dest: to_receiptD(2))
  with v show "map rc_receipt_id (tv_requests v) = task_receipt_ids db (tk_task_id t)" by simp
  have "length attempts = length (attempt_rows db (tk_task_id t))"
    using as by (auto simp: each_row_all2 dest: list_all2_lengthD)
  with v d \<open>tv_used_attempts v = card {n. claimed db (tk_task_id t, n)}\<close> claimed_numbers [OF S, of "tk_task_id t"]
  show "length (tv_attempts v) = tv_used_attempts v" by simp
qed

lemma query_total_lemma:
  assumes S: "sound db" and R: "rows_ok sys db"
    and m: "sm_reason (stage_mapping_of m st) = None \<longrightarrow> sm_value (stage_mapping_of m st) \<noteq> None"
  shows "\<exists>res. query_op (sy_nd sys) (Utc now) (Inr m) paper st snapshot db = Inr res \<and>
    map bv_budget_id (qr_budgets res) = map bg_budget_id (paper_budgets db paper st) \<and>
    (\<forall>v \<in> set (qr_budgets res). \<exists>b \<in> set (paper_budgets db paper st).
       bv_budget_id v = bg_budget_id b \<and>
       map tv_task_id (bv_tasks v) = map tk_task_id (budget_tasks db b) \<and> bv_tasks v \<noteq> [] \<and>
       (\<forall>t \<in> set (bv_tasks v). tv_state t = state_spec db (tv_task_id t) now))"
proof -
  let ?mapped = "stage_mapping_of m st"
  have budget: "\<exists>v. view_budget (sy_nd sys) db now ?mapped b = Inr v" if b: "b \<in> set (db_budgets db)" for b
  proof -
    obtain views where views: "each_row (view_task (sy_nd sys) db now b) (budget_tasks db b) = Inr views"
      by (rule each_row_total [of "budget_tasks db b" "view_task (sy_nd sys) db now b"])
        (metis view_task_total [OF S R])
    obtain t where "t \<in> set (db_tasks db)" "tk_budget_id t = bg_budget_id b" using R b by (auto simp: rows_ok_def)
    then have "t \<in> set (budget_tasks db b)" by (simp add: budget_tasks_def)
    then have "budget_tasks db b \<noteq> []" by auto
    then have "views \<noteq> []" using views by (cases "budget_tasks db b") (auto simp: result_simps)
    with views show ?thesis by (simp add: view_budget_def)
  qed
  obtain views where views: "each_row (view_budget (sy_nd sys) db now ?mapped) (paper_budgets db paper st) = Inr views"
    by (rule each_row_total [of "paper_budgets db paper st"]) (auto simp: paper_budgets_def intro: budget)
  have "map bv_budget_id views = map bg_budget_id (paper_budgets db paper st)"
    by (rule each_row_map [OF views]) (auto simp: view_budget_def result_simps split: if_splits)
  moreover have "\<exists>b \<in> set (paper_budgets db paper st). bv_budget_id v = bg_budget_id b \<and>
       map tv_task_id (bv_tasks v) = map tk_task_id (budget_tasks db b) \<and> bv_tasks v \<noteq> [] \<and>
       (\<forall>t \<in> set (bv_tasks v). tv_state t = state_spec db (tv_task_id t) now)" if v: "v \<in> set views" for v
  proof -
    obtain b where b: "b \<in> set (paper_budgets db paper st)" "view_budget (sy_nd sys) db now ?mapped b = Inr v"
      by (rule each_row_mem [OF views v])
    from b(2) obtain ts where ts: "each_row (view_task (sy_nd sys) db now b) (budget_tasks db b) = Inr ts"
        "ts \<noteq> []" "bv_tasks v = ts" "bv_budget_id v = bg_budget_id b"
      by (auto simp: view_budget_def result_simps split: if_splits)
    have "map tv_task_id ts = map tk_task_id (budget_tasks db b)"
      by (rule each_row_map [OF ts(1)]) (rule view_task_fields(1) [OF S])
    moreover have "tv_state t = state_spec db (tv_task_id t) now" if tm: "t \<in> set ts" for t
    proof -
      obtain tr where "view_task (sy_nd sys) db now b tr = Inr t" by (rule each_row_mem [OF ts(1) tm])
      then show ?thesis using view_task_fields(1,4) [OF S] by metis
    qed
    ultimately show ?thesis using b(1) ts by blast
  qed
  ultimately show ?thesis using views m
    by (auto simp: query_op_def Let_def)
qed

end
