(* ===== verification/Task_Language.thy ===== *)
theory Task_Language
  imports Task_Query
begin

text \<open>
  \<open>language.py\<close>: where the language of a paper's original title comes from. The rows of the paper
  tables the module joins are arguments (the discoveries of a paper with their feed, and the
  known feeds); its own five tables are the record \<open>language_db\<close>. Journals are texts, closed by
  the strict schema of the stored resolution; the pydantic reader of that schema is a parameter.
\<close>

datatype resolution_status = Lang_Missing | Lang_Ambiguous | Lang_Resolved

record language_source =
  lg_discovery_id :: string
  lg_feed_id :: string
  lg_journal :: "string option"
  lg_is_zh :: "bool option"

record resolution =
  lr_paper_id :: string
  lr_policy :: string
  lr_status :: resolution_status
  lr_is_zh :: "bool option"
  lr_sources :: "language_source list"

record resolution_row =
  rr_resolution_id :: string
  rr_paper_id :: string
  rr_policy :: string
  rr_basis_json :: pystr

record language_db =
  ln_policies :: "(string \<times> pystr) list"
  ln_bindings :: "(string \<times> string) list"
  ln_resolutions :: "resolution_row list"
  ln_frozen :: "(string \<times> string) list"
  ln_required :: "string list"

text \<open>One row of the discoveries of a paper: discovery, feed and the URL of the feed.\<close>

record discovery =
  dv_discovery_id :: string
  dv_feed_id :: string
  dv_url :: string
  dv_paper_id :: string

record language_env =
  le_sha :: "nat list \<Rightarrow> string"
  le_parse :: "pystr \<Rightarrow> resolution option"
  le_endpoints :: "(string \<times> string) list"
  le_papers :: "string list"
  le_discoveries :: "discovery list"

definition journals :: "string list" where
  "journals = [''dqkx'', ''aies'', ''jgr'', ''qjrms'']"

definition policy_v1 :: "(string \<times> bool) list" where
  "policy_v1 = [(''dqkx'', True), (''aies'', False), (''jgr'', False), (''qjrms'', False)]"

section \<open>Policies\<close>

text \<open>\<open>_status\<close> over the set of source values.\<close>

definition language_status :: "bool option set \<Rightarrow> resolution_status" where
  "language_status values =
     (if values = {} \<or> None \<in> values then Lang_Missing
      else if values = {Some True, Some False} then Lang_Ambiguous else Lang_Resolved)"

text \<open>\<open>checked_mapping(json.loads(payload))\<close>: the closed journals with strict Booleans.\<close>

definition bool_member :: "(pystr \<times> json) list \<Rightarrow> string \<Rightarrow> bool option" where
  "bool_member kvs name = (case map_of kvs (ascii name) of Some (JBool b) \<Rightarrow> Some b | _ \<Rightarrow> None)"

definition checked_mapping :: "json \<Rightarrow> (string \<times> bool) list option" where
  "checked_mapping j =
     (case j of
        JObj kvs \<Rightarrow>
          if set (map fst kvs) = set (map ascii journals)
          then all_some (map (\<lambda>n. map_option (Pair n) (bool_member kvs n)) journals) else None
      | _ \<Rightarrow> None)"

definition policy_mapping :: "language_db \<Rightarrow> string \<Rightarrow> (task_error, (string \<times> bool) list) outcome" where
  "policy_mapping ldb version =
     or_raise
       (Option.bind (map_of (ln_policies ldb) version) (\<lambda>payload.
        Option.bind (loads plain_hooks payload) (\<lambda>j.
        Option.bind (checked_mapping j) (\<lambda>mapping.
          if version = ''v1'' \<and> mapping \<noteq> policy_v1 then None else Some mapping))))
       (Task_Error Corrupt_Reference None)"

definition source_value_of :: "(string \<times> bool) list \<Rightarrow> string option \<Rightarrow> bool option" where
  "source_value_of mapping journal = Option.bind journal (map_of mapping)"

text \<open>\<open>mapping[journal]\<close> raises a \<open>KeyError\<close> for a journal outside the mapping; the resolutions that
  reach this test passed the closed schema.\<close>

definition require_policy :: "language_db \<Rightarrow> resolution \<Rightarrow> (task_error, unit) outcome" where
  "require_policy ldb basis =
     and_then (policy_mapping ldb (lr_policy basis)) (\<lambda>mapping.
       require (\<forall>s \<in> set (lr_sources basis). lg_is_zh s = source_value_of mapping (lg_journal s))
         (Task_Error Corrupt_Reference None))"

definition require_sources :: "language_env \<Rightarrow> resolution \<Rightarrow> (task_error, unit) outcome" where
  "require_sources env basis =
     require
       (\<forall>s \<in> set (lr_sources basis). \<exists>d \<in> set (le_discoveries env).
          dv_discovery_id d = lg_discovery_id s \<and> dv_feed_id d = lg_feed_id s \<and>
          dv_paper_id d = lr_paper_id basis)
       (Task_Error Corrupt_Reference None)"

section \<open>Resolutions\<close>

definition source_values :: "resolution \<Rightarrow> bool option set" where
  "source_values basis = lg_is_zh ` set (lr_sources basis)"

text \<open>\<open>next(iter(values))\<close> of a set with one element, which a resolved status guarantees.\<close>

definition resolved_value :: "bool option set \<Rightarrow> bool option" where
  "resolved_value values = (if Some True \<in> values then Some True else Some False)"

definition consistent_resolution :: "resolution \<Rightarrow> bool" where
  "consistent_resolution basis \<longleftrightarrow>
     lr_status basis = language_status (source_values basis) \<and>
     lr_is_zh basis =
       (if lr_status basis = Lang_Resolved then resolved_value (source_values basis) else None)"

definition closed_journals :: "resolution \<Rightarrow> bool" where
  "closed_journals basis \<longleftrightarrow> (\<forall>s \<in> set (lr_sources basis). \<forall>j \<in> set_option (lg_journal s). j \<in> set journals)"

definition checked_resolution :: "resolution \<Rightarrow> (task_error, resolution) outcome" where
  "checked_resolution basis =
     (if closed_journals basis \<and> consistent_resolution basis then Inr basis else fails Corrupt_Reference)"

fun status_value :: "resolution_status \<Rightarrow> string" where
  "status_value Lang_Missing = ''missing''"
| "status_value Lang_Ambiguous = ''ambiguous''"
| "status_value Lang_Resolved = ''resolved''"

definition json_opt_bool :: "bool option \<Rightarrow> json" where
  "json_opt_bool v = (case v of None \<Rightarrow> JNull | Some b \<Rightarrow> JBool b)"

definition source_json :: "language_source \<Rightarrow> json" where
  "source_json s =
     JObj [(ascii ''discovery_id'', json_str (lg_discovery_id s)), (ascii ''feed_id'', json_str (lg_feed_id s)),
           (ascii ''journal'', json_opt_str (lg_journal s)),
           (ascii ''original_title_is_zh'', json_opt_bool (lg_is_zh s))]"

definition resolution_json :: "resolution \<Rightarrow> json" where
  "resolution_json r =
     JObj [(ascii ''paper_id'', json_str (lr_paper_id r)), (ascii ''policy_version'', json_str (lr_policy r)),
           (ascii ''status'', json_str (status_value (lr_status r))),
           (ascii ''original_title_is_zh'', json_opt_bool (lr_is_zh r)),
           (ascii ''sources'', JArr (map source_json (lr_sources r)))]"

definition encode_resolution :: "resolution \<Rightarrow> pystr" where
  "encode_resolution r = dumps (resolution_json r)"

definition resolution_id :: "language_env \<Rightarrow> pystr \<Rightarrow> string" where
  "resolution_id env payload = le_sha env (concat (map encode_char payload))"

definition read_resolution :: "language_env \<Rightarrow> language_db \<Rightarrow> resolution_row \<Rightarrow> (task_error, resolution) outcome" where
  "read_resolution env ldb row =
     and_then (or_raise (le_parse env (rr_basis_json row)) (Task_Error Corrupt_Reference None)) (\<lambda>parsed.
     and_then (checked_resolution parsed) (\<lambda>basis.
     and_then
       (require
          (resolution_id env (encode_resolution basis) = rr_resolution_id row \<and>
           lr_paper_id basis = rr_paper_id row \<and> lr_policy basis = rr_policy row)
          (Task_Error Corrupt_Reference None)) (\<lambda>_.
     and_then (require_policy ldb basis) (\<lambda>_.
     and_then (require_sources env basis) (\<lambda>_. Inr basis)))))"

section \<open>derive and retain\<close>

definition source_of :: "language_env \<Rightarrow> language_db \<Rightarrow> (string \<times> bool) list \<Rightarrow> discovery \<Rightarrow> language_source" where
  "source_of env ldb mapping d =
     (let bound = map_of (ln_bindings ldb) (dv_feed_id d);
          journal = (if truthy_opt bound then bound else map_of (le_endpoints env) (dv_url d)) in
      \<lparr>lg_discovery_id = dv_discovery_id d, lg_feed_id = dv_feed_id d, lg_journal = journal,
       lg_is_zh = source_value_of mapping journal\<rparr>)"

definition derive :: "language_env \<Rightarrow> language_db \<Rightarrow> string \<Rightarrow> string \<Rightarrow> (task_error, resolution) outcome" where
  "derive env ldb paper version =
     and_then (require (paper \<in> set (le_papers env)) (Task_Error Invalid_Request None)) (\<lambda>_.
     and_then (require (map_of (ln_policies ldb) version \<noteq> None) (Task_Error Invalid_Request None)) (\<lambda>_.
     and_then (policy_mapping ldb version) (\<lambda>mapping.
       (let sources = map (source_of env ldb mapping)
              (sort_key dv_discovery_id (filter (\<lambda>d. dv_paper_id d = paper) (le_discoveries env)));
            values = lg_is_zh ` set sources; status = language_status values in
        checked_resolution
          \<lparr>lr_paper_id = paper, lr_policy = version, lr_status = status,
           lr_is_zh = (if status = Lang_Resolved then resolved_value values else None),
           lr_sources = sources\<rparr>))))"

definition retain_resolution ::
    "language_env \<Rightarrow> resolution \<Rightarrow> language_db \<Rightarrow> (task_error, string \<times> language_db) outcome" where
  "retain_resolution env raw ldb =
     and_then (checked_resolution raw) (\<lambda>basis.
     and_then (require_policy ldb basis) (\<lambda>_.
     and_then (require_sources env basis) (\<lambda>_.
       (let payload = encode_resolution basis; i = resolution_id env payload in
        Inr (i,
          if key_free rr_resolution_id (ln_resolutions ldb) i then
            ldb\<lparr>ln_resolutions := ln_resolutions ldb @
              [\<lparr>rr_resolution_id = i, rr_paper_id = lr_paper_id basis, rr_policy = lr_policy basis,
                rr_basis_json = payload\<rparr>]\<rparr>
          else ldb)))))"

section \<open>load and observations\<close>

datatype language_basis =
    Frozen_Basis resolution
  | Historical_Basis "bool option"

definition load_language ::
    "language_env \<Rightarrow> budget_rec \<Rightarrow> language_db \<Rightarrow> (task_error, language_basis) outcome" where
  "load_language env b ldb =
     (let row = Option.bind (map_of (ln_frozen ldb) (bg_budget_id b))
            (lookup rr_resolution_id (ln_resolutions ldb));
          needs = bg_budget_id b \<in> set (ln_required ldb) in
      if needs \<noteq> (row \<noteq> None) \<or> (needs \<and> bg_stage b \<noteq> Stage_Value) then fails Corrupt_Reference
      else
        (case row of
           None \<Rightarrow> Inr (Historical_Basis (bg_language b))
         | Some r \<Rightarrow>
             and_then (read_resolution env ldb r) (\<lambda>basis.
               if lr_status basis \<noteq> Lang_Resolved \<or> lr_paper_id basis \<noteq> bg_paper_id b \<or>
                  lr_is_zh basis = None \<or> lr_is_zh basis \<noteq> bg_language b \<or> lr_sources basis = []
               then fails Corrupt_Reference else Inr (Frozen_Basis basis))))"

definition observations ::
    "language_env \<Rightarrow> string \<Rightarrow> language_db \<Rightarrow> (task_error, (resolution \<times> string) list) outcome" where
  "observations env paper ldb =
     each_row (\<lambda>row. and_then (read_resolution env ldb row) (\<lambda>basis. Inr (basis, rr_resolution_id row)))
       (sort_key rr_resolution_id (filter (\<lambda>r. rr_paper_id r = paper) (ln_resolutions ldb)))"

text \<open>\<open>validate\<close>: every policy, every frozen or required budget and every resolution reads.\<close>

definition validate_language ::
    "language_env \<Rightarrow> task_db \<Rightarrow> language_db \<Rightarrow> (task_error, unit) outcome" where
  "validate_language env db ldb =
     and_then (each_row (policy_mapping ldb) (map fst (ln_policies ldb))) (\<lambda>_.
     and_then
       (each_row
          (\<lambda>i. and_then
             (or_raise (lookup bg_budget_id (db_budgets db) i) (Task_Error Corrupt_Reference None))
             (\<lambda>b. load_language env b ldb))
          (remdups (map fst (ln_frozen ldb) @ ln_required ldb))) (\<lambda>_.
     and_then
       (each_row (\<lambda>p. observations env p ldb) (remdups (map rr_paper_id (ln_resolutions ldb)))) (\<lambda>_. Inr ())))"

section \<open>Policies and bindings of the service\<close>

definition policy_json :: "(string \<times> bool) list \<Rightarrow> json" where
  "policy_json mapping = JObj (map (\<lambda>(n, b). (ascii n, JBool b)) mapping)"

definition policy_ok :: "(string \<times> bool) list \<Rightarrow> bool" where
  "policy_ok mapping \<longleftrightarrow> distinct (map fst mapping) \<and> set (map fst mapping) = set journals"

text \<open>\<open>register_language_policy\<close>: the version has the form of a policy name; \<open>None\<close> keeps version 1.\<close>

definition policy_name_ok :: "string \<Rightarrow> bool" where
  "policy_name_ok v \<longleftrightarrow>
     (let alnum = (\<lambda>c. let n = (of_char c :: nat) in
            (48 \<le> n \<and> n \<le> 57) \<or> (65 \<le> n \<and> n \<le> 90) \<or> (97 \<le> n \<and> n \<le> 122)) in
      case v of
        [] \<Rightarrow> False
      | c # cs \<Rightarrow> alnum c \<and> length cs \<le> 63 \<and> list_all (\<lambda>d. alnum d \<or> d \<in> {CHR ''_'', CHR ''.'', CHR ''-''}) cs)"

definition register_policy ::
    "string \<Rightarrow> (string \<times> bool) list option \<Rightarrow> language_db \<Rightarrow> (task_error, unit) outcome \<times> language_db" where
  "register_policy version mapping ldb =
     (let m = (case mapping of Some m \<Rightarrow> m | None \<Rightarrow> policy_v1); content = dumps (policy_json m) in
      if \<not> policy_name_ok version \<or> \<not> policy_ok m then (fails Invalid_Request, ldb)
      else if version = ''v1'' \<and> content \<noteq> dumps (policy_json policy_v1) then (fails Context_Conflict, ldb)
      else
        (case map_of (ln_policies ldb) version of
           Some old \<Rightarrow> if old \<noteq> content then (fails Context_Conflict, ldb) else (Inr (), ldb)
         | None \<Rightarrow> (Inr (), ldb\<lparr>ln_policies := ln_policies ldb @ [(version, content)]\<rparr>)))"

text \<open>\<open>bind_feed_journal\<close>: the URL of a known feed is an argument.\<close>

definition bind_feed_journal ::
    "language_env \<Rightarrow> string \<Rightarrow> string option \<Rightarrow> string \<Rightarrow> language_db \<Rightarrow> (task_error, unit) outcome \<times> language_db" where
  "bind_feed_journal env feed url journal ldb =
     (if journal \<notin> set journals then (fails Invalid_Request, ldb)
      else
        (case url of
           None \<Rightarrow> (fails Invalid_Request, ldb)
         | Some u \<Rightarrow>
             if map_of (le_endpoints env) u \<notin> {None, Some journal} then (fails Context_Conflict, ldb)
             else
               (case map_of (ln_bindings ldb) feed of
                  Some old \<Rightarrow> if old \<noteq> journal then (fails Context_Conflict, ldb) else (Inr (), ldb)
                | None \<Rightarrow> (Inr (), ldb\<lparr>ln_bindings := ln_bindings ldb @ [(feed, journal)]\<rparr>))))"

end
