(* ===== verification/Task_Feed.thy ===== *)
theory Task_Feed
  imports Task_Language
begin

text \<open>
  \<open>feed_gate.py\<close> and the whole of \<open>ScreeningTasks._register\<close>: the registration of the feed
  pipeline, which derives and freezes the title language and records the gate it passed, in the
  write transaction that registers the request.
\<close>

section \<open>feed_gate.py\<close>

record feed_gate =
  fg_request_key :: string
  fg_metadata_key :: pystr
  fg_boundary_success :: pystr
  fg_production :: bool
  fg_version_id :: pystr
  fg_revision_no :: int
  fg_boundary_fingerprint :: pystr

record proof_row =
  pf_request_key :: string
  pf_receipt_id :: string
  pf_basis_json :: pystr
  pf_sha256 :: string

definition purpose_value :: "bool \<Rightarrow> string" where
  "purpose_value production = (if production then ''production'' else ''test'')"

definition text_digest :: "(nat list \<Rightarrow> string) \<Rightarrow> pystr \<Rightarrow> string" where
  "text_digest sha v = sha (concat (map encode_char v))"

text \<open>\<open>request_key\<close> of the raw request: what cannot be printed or encoded is an invalid request. The texts of
  a gate itself were read from the database, which holds no lone surrogate.\<close>

definition gate_request_key ::
    "(nat list \<Rightarrow> string) \<Rightarrow> json \<Rightarrow> pystr \<Rightarrow> pystr \<Rightarrow> bool \<Rightarrow> (task_error, string) outcome" where
  "gate_request_key sha raw metadata boundary production =
     (case canonical (JArr [raw, JStr metadata, JStr boundary, json_str (purpose_value production)]) of
        None \<Rightarrow> fails Invalid_Request
      | Some t \<Rightarrow> Inr (text_digest sha t))"

definition gate_json :: "feed_gate \<Rightarrow> json" where
  "gate_json g =
     JObj [(ascii ''request_key'', json_str (fg_request_key g)),
       (ascii ''metadata_request_key'', JStr (fg_metadata_key g)),
       (ascii ''boundary_success_id'', JStr (fg_boundary_success g)),
       (ascii ''purpose'', json_str (purpose_value (fg_production g))),
       (ascii ''version_id'', JStr (fg_version_id g)), (ascii ''revision_no'', JInt (fg_revision_no g)),
       (ascii ''boundary_fingerprint'', JStr (fg_boundary_fingerprint g))]"

definition gate_members :: "pystr set" where
  "gate_members = {ascii ''request_key'', ascii ''metadata_request_key'', ascii ''boundary_success_id'',
     ascii ''purpose'', ascii ''version_id'', ascii ''revision_no'', ascii ''boundary_fingerprint''}"

definition str_member :: "(pystr \<times> json) list \<Rightarrow> string \<Rightarrow> pystr option" where
  "str_member kvs name = (case map_of kvs (ascii name) of Some (JStr s) \<Rightarrow> Some s | _ \<Rightarrow> None)"

text \<open>\<open>FeedGate(**basis)\<close> and the tests on its fields.\<close>

definition read_gate :: "string \<Rightarrow> json \<Rightarrow> feed_gate option" where
  "read_gate key j =
     (case j of
        JObj kvs \<Rightarrow>
          if set (map fst kvs) \<noteq> gate_members \<or> str_member kvs ''request_key'' \<noteq> Some (ascii key) then None
          else
            Option.bind (str_member kvs ''metadata_request_key'') (\<lambda>m.
            Option.bind (str_member kvs ''boundary_success_id'') (\<lambda>b.
            Option.bind (str_member kvs ''version_id'') (\<lambda>v.
            Option.bind (str_member kvs ''boundary_fingerprint'') (\<lambda>f.
              (case (map_of kvs (ascii ''revision_no''), str_member kvs ''purpose'') of
                 (Some (JInt n), Some p) \<Rightarrow>
                   if n < 1 \<or> p \<notin> {ascii ''production'', ascii ''test''} then None
                   else Some \<lparr>fg_request_key = key, fg_metadata_key = m, fg_boundary_success = b,
                     fg_production = (p = ascii ''production''), fg_version_id = v, fg_revision_no = n,
                     fg_boundary_fingerprint = f\<rparr>
               | _ \<Rightarrow> None)))))
      | _ \<Rightarrow> None)"

definition find_gate ::
    "(nat list \<Rightarrow> string) \<Rightarrow> proof_row list \<Rightarrow> string \<Rightarrow> (task_error, (string \<times> feed_gate) option) outcome" where
  "find_gate sha proofs key =
     (case lookup pf_request_key proofs key of
        None \<Rightarrow> Inr None
      | Some row \<Rightarrow>
          if text_digest sha (ascii (pf_receipt_id row) @ pf_basis_json row) \<noteq> pf_sha256 row
          then fails Corrupt_Reference
          else
            (case Option.bind (loads plain_hooks (pf_basis_json row)) (read_gate key) of
               None \<Rightarrow> fails Corrupt_Reference
             | Some g \<Rightarrow> Inr (Some (pf_receipt_id row, g))))"

definition retain_gate ::
    "(nat list \<Rightarrow> string) \<Rightarrow> feed_gate \<Rightarrow> string \<Rightarrow> proof_row list \<Rightarrow> (task_error, proof_row list) outcome" where
  "retain_gate sha gate receipt proofs =
     and_then (find_gate sha proofs (fg_request_key gate)) (\<lambda>previous.
       case previous of
         Some (r, _) \<Rightarrow> if r \<noteq> receipt then fails Request_Conflict else Inr proofs
       | None \<Rightarrow>
           (let basis = dumps (gate_json gate) in
            Inr (proofs @ [\<lparr>pf_request_key = fg_request_key gate, pf_receipt_id = receipt,
              pf_basis_json = basis, pf_sha256 = text_digest sha (ascii receipt @ basis)\<rparr>])))"

section \<open>_register\<close>

record service_db =
  sd_tasks :: task_db
  sd_language :: language_db
  sd_proofs :: "proof_row list"

text \<open>The replayed receipt is returned only if the gate of the request led to it.\<close>

definition gate_agrees ::
    "(nat list \<Rightarrow> string) \<Rightarrow> proof_row list \<Rightarrow> feed_gate option \<Rightarrow> receipt \<Rightarrow> (task_error, unit) outcome" where
  "gate_agrees sha proofs gate x =
     (case gate of
        None \<Rightarrow> Inr ()
      | Some g \<Rightarrow>
          and_then (find_gate sha proofs (fg_request_key g)) (\<lambda>previous.
            require (map_option fst previous = Some (rc_receipt_id x)) (Task_Error Request_Conflict None)))"

text \<open>The language an exact repetition of the request was registered with.\<close>

definition registered_language :: "task_db \<Rightarrow> request \<Rightarrow> bool option option" where
  "registered_language db q =
     Option.bind (find (\<lambda>r. re_request_id r = rq_request_id q) (db_requests db)) (\<lambda>r.
     Option.bind (lookup tk_task_id (db_tasks db) (re_task_id r)) (\<lambda>t.
     Option.bind (lookup bg_budget_id (db_budgets db) (tk_budget_id t)) (\<lambda>b. Some (bg_language b))))"

definition with_language :: "request \<Rightarrow> bool option \<Rightarrow> request" where
  "with_language q v = q\<lparr>rq_language := v\<rparr>"

definition first_request :: "string option \<Rightarrow> task_db \<Rightarrow> request \<Rightarrow> request" where
  "first_request policy db q =
     (if policy \<noteq> None \<and> rq_request_id q \<noteq> None then
        (case registered_language db q of Some v \<Rightarrow> with_language q v | None \<Rightarrow> q)
      else q)"

record feed_env =
  fe_sha :: "nat list \<Rightarrow> string"
  fe_register :: register_env
  fe_language :: language_env

datatype language_choice =
    Known_Language "bool option"
  | Derived_Language resolution
  | Unresolved_Language task_reason language_db

text \<open>The language of a registration by policy: the one of the existing budget, or the derived one; an
  unresolved derivation is retained and committed before it is reported.\<close>

definition choose_language ::
    "feed_env \<Rightarrow> string \<Rightarrow> request \<Rightarrow> string \<Rightarrow> service_db \<Rightarrow> (task_error, language_choice) outcome" where
  "choose_language env version q fingerprint sdb =
     (case lookup bg_key (db_budgets (sd_tasks sdb)) (rq_paper_id q, Stage_Value, fingerprint) of
        Some b \<Rightarrow> Inr (Known_Language (bg_language b))
      | None \<Rightarrow>
          and_then (derive (fe_language env) (sd_language sdb) (rq_paper_id q) version) (\<lambda>basis.
            if lr_status basis \<noteq> Lang_Resolved then
              and_then (retain_resolution (fe_language env) basis (sd_language sdb)) (\<lambda>(i, ldb).
                Inr (Unresolved_Language
                  (if lr_status basis = Lang_Ambiguous then Language_Ambiguous else Language_Missing) ldb))
            else Inr (Derived_Language basis)))"

definition freeze_language ::
    "feed_env \<Rightarrow> string \<Rightarrow> language_choice \<Rightarrow> language_db \<Rightarrow> (task_error, language_db) outcome" where
  "freeze_language env budget choice ldb =
     (case choice of
        Derived_Language basis \<Rightarrow>
          and_then (retain_resolution (fe_language env) basis ldb) (\<lambda>(i, ldb').
          and_then
            (require (map_of (ln_frozen ldb') budget = None \<and> budget \<notin> set (ln_required ldb'))
               (Task_Error Corrupt_Reference None)) (\<lambda>_.
            Inr (ldb'\<lparr>ln_frozen := ln_frozen ldb' @ [(budget, i)], ln_required := ln_required ldb' @ [budget]\<rparr>)))
      | _ \<Rightarrow> Inr ldb)"

definition gate_facts :: "feed_gate option \<Rightarrow> basis \<Rightarrow> screening_mapping \<Rightarrow> bool" where
  "gate_facts gate evidence m \<longleftrightarrow>
     (\<forall>g \<in> set_option gate.
        ascii (bs_version_id evidence) = fg_version_id g \<and> bs_revision_no evidence = fg_revision_no g \<and>
        map_option (ascii \<circ> si_fingerprint) (sm_value (mp_boundary m)) = Some (fg_boundary_fingerprint g))"

definition choice_language :: "request \<Rightarrow> language_choice option \<Rightarrow> request" where
  "choice_language q choice =
     (case choice of
        Some (Known_Language v) \<Rightarrow> with_language q v
      | Some (Derived_Language basis) \<Rightarrow> with_language q (lr_is_zh basis)
      | _ \<Rightarrow> q)"

text \<open>The write transaction once the language is known.\<close>

definition register_with ::
    "feed_env \<Rightarrow> feed_gate option \<Rightarrow> request \<Rightarrow> stage_input \<Rightarrow> basis \<Rightarrow> language_choice option \<Rightarrow> service_db \<Rightarrow>
      (task_error, receipt \<times> service_db) outcome" where
  "register_with env gate q input basis choice sdb =
     and_then (replay_request (fe_sha env) (sd_tasks sdb) q) (\<lambda>replayed.
       case replayed of
         Some x \<Rightarrow> and_then (gate_agrees (fe_sha env) (sd_proofs sdb) gate x) (\<lambda>_. Inr (x, sdb))
       | None \<Rightarrow>
           and_then (require (gate_facts gate basis (rg_mapping (fe_register env))) (Task_Error Facts_Changed None))
             (\<lambda>_.
           and_then (rg_current (fe_register env)) (\<lambda>current.
           and_then (require (current = basis) (Task_Error Facts_Changed None)) (\<lambda>_.
           and_then (require (rg_snapshot_known (fe_register env)) (Task_Error Corrupt_Reference None)) (\<lambda>_.
           and_then
             (register_request (fe_sha env) q input basis (rg_new_budget (fe_register env))
                (rg_new_task (fe_register env)) (sd_tasks sdb)) (\<lambda>(x, db).
           and_then
             (case choice of
                Some c \<Rightarrow> freeze_language env (rc_budget_id x) c (sd_language sdb)
              | None \<Rightarrow> Inr (sd_language sdb)) (\<lambda>ldb.
           and_then
             (case gate of
                Some g \<Rightarrow> retain_gate (fe_sha env) g (rc_receipt_id x) (sd_proofs sdb)
              | None \<Rightarrow> Inr (sd_proofs sdb)) (\<lambda>proofs.
             Inr (x, \<lparr>sd_tasks = db, sd_language = ldb, sd_proofs = proofs\<rparr>)))))))))"

definition commit_service ::
    "(task_error, 'a \<times> service_db) outcome \<Rightarrow> service_db \<Rightarrow> (task_error, 'a) outcome \<times> service_db" where
  "commit_service r sdb = (case r of Inl e \<Rightarrow> (Inl e, sdb) | Inr (x, sdb') \<Rightarrow> (Inr x, sdb'))"

definition register_write ::
    "feed_env \<Rightarrow> string option \<Rightarrow> feed_gate option \<Rightarrow> request \<Rightarrow> stage_input \<Rightarrow> basis \<Rightarrow> service_db \<Rightarrow>
      (task_error, receipt) outcome \<times> service_db" where
  "register_write env policy gate q input basis sdb =
     (case policy of
        None \<Rightarrow> commit_service (register_with env gate q input basis None sdb) sdb
      | Some version \<Rightarrow>
          (case choose_language env version q (si_fingerprint input) sdb of
             Inl e \<Rightarrow> (Inl e, sdb)
           | Inr (Unresolved_Language reason ldb) \<Rightarrow> (fails reason, sdb\<lparr>sd_language := ldb\<rparr>)
           | Inr choice \<Rightarrow>
               commit_service
                 (register_with env gate (choice_language q (Some choice)) input basis (Some choice) sdb) sdb))"

definition register_feed ::
    "feed_env \<Rightarrow> string option \<Rightarrow> feed_gate option \<Rightarrow> request \<Rightarrow> service_db \<Rightarrow> service_db \<Rightarrow>
      (task_error, receipt) outcome \<times> service_db" where
  "register_feed env policy gate q0 sdb sdb2 =
     (let q = first_request policy (sd_tasks sdb) q0 in
      case replay_request (fe_sha env) (sd_tasks sdb) q of
        Inl e \<Rightarrow> (Inl e, sdb2)
      | Inr (Some x) \<Rightarrow>
          (case gate_agrees (fe_sha env) (sd_proofs sdb) gate x of
             Inl e \<Rightarrow> (Inl e, sdb2) | Inr _ \<Rightarrow> (Inr x, sdb2))
      | Inr None \<Rightarrow>
          (case and_then (require_stage_mapping (rg_mapping (fe_register env)) (rq_stage q)) (\<lambda>vb.
                  and_then
                    (require (rq_stage q = Stage_Value \<longrightarrow> rg_context_ok (fe_register env))
                       (Task_Error Invalid_Context None)) (\<lambda>_. Inr vb)) of
             Inl e \<Rightarrow> (Inl e, sdb2)
           | Inr (input, basis) \<Rightarrow> register_write env policy gate q input basis sdb2))"

section \<open>The task history\<close>

text \<open>On the task tables, the registration with a language and a gate is the plain registration of the
  request with its language.\<close>

lemma register_with_refines:
  assumes "register_with env gate q input basis choice sdb = Inr (x, sdb')"
  shows "register_body (fe_sha env) (fe_register env) q input basis (sd_tasks sdb) = Inr (x, sd_tasks sdb')"
proof -
  from assms obtain rep where rep: "replay_request (fe_sha env) (sd_tasks sdb) q = Inr rep"
    by (auto simp: register_with_def result_simps)
  show ?thesis
  proof (cases rep)
    case (Some y)
    with assms rep have "y = x" "sdb' = sdb" by (auto simp: register_with_def result_simps)
    with Some rep show ?thesis by (simp add: register_body_def)
  next
    case None
    with assms rep obtain db ldb proofs where "rg_current (fe_register env) = Inr basis"
        "rg_snapshot_known (fe_register env)"
        "register_request (fe_sha env) q input basis (rg_new_budget (fe_register env))
           (rg_new_task (fe_register env)) (sd_tasks sdb) = Inr (x, db)"
        "sdb' = \<lparr>sd_tasks = db, sd_language = ldb, sd_proofs = proofs\<rparr>"
      by (auto simp: register_with_def result_simps)
    with None rep show ?thesis by (simp add: register_body_def)
  qed
qed

lemma with_language_twice:
  "with_language (with_language q v) u = with_language q u" "with_language q (rq_language q) = q"
  "rq_stage (with_language q v) = rq_stage q"
  by (simp_all add: with_language_def)

lemma first_request_language: "\<exists>v. first_request policy db q = with_language q v"
  unfolding first_request_def by (metis option.case_eq_if with_language_twice(2))

lemma choice_request_language: "\<exists>v. choice_language (with_language q u) choice = with_language q v"
  by (auto simp: choice_language_def with_language_twice split: option.split language_choice.split)

lemma register_write_history:
  assumes "register_write env policy gate (with_language q u) input basis sdb2 = (out, sdb')"
  shows "sd_tasks sdb' = sd_tasks sdb2 \<or>
    (\<exists>v x. out = Inr x \<and> register_body (fe_sha env) (fe_register env) (with_language q v) input basis (sd_tasks sdb2) =
       Inr (x, sd_tasks sdb'))"
proof -
  have plain: "sd_tasks sdb' = sd_tasks sdb2 \<or>
      (\<exists>v x. out = Inr x \<and> register_body (fe_sha env) (fe_register env) (with_language q v) input basis (sd_tasks sdb2) =
         Inr (x, sd_tasks sdb'))"
    if "commit_service (register_with env gate (with_language q v) input basis choice sdb2) sdb2 = (out, sdb')" for v choice
    using that register_with_refines [of env gate "with_language q v" input basis choice sdb2]
    by (auto simp: commit_service_def split: sum.splits)
  show ?thesis
  proof (cases policy)
    case None
    with assms plain [of u None] show ?thesis by (simp add: register_write_def)
  next
    case (Some version)
    show ?thesis
    proof (cases "choose_language env version (with_language q u) (si_fingerprint input) sdb2")
      case (Inr choice)
      obtain v where "choice_language (with_language q u) (Some choice) = with_language q v"
        using choice_request_language by blast
      with assms Some Inr plain [of v "Some choice"] show ?thesis
        by (cases choice) (auto simp: register_write_def)
    qed (use assms Some in \<open>auto simp: register_write_def\<close>)
  qed
qed

lemma register_feed_history:
  assumes "register_feed env policy gate q sdb sdb2 = (out, sdb')"
  shows "sd_tasks sdb' = sd_tasks sdb2 \<or>
    (\<exists>v input basis x. out = Inr x \<and>
       require_stage_mapping (rg_mapping (fe_register env)) (rq_stage q) = Inr (input, basis) \<and>
       register_body (fe_sha env) (fe_register env) (with_language q v) input basis (sd_tasks sdb2) =
         Inr (x, sd_tasks sdb'))"
proof -
  obtain u where u: "first_request policy (sd_tasks sdb) q = with_language q u"
    using first_request_language by blast
  show ?thesis
    using assms unfolding register_feed_def Let_def u
    by (auto simp: result_simps with_language_twice split: option.splits sum.splits prod.splits dest!: register_write_history)
qed

end
