(* ===== verification/Task_Feed_Laws.thy ===== *)
theory Task_Feed_Laws
  imports Task_Feed
begin

text \<open>What the feed registration leaves behind: the gate that is found again, and the language basis
  that loads for the budget it was frozen with.\<close>

section \<open>The gate\<close>

lemma read_gateI:
  assumes "set (map fst kvs) = gate_members" "1 \<le> fg_revision_no g"
    and "map_of kvs (ascii ''request_key'') = Some (json_str (fg_request_key g))"
    "map_of kvs (ascii ''metadata_request_key'') = Some (JStr (fg_metadata_key g))"
    "map_of kvs (ascii ''boundary_success_id'') = Some (JStr (fg_boundary_success g))"
    "map_of kvs (ascii ''purpose'') = Some (json_str (purpose_value (fg_production g)))"
    "map_of kvs (ascii ''version_id'') = Some (JStr (fg_version_id g))"
    "map_of kvs (ascii ''revision_no'') = Some (JInt (fg_revision_no g))"
    "map_of kvs (ascii ''boundary_fingerprint'') = Some (JStr (fg_boundary_fingerprint g))"
  shows "read_gate (fg_request_key g) (JObj kvs) = Some g"
proof -
  have p: "(ascii (purpose_value b) = ascii ''production'') = b"
    "ascii (purpose_value b) \<in> {ascii ''production'', ascii ''test''}" for b
    by (cases b; simp add: purpose_value_def ascii_def)+
  show ?thesis
    using assms(2-) p unfolding read_gate_def json.case assms(1)
    by (simp add: str_member_def json_str_def)
qed

lemma map_of_sorted:
  assumes "distinct (map fst kvs)" "(k, v) \<in> set kvs"
  shows "map_of (sort_key fst (map (\<lambda>(k, v). (k, sorted_members v)) kvs)) k = Some (sorted_members v)"
proof -
  have "map fst (map (\<lambda>(k, v). (k, sorted_members v)) kvs) = map fst kvs" by auto
  then have "distinct (map fst (sort_key fst (map (\<lambda>(k, v). (k, sorted_members v)) kvs)))"
    using assms(1) by (simp only: distinct_sort_keys)
  then show ?thesis using assms(2) by (force simp: map_of_eq_Some_iff)
qed

lemma read_gate_json:
  assumes "1 \<le> fg_revision_no g"
  shows "read_gate (fg_request_key g) (sorted_members (gate_json g)) = Some g"
proof -
  obtain kvs where k: "gate_json g = JObj kvs" by (simp add: gate_json_def)
  have d: "distinct (map fst kvs)" and keys: "set (map fst kvs) = gate_members"
    using k by (auto simp: gate_json_def gate_members_def ascii_def)
  have mem: "(ascii ''request_key'', json_str (fg_request_key g)) \<in> set kvs"
    "(ascii ''metadata_request_key'', JStr (fg_metadata_key g)) \<in> set kvs"
    "(ascii ''boundary_success_id'', JStr (fg_boundary_success g)) \<in> set kvs"
    "(ascii ''purpose'', json_str (purpose_value (fg_production g))) \<in> set kvs"
    "(ascii ''version_id'', JStr (fg_version_id g)) \<in> set kvs"
    "(ascii ''revision_no'', JInt (fg_revision_no g)) \<in> set kvs"
    "(ascii ''boundary_fingerprint'', JStr (fg_boundary_fingerprint g)) \<in> set kvs"
    using k by (auto simp: gate_json_def)
  have str: "sorted_members (json_str s) = json_str s" for s by (simp add: json_str_def)
  note m = map_of_sorted [OF d, OF mem(1)] map_of_sorted [OF d, OF mem(2)] map_of_sorted [OF d, OF mem(3)]
    map_of_sorted [OF d, OF mem(4)] map_of_sorted [OF d, OF mem(5)] map_of_sorted [OF d, OF mem(6)]
    map_of_sorted [OF d, OF mem(7)]
  have "set (map fst (sort_key fst (map (\<lambda>(k, v). (k, sorted_members v)) kvs))) = gate_members"
    unfolding keys [symmetric] by force
  then show ?thesis
    unfolding k sorted_members.simps
    by (rule read_gateI) (use assms m in \<open>simp_all only: str sorted_members.simps\<close>)
qed

lemma plain_gate: "length (dec (nat \<bar>fg_revision_no g\<bar>)) \<le> int_max_str_digits \<Longrightarrow> plain_json (gate_json g)"
  by (simp add: gate_json_def json_str_def ascii_def)

definition gate_storable :: "feed_gate \<Rightarrow> bool" where
  "gate_storable g \<longleftrightarrow> 1 \<le> fg_revision_no g \<and> length (dec (nat \<bar>fg_revision_no g\<bar>)) \<le> int_max_str_digits"

lemma find_retained:
  assumes G: "gate_storable g" and none: "find_gate sha proofs (fg_request_key g) = Inr None"
    and r: "retain_gate sha g receipt proofs = Inr proofs'"
  shows "find_gate sha proofs' (fg_request_key g) = Inr (Some (receipt, g))"
proof -
  from none have free: "lookup pf_request_key proofs (fg_request_key g) = None"
    by (auto simp: find_gate_def split: option.splits if_splits)
  let ?row = "\<lparr>pf_request_key = fg_request_key g, pf_receipt_id = receipt, pf_basis_json = dumps (gate_json g),
    pf_sha256 = text_digest sha (ascii receipt @ dumps (gate_json g))\<rparr>"
  from r none have p: "proofs' = proofs @ [?row]" by (simp add: retain_gate_def Let_def)
  have "lookup pf_request_key proofs' (fg_request_key g) = Some ?row"
    using free unfolding p by (subst lookup_append) simp
  moreover have "loads plain_hooks (dumps (gate_json g)) = Some (sorted_members (gate_json g))"
    by (rule loads_dumps, rule plain_gate) (rule conjunct2 [OF G [unfolded gate_storable_def]])
  ultimately show ?thesis
    using G read_gate_json [of g] by (simp add: find_gate_def gate_storable_def)
qed

lemma find_other:
  assumes "retain_gate sha g receipt proofs = Inr proofs'" "k \<noteq> fg_request_key g"
  shows "find_gate sha proofs' k = find_gate sha proofs k"
proof -
  have "lookup pf_request_key proofs' k = lookup pf_request_key proofs k"
    using assms
    by (auto simp: retain_gate_def result_simps Let_def lookup_append split: option.splits if_splits)
  then show ?thesis by (simp add: find_gate_def)
qed

section \<open>The language basis\<close>

definition language_uncollided :: "language_env \<Rightarrow> language_db \<Rightarrow> resolution \<Rightarrow> bool" where
  "language_uncollided env ldb basis \<longleftrightarrow>
     (\<forall>r \<in> set (ln_resolutions ldb). rr_resolution_id r = resolution_id env (encode_resolution basis) \<longrightarrow>
        rr_basis_json r = encode_resolution basis \<and> rr_paper_id r = lr_paper_id basis \<and>
        rr_policy r = lr_policy basis)"

text \<open>Retaining keeps the rows, and leaves a row that reads back as the resolution.\<close>

lemma checked_same: "checked_resolution b = Inr b' \<Longrightarrow> b' = b"
  by (auto simp: checked_resolution_def split: if_splits)

lemma retained_reads:
  assumes R: "retain_resolution env basis ldb = Inr (i, ldb')"
    and P: "le_parse env (encode_resolution basis) = Some basis" and U: "language_uncollided env ldb basis"
  shows "i = resolution_id env (encode_resolution basis)"
    "ln_policies ldb' = ln_policies ldb" "ln_frozen ldb' = ln_frozen ldb" "ln_required ldb' = ln_required ldb"
    "\<exists>r. lookup rr_resolution_id (ln_resolutions ldb') i = Some r \<and> read_resolution env ldb' r = Inr basis"
proof -
  from R have checked: "checked_resolution basis = Inr basis" and pol: "require_policy ldb basis = Inr ()"
    and src: "require_sources env basis = Inr ()"
    by (auto simp: retain_resolution_def result_simps dest: checked_same)
  let ?p = "encode_resolution basis" and ?i = "resolution_id env (encode_resolution basis)"
  let ?row = "\<lparr>rr_resolution_id = ?i, rr_paper_id = lr_paper_id basis, rr_policy = lr_policy basis, rr_basis_json = ?p\<rparr>"
  from R checked pol src have i: "i = ?i" and l: "ldb' = (if key_free rr_resolution_id (ln_resolutions ldb) ?i
      then ldb\<lparr>ln_resolutions := ln_resolutions ldb @ [?row]\<rparr> else ldb)"
    by (auto simp: retain_resolution_def Let_def)
  show "i = ?i" by (rule i)
  show same: "ln_policies ldb' = ln_policies ldb" "ln_frozen ldb' = ln_frozen ldb" "ln_required ldb' = ln_required ldb"
    by (simp_all add: l)
  have pol': "require_policy ldb' basis = Inr ()"
    using pol by (simp add: require_policy_def policy_mapping_def same(1))
  obtain r where r: "lookup rr_resolution_id (ln_resolutions ldb') ?i = Some r" "rr_basis_json r = ?p"
      "rr_paper_id r = lr_paper_id basis" "rr_policy r = lr_policy basis" "rr_resolution_id r = ?i"
  proof (cases "key_free rr_resolution_id (ln_resolutions ldb) ?i")
    case True
    then show ?thesis by (intro that [of ?row]) (simp_all add: l lookup_append)
  next
    case False
    then obtain r where "lookup rr_resolution_id (ln_resolutions ldb) ?i = Some r"
      by (auto simp: lookup_None [symmetric])
    moreover from this have "r \<in> set (ln_resolutions ldb)" "rr_resolution_id r = ?i" by (auto dest: lookup_Some)
    ultimately show ?thesis using U False by (intro that [of r]) (auto simp: l language_uncollided_def)
  qed
  moreover have "read_resolution env ldb' r = Inr basis"
    using r P checked pol' src by (simp add: read_resolution_def)
  ultimately show "\<exists>r. lookup rr_resolution_id (ln_resolutions ldb') i = Some r \<and> read_resolution env ldb' r = Inr basis"
    using i by blast
qed

lemma resolved_sources:
  assumes "checked_resolution basis = Inr basis" "lr_status basis = Lang_Resolved"
  shows "lr_sources basis \<noteq> []" "lr_is_zh basis \<noteq> None"
  using assms
  by (auto simp: checked_resolution_def consistent_resolution_def source_values_def language_status_def
      resolved_value_def split: if_splits)

lemma frozen_loads:
  assumes F: "freeze_language env (bg_budget_id b) (Derived_Language basis) ldb = Inr ldb'"
    and status: "lr_status basis = Lang_Resolved"
    and P: "le_parse (fe_language env) (encode_resolution basis) = Some basis"
    and U: "language_uncollided (fe_language env) ldb basis"
    and b: "bg_stage b = Stage_Value" "bg_paper_id b = lr_paper_id basis" "bg_language b = lr_is_zh basis"
  shows "load_language (fe_language env) b ldb' = Inr (Frozen_Basis basis)"
proof -
  let ?env = "fe_language env"
  from F obtain i ldb1 where R: "retain_resolution ?env basis ldb = Inr (i, ldb1)"
    and new: "map_of (ln_frozen ldb1) (bg_budget_id b) = None"
    and l: "ldb' = ldb1\<lparr>ln_frozen := ln_frozen ldb1 @ [(bg_budget_id b, i)],
        ln_required := ln_required ldb1 @ [bg_budget_id b]\<rparr>"
    by (auto simp: freeze_language_def result_simps)
  from R have checked: "checked_resolution basis = Inr basis"
    by (auto simp: retain_resolution_def result_simps dest: checked_same)
  from retained_reads(5) [OF R P U] obtain r where
    r: "lookup rr_resolution_id (ln_resolutions ldb1) i = Some r" "read_resolution ?env ldb1 r = Inr basis"
    by blast
  have read: "read_resolution ?env ldb' r = Inr basis"
    using r(2) by (simp add: read_resolution_def require_policy_def policy_mapping_def l)
  have "map_of (ln_frozen ldb') (bg_budget_id b) = Some i"
    using new by (simp add: l map_add_def)
  then show ?thesis
    using r(1) read status b resolved_sources [OF checked status]
    by (simp add: load_language_def l)
qed

text \<open>\<open>derive\<close> reads the discoveries of the paper only.\<close>

definition discovered_languages :: "language_env \<Rightarrow> language_db \<Rightarrow> (string \<times> bool) list \<Rightarrow> string \<Rightarrow> bool option set" where
  "discovered_languages env ldb mapping paper =
     (\<lambda>d. lg_is_zh (source_of env ldb mapping d)) ` {d \<in> set (le_discoveries env). dv_paper_id d = paper}"

lemma language_status_resolved: "language_status vs = Lang_Resolved \<longleftrightarrow> (\<exists>b. vs = {Some b})"
proof
  assume "language_status vs = Lang_Resolved"
  then have vs: "vs \<noteq> {}" "None \<notin> vs" "vs \<noteq> {Some True, Some False}"
    by (auto simp: language_status_def split: if_splits)
  have sub: "v = Some True \<or> v = Some False" if "v \<in> vs" for v
    using that vs(2) by (cases v) auto
  show "\<exists>b. vs = {Some b}"
  proof (cases "Some True \<in> vs")
    case True
    then have "Some False \<notin> vs" using vs(3) sub by auto
    with True sub have "vs = {Some True}" by auto
    then show ?thesis ..
  next
    case False
    with vs(1) sub have "vs = {Some False}" by auto
    then show ?thesis ..
  qed
qed (auto simp: language_status_def)

lemma derived_fields:
  assumes "derive env ldb paper version = Inr basis"
  obtains mapping where "policy_mapping ldb version = Inr mapping"
    "lr_paper_id basis = paper" "lr_policy basis = version"
    "lr_status basis = language_status (discovered_languages env ldb mapping paper)"
    "lr_is_zh basis = (if lr_status basis = Lang_Resolved
       then resolved_value (discovered_languages env ldb mapping paper) else None)"
    "checked_resolution basis = Inr basis"
proof -
  from assms obtain mapping where m: "policy_mapping ldb version = Inr mapping"
    by (auto simp: derive_def result_simps)
  let ?sources = "map (source_of env ldb mapping)
      (sort_key dv_discovery_id (filter (\<lambda>d. dv_paper_id d = paper) (le_discoveries env)))"
  have v: "lg_is_zh ` set ?sources = discovered_languages env ldb mapping paper"
    by (simp add: discovered_languages_def image_image)
  from assms m v have c: "checked_resolution
      \<lparr>lr_paper_id = paper, lr_policy = version,
       lr_status = language_status (discovered_languages env ldb mapping paper),
       lr_is_zh = (if language_status (discovered_languages env ldb mapping paper) = Lang_Resolved
         then resolved_value (discovered_languages env ldb mapping paper) else None),
       lr_sources = ?sources\<rparr> = Inr basis" (is "checked_resolution ?b = _")
    by (auto simp: derive_def result_simps Let_def simp del: set_map)
  then have "basis = ?b" by (rule checked_same)
  with c m show ?thesis by (intro that [of mapping]) simp_all
qed

text \<open>A paper's language is resolved exactly if its discoveries agree on it.\<close>

lemma derived_language:
  assumes "derive env ldb paper version = Inr basis"
  obtains mapping where "policy_mapping ldb version = Inr mapping"
    "\<And>v. lr_status basis = Lang_Resolved \<and> lr_is_zh basis = Some v \<longleftrightarrow>
       discovered_languages env ldb mapping paper = {Some v}"
proof -
  obtain mapping where m: "policy_mapping ldb version = Inr mapping"
    and f: "lr_status basis = language_status (discovered_languages env ldb mapping paper)"
    "lr_is_zh basis = (if lr_status basis = Lang_Resolved
       then resolved_value (discovered_languages env ldb mapping paper) else None)"
    using assms by (rule derived_fields)
  let ?D = "discovered_languages env ldb mapping paper"
  have one: "language_status {Some b} = Lang_Resolved" "resolved_value {Some b} = Some b" for b
    by (auto simp: language_status_def resolved_value_def)
  have "lr_status basis = Lang_Resolved \<and> lr_is_zh basis = Some v \<longleftrightarrow> ?D = {Some v}" for v
  proof
    assume L: "lr_status basis = Lang_Resolved \<and> lr_is_zh basis = Some v"
    with f(1) have "language_status ?D = Lang_Resolved" by simp
    then obtain b where "?D = {Some b}" unfolding language_status_resolved by blast
    moreover from L have "lr_status basis = Lang_Resolved" "lr_is_zh basis = Some v" by blast+
    with f(2) have "resolved_value ?D = Some v" by simp
    ultimately show "?D = {Some v}" using one(2) [of b] by simp
  next
    assume "?D = {Some v}"
    with f one [of v] show "lr_status basis = Lang_Resolved \<and> lr_is_zh basis = Some v" by simp
  qed
  with m show ?thesis by (rule that)
qed

section \<open>The budget a registration opens\<close>

lemma receipt_budget:
  assumes "receipt_row db i = Some row" "to_receipt row = Inr x"
  shows "\<not> key_free bg_budget_id (db_budgets db) (rc_budget_id x)"
proof -
  obtain r t b where row: "row = (r, t, b)" by (cases row)
  note D = receipt_rowD [OF assms(1) [unfolded row]]
  have "rc_budget_id x = tk_budget_id t" using assms(2) by (auto simp: row to_receipt_def split: if_splits)
  with D(5,6) show ?thesis by (auto simp: key_free_def)
qed

lemma opened_budget:
  assumes R: "register_request sha q input basis nb nt db = Inr (x, db')"
    and new: "key_free bg_budget_id (db_budgets db) (rc_budget_id x)"
  shows "lookup bg_budget_id (db_budgets db') (rc_budget_id x) =
    Some \<lparr>bg_budget_id = rc_budget_id x, bg_paper_id = rq_paper_id q, bg_stage = rq_stage q,
      bg_fingerprint = si_fingerprint input, bg_snapshot_id = rq_snapshot_id q, bg_basis = basis,
      bg_language = request_language q\<rparr>"
proof -
  have found: False if "receipt_row db i = Some row" "to_receipt row = Inr x" for i row
    using receipt_budget [OF that] new by simp
  from R show ?thesis
  proof (cases rule: register_request_cases)
    case replayed
    then obtain i row where "receipt_row db i = Some row" "to_receipt row = Inr x"
      by (auto simp: replay_request_def existing_receipt_def result_simps split: if_splits option.splits)
    then show ?thesis by (metis found)
  next
    case (known row)
    then have "to_receipt row = Inr x" by (auto simp: existing_receipt_def split: if_splits)
    with known(2) show ?thesis by (metis found)
  next
    case (fresh db1 b t db2)
    from fresh(5) obtain row where ins: "insert_request (new_request sha q (receipt_id sha q basis (si_fingerprint input)) t basis
         (cached_success db2 b)) db2 = Inr db'"
      and row: "receipt_row db' (receipt_id sha q basis (si_fingerprint input)) = Some row" "to_receipt row = Inr x"
      by (rule insert_and_readD) (simp add: new_request_def)
    obtain r tr br where rr: "row = (r, tr, br)" by (cases row)
    note D = receipt_rowD [OF row(1) [unfolded rr]]
    have x: "rc_budget_id x = bg_budget_id br" using row(2) D(6) by (auto simp: rr to_receipt_def split: if_splits)
    have bs: "db_budgets db' = db_budgets db2" using ins by (auto simp: insert_request_def)
    have same: "db_budgets db1 = db_budgets db"
      using fresh(3) by (auto simp: ensure_input_def insert_input_def split: option.splits if_splits)
    from D(5) bs have br: "br \<in> set (db_budgets db2)" by simp
    show ?thesis
    proof (cases "lookup bg_key (db_budgets db1) (rq_paper_id q, rq_stage q, si_fingerprint input)")
      case None
      let ?b = "\<lparr>bg_budget_id = nb, bg_paper_id = rq_paper_id q, bg_stage = rq_stage q,
        bg_fingerprint = si_fingerprint input, bg_snapshot_id = rq_snapshot_id q, bg_basis = basis,
        bg_language = request_language q\<rparr>"
      from fresh(4) None have b2: "db_budgets db2 = db_budgets db @ [?b]"
        by (auto simp: ensure_budget_def insert_budget_def insert_task_def result_simps same)
      have "br \<notin> set (db_budgets db)" using new x by (auto simp: key_free_def)
      with br b2 have "br = ?b" by simp
      then have nb: "nb = rc_budget_id x" using x by simp
      with new bs b2 show ?thesis by (simp add: lookup_append)
    next
      case (Some c)
      then have "db2 = db1" using fresh(4)
        by (cases "latest_task db1 (bg_budget_id c)") (auto simp: ensure_budget_def split: if_splits)
      with br same have "br \<in> set (db_budgets db)" by simp
      with x new have False unfolding key_free_def by metis
      then show ?thesis ..
    qed
  qed
qed

text \<open>A feed registration that opens a budget freezes the language it derived, and the budget loads it.\<close>

lemma register_write_freezes:
  assumes W: "register_write env (Some version) gate q input basis sdb = (Inr x, sdb')"
    and st: "rq_stage q = Stage_Value"
    and new: "key_free bg_budget_id (db_budgets (sd_tasks sdb)) (rc_budget_id x)"
    and known: "lookup bg_key (db_budgets (sd_tasks sdb)) (rq_paper_id q, Stage_Value, si_fingerprint input) = None"
    and D: "derive (fe_language env) (sd_language sdb) (rq_paper_id q) version = Inr res"
    and P: "le_parse (fe_language env) (encode_resolution res) = Some res"
    and U: "language_uncollided (fe_language env) (sd_language sdb) res"
  obtains b where "lookup bg_budget_id (db_budgets (sd_tasks sdb')) (rc_budget_id x) = Some b"
    "lr_status res = Lang_Resolved" "bg_language b = lr_is_zh res" "bg_paper_id b = rq_paper_id q"
    "load_language (fe_language env) b (sd_language sdb') = Inr (Frozen_Basis res)"
proof -
  from W obtain choice where ch: "choose_language env version q (si_fingerprint input) sdb = Inr choice"
    by (auto simp: register_write_def split: sum.splits)
  from W ch have cases: "\<not> (\<exists>r l. choice = Unresolved_Language r l)" by (auto simp: register_write_def)
  from ch known cases D have res: "derive (fe_language env) (sd_language sdb) (rq_paper_id q) version = Inr res"
      "lr_status res = Lang_Resolved" "choice = Derived_Language res"
    by (auto simp: choose_language_def result_simps split: if_splits)
  let ?q = "with_language q (lr_is_zh res)"
  from W ch res(3) have "commit_service (register_with env gate ?q input basis (Some choice) sdb) sdb = (Inr x, sdb')"
    by (simp add: register_write_def choice_language_def)
  then have rw: "register_with env gate ?q input basis (Some choice) sdb = Inr (x, sdb')"
    by (auto simp: commit_service_def split: sum.splits)
  then obtain rep where rep: "replay_request (fe_sha env) (sd_tasks sdb) ?q = Inr rep"
    by (auto simp: register_with_def result_simps)
  have none: "rep = None"
  proof (rule ccontr)
    assume "rep \<noteq> None"
    with rw rep have y: "rep = Some x" by (auto simp: register_with_def result_simps)
    then obtain i row where "receipt_row (sd_tasks sdb) i = Some row" "to_receipt row = Inr x"
      using rep by (auto simp: replay_request_def existing_receipt_def result_simps split: if_splits option.splits)
    from receipt_budget [OF this] new show False by simp
  qed
  from rw rep none res(3) obtain db ldb proofs where
    rr: "register_request (fe_sha env) ?q input basis (rg_new_budget (fe_register env))
       (rg_new_task (fe_register env)) (sd_tasks sdb) = Inr (x, db)"
    and fr: "freeze_language env (rc_budget_id x) (Derived_Language res) (sd_language sdb) = Inr ldb"
    and s: "sdb' = \<lparr>sd_tasks = db, sd_language = ldb, sd_proofs = proofs\<rparr>"
    by (auto simp: register_with_def result_simps)
  obtain b where b: "lookup bg_budget_id (db_budgets db) (rc_budget_id x) = Some b" "bg_budget_id b = rc_budget_id x"
      "bg_stage b = Stage_Value" "bg_paper_id b = rq_paper_id q" "bg_language b = lr_is_zh res"
    using opened_budget [OF rr new] st by (simp add: request_language_def with_language_def)
  have paper: "lr_paper_id res = rq_paper_id q" by (rule derived_fields [OF res(1)])
  have "load_language (fe_language env) b ldb = Inr (Frozen_Basis res)"
    by (rule frozen_loads) (use fr b res(2) P U paper in simp_all)
  then show ?thesis by (intro that [of b]) (use b res s in simp_all)
qed

end
