(* ===== verification/Task_Service_Properties.thy ===== *)
theory Task_Service_Properties
  imports Task_Feed_Laws Task_Samples_Retry
begin

text \<open>The properties of the readers, of the audit and of the feed registration of the task service.\<close>

section \<open>The audit\<close>

text \<open>
  C30: on tables whose keys are unique, as their primary keys make them, the audit of the execution
  facts accepts exactly the databases in which every attempt has one lease of ten minutes at least, at most one settlement, a legal credential and facts that still
  resolve, in which attempts are numbered 1 and 2 with the failure of the first before the second,
  and in which every failure has an authority that may record it.
\<close>

theorem audit_accepts_iff:
  assumes "keys_distinct db"
  shows "validate_attempts env db = Inr () \<longleftrightarrow> execution_ok env db"
  using assms by (rule validate_attempts_iff)

definition sample_audit_env :: audit_env where
  "sample_audit_env = \<lparr>ae_resolve = (\<lambda>v n. Inr (''p'', sample_basis)), ae_map = (\<lambda>v n s. Inr sample_mapping)\<rparr>"

lemma sample_sha_hex: "hex64 (sample_sha bs)"
proof -
  have "hex_char (''0123456789abcdef'' ! n)" if "n < 16" for n
    using that by (auto simp: less_Suc_eq numeral_eq_Suc hex_char_def)
  then show ?thesis by (auto simp: sample_sha_def hex64_def Let_def list_all_iff hex_char_def)
qed

lemma sample_resolves: "facts_stable sample_audit_env sample_db6"
  by (auto simp: facts_stable_def sample_audit_env_def sample_dbs sample_attempt_def receipt_row_def
      bind_eq_Some_conv lookup_def sample_row_def new_request_def sample_task_def sample_budget_def
      sample_mapping_def stage_mapping_of_def sample_input_def)

lemma sample_execution_ok: "execution_ok sample_audit_env sample_db6"
proof -
  have S: "sound sample_db6" using reachable_sound [OF reachable6] by simp
  have "attempt_resolves sample_audit_env sample_db6 a" if "a \<in> set (db_attempts sample_db6)" for a
  proof -
    have "at_task_id a = ''t''" "at_receipt_id a = sample_rid" "at_basis a = sample_basis"
      using that by (auto simp: sample_dbs sample_attempt_def)
    then show ?thesis
      by (simp add: attempt_resolves_def sample_audit_env_def sample_dbs sample_row_def new_request_def sample_task_def
          sample_budget_def sample_mapping_def stage_mapping_of_def sample_input_def)
  qed
  moreover have "origin_ok f" if "f \<in> set (db_failures sample_db6)" for f
    using timesD(2) [OF soundD(6) [OF S] that] by (simp add: authority_ok_def origin_ok_def)
  moreover have "at_task_id a \<in> tk_task_id ` set (db_tasks sample_db6) \<and> hex64 (at_credential a) \<and> hex64 (at_renewal a)"
    if "a \<in> set (db_attempts sample_db6)" for a
    using that by (auto simp: sample_dbs sample_attempt_def sample_task_def sample_digest_def digest_def sample_sha_hex)
  ultimately show ?thesis
    using soundD(2,3,6) [OF S] by (simp add: execution_ok_def times_ok_def)
qed

text \<open>The history of two attempts is accepted; without the failure of the first attempt it is rejected.\<close>

theorem audit_accepts_iff_witness:
  "validate_attempts sample_audit_env sample_db6 = Inr () \<and>
   validate_attempts sample_audit_env (sample_db6\<lparr>db_failures := []\<rparr>) \<noteq> Inr ()"
proof
  have K: "keys_distinct sample_db6" using soundD(1) [OF reachable_sound [OF reachable6]] by simp
  then show "validate_attempts sample_audit_env sample_db6 = Inr ()"
    using audit_accepts_iff sample_execution_ok by blast
  from K have "keys_distinct (sample_db6\<lparr>db_failures := []\<rparr>)" by (simp add: keys_distinct_def)
  moreover have "\<not> attempts_numbered (sample_db6\<lparr>db_failures := []\<rparr>)"
    by (simp add: attempts_numbered_def sample_dbs sample_attempt_def)
  then have "\<not> execution_ok sample_audit_env (sample_db6\<lparr>db_failures := []\<rparr>)" by (simp add: execution_ok_def)
  ultimately show "validate_attempts sample_audit_env (sample_db6\<lparr>db_failures := []\<rparr>) \<noteq> Inr ()"
    by (simp add: audit_accepts_iff)
qed

text \<open>
  C31: no history the service can reach is rejected by its own audit, as long as the stored revisions
  still resolve and map as they did when they were claimed and digests have their legal form.
\<close>

theorem audit_accepts_reachable:
  assumes "reachable sys w" "facts_stable env (w_db w)" "\<And>bs. hex64 (sy_sha sys bs)"
  shows "validate_attempts env (w_db w) = Inr ()"
  by (rule audit_accepts [OF reachable_sound [OF assms(1)] reachable_rows [OF assms(1)] assms(2,3)])

theorem audit_accepts_reachable_witness: "validate_attempts sample_audit_env sample_db6 = Inr ()"
  using audit_accepts_reachable [OF reachable6] sample_resolves sample_sha_hex by (simp add: sample_sys_def)

section \<open>The query\<close>

text \<open>
  C32: the task query of a paper and stage never fails on a reachable history. It lists the budgets of
  the paper and stage, each with its tasks by generation, and every task with the state its facts
  have at the instant of the query.
\<close>

theorem query_reports_facts:
  assumes "reachable sys w"
    and "sm_reason (stage_mapping_of m st) = None \<longrightarrow> sm_value (stage_mapping_of m st) \<noteq> None"
  shows "\<exists>res. query_op (sy_nd sys) (Utc now) (Inr m) paper st snapshot (w_db w) = Inr res \<and>
    map bv_budget_id (qr_budgets res) = map bg_budget_id (paper_budgets (w_db w) paper st) \<and>
    (\<forall>v \<in> set (qr_budgets res). \<exists>b \<in> set (paper_budgets (w_db w) paper st).
       bv_budget_id v = bg_budget_id b \<and>
       map tv_task_id (bv_tasks v) = map tk_task_id (budget_tasks (w_db w) b) \<and> bv_tasks v \<noteq> [] \<and>
       (\<forall>t \<in> set (bv_tasks v). tv_state t = state_spec (w_db w) (tv_task_id t) now))"
  by (rule query_total_lemma [OF reachable_sound [OF assms(1)] reachable_rows [OF assms(1)] assms(2)])

theorem query_reports_facts_witness:
  "\<exists>res. query_op (sy_nd sample_sys) (Utc (later 1)) (Inr sample_mapping) ''p'' Stage_Boundary ''c'' sample_db2 = Inr res \<and>
     map bv_budget_id (qr_budgets res) = [''b'']"
proof -
  have "paper_budgets sample_db2 ''p'' Stage_Boundary = [sample_budget]"
    by (simp add: paper_budgets_def sample_db2_def sample_db1_def sample_budget_def)
  with query_reports_facts [OF reachable2, of sample_mapping Stage_Boundary "later 1" "''p''" "''c''"] show ?thesis
    by (auto simp: sample_mapping_def stage_mapping_of_def sample_budget_def)
qed

section \<open>The feed registration\<close>

text \<open>
  The gate of a feed registration is found again with the receipt it led to, exactly as it was
  recorded; recording it again changes nothing, another receipt for the same request is a conflict,
  and the gates of other requests stay as they were.
\<close>

theorem gate_round_trip:
  assumes "gate_storable g" "find_gate sha proofs (fg_request_key g) = Inr None"
    and "retain_gate sha g receipt proofs = Inr proofs'"
  shows "find_gate sha proofs' (fg_request_key g) = Inr (Some (receipt, g)) \<and>
    retain_gate sha g r proofs' = (if r = receipt then Inr proofs' else fails Request_Conflict) \<and>
    (k \<noteq> fg_request_key g \<longrightarrow> find_gate sha proofs' k = find_gate sha proofs k)"
  using find_retained [OF assms] find_other [OF assms(3)] by (simp add: retain_gate_def)

definition sample_gate :: feed_gate where
  "sample_gate = \<lparr>fg_request_key = ''k'', fg_metadata_key = ascii ''m'', fg_boundary_success = ascii ''s'',
     fg_production = True, fg_version_id = ascii ''v'', fg_revision_no = 1,
     fg_boundary_fingerprint = ascii ''f''\<rparr>"

lemma sample_gate_storable: "gate_storable sample_gate"
  by (simp add: gate_storable_def sample_gate_def dec.simps int_max_str_digits_def)

theorem gate_round_trip_witness:
  "\<exists>proofs. retain_gate sample_sha sample_gate ''r'' [] = Inr proofs \<and>
     find_gate sample_sha proofs ''k'' = Inr (Some (''r'', sample_gate)) \<and>
     retain_gate sample_sha sample_gate ''z'' proofs = fails Request_Conflict"
proof -
  have none: "find_gate sample_sha [] (fg_request_key sample_gate) = Inr None" by (simp add: find_gate_def)
  then obtain proofs where r: "retain_gate sample_sha sample_gate ''r'' [] = Inr proofs"
    by (simp add: retain_gate_def Let_def)
  from gate_round_trip [OF sample_gate_storable none r, of "''z''"] r show ?thesis
    by (auto simp: sample_gate_def)
qed

text \<open>A paper discovered once, in a feed bound to an English journal.\<close>

definition sample_language_env :: "(pystr \<Rightarrow> resolution option) \<Rightarrow> language_env" where
  "sample_language_env parse = \<lparr>le_sha = sample_sha, le_parse = parse, le_endpoints = [], le_papers = [''p''],
     le_discoveries = [\<lparr>dv_discovery_id = ''d'', dv_feed_id = ''e'', dv_url = ''u'', dv_paper_id = ''p''\<rparr>]\<rparr>"

definition sample_language_db :: language_db where
  "sample_language_db = \<lparr>ln_policies = [(''v1'', dumps (policy_json policy_v1))], ln_bindings = [(''e'', ''jgr'')],
     ln_resolutions = [], ln_frozen = [], ln_required = []\<rparr>"

definition sample_resolution :: resolution where
  "sample_resolution = \<lparr>lr_paper_id = ''p'', lr_policy = ''v1'', lr_status = Lang_Resolved, lr_is_zh = Some False,
     lr_sources = [\<lparr>lg_discovery_id = ''d'', lg_feed_id = ''e'', lg_journal = Some ''jgr'',
       lg_is_zh = Some False\<rparr>]\<rparr>"

lemma sample_policy: "policy_mapping sample_language_db ''v1'' = Inr policy_v1"
proof -
  have plain: "plain_json (policy_json policy_v1)" by (simp add: policy_json_def policy_v1_def ascii_def)
  obtain kvs where k: "policy_json policy_v1 = JObj kvs" by (simp add: policy_json_def)
  then have kvs: "kvs = map (\<lambda>(n, b). (ascii n, JBool b)) policy_v1" by (simp add: policy_json_def)
  have d: "distinct (map fst kvs)" by (simp add: kvs policy_v1_def ascii_def)
  let ?sorted = "sort_key fst (map (\<lambda>(k, v). (k, sorted_members v)) kvs)"
  have v: "map_of ?sorted (ascii n) = Some (JBool b)" if "(n, b) \<in> set policy_v1" for n b
    using map_of_sorted [OF d, of "ascii n" "JBool b"] that by (force simp: kvs)
  have keys: "set (map fst ?sorted) = set (map ascii journals)"
  proof -
    have "set (map fst ?sorted) = set (map fst kvs)" by force
    also have "\<dots> = set (map ascii journals)" by (simp add: kvs policy_v1_def journals_def)
    finally show ?thesis .
  qed
  have "checked_mapping (JObj ?sorted) = Some policy_v1"
    using v [of "''dqkx''" True] v [of "''aies''" False] v [of "''jgr''" False] v [of "''qjrms''" False]
    unfolding checked_mapping_def json.case keys
    by (simp add: journals_def bool_member_def policy_v1_def)
  moreover have "loads plain_hooks (dumps (policy_json policy_v1)) = Some (JObj ?sorted)"
    using loads_dumps [OF plain, of plain_hooks] by (simp add: k)
  ultimately show ?thesis
    by (simp add: policy_mapping_def sample_language_db_def)
qed

lemma sample_checked: "checked_resolution sample_resolution = Inr sample_resolution"
  by (simp add: checked_resolution_def closed_journals_def sample_resolution_def journals_def
      consistent_resolution_def source_values_def language_status_def resolved_value_def)

lemma sample_derive: "derive (sample_language_env parse) sample_language_db ''p'' ''v1'' = Inr sample_resolution"
proof -
  let ?env = "sample_language_env parse"
  have src: "map (source_of ?env sample_language_db policy_v1)
      (sort_key dv_discovery_id (filter (\<lambda>d. dv_paper_id d = ''p'') (le_discoveries ?env))) =
      lr_sources sample_resolution"
    by (simp add: sample_language_env_def source_of_def sample_language_db_def sample_resolution_def
        source_value_of_def policy_v1_def truthy_opt_def)
  have known: "''p'' \<in> set (le_papers ?env)" "map_of (ln_policies sample_language_db) ''v1'' \<noteq> None"
    by (simp_all add: sample_language_env_def sample_language_db_def)
  have status: "language_status (lg_is_zh ` set (lr_sources sample_resolution)) = Lang_Resolved"
    "resolved_value (lg_is_zh ` set (lr_sources sample_resolution)) = Some False"
    by (simp_all add: sample_resolution_def language_status_def resolved_value_def)
  have basis: "\<lparr>lr_paper_id = ''p'', lr_policy = ''v1'', lr_status = Lang_Resolved, lr_is_zh = Some False,
      lr_sources = lr_sources sample_resolution\<rparr> = sample_resolution"
    by (simp add: sample_resolution_def)
  show ?thesis
    unfolding derive_def sample_policy and_then_Inr Let_def src status
    using known sample_checked by (simp add: basis)
qed

text \<open>
  C33: the language of a paper is resolved exactly if all its discoveries agree on one value, and then
  the resolution carries that value.
\<close>

theorem language_resolved_iff:
  assumes "derive env ldb paper version = Inr res"
  shows "\<exists>mapping. policy_mapping ldb version = Inr mapping \<and> lr_paper_id res = paper \<and>
    (\<forall>v. lr_status res = Lang_Resolved \<and> lr_is_zh res = Some v \<longleftrightarrow>
       discovered_languages env ldb mapping paper = {Some v})"
  by (rule derived_language [OF assms], rule derived_fields [OF assms]) auto

theorem language_resolved_iff_witness:
  "discovered_languages (sample_language_env (\<lambda>t. None)) sample_language_db policy_v1 ''p'' = {Some False}"
  using language_resolved_iff [OF sample_derive, of "\<lambda>t. None"] sample_policy by (auto simp: sample_resolution_def)

text \<open>
  C34: on the task tables a feed registration is one plain registration, or none: whatever its policy
  and gate, they stay as they were, or they are what the one write transaction of a plain registration
  leaves - of the same request with a language of its own, the mapped input and its basis - and the
  call returns the receipt of that transaction. Its effect is a sequence of legal fact steps that only
  adds rows.
\<close>

theorem feed_registration_refines:
  assumes "register_feed env policy gate q sdb sdb2 = (out, sdb')"
  shows "(sd_tasks sdb' = sd_tasks sdb2 \<or>
      (\<exists>v input basis x. out = Inr x \<and>
         require_stage_mapping (rg_mapping (fe_register env)) (rq_stage q) = Inr (input, basis) \<and>
         register_body (fe_sha env) (fe_register env) (q\<lparr>rq_language := v\<rparr>) input basis (sd_tasks sdb2) =
           Inr (x, sd_tasks sdb'))) \<and>
    fact_step\<^sup>*\<^sup>* (sd_tasks sdb2) (sd_tasks sdb') \<and> extends (sd_tasks sdb2) (sd_tasks sdb')"
proof -
  note H = register_feed_history [OF assms, unfolded with_language_def]
  then have "fact_step\<^sup>*\<^sup>* (sd_tasks sdb2) (sd_tasks sdb')"
    using register_body_refines by fastforce
  with H steps_extends show ?thesis by blast
qed

definition sample_feed_env :: feed_env where
  "sample_feed_env = \<lparr>fe_sha = sample_sha,
     fe_register = sample_register_env
       \<lparr>rg_mapping := \<lparr>mp_boundary = mp_boundary sample_mapping, mp_value = mp_boundary sample_mapping\<rparr>\<rparr>,
     fe_language = sample_language_env (\<lambda>t. Some sample_resolution)\<rparr>"

definition sample_feed_db :: service_db where
  "sample_feed_db = \<lparr>sd_tasks = empty_db, sd_language = sample_language_db, sd_proofs = []\<rparr>"

definition sample_value_request :: request where
  "sample_value_request = sample_request\<lparr>rq_stage := Stage_Value, rq_language := Some True\<rparr>"

text \<open>
  A feed registration that opens a budget freezes the language it derived in the same transaction:
  the budget carries the resolved value, and its language basis loads as the derived resolution,
  for a reader of the stored text that reads it back and a digest without collision on it.
\<close>

theorem frozen_language_loads:
  assumes "register_write env (Some version) gate q input basis sdb = (Inr x, sdb')"
    and "rq_stage q = Stage_Value" "key_free bg_budget_id (db_budgets (sd_tasks sdb)) (rc_budget_id x)"
    and "lookup bg_key (db_budgets (sd_tasks sdb)) (rq_paper_id q, Stage_Value, si_fingerprint input) = None"
    and "derive (fe_language env) (sd_language sdb) (rq_paper_id q) version = Inr res"
    and "le_parse (fe_language env) (encode_resolution res) = Some res"
    and "language_uncollided (fe_language env) (sd_language sdb) res"
  shows "lr_status res = Lang_Resolved \<and>
    (\<exists>b. lookup bg_budget_id (db_budgets (sd_tasks sdb')) (rc_budget_id x) = Some b \<and>
       bg_language b = lr_is_zh res \<and> bg_paper_id b = rq_paper_id q \<and>
       load_language (fe_language env) b (sd_language sdb') = Inr (Frozen_Basis res))"
  by (rule register_write_freezes [OF assms]) blast

lemma sample_write:
  obtains x sdb where "register_write sample_feed_env (Some ''v1'') None sample_value_request sample_input sample_basis
      sample_feed_db = (Inr x, sdb)" "sd_tasks sdb \<noteq> empty_db"
proof -
  let ?q = "with_language sample_value_request (Some False)"
  let ?rid = "receipt_id sample_sha ?q sample_basis ''f''"
  let ?dA = "empty_db\<lparr>db_inputs := [\<lparr>in_fingerprint = ''f'', in_stage = Stage_Value,
    in_payload = [1, 2], in_format_version = 1\<rparr>]\<rparr>"
  let ?b = "sample_budget\<lparr>bg_stage := Stage_Value, bg_language := Some False\<rparr>"
  let ?dB = "?dA\<lparr>db_budgets := [?b], db_tasks := [sample_task]\<rparr>"
  let ?r = "new_request sample_sha ?q ?rid ''t'' sample_basis None"
  let ?dC = "?dB\<lparr>db_requests := [?r]\<rparr>"
  have q: "rq_stage ?q = Stage_Value" "rq_paper_id ?q = ''p''" "rq_snapshot_id ?q = ''c''" "rq_language ?q = Some False"
    "rq_source ?q = Manual" "rq_scheduled_day ?q = None" "rq_parent ?q = None"
    "rq_request_id ?q = Some (ascii ''r'')" "rq_reason ?q = Some (ascii ''why'')" "rq_actor ?q = Some (ascii ''who'')"
    by (simp_all add: with_language_def sample_value_request_def sample_request_def)
  have replay: "replay_request sample_sha empty_db ?q = Inr None"
    by (simp add: replay_request_def empty_db_def)
  have none: "receipt_row empty_db i = None" for i by (simp add: receipt_row_def empty_db_def)
  have input: "ensure_input sample_input Stage_Value empty_db = Inr ?dA"
    by (simp add: ensure_input_def insert_input_def enforce_def key_free_def empty_db_def sample_input_def)
  have budget: "ensure_budget ?q sample_input sample_basis ''b'' ''t'' ?dA = Inr ((''b'', ''t''), ?dB)"
    by (simp add: ensure_budget_def insert_budget_def insert_task_def enforce_def key_free_def empty_db_def
        lookup_def free_opt_def request_language_def sample_budget_def sample_task_def sample_input_def q)
  have ins: "insert_request ?r ?dB = Inr ?dC"
    by (simp add: insert_request_def enforce_def key_free_def empty_db_def free_opt_def request_shape_def
        new_request_def q sample_task_def)
  have row: "receipt_row ?dC ?rid = Some (?r, sample_task, ?b)"
    by (simp add: receipt_row_def lookup_def new_request_def sample_task_def sample_budget_def)
  obtain x where x: "to_receipt (?r, sample_task, ?b) = Inr x"
    by (simp add: to_receipt_def new_request_def)
  have read: "insert_and_read ?r ?dB = Inr (x, ?dC)"
    using ins row x by (simp add: insert_and_read_def new_request_def)
  have cached: "cached_success ?dB ''b'' = None" by (simp add: cached_success_def empty_db_def)
  have rr: "register_request sample_sha ?q sample_input sample_basis ''b'' ''t'' empty_db = Inr (x, ?dC)"
    using replay none input budget read cached q(1)
    by (simp add: register_request_def Let_def sample_input_def)
  have bid: "rc_budget_id x = ''b''" using x by (auto simp: to_receipt_def sample_task_def split: if_splits)
  let ?env = "fe_language sample_feed_env"
  have derived: "derive ?env sample_language_db ''p'' ''v1'' = Inr sample_resolution"
    by (simp add: sample_feed_env_def sample_derive)
  have pol: "require_policy sample_language_db sample_resolution = Inr ()"
    using sample_policy by (simp add: require_policy_def sample_resolution_def source_value_of_def policy_v1_def)
  have src: "require_sources ?env sample_resolution = Inr ()"
    by (simp add: require_sources_def sample_resolution_def sample_feed_env_def sample_language_env_def)
  have "\<exists>ldb. freeze_language sample_feed_env ''b'' (Derived_Language sample_resolution) sample_language_db = Inr ldb"
    using sample_checked pol src
    by (simp add: freeze_language_def retain_resolution_def Let_def sample_language_db_def key_free_def)
  then obtain ldb where fr: "freeze_language sample_feed_env ''b'' (Derived_Language sample_resolution)
      sample_language_db = Inr ldb" ..
  have choice: "choose_language sample_feed_env ''v1'' sample_value_request ''f'' sample_feed_db =
      Inr (Derived_Language sample_resolution)"
    using derived by (simp add: choose_language_def sample_feed_db_def empty_db_def sample_value_request_def
        sample_request_def sample_resolution_def)
  have lang: "choice_language sample_value_request (Some (Derived_Language sample_resolution)) = ?q"
    by (simp add: choice_language_def sample_resolution_def)
  have "register_with sample_feed_env None ?q sample_input sample_basis (Some (Derived_Language sample_resolution))
      sample_feed_db = Inr (x, \<lparr>sd_tasks = ?dC, sd_language = ldb, sd_proofs = []\<rparr>)"
    using replay rr fr bid
    by (simp add: register_with_def sample_feed_db_def sample_feed_env_def gate_facts_def sample_register_env_def)
  then show ?thesis
    using choice lang
    by (intro that [of x "\<lparr>sd_tasks = ?dC, sd_language = ldb, sd_proofs = []\<rparr>"])
      (simp_all add: register_write_def commit_service_def sample_input_def empty_db_def)
qed

theorem frozen_language_loads_witness:
  "\<exists>x sdb b. register_write sample_feed_env (Some ''v1'') None sample_value_request sample_input sample_basis
      sample_feed_db = (Inr x, sdb) \<and> bg_language b = Some False \<and>
      load_language (fe_language sample_feed_env) b (sd_language sdb) = Inr (Frozen_Basis sample_resolution)"
proof -
  obtain x sdb where w: "register_write sample_feed_env (Some ''v1'') None sample_value_request sample_input
      sample_basis sample_feed_db = (Inr x, sdb)" by (rule sample_write)
  have "language_uncollided (fe_language sample_feed_env) (sd_language sample_feed_db) sample_resolution"
    by (simp add: language_uncollided_def sample_feed_db_def sample_language_db_def)
  from frozen_language_loads [OF w _ _ _ _ _ this] show ?thesis
    using w sample_derive
    by (auto simp: sample_feed_db_def empty_db_def sample_value_request_def sample_request_def sample_feed_env_def
        sample_language_env_def sample_resolution_def key_free_def)
qed

theorem feed_registration_refines_witness:
  "\<exists>x sdb v. register_feed sample_feed_env (Some ''v1'') None sample_value_request sample_feed_db sample_feed_db =
     (Inr x, sdb) \<and> sd_tasks sdb \<noteq> empty_db \<and>
     register_body sample_sha (fe_register sample_feed_env) (sample_value_request\<lparr>rq_language := v\<rparr>) sample_input
       sample_basis empty_db = Inr (x, sd_tasks sdb)"
proof -
  obtain x sdb where w: "register_write sample_feed_env (Some ''v1'') None sample_value_request sample_input
      sample_basis sample_feed_db = (Inr x, sdb)" "sd_tasks sdb \<noteq> empty_db" by (rule sample_write)
  have map: "require_stage_mapping (rg_mapping (fe_register sample_feed_env)) (rq_stage sample_value_request) =
      Inr (sample_input, sample_basis)"
    by (simp add: sample_feed_env_def require_stage_mapping_def sample_register_env_def stage_mapping_of_def
        sample_value_request_def sample_mapping_def)
  have "first_request (Some ''v1'') empty_db sample_value_request = sample_value_request"
    by (simp add: first_request_def registered_language_def empty_db_def)
  moreover have "replay_request sample_sha empty_db sample_value_request = Inr None"
    by (simp add: replay_request_def empty_db_def)
  ultimately have call: "register_feed sample_feed_env (Some ''v1'') None sample_value_request sample_feed_db sample_feed_db =
      (Inr x, sdb)"
    using w(1) by (simp add: register_feed_def sample_feed_db_def sample_feed_env_def require_stage_mapping_def
        sample_register_env_def stage_mapping_of_def sample_value_request_def sample_mapping_def)
  have db: "sd_tasks sample_feed_db = empty_db" "fe_sha sample_feed_env = sample_sha"
    by (simp_all add: sample_feed_db_def sample_feed_env_def)
  from feed_registration_refines [OF call] call w(2) map show ?thesis unfolding db by force
qed

end
