(* ===== verification/Rpc_Types.thy ===== *)
theory Rpc_Types
  imports Utf8 Complex_Main
begin

text \<open>
  \<open>llm/rpc_types.py\<close>, \<open>llm/models.py\<close> and \<open>pi_protocol.py\<close>: the closed results of one bounded model
  call, its resource limits, the description of a call, and the byte session it runs over. Seconds
  are rationals (the rounding of floats is not modelled). The session, the clock and the
  cancellation flag are the environment: functions on a state \<open>'s\<close> the caller chooses.
\<close>

type_synonym bytes = "nat list"
type_synonym seconds = rat

section \<open>Limits\<close>

definition max_frame_bytes :: nat where "max_frame_bytes = 4 * 1024 * 1024"
definition max_stdout_bytes :: nat where "max_stdout_bytes = 16 * 1024 * 1024"
definition max_stderr_bytes :: nat where "max_stderr_bytes = 1024 * 1024"
definition max_candidate_bytes :: nat where "max_candidate_bytes = 64 * 1024"
definition max_request_bytes :: nat where "max_request_bytes = 256 * 1024"

record rpc_limits =
  lm_initialization :: seconds
  lm_total :: seconds
  lm_close :: seconds
  lm_terminate :: seconds
  lm_poll :: seconds

definition default_limits :: rpc_limits where
  "default_limits = \<lparr>lm_initialization = 30, lm_total = 300, lm_close = 10, lm_terminate = 10,
     lm_poll = 5 / 100\<rparr>"

section \<open>Reasons and results\<close>

datatype rpc_category = Timeout_Category | Cancelled_Category | Environment_Category | Protocol_Category

datatype rpc_reason =
    Invalid_Description | Invalid_Utf8 | Invalid_Json_Frame | Non_Object | Duplicate_Key_Frame | Non_Finite
  | Frame_Limit | Stdout_Limit | Stderr_Limit | Request_Limit | Candidate_Limit | Partial_Frame
  | Early_Record | Response_Mismatch | Command_Rejected | Model_Rejected | Session_Cancelled | Model_State
  | Thinking_Unsupported | Thinking_State | Dirty_State | Commands_Present | Prompt_Disposition
  | Event_Sequence | Event_Not_Allowed | Message_Shape | Message_Mismatch | System_Mismatch | User_Mismatch
  | Stop_Reason | Channel | Usage_Shape | Rpc_Timeout | Rpc_Cancelled | Startup_Error | Transport_Error
  | Eof | Unexpected_Exit | Close_Timeout

definition failure_category :: "rpc_reason \<Rightarrow> rpc_category" where
  "failure_category r =
     (if r \<in> {Rpc_Timeout, Close_Timeout} then Timeout_Category
      else if r = Rpc_Cancelled then Cancelled_Category
      else if r \<in> {Session_Cancelled, Model_Rejected, Startup_Error, Transport_Error, Eof, Unexpected_Exit}
      then Environment_Category else Protocol_Category)"

record rpc_candidate =
  rp_raw_response :: bytes
  rp_provider :: pystr
  rp_model :: pystr
  rp_input_tokens :: "int option"
  rp_output_tokens :: "int option"

section \<open>The description of a call\<close>

definition thinking_levels :: "pystr list" where
  "thinking_levels = map ascii [''off'', ''minimal'', ''low'', ''medium'', ''high'', ''xhigh'', ''max'']"

record call_description =
  cd_stage :: string
  cd_fingerprint :: pystr
  cd_projection_id :: pystr
  cd_semantic_snapshot_id :: pystr
  cd_audit_snapshot_id :: pystr
  cd_pi_version :: pystr
  cd_adapter_version :: pystr
  cd_protocol_profile :: pystr
  cd_provider :: pystr
  cd_model :: pystr
  cd_protocol :: pystr
  cd_thinking_level :: pystr
  cd_temperature :: "pystr option"
  cd_top_p :: "pystr option"
  cd_policy_json :: pystr
  cd_system_prompt :: bytes
  cd_stage_input_payload :: bytes
  cd_user_payload_json :: pystr
  cd_sampling :: string
  cd_render_format :: nat

definition protocol_profiles :: "(pystr \<times> pystr) list" where
  "protocol_profiles = [(ascii ''1.4.0'', ascii ''pi-rpc-1.4.0-v1'')]"

section \<open>The byte session\<close>

record session_event =
  sv_written :: int
  sv_stdout :: bytes
  sv_stderr_bytes :: int
  sv_stdout_eof :: bool
  sv_stderr_eof :: bool
  sv_exit_code :: "int option"

text \<open>What a call of the environment - the factory, the session, the clock, the cancellation flag - does: return, raise an \<open>RpcProblem\<close>, raise another exception, or
  be interrupted by \<open>KeyboardInterrupt\<close> or \<open>SystemExit\<close>.\<close>

datatype 'a reply = Returned 'a | Refused rpc_reason | Failing | Interrupting

text \<open>\<open>op_pump\<close> returns \<^term>\<open>None\<close> for a value that is not a well-typed \<open>SessionEvent\<close>.\<close>

record 's session_ops =
  op_create :: "call_description \<Rightarrow> 's \<Rightarrow> unit reply \<times> 's"
  op_pump :: "bytes \<Rightarrow> seconds \<Rightarrow> 's \<Rightarrow> session_event option reply \<times> 's"
  op_close :: "'s \<Rightarrow> unit reply \<times> 's"
  op_terminate :: "seconds \<Rightarrow> 's \<Rightarrow> unit reply \<times> 's"
  op_clock :: "'s \<Rightarrow> seconds reply \<times> 's"
  op_cancelled :: "'s \<Rightarrow> bool reply \<times> 's"

end
