(* ===== verification/Rpc_Frames.thy ===== *)
theory Rpc_Frames
  imports Rpc_Types
begin

text \<open>
  \<open>llm/rpc_frames.py\<close>: frames of one line, each a JSON object. The reader is the scanner of
  \<open>Json_Text\<close> with the errors of the two hooks kept apart: a repeated key, a number that is not
  finite and a syntax error are different reasons, and the first one met in the text is
  reported. The interpreter's recursion limit is not modelled.
\<close>

type_synonym json_record = "(pystr \<times> json) list"

section \<open>json.loads with the hooks of the decoder\<close>

definition or_invalid :: "'a option \<Rightarrow> (rpc_reason, 'a) outcome" where
  "or_invalid x = or_raise x Invalid_Json_Frame"

definition frame_number :: "(pystr \<Rightarrow> pystr) \<Rightarrow> pystr \<Rightarrow> (rpc_reason, json \<times> pystr) outcome" where
  "frame_number fl s =
     (case find (\<lambda>(w, r). scan_word w s \<noteq> None) constants of
        Some _ \<Rightarrow> Inl Non_Finite
      | None \<Rightarrow>
          and_then (or_invalid (scan_number fl True s)) (\<lambda>(v, r).
            case v of JFloat x \<Rightarrow> if infinite_text x then Inl Non_Finite else Inr (v, r) | _ \<Rightarrow> Inr (v, r)))"

text \<open>\<open>_pairs\<close>.\<close>

definition frame_pairs :: "json_record \<Rightarrow> (rpc_reason, json) outcome" where
  "frame_pairs kvs = (if distinct (map fst kvs) then Inr (JObj kvs) else Inl Duplicate_Key_Frame)"

fun frame_value :: "(pystr \<Rightarrow> pystr) \<Rightarrow> nat \<Rightarrow> pystr \<Rightarrow> (rpc_reason, json \<times> pystr) outcome"
  and frame_elements :: "(pystr \<Rightarrow> pystr) \<Rightarrow> nat \<Rightarrow> pystr \<Rightarrow> (rpc_reason, json list \<times> pystr) outcome"
  and frame_members :: "(pystr \<Rightarrow> pystr) \<Rightarrow> nat \<Rightarrow> pystr \<Rightarrow> (rpc_reason, json_record \<times> pystr) outcome"
where
  "frame_value fl 0 s = Inl Invalid_Json_Frame"
| "frame_value fl (Suc n) s =
     (case s of
        [] \<Rightarrow> Inl Invalid_Json_Frame
      | c # t \<Rightarrow>
          if c = 34 then and_then (or_invalid (scan_string t)) (\<lambda>(x, r). Inr (JStr x, r))
          else if c = 123 then
            (case expect 125 (skip_ws t) of
               Some r \<Rightarrow> and_then (frame_pairs []) (\<lambda>obj. Inr (obj, r))
             | None \<Rightarrow>
                 and_then (frame_members fl n (skip_ws t)) (\<lambda>(kvs, r).
                 and_then (frame_pairs kvs) (\<lambda>obj. Inr (obj, r))))
          else if c = 91 then
            (case expect 93 (skip_ws t) of
               Some r \<Rightarrow> Inr (JArr [], r)
             | None \<Rightarrow> and_then (frame_elements fl n (skip_ws t)) (\<lambda>(xs, r). Inr (JArr xs, r)))
          else
            (case (scan_word (ascii ''null'') s, scan_word (ascii ''true'') s,
                   scan_word (ascii ''false'') s) of
               (Some r, _, _) \<Rightarrow> Inr (JNull, r)
             | (None, Some r, _) \<Rightarrow> Inr (JBool True, r)
             | (None, None, Some r) \<Rightarrow> Inr (JBool False, r)
             | (None, None, None) \<Rightarrow> frame_number fl s))"
| "frame_elements fl 0 s = Inl Invalid_Json_Frame"
| "frame_elements fl (Suc n) s =
     and_then (frame_value fl n s) (\<lambda>(v, r).
       case expect 93 (skip_ws r) of
         Some r' \<Rightarrow> Inr ([v], r')
       | None \<Rightarrow>
           and_then (or_invalid (expect 44 (skip_ws r))) (\<lambda>r'.
           and_then (frame_elements fl n (skip_ws r')) (\<lambda>(vs, r2). Inr (v # vs, r2))))"
| "frame_members fl 0 s = Inl Invalid_Json_Frame"
| "frame_members fl (Suc n) s =
     and_then (or_invalid (Option.bind (expect 34 s) scan_string)) (\<lambda>(k, r).
     and_then (or_invalid (expect 58 (skip_ws r))) (\<lambda>r1.
     and_then (frame_value fl n (skip_ws r1)) (\<lambda>(v, r2).
       case expect 125 (skip_ws r2) of
         Some r3 \<Rightarrow> Inr ([(k, v)], r3)
       | None \<Rightarrow>
           and_then (or_invalid (expect 44 (skip_ws r2))) (\<lambda>r3.
           and_then (frame_members fl n (skip_ws r3)) (\<lambda>(kvs, r4). Inr ((k, v) # kvs, r4))))))"

definition frame_loads :: "(pystr \<Rightarrow> pystr) \<Rightarrow> pystr \<Rightarrow> (rpc_reason, json) outcome" where
  "frame_loads fl s =
     (if take 1 s = [0xFEFF] then Inl Invalid_Json_Frame
      else and_then (frame_value fl (Suc (2 * length s)) (skip_ws s)) (\<lambda>(v, r).
        if skip_ws r = [] then Inr v else Inl Invalid_Json_Frame))"

section \<open>FrameDecoder\<close>

definition drop_cr :: "bytes \<Rightarrow> bytes" where
  "drop_cr raw = (if raw \<noteq> [] \<and> last raw = 13 then butlast raw else raw)"

definition frame_record :: "(pystr \<Rightarrow> pystr) \<Rightarrow> bytes \<Rightarrow> (rpc_reason, json_record) outcome" where
  "frame_record fl tail =
     and_then (or_raise (utf8_decode (drop_cr tail)) Invalid_Utf8) (\<lambda>text.
     and_then (frame_loads fl text) (\<lambda>v.
       case v of JObj kvs \<Rightarrow> Inr kvs | _ \<Rightarrow> Inl Non_Object))"

text \<open>\<open>chunk.split(b"\n")\<close>: never empty.\<close>

fun split_lf :: "bytes \<Rightarrow> bytes list" where
  "split_lf [] = [[]]"
| "split_lf (b # bs) =
     (if b = 10 then [] # split_lf bs
      else (case split_lf bs of p # ps \<Rightarrow> (b # p) # ps | [] \<Rightarrow> [[b]]))"

definition extend_tail :: "bytes \<Rightarrow> bytes \<Rightarrow> (rpc_reason, bytes) outcome" where
  "extend_tail tail piece =
     (if length (tail @ piece) > max_frame_bytes then Inl Frame_Limit else Inr (tail @ piece))"

text \<open>The pieces after the first: each ends the frame before it.\<close>

fun feed_rest :: "(pystr \<Rightarrow> pystr) \<Rightarrow> bytes \<Rightarrow> bytes list \<Rightarrow> (rpc_reason, json_record list \<times> bytes) outcome" where
  "feed_rest fl tail [] = Inr ([], tail)"
| "feed_rest fl tail (p # ps) =
     and_then (frame_record fl tail) (\<lambda>r.
     and_then (extend_tail [] p) (\<lambda>t.
     and_then (feed_rest fl t ps) (\<lambda>(rs, t'). Inr (r # rs, t'))))"

definition feed :: "(pystr \<Rightarrow> pystr) \<Rightarrow> bytes \<Rightarrow> bytes \<Rightarrow> (rpc_reason, json_record list \<times> bytes) outcome" where
  "feed fl tail chunk =
     (case split_lf chunk of
        [] \<Rightarrow> Inr ([], tail)
      | p # ps \<Rightarrow> and_then (extend_tail tail p) (\<lambda>t. feed_rest fl t ps))"

definition finish_frames :: "bytes \<Rightarrow> (rpc_reason, unit) outcome" where
  "finish_frames tail = require (tail = []) Partial_Frame"

section \<open>command_frame\<close>

definition frame_text :: "json_record \<Rightarrow> pystr" where
  "frame_text kvs = 123 # commas (map (\<lambda>(k, v). print_string k @ 58 # dumps v) kvs) @ [125]"

definition command_record :: "pystr \<Rightarrow> string \<Rightarrow> json_record \<Rightarrow> json_record" where
  "command_record i name args = (ascii ''id'', JStr i) # (ascii ''type'', JStr (ascii name)) # args"

definition command_frame :: "pystr \<Rightarrow> string \<Rightarrow> json_record \<Rightarrow> (rpc_reason, bytes) outcome" where
  "command_frame i name args =
     and_then (or_raise (utf8_encode (frame_text (command_record i name args))) Invalid_Description) (\<lambda>b.
       Inr (b @ [10]))"

end
