(* ===== verification/Rpc_Messages.thy ===== *)
theory Rpc_Messages
  imports Rpc_Frames
begin

text \<open>
  \<open>llm/rpc_messages.py\<close>: the events of one turn. The machine walks a fixed list of positions; each
  event is checked against the description and against the copies seen before, and the final
  text of the assistant becomes the candidate. A missing member and a null are both what
  \<open>get\<close> returns for them.
\<close>

section \<open>Positions\<close>

datatype position =
    At_Agent_Start | At_Turn_Start | At_System_Start | At_System_End | At_User_Start | At_User_End
  | At_Assistant_Start | At_Assistant_End | At_Turn_End | At_Agent_End | At_Agent_Settled | At_Complete

fun next_position :: "position \<Rightarrow> position" where
  "next_position At_Agent_Start = At_Turn_Start"
| "next_position At_Turn_Start = At_System_Start"
| "next_position At_System_Start = At_System_End"
| "next_position At_System_End = At_User_Start"
| "next_position At_User_Start = At_User_End"
| "next_position At_User_End = At_Assistant_Start"
| "next_position At_Assistant_Start = At_Assistant_End"
| "next_position At_Assistant_End = At_Turn_End"
| "next_position At_Turn_End = At_Agent_End"
| "next_position At_Agent_End = At_Agent_Settled"
| "next_position At_Agent_Settled = At_Complete"
| "next_position At_Complete = At_Complete"

fun event_of :: "position \<Rightarrow> string option" where
  "event_of At_Agent_Start = Some ''agent_start''"
| "event_of At_Turn_Start = Some ''turn_start''"
| "event_of At_System_Start = Some ''message_start''"
| "event_of At_System_End = Some ''message_end''"
| "event_of At_User_Start = Some ''message_start''"
| "event_of At_User_End = Some ''message_end''"
| "event_of At_Assistant_Start = Some ''message_start''"
| "event_of At_Assistant_End = Some ''message_end''"
| "event_of At_Turn_End = Some ''turn_end''"
| "event_of At_Agent_End = Some ''agent_end''"
| "event_of At_Agent_Settled = Some ''agent_settled''"
| "event_of At_Complete = None"

definition event_names :: "string list" where
  "event_names = [''agent_start'', ''turn_start'', ''message_start'', ''message_end'', ''turn_end'', ''agent_end'',
     ''agent_settled'']"

definition stop_reasons :: "string list" where
  "stop_reasons = [''pending'', ''stop'', ''length'', ''toolUse'', ''error'', ''aborted'', ''deferred'']"

section \<open>Members\<close>

definition member_of :: "json_record \<Rightarrow> string \<Rightarrow> json option" where
  "member_of kvs name = map_of kvs (ascii name)"

definition present :: "json_record \<Rightarrow> string \<Rightarrow> bool" where
  "present kvs name \<longleftrightarrow> member_of kvs name \<noteq> None"

definition text_is :: "json option \<Rightarrow> string \<Rightarrow> bool" where
  "text_is v s \<longleftrightarrow> v = Some (JStr (ascii s))"

definition text_in :: "json option \<Rightarrow> string list \<Rightarrow> bool" where
  "text_in v names \<longleftrightarrow> (\<exists>s \<in> set names. text_is v s)"

definition a_text :: "json option \<Rightarrow> bool" where
  "a_text v \<longleftrightarrow> (case v of Some (JStr s) \<Rightarrow> True | _ \<Rightarrow> False)"

definition a_bool :: "json option \<Rightarrow> bool" where
  "a_bool v \<longleftrightarrow> (case v of Some (JBool b) \<Rightarrow> True | _ \<Rightarrow> False)"

text \<open>\<open>_string\<close>: a text that is not empty.\<close>

definition full_text :: "json option \<Rightarrow> bool" where
  "full_text v \<longleftrightarrow> (case v of Some (JStr s) \<Rightarrow> s \<noteq> [] | _ \<Rightarrow> False)"

definition text_value :: "json option \<Rightarrow> pystr" where
  "text_value v = (case v of Some (JStr s) \<Rightarrow> s | _ \<Rightarrow> [])"

text \<open>\<open>type(value) is int and value >= 0\<close>; a Boolean is not an integer here.\<close>

definition natural :: "json option \<Rightarrow> bool" where
  "natural v \<longleftrightarrow> (case v of Some (JInt i) \<Rightarrow> 0 \<le> i | _ \<Rightarrow> False)"

definition int_value :: "json option \<Rightarrow> int" where
  "int_value v = (case v of Some (JInt i) \<Rightarrow> i | _ \<Rightarrow> 0)"

text \<open>A float by its \<open>repr\<close>: finite and not below zero; minus zero equals zero.\<close>

definition nonnegative_float :: "pystr \<Rightarrow> bool" where
  "nonnegative_float r \<longleftrightarrow>
     r \<notin> {ascii ''inf'', ascii ''-inf'', ascii ''nan''} \<and> (take 1 r \<noteq> [45] \<or> r = ascii ''-0.0'')"

definition number_ok :: "json option \<Rightarrow> bool" where
  "number_ok v \<longleftrightarrow>
     (case v of Some (JInt i) \<Rightarrow> 0 \<le> i | Some (JFloat r) \<Rightarrow> nonnegative_float r | _ \<Rightarrow> False)"

definition same_float :: "pystr \<Rightarrow> pystr \<Rightarrow> bool" where
  "same_float r s \<longleftrightarrow> r = s \<or> {r, s} \<subseteq> {ascii ''0.0'', ascii ''-0.0''}"

text \<open>\<open>_same_json\<close>: equality that keeps the types apart; the members of an object have no order.\<close>

function (sequential) same_json :: "json \<Rightarrow> json \<Rightarrow> bool" where
  "same_json (JObj l) (JObj r) =
     (set (map fst l) = set (map fst r) \<and>
      list_all (\<lambda>(k, v). case map_of r k of Some w \<Rightarrow> same_json v w | None \<Rightarrow> False) l)"
| "same_json (JArr l) (JArr r) = (length l = length r \<and> list_all (\<lambda>(a, b). same_json a b) (zip l r))"
| "same_json (JFloat r) (JFloat s) = same_float r s"
| "same_json a b = (a = b)"
  by pat_completeness auto
termination
  by (relation "measure (\<lambda>(a, b). size a)")
    (auto dest!: set_zip_leftD simp: size_list_estimation' less_Suc_eq_le
      intro!: size_list_estimation' [where f = size] size_list_estimation' [where f = "size_prod (\<lambda>_. 0) size"])

definition same_copy :: "json option \<Rightarrow> json_record option \<Rightarrow> bool" where
  "same_copy v copy =
     (case copy of
        None \<Rightarrow> v = None \<or> v = Some JNull
      | Some m \<Rightarrow> (case v of None \<Rightarrow> False | Some j \<Rightarrow> same_json j (JObj m)))"

section \<open>Usage\<close>

definition usage_counts :: "string list" where
  "usage_counts = [''input'', ''output'', ''cacheRead'', ''cacheWrite'', ''totalTokens'']"

definition usage_costs :: "string list" where
  "usage_costs = [''input'', ''output'', ''cacheRead'', ''cacheWrite'', ''total'']"

definition message_usage :: "json_record \<Rightarrow> (rpc_reason, int option \<times> int option) outcome" where
  "message_usage message =
     (case member_of message ''usage'' of
        Some (JObj usage) \<Rightarrow>
          (let count = (\<lambda>name. int_value (member_of usage name));
               total = count ''input'' + count ''output'' + count ''cacheRead'' + count ''cacheWrite'' in
           and_then (require (\<forall>name \<in> set usage_counts. natural (member_of usage name)) Usage_Shape) (\<lambda>_.
           and_then
             (require
                (\<forall>name \<in> {''reasoning'', ''cacheWrite1h''}. present usage name \<longrightarrow> natural (member_of usage name))
                Usage_Shape) (\<lambda>_.
           and_then
             (case member_of usage ''cost'' of
                Some (JObj cost) \<Rightarrow>
                  require (\<forall>name \<in> set usage_costs. number_ok (member_of cost name)) Usage_Shape
              | _ \<Rightarrow> Inl Usage_Shape) (\<lambda>_.
           and_then (require (count ''totalTokens'' = total) Usage_Shape) (\<lambda>_.
             Inr (if total = 0 then (None, None)
               else (Some (count ''input'' + count ''cacheRead'' + count ''cacheWrite''),
                     Some (count ''output''))))))))
      | _ \<Rightarrow> Inl Usage_Shape)"

section \<open>RunEvents\<close>

record run_setup =
  st_description :: call_description
  st_user_message :: pystr
  st_cwd_section :: "pystr option"

record run_events =
  ev_position :: position
  ev_system :: "json_record option"
  ev_user :: "json_record option"
  ev_final :: "json_record option"
  ev_candidate :: "rpc_candidate option"

definition new_events :: run_events where
  "new_events = \<lparr>ev_position = At_Agent_Start, ev_system = None, ev_user = None, ev_final = None,
     ev_candidate = None\<rparr>"

definition events_settled :: "run_events \<Rightarrow> bool" where
  "events_settled e \<longleftrightarrow> ev_position e = At_Complete"

definition message_for :: "json_record \<Rightarrow> string \<Rightarrow> (rpc_reason, json_record) outcome" where
  "message_for record role =
     (case member_of record ''message'' of
        Some (JObj message) \<Rightarrow>
          and_then (require (text_is (member_of message ''role'') role) Message_Shape) (\<lambda>_.
          and_then (require (number_ok (member_of message ''timestamp'')) Message_Shape) (\<lambda>_.
            Inr message))
      | _ \<Rightarrow> Inl Message_Shape)"

text \<open>\<open>if self._x is None: self._x = message elif not _same_json(...): raise\<close>.\<close>

definition keep_copy :: "json_record \<Rightarrow> json_record option \<Rightarrow> (rpc_reason, json_record option) outcome" where
  "keep_copy message copy =
     (case copy of
        None \<Rightarrow> Inr (Some message)
      | Some m \<Rightarrow> if same_json (JObj message) (JObj m) then Inr copy else Inl Message_Mismatch)"

definition system_sections_ok :: "run_setup \<Rightarrow> json_record \<Rightarrow> bool" where
  "system_sections_ok st message \<longleftrightarrow>
     member_of message ''content'' = Some (JStr []) \<and>
     \<not> present message ''toolsAdded'' \<and> \<not> present message ''toolsRemoved'' \<and>
     (case member_of message ''sections'' of
        Some (JObj sections) \<Rightarrow>
          set (map fst sections) = {ascii ''preamble'', ascii ''cwd''} \<and>
          (case utf8_decode (cd_system_prompt (st_description st)) of
             Some s \<Rightarrow> member_of sections ''preamble'' = Some (JStr s) | None \<Rightarrow> False) \<and>
          a_text (member_of sections ''cwd'') \<and>
          (\<forall>cwd \<in> set_option (st_cwd_section st). member_of sections ''cwd'' = Some (JStr cwd))
      | _ \<Rightarrow> False)"

definition system_message :: "run_setup \<Rightarrow> json_record \<Rightarrow> run_events \<Rightarrow> (rpc_reason, run_events) outcome" where
  "system_message st record e =
     and_then (message_for record ''system'') (\<lambda>message.
     and_then (require (system_sections_ok st message) System_Mismatch) (\<lambda>_.
     and_then (keep_copy message (ev_system e)) (\<lambda>copy. Inr (e\<lparr>ev_system := copy\<rparr>))))"

definition user_content_ok :: "run_setup \<Rightarrow> json_record \<Rightarrow> bool" where
  "user_content_ok st message \<longleftrightarrow>
     (case member_of message ''content'' of
        Some (JArr [JObj block]) \<Rightarrow>
          text_is (member_of block ''type'') ''text'' \<and> member_of block ''text'' = Some (JStr (st_user_message st))
      | _ \<Rightarrow> False)"

definition user_event :: "run_setup \<Rightarrow> json_record \<Rightarrow> run_events \<Rightarrow> (rpc_reason, run_events) outcome" where
  "user_event st record e =
     and_then (message_for record ''user'') (\<lambda>message.
     and_then (require (user_content_ok st message) User_Mismatch) (\<lambda>_.
     and_then (keep_copy message (ev_user e)) (\<lambda>copy. Inr (e\<lparr>ev_user := copy\<rparr>))))"

text \<open>One block of the content: its text, if it is a text block.\<close>

definition content_block :: "json \<Rightarrow> (rpc_reason, pystr option) outcome" where
  "content_block j =
     (case j of
        JObj block \<Rightarrow>
          and_then (require (text_in (member_of block ''type'') [''text'', ''thinking'']) Channel) (\<lambda>_.
            (let is_text = text_is (member_of block ''type'') ''text'';
                 name = (if is_text then ''text'' else ''thinking'');
                 signature = (if is_text then ''textSignature'' else ''thinkingSignature'') in
             and_then (require (a_text (member_of block name)) Message_Shape) (\<lambda>_.
             and_then
               (require (present block signature \<longrightarrow> a_text (member_of block signature)) Message_Shape) (\<lambda>_.
             and_then
               (require
                  (\<not> is_text \<and> present block ''redacted'' \<longrightarrow> a_bool (member_of block ''redacted''))
                  Message_Shape) (\<lambda>_.
               Inr (if is_text then Some (text_value (member_of block name)) else None))))))
      | _ \<Rightarrow> Inl Channel)"

fun content_texts :: "json list \<Rightarrow> (rpc_reason, pystr list) outcome" where
  "content_texts [] = Inr []"
| "content_texts (j # js) =
     and_then (content_block j) (\<lambda>t. and_then (content_texts js) (\<lambda>ts.
       Inr (case t of Some s \<Rightarrow> s # ts | None \<Rightarrow> ts)))"

definition thinking_level_ok :: "run_setup \<Rightarrow> json_record \<Rightarrow> bool" where
  "thinking_level_ok st message \<longleftrightarrow>
     (present message ''thinkingLevel'' \<longrightarrow>
        (\<exists>level \<in> set thinking_levels. member_of message ''thinkingLevel'' = Some (JStr level) \<and>
           level = cd_thinking_level (st_description st)))"

definition assistant_texts :: "run_setup \<Rightarrow> json_record \<Rightarrow> (rpc_reason, pystr list) outcome" where
  "assistant_texts st message =
     and_then
       (require (\<forall>name \<in> {''api'', ''provider'', ''model''}. full_text (member_of message name)) Message_Shape) (\<lambda>_.
     and_then (require (text_in (member_of message ''stopReason'') stop_reasons) Stop_Reason) (\<lambda>_.
     and_then (require (thinking_level_ok st message) Thinking_State) (\<lambda>_.
     and_then
       (require
          (\<forall>name \<in> {''responseModel'', ''responseId'', ''providerThinkingLevel''}.
             present message name \<longrightarrow> full_text (member_of message name)) Message_Shape) (\<lambda>_.
       case member_of message ''content'' of
         Some (JArr blocks) \<Rightarrow> content_texts blocks
       | _ \<Rightarrow> Inl Message_Shape))))"

definition candidate_of :: "json_record \<Rightarrow> bytes \<Rightarrow> int option \<times> int option \<Rightarrow> rpc_candidate" where
  "candidate_of message raw tokens =
     \<lparr>rp_raw_response = raw, rp_provider = text_value (member_of message ''provider''),
      rp_model = text_value
        (if present message ''responseModel'' then member_of message ''responseModel'' else member_of message ''model''),
      rp_input_tokens = fst tokens, rp_output_tokens = snd tokens\<rparr>"

definition assistant_message :: "run_setup \<Rightarrow> json_record \<Rightarrow> run_events \<Rightarrow> (rpc_reason, run_events) outcome" where
  "assistant_message st record e =
     and_then (message_for record ''assistant'') (\<lambda>message.
     and_then (assistant_texts st message) (\<lambda>texts.
     and_then (message_usage message) (\<lambda>tokens.
       if ev_position e = At_Assistant_Start then
         and_then (require (text_is (member_of message ''stopReason'') ''pending'') Stop_Reason) (\<lambda>_. Inr e)
       else
         and_then (require (text_is (member_of message ''stopReason'') ''stop'') Stop_Reason) (\<lambda>_.
         and_then (require (texts \<noteq> []) Channel) (\<lambda>_.
         and_then (or_raise (utf8_encode (concat texts)) Message_Shape) (\<lambda>raw.
         and_then (require (length raw \<le> max_candidate_bytes) Candidate_Limit) (\<lambda>_.
           Inr (e\<lparr>ev_final := Some message, ev_candidate := Some (candidate_of message raw tokens)\<rparr>))))))))"

text \<open>\<open>_update\<close>: a partial update of the assistant; nothing of it is kept.\<close>

definition message_update :: "json_record \<Rightarrow> (rpc_reason, unit) outcome" where
  "message_update record =
     (case member_of record ''assistantMessageEvent'' of
        Some (JObj event) \<Rightarrow>
          (let kind = member_of event ''type'' in
           and_then
             (require
                (text_in kind [''text_start'', ''text_delta'', ''text_end'', ''thinking_start'', ''thinking_delta'',
                   ''thinking_end'']) Event_Not_Allowed) (\<lambda>_.
           and_then (require (natural (member_of event ''contentIndex'')) Message_Shape) (\<lambda>_.
           and_then
             (require
                (text_in kind [''text_delta'', ''thinking_delta''] \<longrightarrow> a_text (member_of event ''delta''))
                Message_Shape) (\<lambda>_.
           and_then
             (require
                (text_in kind [''text_end'', ''thinking_end''] \<longrightarrow> a_text (member_of event ''content''))
                Message_Shape) (\<lambda>_.
           and_then (message_usage record) (\<lambda>_. Inr ()))))))
      | _ \<Rightarrow> Inl Event_Not_Allowed)"

definition copies :: "run_events \<Rightarrow> json" where
  "copies e = JArr (map (\<lambda>c. case c of Some m \<Rightarrow> JObj m | None \<Rightarrow> JNull) [ev_system e, ev_user e, ev_final e])"

text \<open>The check of the event at its position, then the step to the next position.\<close>

definition check_event :: "run_setup \<Rightarrow> json_record \<Rightarrow> run_events \<Rightarrow> (rpc_reason, run_events) outcome" where
  "check_event st record e =
     (case ev_position e of
        At_System_Start \<Rightarrow> system_message st record e
      | At_System_End \<Rightarrow> system_message st record e
      | At_User_Start \<Rightarrow> user_event st record e
      | At_User_End \<Rightarrow> user_event st record e
      | At_Assistant_Start \<Rightarrow> assistant_message st record e
      | At_Assistant_End \<Rightarrow> assistant_message st record e
      | At_Turn_End \<Rightarrow>
          and_then
            (require
               (same_copy (member_of record ''message'') (ev_final e) \<and>
                member_of record ''toolResults'' = Some (JArr [])) Message_Mismatch) (\<lambda>_. Inr e)
      | At_Agent_End \<Rightarrow>
          and_then
            (require
               (\<exists>v \<in> set_option (member_of record ''messages''). same_json v (copies e)) Message_Mismatch) (\<lambda>_.
          and_then (require (member_of record ''willRetry'' = Some (JBool False)) Event_Sequence) (\<lambda>_. Inr e))
      | At_Agent_Settled \<Rightarrow>
          and_then (require (member_of record ''aborted'' = Some (JBool False)) Event_Sequence) (\<lambda>_. Inr e)
      | _ \<Rightarrow> Inr e)"

definition accept_event :: "run_setup \<Rightarrow> json_record \<Rightarrow> run_events \<Rightarrow> (rpc_reason, run_events) outcome" where
  "accept_event st record e =
     (let kind = member_of record ''type'' in
      if text_is kind ''message_update'' \<and> ev_position e = At_Assistant_End
      then and_then (message_update record) (\<lambda>_. Inr e)
      else if \<not> text_in kind event_names then Inl Event_Not_Allowed
      else if \<not> (\<exists>name \<in> set_option (event_of (ev_position e)). text_is kind name) then Inl Event_Sequence
      else and_then (check_event st record e) (\<lambda>e'. Inr (e'\<lparr>ev_position := next_position (ev_position e)\<rparr>)))"

end
