(* ===== verification/Rpc_Client.thy ===== *)
theory Rpc_Client
  imports Rpc_Messages
begin

text \<open>
  \<open>llm/rpc.py\<close>: one bounded call. The connection and the environment are one state; a step returns a
  value or one of the ways Python leaves a block: an \<open>RpcProblem\<close> with its reason, another
  exception, or an interruption. Loops take fuel; \<open>Stuck\<close> is its exhaustion, and the laws
  show how much is enough.
\<close>

datatype 'a result = Done 'a | Problem rpc_reason | Crashed | Interrupted | Stuck

record connection =
  cn_total_deadline :: seconds
  cn_tail :: bytes
  cn_records :: "json_record list"
  cn_stdout_bytes :: nat
  cn_stderr_bytes :: int
  cn_stdout_eof :: bool
  cn_stderr_eof :: bool
  cn_exit_code :: "int option"
  cn_command_no :: nat
  cn_expected_level :: "pystr option"
  cn_write_pending :: bool
  cn_awaiting :: "(pystr \<times> string) option"
  cn_settled :: bool
  cn_uncancelled :: bool

record 's rpc_state =
  rw_env :: 's
  rw_conn :: connection

type_synonym ('w, 'a) io = "'w \<Rightarrow> 'a result \<times> 'w"

section \<open>Sequencing\<close>

definition io_then :: "('w, 'a) io \<Rightarrow> ('a \<Rightarrow> ('w, 'b) io) \<Rightarrow> ('w, 'b) io" where
  "io_then f g w =
     (case f w of
        (Done x, w') \<Rightarrow> g x w' | (Problem r, w') \<Rightarrow> (Problem r, w') | (Crashed, w') \<Rightarrow> (Crashed, w')
      | (Interrupted, w') \<Rightarrow> (Interrupted, w') | (Stuck, w') \<Rightarrow> (Stuck, w'))"

definition io_return :: "'a \<Rightarrow> ('w, 'a) io" where "io_return x w = (Done x, w)"
definition io_raise :: "rpc_reason \<Rightarrow> ('w, 'a) io" where "io_raise r w = (Problem r, w)"
definition io_stuck :: "('w, 'a) io" where "io_stuck w = (Stuck, w)"

definition io_check :: "bool \<Rightarrow> rpc_reason \<Rightarrow> ('w, unit) io" where
  "io_check b r = (if b then io_return () else io_raise r)"

definition io_outcome :: "(rpc_reason, 'a) outcome \<Rightarrow> ('w, 'a) io" where
  "io_outcome x = (case x of Inl r \<Rightarrow> io_raise r | Inr y \<Rightarrow> io_return y)"

definition io_conn :: "(connection \<Rightarrow> 'a) \<Rightarrow> ('s rpc_state, 'a) io" where
  "io_conn f w = (Done (f (rw_conn w)), w)"

definition io_update :: "(connection \<Rightarrow> connection) \<Rightarrow> ('s rpc_state, unit) io" where
  "io_update f w = (Done (), w\<lparr>rw_conn := f (rw_conn w)\<rparr>)"

definition reply_result :: "'a reply \<Rightarrow> 'a result" where
  "reply_result r =
     (case r of Returned x \<Rightarrow> Done x | Refused e \<Rightarrow> Problem e | Failing \<Rightarrow> Crashed | Interrupting \<Rightarrow> Interrupted)"

definition io_reply :: "('s \<Rightarrow> 'a reply \<times> 's) \<Rightarrow> ('s rpc_state, 'a) io" where
  "io_reply f w = (let (r, s) = f (rw_env w) in (reply_result r, w\<lparr>rw_env := s\<rparr>))"

section \<open>_Connection\<close>

record 's rpc_client =
  cl_ops :: "'s session_ops"
  cl_float :: "pystr \<Rightarrow> pystr"
  cl_limits :: rpc_limits

definition new_connection :: "seconds \<Rightarrow> connection" where
  "new_connection deadline =
     \<lparr>cn_total_deadline = deadline, cn_tail = [], cn_records = [], cn_stdout_bytes = 0, cn_stderr_bytes = 0,
      cn_stdout_eof = False, cn_stderr_eof = False, cn_exit_code = None, cn_command_no = 0,
      cn_expected_level = None, cn_write_pending = False, cn_awaiting = None, cn_settled = False,
      cn_uncancelled = False\<rparr>"

text \<open>\<open>self.cancelled()\<close>, which \<open>_cancel\<close> replaces by a constant.\<close>

definition ask_cancelled :: "'s rpc_client \<Rightarrow> ('s rpc_state, bool) io" where
  "ask_cancelled cl =
     io_then (io_conn cn_uncancelled) (\<lambda>off. if off then io_return False else io_reply (op_cancelled (cl_ops cl)))"

definition check_time :: "'s rpc_client \<Rightarrow> seconds \<Rightarrow> bool \<Rightarrow> ('s rpc_state, seconds) io" where
  "check_time cl deadline closing =
     io_then (ask_cancelled cl) (\<lambda>c.
     io_then (io_check (\<not> c) Rpc_Cancelled) (\<lambda>_.
     io_then (io_conn cn_total_deadline) (\<lambda>total.
     io_then (io_reply (op_clock (cl_ops cl))) (\<lambda>now.
       let left = min deadline total - now in
       io_then (io_check (left > 0) (if closing then Close_Timeout else Rpc_Timeout)) (\<lambda>_. io_return left)))))"

definition event_ok :: "bytes \<Rightarrow> session_event \<Rightarrow> bool" where
  "event_ok pending e \<longleftrightarrow>
     0 \<le> sv_written e \<and> sv_written e \<le> int (length pending) \<and> 0 \<le> sv_stderr_bytes e"

text \<open>The bytes of one pump: counted against their limits, cut into records.\<close>

definition receive :: "'s rpc_client \<Rightarrow> session_event \<Rightarrow> ('s rpc_state, unit) io" where
  "receive cl e =
     io_then (io_conn id) (\<lambda>c.
     io_then (io_check (\<not> (cn_stdout_eof c \<and> sv_stdout e \<noteq> [])) Transport_Error) (\<lambda>_.
     io_then
       (io_update (\<lambda>c. c\<lparr>cn_stdout_bytes := cn_stdout_bytes c + length (sv_stdout e),
          cn_stderr_bytes := cn_stderr_bytes c + sv_stderr_bytes e\<rparr>)) (\<lambda>_.
     io_then (io_conn id) (\<lambda>c.
     io_then (io_check (cn_stdout_bytes c \<le> max_stdout_bytes) Stdout_Limit) (\<lambda>_.
     io_then (io_check (cn_stderr_bytes c \<le> int max_stderr_bytes) Stderr_Limit) (\<lambda>_.
     io_then (io_outcome (feed (cl_float cl) (cn_tail c) (sv_stdout e))) (\<lambda>(rs, tail).
       io_update (\<lambda>c. c\<lparr>cn_records := cn_records c @ rs, cn_tail := tail\<rparr>))))))))"

text \<open>The ends of the two pipes and the exit code.\<close>

definition observe :: "session_event \<Rightarrow> ('s rpc_state, unit) io" where
  "observe e =
     io_then (io_conn cn_tail) (\<lambda>tail.
     io_then (if sv_stdout_eof e then io_outcome (finish_frames tail) else io_return ()) (\<lambda>_.
     io_then
       (io_update (\<lambda>c. c\<lparr>cn_stdout_eof := cn_stdout_eof c \<or> sv_stdout_eof e,
          cn_stderr_eof := cn_stderr_eof c \<or> sv_stderr_eof e\<rparr>)) (\<lambda>_.
     io_then (io_conn cn_exit_code) (\<lambda>old.
     io_then
       (io_check (sv_exit_code e = None \<or> old = None \<or> sv_exit_code e = old) Transport_Error) (\<lambda>_.
     io_then
       (io_update (\<lambda>c. c\<lparr>cn_exit_code := (if sv_exit_code e \<noteq> None then sv_exit_code e else cn_exit_code c)\<rparr>)) (\<lambda>_.
     io_then (io_conn cn_exit_code) (\<lambda>code.
       io_check (code = None \<or> code = Some 0) Unexpected_Exit)))))))"

definition pump ::
    "'s rpc_client \<Rightarrow> bytes \<Rightarrow> seconds \<Rightarrow> bool \<Rightarrow> bool \<Rightarrow> ('s rpc_state, nat) io" where
  "pump cl pending deadline immediate closing =
     io_then (check_time cl deadline closing) (\<lambda>left.
     io_then
       (io_reply (op_pump (cl_ops cl) pending (if immediate then 0 else min left (lm_poll (cl_limits cl))))) (\<lambda>ev.
       case ev of
         None \<Rightarrow> io_raise Transport_Error
       | Some e \<Rightarrow>
           io_then (io_check (event_ok pending e) Transport_Error) (\<lambda>_.
           io_then (io_update (\<lambda>c. c\<lparr>cn_write_pending := sv_written e < int (length pending)\<rparr>)) (\<lambda>_.
           io_then (check_time cl deadline closing) (\<lambda>_.
           io_then (receive cl e) (\<lambda>_.
           io_then (observe e) (\<lambda>_. io_return (nat (sv_written e)))))))))"

text \<open>The loop of \<open>send\<close>, and \<open>send\<close>.\<close>

fun send_rest :: "'s rpc_client \<Rightarrow> nat \<Rightarrow> bytes \<Rightarrow> seconds \<Rightarrow> ('s rpc_state, unit) io" where
  "send_rest cl n [] deadline = io_return ()"
| "send_rest cl 0 pending deadline = io_stuck"
| "send_rest cl (Suc n) pending deadline =
     io_then (io_update (\<lambda>c. c\<lparr>cn_write_pending := True\<rparr>)) (\<lambda>_.
     io_then (pump cl pending deadline False False) (\<lambda>written.
       send_rest cl n (drop written pending) deadline))"

definition send_frame :: "'s rpc_client \<Rightarrow> nat \<Rightarrow> bytes \<Rightarrow> seconds \<Rightarrow> ('s rpc_state, unit) io" where
  "send_frame cl n frame deadline =
     io_then (io_conn id) (\<lambda>c.
     io_then (io_check (\<not> (cn_stdout_eof c \<or> cn_exit_code c \<noteq> None)) Eof) (\<lambda>_.
       send_rest cl n frame deadline))"

fun await_record :: "'s rpc_client \<Rightarrow> nat \<Rightarrow> seconds \<Rightarrow> ('s rpc_state, unit) io" where
  "await_record cl n deadline w =
     (if cn_records (rw_conn w) \<noteq> [] then io_return () w
      else (case n of
        0 \<Rightarrow> io_stuck w
      | Suc m \<Rightarrow>
          io_then (io_check (\<not> cn_stdout_eof (rw_conn w)) Eof) (\<lambda>_.
          io_then (pump cl [] deadline False False) (\<lambda>_. await_record cl m deadline)) w))"

declare await_record.simps [simp del]

definition pop_record :: "('s rpc_state, json_record) io" where
  "pop_record =
     io_then (io_conn (\<lambda>c. hd (cn_records c))) (\<lambda>r.
     io_then (io_update (\<lambda>c. c\<lparr>cn_records := tl (cn_records c)\<rparr>)) (\<lambda>_. io_return r))"

definition read_record :: "'s rpc_client \<Rightarrow> nat \<Rightarrow> seconds \<Rightarrow> ('s rpc_state, json_record) io" where
  "read_record cl n deadline =
     io_then (await_record cl n deadline) (\<lambda>_.
     io_then (check_time cl deadline False) (\<lambda>_. pop_record))"

section \<open>Commands\<close>

definition response :: "json_record \<Rightarrow> pystr \<Rightarrow> string \<Rightarrow> (rpc_reason, json_record) outcome" where
  "response record i name =
     and_then
       (require
          (text_is (member_of record ''type'') ''response'' \<and> member_of record ''id'' = Some (JStr i) \<and>
           text_is (member_of record ''command'') name \<and> a_bool (member_of record ''success''))
          Response_Mismatch) (\<lambda>_.
     and_then
       (require (member_of record ''success'' = Some (JBool True))
          (if name = ''set_model'' then Model_Rejected else Command_Rejected)) (\<lambda>_.
       case member_of record ''data'' of
         None \<Rightarrow> Inr []
       | Some (JObj data) \<Rightarrow> Inr data
       | Some _ \<Rightarrow> Inl Response_Mismatch))"

text \<open>\<open>f"rpc-{n}"\<close>.\<close>

definition command_id :: "nat \<Rightarrow> pystr" where
  "command_id n = ascii ''rpc-'' @ dec n"

definition notification :: "json_record \<Rightarrow> connection \<Rightarrow> (rpc_reason, unit) outcome" where
  "notification record c =
     require
       (\<exists>level \<in> set thinking_levels. member_of record ''level'' = Some (JStr level) \<and>
          (\<forall>expected \<in> set_option (cn_expected_level c). level = expected)) Thinking_State"

definition is_notification :: "json_record \<Rightarrow> bool" where
  "is_notification record \<longleftrightarrow> text_is (member_of record ''type'') ''thinking_level_changed''"

text \<open>The records that arrived between two commands.\<close>

fun drain :: "json_record list \<Rightarrow> ('s rpc_state, unit) io" where
  "drain [] = io_return ()"
| "drain (r # rs) =
     io_then (io_update (\<lambda>c. c\<lparr>cn_records := rs\<rparr>)) (\<lambda>_.
     io_then (io_check (is_notification r) Response_Mismatch) (\<lambda>_.
     io_then (io_conn (notification r)) (\<lambda>x.
     io_then (io_outcome x) (\<lambda>_. drain rs))))"

definition byte_counts :: "connection \<Rightarrow> nat \<times> int" where
  "byte_counts c = (cn_stdout_bytes c, cn_stderr_bytes c)"

fun before_command :: "'s rpc_client \<Rightarrow> nat \<Rightarrow> seconds \<Rightarrow> ('s rpc_state, unit) io" where
  "before_command cl 0 deadline = io_stuck"
| "before_command cl (Suc n) deadline =
     io_then (io_conn id) (\<lambda>c.
     io_then (io_check (\<not> (cn_command_no c = 0 \<and> (cn_records c \<noteq> [] \<or> cn_tail c \<noteq> []))) Early_Record) (\<lambda>_.
     io_then (drain (cn_records c)) (\<lambda>_.
     io_then (io_conn byte_counts) (\<lambda>counts.
     io_then (io_conn cn_tail) (\<lambda>tail.
     io_then (pump cl [] deadline (tail = []) False) (\<lambda>_.
     io_then (io_conn id) (\<lambda>c.
     io_then (io_check (\<not> (cn_stdout_eof c \<or> cn_exit_code c \<noteq> None)) Eof) (\<lambda>_.
       if cn_records c = [] \<and> cn_tail c = [] \<and> counts = byte_counts c then io_return ()
       else before_command cl n deadline))))))))"

fun await_response ::
    "'s rpc_client \<Rightarrow> nat \<Rightarrow> nat \<Rightarrow> pystr \<Rightarrow> string \<Rightarrow> seconds \<Rightarrow> ('s rpc_state, json_record) io" where
  "await_response cl n 0 i name deadline = io_stuck"
| "await_response cl n (Suc m) i name deadline =
     io_then (read_record cl n deadline) (\<lambda>record.
       if is_notification record then
         io_then (io_conn (notification record)) (\<lambda>x.
         io_then (io_outcome x) (\<lambda>_. await_response cl n m i name deadline))
       else io_then (io_outcome (response record i name)) (\<lambda>data.
         io_then (io_update (\<lambda>c. c\<lparr>cn_awaiting := None\<rparr>)) (\<lambda>_. io_return data)))"

definition exchange ::
    "'s rpc_client \<Rightarrow> nat \<Rightarrow> string \<Rightarrow> json_record \<Rightarrow> seconds \<Rightarrow> ('s rpc_state, json_record) io" where
  "exchange cl n name args deadline =
     io_then (before_command cl n deadline) (\<lambda>_.
     io_then (io_update (\<lambda>c. c\<lparr>cn_command_no := cn_command_no c + 1\<rparr>)) (\<lambda>_.
     io_then (io_conn (\<lambda>c. command_id (cn_command_no c))) (\<lambda>i.
     io_then (io_update (\<lambda>c. c\<lparr>cn_awaiting := Some (i, name)\<rparr>)) (\<lambda>_.
     io_then (io_outcome (command_frame i name args)) (\<lambda>frame.
     io_then (send_frame cl n frame deadline) (\<lambda>_.
       await_response cl n n i name deadline))))))"

end
