(* ===== verification/Rpc_Call.thy ===== *)
theory Rpc_Call
  imports Rpc_Client
begin

text \<open>The rest of \<open>llm/rpc.py\<close>: the initialization, the one prompt, the cancellation handshake, the cleanup
  and \<open>run_call\<close>, which turns every outcome into a candidate or a failure.\<close>

section \<open>_initialize\<close>

definition match_model :: "json option \<Rightarrow> call_description \<Rightarrow> (rpc_reason, unit) outcome" where
  "match_model model d =
     require
       (case model of
          Some (JObj kvs) \<Rightarrow>
            member_of kvs ''provider'' = Some (JStr (cd_provider d)) \<and> member_of kvs ''id'' = Some (JStr (cd_model d))
        | _ \<Rightarrow> False) Model_State"

definition session_ready :: "json_record \<Rightarrow> (rpc_reason, unit) outcome" where
  "session_ready data =
     (if member_of data ''cancelled'' = Some (JBool False) then Inr ()
      else if member_of data ''cancelled'' = Some (JBool True) then Inl Session_Cancelled
      else Inl Response_Mismatch)"

definition levels_ok :: "call_description \<Rightarrow> json_record \<Rightarrow> bool" where
  "levels_ok d data \<longleftrightarrow>
     (case member_of data ''levels'' of
        Some (JArr levels) \<Rightarrow>
          levels \<noteq> [] \<and> (\<forall>l \<in> set levels. \<exists>t \<in> set thinking_levels. l = JStr t) \<and>
          JStr (cd_thinking_level d) \<in> set levels
      | _ \<Rightarrow> False)"

definition clean_state :: "json_record \<Rightarrow> bool" where
  "clean_state state \<longleftrightarrow>
     (\<forall>name \<in> {''autoCompactionEnabled'', ''isStreaming'', ''isCompacting''}.
        member_of state name = Some (JBool False)) \<and>
     (\<forall>name \<in> {''messageCount'', ''pendingMessageCount''}. member_of state name = Some (JInt 0)) \<and>
     member_of state ''sessionFile'' \<in> {None, Some JNull}"

definition initialize :: "'s rpc_client \<Rightarrow> nat \<Rightarrow> call_description \<Rightarrow> seconds \<Rightarrow> ('s rpc_state, unit) io" where
  "initialize cl n d deadline =
     io_then (exchange cl n ''new_session'' [] deadline) (\<lambda>data.
     io_then (io_outcome (session_ready data)) (\<lambda>_.
     io_then (exchange cl n ''set_auto_retry'' [(ascii ''enabled'', JBool False)] deadline) (\<lambda>_.
     io_then (exchange cl n ''set_auto_compaction'' [(ascii ''enabled'', JBool False)] deadline) (\<lambda>_.
     io_then
       (exchange cl n ''set_model''
          [(ascii ''provider'', JStr (cd_provider d)), (ascii ''modelId'', JStr (cd_model d))] deadline) (\<lambda>model.
     io_then (io_outcome (match_model (Some (JObj model)) d)) (\<lambda>_.
     io_then (exchange cl n ''get_available_thinking_levels'' [] deadline) (\<lambda>levels.
     io_then (io_check (levels_ok d levels) Thinking_Unsupported) (\<lambda>_.
     io_then (io_update (\<lambda>c. c\<lparr>cn_expected_level := Some (cd_thinking_level d)\<rparr>)) (\<lambda>_.
     io_then (exchange cl n ''set_thinking_level'' [(ascii ''level'', JStr (cd_thinking_level d))] deadline) (\<lambda>_.
     io_then (exchange cl n ''get_commands'' [] deadline) (\<lambda>commands.
     io_then (io_check (member_of commands ''commands'' = Some (JArr [])) Commands_Present) (\<lambda>_.
     io_then (exchange cl n ''get_state'' [] deadline) (\<lambda>state.
     io_then (io_outcome (match_model (member_of state ''model'') d)) (\<lambda>_.
     io_then
       (io_check (member_of state ''thinkingLevel'' = Some (JStr (cd_thinking_level d))) Thinking_State) (\<lambda>_.
     io_then (io_check (clean_state state) Dirty_State) (\<lambda>_.
     io_then (io_conn cn_records) (\<lambda>rs. io_check (rs = []) Response_Mismatch)))))))))))))))))"

section \<open>_run\<close>

definition prompt_command_no :: nat where "prompt_command_no = 9"

definition prompt_args :: "pystr \<Rightarrow> json_record" where
  "prompt_args message = [(ascii ''message'', JStr message)]"

definition prompt_frame :: "bytes \<Rightarrow> (rpc_reason, bytes) outcome" where
  "prompt_frame user_message =
     and_then (or_raise (utf8_decode user_message) Invalid_Description) (\<lambda>message.
     and_then (command_frame (command_id prompt_command_no) ''prompt'' (prompt_args message)) (\<lambda>frame.
       if length frame > max_request_bytes then Inl Request_Limit else Inr frame))"

definition validate_request :: "bytes \<Rightarrow> rpc_reason option" where
  "validate_request user_message = (case prompt_frame user_message of Inl r \<Rightarrow> Some r | Inr _ \<Rightarrow> None)"

text \<open>One round of the event loop: the acknowledgement of the prompt, or an event.\<close>

definition prompt_acknowledged :: "json_record \<Rightarrow> bool \<Rightarrow> (rpc_reason, unit) outcome" where
  "prompt_acknowledged record acked =
     and_then (require (\<not> acked) Response_Mismatch) (\<lambda>_.
     and_then (response record (command_id prompt_command_no) ''prompt'') (\<lambda>data.
       require (text_is (member_of data ''disposition'') ''started'') Prompt_Disposition))"

fun run_events_loop ::
    "'s rpc_client \<Rightarrow> nat \<Rightarrow> nat \<Rightarrow> run_setup \<Rightarrow> bool \<Rightarrow> bool \<Rightarrow> run_events \<Rightarrow> ('s rpc_state, run_events) io" where
  "run_events_loop cl n m st acked shut e w =
     (if acked \<and> events_settled e then io_return e w
      else (case m of
        0 \<Rightarrow> io_stuck w
      | Suc k \<Rightarrow>
          io_then (io_conn cn_total_deadline) (\<lambda>deadline.
          io_then (read_record cl n deadline) (\<lambda>record.
          io_then
            (if text_is (member_of record ''type'') ''response'' then
               io_then (io_outcome (prompt_acknowledged record acked)) (\<lambda>_.
               io_then (io_update (\<lambda>c. c\<lparr>cn_awaiting := None\<rparr>)) (\<lambda>_. io_return (True, e)))
             else io_then (io_outcome (accept_event st record e)) (\<lambda>e'. io_return (acked, e'))) (\<lambda>(acked', e').
          io_then
            (if events_settled e' \<and> \<not> shut then
               io_then (io_update (\<lambda>c. c\<lparr>cn_settled := True\<rparr>)) (\<lambda>_. io_reply (op_close (cl_ops cl)))
             else io_return ()) (\<lambda>_.
            run_events_loop cl n k st acked' (shut \<or> events_settled e') e')))) w))"

declare run_events_loop.simps [simp del]

definition ended :: "connection \<Rightarrow> bool" where
  "ended c \<longleftrightarrow> cn_stdout_eof c \<and> cn_stderr_eof c \<and> cn_exit_code c = Some 0"

fun await_end :: "'s rpc_client \<Rightarrow> nat \<Rightarrow> seconds \<Rightarrow> ('s rpc_state, unit) io" where
  "await_end cl n deadline w =
     io_then (io_conn cn_records) (\<lambda>rs.
     io_then (io_check (rs = []) Event_Sequence) (\<lambda>_.
     io_then (io_conn ended) (\<lambda>done.
       if done then io_return ()
       else (case n of
          0 \<Rightarrow> io_stuck
        | Suc m \<Rightarrow> io_then (pump cl [] deadline False True) (\<lambda>_. await_end cl m deadline))))) w"

declare await_end.simps [simp del]

definition run_prompt ::
    "'s rpc_client \<Rightarrow> nat \<Rightarrow> call_description \<Rightarrow> bytes \<Rightarrow> pystr option \<Rightarrow> ('s rpc_state, rpc_candidate) io" where
  "run_prompt cl n d user_message cwd =
     io_then (io_outcome (or_raise (utf8_decode user_message) Invalid_Description)) (\<lambda>message.
     io_then (io_conn cn_total_deadline) (\<lambda>total.
     io_then (before_command cl n total) (\<lambda>_.
     io_then
       (io_update (\<lambda>c. c\<lparr>cn_command_no := prompt_command_no,
          cn_awaiting := Some (command_id prompt_command_no, ''prompt'')\<rparr>)) (\<lambda>_.
     io_then (io_outcome (prompt_frame user_message)) (\<lambda>frame.
     io_then (send_frame cl n frame total) (\<lambda>_.
     io_then
       (run_events_loop cl n n \<lparr>st_description = d, st_user_message = message, st_cwd_section = cwd\<rparr>
          False False new_events) (\<lambda>e.
     io_then (io_reply (op_clock (cl_ops cl))) (\<lambda>now.
     io_then (await_end cl n (min total (now + lm_close (cl_limits cl)))) (\<lambda>_.
       case ev_candidate e of None \<Rightarrow> io_raise Event_Sequence | Some c \<Rightarrow> io_return c)))))))))"

section \<open>_cancel\<close>

definition queue_texts_ok :: "json_record \<Rightarrow> bool" where
  "queue_texts_ok data \<longleftrightarrow>
     (\<forall>name \<in> {''steering'', ''followUp''}.
        case member_of data name of Some (JArr texts) \<Rightarrow> \<forall>t \<in> set texts. a_text (Some t) | _ \<Rightarrow> False)"

text \<open>The answers to one command of the handshake; the command the call was cancelled in may still be
  answered. The result is what is still outstanding.\<close>

fun await_cancelled ::
    "'s rpc_client \<Rightarrow> nat \<Rightarrow> nat \<Rightarrow> pystr \<Rightarrow> string \<Rightarrow> (pystr \<times> string) option \<Rightarrow> seconds \<Rightarrow>
      ('s rpc_state, (pystr \<times> string) option) io" where
  "await_cancelled cl n 0 i name outstanding deadline = io_stuck"
| "await_cancelled cl n (Suc m) i name outstanding deadline =
     io_then (read_record cl n deadline) (\<lambda>record.
       if \<not> text_is (member_of record ''type'') ''response''
       then await_cancelled cl n m i name outstanding deadline
       else (case outstanding of
          Some (j, other) \<Rightarrow>
            if member_of record ''id'' = Some (JStr j) then
              io_then (io_outcome (response record j other)) (\<lambda>_. await_cancelled cl n m i name None deadline)
            else
              io_then (io_outcome (response record i name)) (\<lambda>data.
              io_then (io_check (name = ''clear_queue'' \<longrightarrow> queue_texts_ok data) Response_Mismatch) (\<lambda>_.
                io_return outstanding))
        | None \<Rightarrow>
            io_then (io_outcome (response record i name)) (\<lambda>data.
            io_then (io_check (name = ''clear_queue'' \<longrightarrow> queue_texts_ok data) Response_Mismatch) (\<lambda>_.
              io_return None))))"

definition cancel_command ::
    "'s rpc_client \<Rightarrow> nat \<Rightarrow> string \<Rightarrow> (pystr \<times> string) option \<Rightarrow> seconds \<Rightarrow>
      ('s rpc_state, (pystr \<times> string) option) io" where
  "cancel_command cl n name outstanding deadline =
     io_then (io_update (\<lambda>c. c\<lparr>cn_command_no := cn_command_no c + 1\<rparr>)) (\<lambda>_.
     io_then (io_conn (\<lambda>c. command_id (cn_command_no c))) (\<lambda>i.
     io_then (io_outcome (command_frame i name [])) (\<lambda>frame.
     io_then (send_frame cl n frame deadline) (\<lambda>_.
       await_cancelled cl n n i name outstanding deadline))))"

text \<open>\<open>try: ... finally: connection.records.clear()\<close>.\<close>

definition io_clearing :: "('s rpc_state, 'a) io \<Rightarrow> ('s rpc_state, 'a) io" where
  "io_clearing f w = (let (r, w') = f w in (r, w'\<lparr>rw_conn := (rw_conn w')\<lparr>cn_records := []\<rparr>\<rparr>))"

definition cancel :: "'s rpc_client \<Rightarrow> nat \<Rightarrow> ('s rpc_state, unit) io" where
  "cancel cl n =
     io_then (io_conn id) (\<lambda>c.
       if cn_write_pending c \<or> cn_stdout_eof c \<or> cn_exit_code c \<noteq> None \<or> cn_settled c then io_return ()
       else
         io_then (io_update (\<lambda>c. c\<lparr>cn_uncancelled := True\<rparr>)) (\<lambda>_.
         io_then (io_reply (op_clock (cl_ops cl))) (\<lambda>now.
           let deadline = now + lm_close (cl_limits cl) in
           io_then (io_update (\<lambda>c. c\<lparr>cn_total_deadline := deadline\<rparr>)) (\<lambda>_.
             io_clearing
               (io_then (cancel_command cl n ''clear_queue'' (cn_awaiting c) deadline) (\<lambda>outstanding.
                io_then (cancel_command cl n ''abort'' outstanding deadline) (\<lambda>_. io_return ())))))))"

section \<open>_cleanup\<close>

text \<open>Two calls of the environment in a row: what the first raises is raised.\<close>

definition reply_then :: "('s \<Rightarrow> 'a reply \<times> 's) \<Rightarrow> ('a \<Rightarrow> 's \<Rightarrow> 'b reply \<times> 's) \<Rightarrow> 's \<Rightarrow> 'b reply \<times> 's" where
  "reply_then f g s =
     (case f s of
        (Returned x, s') \<Rightarrow> g x s' | (Refused e, s') \<Rightarrow> (Refused e, s') | (Failing, s') \<Rightarrow> (Failing, s')
      | (Interrupting, s') \<Rightarrow> (Interrupting, s'))"

text \<open>One operation of the cleanup, repeated once if it is interrupted: the first interruption and the
  failure to report.\<close>

definition attempt_twice :: "('s \<Rightarrow> unit reply \<times> 's) \<Rightarrow> 's \<Rightarrow> (bool \<times> unit reply option) \<times> 's" where
  "attempt_twice f s =
     (case f s of
        (Returned _, s') \<Rightarrow> ((False, None), s')
      | (Interrupting, s') \<Rightarrow>
          (case f s' of
             (Returned _, s2) \<Rightarrow> ((True, None), s2)
           | (Interrupting, s2) \<Rightarrow> ((True, None), s2)
           | (e, s2) \<Rightarrow> ((True, Some e), s2))
      | (e, s') \<Rightarrow> ((False, Some e), s'))"

text \<open>\<open>lambda: session.terminate(max(0.0, deadline - clock()))\<close>: the clock is read inside the operation.\<close>

definition terminate_by :: "'s rpc_client \<Rightarrow> seconds \<Rightarrow> 's \<Rightarrow> unit reply \<times> 's" where
  "terminate_by cl deadline =
     reply_then (op_clock (cl_ops cl)) (\<lambda>now. op_terminate (cl_ops cl) (max 0 (deadline - now)))"

definition cleanup :: "'s rpc_client \<Rightarrow> seconds \<Rightarrow> 's \<Rightarrow> unit reply \<times> 's" where
  "cleanup cl deadline s =
     (let ((i1, f1), s1) = attempt_twice (op_close (cl_ops cl)) s;
          ((i2, f2), s2) = attempt_twice (terminate_by cl deadline) s1 in
      (if i1 \<or> i2 then Interrupting
       else (case f2 of Some e \<Rightarrow> e | None \<Rightarrow> (case f1 of Some e \<Rightarrow> e | None \<Rightarrow> Returned ())), s2))"

section \<open>run_call\<close>

definition description_ok :: "call_description \<Rightarrow> rpc_limits \<Rightarrow> bool" where
  "description_ok d limits \<longleftrightarrow>
     map_of protocol_profiles (cd_pi_version d) = Some (cd_protocol_profile d) \<and>
     cd_protocol d = ascii ''prompt_only'' \<and> cd_thinking_level d \<in> set thinking_levels \<and>
     cd_system_prompt d \<noteq> [] \<and> cd_provider d \<noteq> [] \<and> cd_model d \<noteq> [] \<and>
     (\<forall>v \<in> {lm_initialization limits, lm_total limits, lm_close limits, lm_terminate limits, lm_poll limits}. 0 < v) \<and>
     utf8_decode (cd_system_prompt d) \<noteq> None \<and>
     lm_initialization limits \<le> lm_initialization default_limits \<and> lm_total limits \<le> lm_total default_limits \<and>
     lm_close limits \<le> lm_close default_limits \<and> lm_terminate limits \<le> lm_terminate default_limits \<and>
     lm_poll limits \<le> lm_poll default_limits"

datatype call_result = Candidate_Result rpc_candidate | Failure_Result rpc_reason | Interruption | Unfinished

text \<open>The \<open>finally\<close> block: the compensation of a cleanup that did not finish. One round reads the clock for the
  deadline if there is none yet, and keeps the deadline it found; an interrupted round, of the clock or
  of the cleanup, is repeated once, and an exception ends the compensation.\<close>

definition cleanup_deadline :: "'s rpc_client \<Rightarrow> seconds option \<Rightarrow> 's \<Rightarrow> seconds reply \<times> 's" where
  "cleanup_deadline cl deadline s =
     (case deadline of
        Some t \<Rightarrow> (Returned t, s)
      | None \<Rightarrow> reply_then (op_clock (cl_ops cl)) (\<lambda>now s'. (Returned (now + lm_terminate (cl_limits cl)), s')) s)"

definition compensate_once ::
    "'s rpc_client \<Rightarrow> seconds option \<Rightarrow> 's \<Rightarrow> (unit reply \<times> seconds option) \<times> 's" where
  "compensate_once cl deadline s =
     (case cleanup_deadline cl deadline s of
        (Returned t, s') \<Rightarrow> (let (r, s2) = cleanup cl t s' in ((r, Some t), s2))
      | (Refused e, s') \<Rightarrow> ((Refused e, None), s')
      | (Failing, s') \<Rightarrow> ((Failing, None), s')
      | (Interrupting, s') \<Rightarrow> ((Interrupting, None), s'))"

definition compensate :: "'s rpc_client \<Rightarrow> seconds option \<Rightarrow> 's \<Rightarrow> bool \<times> 's" where
  "compensate cl deadline s =
     (case compensate_once cl deadline s of
        ((Interrupting, deadline'), s1) \<Rightarrow> (True, snd (compensate_once cl deadline' s1))
      | (_, s1) \<Rightarrow> (False, s1))"

text \<open>The part under \<open>try\<close> once the session exists, up to the cleanup.\<close>

definition converse ::
    "'s rpc_client \<Rightarrow> nat \<Rightarrow> call_description \<Rightarrow> bytes \<Rightarrow> pystr option \<Rightarrow> seconds \<Rightarrow>
      ('s rpc_state, rpc_candidate) io" where
  "converse cl n d user_message cwd started =
     io_then (io_conn cn_total_deadline) (\<lambda>total.
       let initialization = min total (started + lm_initialization (cl_limits cl)) in
       io_then (pump cl [] initialization True False) (\<lambda>_.
       io_then (io_conn id) (\<lambda>c.
       io_then (io_check (cn_records c = [] \<and> cn_tail c = []) Early_Record) (\<lambda>_.
       io_then (initialize cl n d initialization) (\<lambda>_.
       io_then (run_prompt cl n d user_message cwd) (\<lambda>result.
       io_then (check_time cl total True) (\<lambda>_. io_return result)))))))"

text \<open>How far the cleanup of the \<open>try\<close> block came.\<close>

record cleanup_state =
  ck_deadline :: "seconds option"
  ck_finished :: bool

text \<open>The cleanup of a conversation that gave a candidate, and the last check.\<close>

definition conclude ::
    "'s rpc_client \<Rightarrow> rpc_candidate \<Rightarrow> 's rpc_state \<Rightarrow> (rpc_candidate result \<times> cleanup_state) \<times> 's rpc_state" where
  "conclude cl c w =
     (case cleanup_deadline cl None (rw_env w) of
        (Returned by, s) \<Rightarrow>
          (let (r, s') = cleanup cl by s; w' = w\<lparr>rw_env := s'\<rparr> in
           (case r of
              Returned _ \<Rightarrow>
                (let (x, w2) = io_then (check_time cl (cn_total_deadline (rw_conn w')) True) (\<lambda>_. io_return c) w' in
                 ((x, \<lparr>ck_deadline = Some by, ck_finished = True\<rparr>), w2))
            | Refused e \<Rightarrow> ((Problem e, \<lparr>ck_deadline = Some by, ck_finished = False\<rparr>), w')
            | Failing \<Rightarrow> ((Crashed, \<lparr>ck_deadline = Some by, ck_finished = False\<rparr>), w')
            | Interrupting \<Rightarrow> ((Interrupted, \<lparr>ck_deadline = Some by, ck_finished = False\<rparr>), w')))
      | (Refused e, s) \<Rightarrow> ((Problem e, \<lparr>ck_deadline = None, ck_finished = False\<rparr>), w\<lparr>rw_env := s\<rparr>)
      | (Failing, s) \<Rightarrow> ((Crashed, \<lparr>ck_deadline = None, ck_finished = False\<rparr>), w\<lparr>rw_env := s\<rparr>)
      | (Interrupting, s) \<Rightarrow> ((Interrupted, \<lparr>ck_deadline = None, ck_finished = False\<rparr>), w\<lparr>rw_env := s\<rparr>))"

text \<open>The handlers: a cancelled call shakes hands, any other exception is a transport error.\<close>

definition handle :: "'s rpc_client \<Rightarrow> nat \<Rightarrow> rpc_candidate result \<Rightarrow> 's rpc_state \<Rightarrow> call_result \<times> 's rpc_state" where
  "handle cl n r w =
     (case r of
        Done c \<Rightarrow> (Candidate_Result c, w)
      | Problem e \<Rightarrow>
          if e = Rpc_Cancelled then
            (case cancel cl n w of
               (Interrupted, w') \<Rightarrow> (Interruption, w')
             | (Stuck, w') \<Rightarrow> (Unfinished, w')
             | (_, w') \<Rightarrow> (Failure_Result e, w'))
          else (Failure_Result e, w)
      | Crashed \<Rightarrow> (Failure_Result Transport_Error, w)
      | Interrupted \<Rightarrow> (Interruption, w)
      | Stuck \<Rightarrow> (Unfinished, w))"

definition run_session ::
    "'s rpc_client \<Rightarrow> nat \<Rightarrow> call_description \<Rightarrow> bytes \<Rightarrow> pystr option \<Rightarrow> seconds \<Rightarrow> 's \<Rightarrow> call_result \<times> 's" where
  "run_session cl n d user_message cwd started s =
     (let w = \<lparr>rw_env = s, rw_conn = new_connection (started + lm_total (cl_limits cl))\<rparr>;
          (r, w1) = converse cl n d user_message cwd started w;
          ((r', ck), w2) =
            (case r of
               Done c \<Rightarrow> conclude cl c w1
             | _ \<Rightarrow> ((r, \<lparr>ck_deadline = None, ck_finished = False\<rparr>), w1));
          (result, w3) = handle cl n r' w2 in
      if result = Unfinished \<or> ck_finished ck then (result, rw_env w3)
      else (let (interrupted, s') = compensate cl (ck_deadline ck) (rw_env w3) in
            (if interrupted then Interruption else result, s')))"

text \<open>What the call reads before there is a session: the clock, then the cancellation flag.\<close>

definition start_reading :: "'s rpc_client \<Rightarrow> 's \<Rightarrow> (seconds \<times> bool) reply \<times> 's" where
  "start_reading cl =
     reply_then (op_clock (cl_ops cl)) (\<lambda>started.
       reply_then (op_cancelled (cl_ops cl)) (\<lambda>c s. (Returned (started, c), s)))"

definition run_call ::
    "'s rpc_client \<Rightarrow> nat \<Rightarrow> call_description \<Rightarrow> bytes \<Rightarrow> pystr option \<Rightarrow> 's \<Rightarrow> call_result \<times> 's" where
  "run_call cl n d user_message cwd s =
     (if \<not> description_ok d (cl_limits cl) then (Failure_Result Invalid_Description, s)
      else
        (case prompt_frame user_message of
           Inl r \<Rightarrow> (Failure_Result r, s)
         | Inr _ \<Rightarrow>
             (case start_reading cl s of
                (Returned (started, c), s2) \<Rightarrow>
                  if c then (Failure_Result Rpc_Cancelled, s2)
                  else
                    (case op_create (cl_ops cl) d s2 of
                       (Returned _, s3) \<Rightarrow> run_session cl n d user_message cwd started s3
                     | (Interrupting, s3) \<Rightarrow> (Interruption, s3)
                     | (_, s3) \<Rightarrow> (Failure_Result Startup_Error, s3))
              | (Refused e, s2) \<Rightarrow> (Failure_Result e, s2)
              | (Failing, s2) \<Rightarrow> (Failure_Result Transport_Error, s2)
              | (Interrupting, s2) \<Rightarrow> (Interruption, s2))))"

end
