(* ===== verification/Rpc_Moves.thy ===== *)
theory Rpc_Moves
  imports Rpc_Call
begin

text \<open>What the steps of a call have in common: the equations of a step on a state, the body of the event
  loop, and the relations between the state before and after that every step respects. Such a
  relation is the contract of \<open>client_moves\<close>: it is checked on the operations of the environment, on the
  receipt of bytes and on the plain assignments, and then holds of every operation of the client.\<close>

named_theorems io_simps "steps on a state"

lemma io_return_simps [io_simps]: "io_return x w = (Done x, w)" by (simp add: io_return_def)
lemma io_raise_simps [io_simps]: "io_raise r w = (Problem r, w)" by (simp add: io_raise_def)
lemma io_check_simps [io_simps]: "io_check b r w = (if b then Done () else Problem r, w)"
  by (simp add: io_check_def io_return_def io_raise_def)
lemma io_conn_simps [io_simps]: "io_conn f w = (Done (f (rw_conn w)), w)" by (simp add: io_conn_def)
lemma io_update_simps [io_simps]: "io_update f w = (Done (), w\<lparr>rw_conn := f (rw_conn w)\<rparr>)" by (simp add: io_update_def)
lemma io_outcome_simps [io_simps]:
  "io_outcome x w = (case x of Inl r \<Rightarrow> (Problem r, w) | Inr y \<Rightarrow> (Done y, w))"
  by (simp add: io_outcome_def io_return_def io_raise_def split: sum.split)
lemma io_reply_simps [io_simps]:
  "io_reply f w = (reply_result (fst (f (rw_env w))), w\<lparr>rw_env := snd (f (rw_env w))\<rparr>)"
  by (simp add: io_reply_def case_prod_unfold Let_def)

lemma reply_result_Done [simp]: "reply_result r = Done x \<longleftrightarrow> r = Returned x"
  by (cases r) (simp_all add: reply_result_def)

lemma io_then_Done: "io_then f g w = (Done y, w2) \<longleftrightarrow> (\<exists>x w1. f w = (Done x, w1) \<and> g x w1 = (Done y, w2))"
  by (auto simp: io_then_def split: prod.splits result.splits)

lemma io_then_step [simp]: "f w = (Done x, w1) \<Longrightarrow> io_then f g w = g x w1"
  by (simp add: io_then_def)

text \<open>The body of the event loop, and what it does to the machine.\<close>

definition event_step :: "run_setup \<Rightarrow> json_record \<Rightarrow> bool \<Rightarrow> run_events \<Rightarrow> ('s rpc_state, bool \<times> run_events) io" where
  "event_step st record acked e =
     (if text_is (member_of record ''type'') ''response'' then
        io_then (io_outcome (prompt_acknowledged record acked)) (\<lambda>_.
        io_then (io_update (\<lambda>c. c\<lparr>cn_awaiting := None\<rparr>)) (\<lambda>_. io_return (True, e)))
      else io_then (io_outcome (accept_event st record e)) (\<lambda>e'. io_return (acked, e')))"

definition shut_step :: "'s rpc_client \<Rightarrow> bool \<Rightarrow> run_events \<Rightarrow> ('s rpc_state, unit) io" where
  "shut_step cl shut e =
     (if events_settled e \<and> \<not> shut then
        io_then (io_update (\<lambda>c. c\<lparr>cn_settled := True\<rparr>)) (\<lambda>_. io_reply (op_close (cl_ops cl)))
      else io_return ())"

lemma run_events_loop_step:
  "run_events_loop cl n m st acked shut e w =
     (if acked \<and> events_settled e then (Done e, w)
      else (case m of
        0 \<Rightarrow> (Stuck, w)
      | Suc k \<Rightarrow>
          io_then (io_conn cn_total_deadline) (\<lambda>deadline.
          io_then (read_record cl n deadline) (\<lambda>record.
          io_then (event_step st record acked e) (\<lambda>(acked', e').
          io_then (shut_step cl shut e') (\<lambda>_.
            run_events_loop cl n k st acked' (shut \<or> events_settled e') e')))) w))"
  by (subst run_events_loop.simps) (simp add: event_step_def shut_step_def io_return_def io_stuck_def split: nat.split)

section \<open>Relations every step respects\<close>

definition moves :: "('w \<Rightarrow> 'w \<Rightarrow> bool) \<Rightarrow> ('w, 'a) io \<Rightarrow> bool" where
  "moves R f \<longleftrightarrow> (\<forall>w. R w (snd (f w)))"

lemma movesD: "moves R f \<Longrightarrow> f w = (r, w') \<Longrightarrow> R w w'"
  by (metis moves_def snd_conv)

lemma moves_if: "moves R f \<Longrightarrow> moves R g \<Longrightarrow> moves R (if b then f else g)"
  by simp

text \<open>An assignment that keeps the deadline and the byte count, and adds no record.\<close>

definition plain :: "connection \<Rightarrow> connection \<Rightarrow> bool" where
  "plain c c' \<longleftrightarrow>
     cn_total_deadline c' = cn_total_deadline c \<and> cn_stdout_bytes c' = cn_stdout_bytes c \<and>
     length (cn_records c') \<le> length (cn_records c)"

locale client_moves =
  fixes cl :: "'s rpc_client" and R :: "'s rpc_state \<Rightarrow> 's rpc_state \<Rightarrow> bool"
  assumes same: "R w w"
    and trans: "R w w1 \<Longrightarrow> R w1 w2 \<Longrightarrow> R w w2"
    and assign: "plain (rw_conn w) c \<Longrightarrow> R w (w\<lparr>rw_conn := c\<rparr>)"
    and received: "R w (snd (receive cl e w))"
    and clock: "R w (w\<lparr>rw_env := snd (op_clock (cl_ops cl) (rw_env w))\<rparr>)"
    and cancelled: "R w (w\<lparr>rw_env := snd (op_cancelled (cl_ops cl) (rw_env w))\<rparr>)"
    and shut: "R w (w\<lparr>rw_env := snd (op_close (cl_ops cl) (rw_env w))\<rparr>)"
    and pumped: "R w (w\<lparr>rw_env := snd (op_pump (cl_ops cl) b t (rw_env w))\<rparr>)"
begin

lemma moves_then:
  assumes f: "moves R f" and g: "\<And>x. moves R (g x)"
  shows "moves R (io_then f g)"
  unfolding moves_def
proof
  fix w
  obtain r w1 where 1: "f w = (r, w1)" by (metis surj_pair)
  show "R w (snd (io_then f g w))"
  proof (cases r)
    case (Done x)
    obtain r2 w2 where 2: "g x w1 = (r2, w2)" by (metis surj_pair)
    from trans [OF movesD [OF f 1] movesD [OF g 2]] show ?thesis by (simp add: io_then_def 1 Done 2)
  qed (use movesD [OF f 1] in \<open>simp_all add: io_then_def 1\<close>)
qed

lemma moves_basic:
  "moves R (io_return x)" "moves R (io_raise r)" "moves R io_stuck" "moves R (io_check b r)"
  "moves R (io_conn f)" "moves R (io_outcome y)"
  by (simp_all add: moves_def io_simps io_stuck_def same split: sum.split)

lemma moves_update: "(\<And>c. plain c (h c)) \<Longrightarrow> moves R (io_update h)"
  by (simp add: moves_def io_simps assign)

lemma moves_ops:
  "moves R (io_reply (op_clock (cl_ops cl)))" "moves R (io_reply (op_cancelled (cl_ops cl)))"
  "moves R (io_reply (op_close (cl_ops cl)))" "moves R (io_reply (op_pump (cl_ops cl) b t))"
  by (simp_all add: moves_def io_simps clock cancelled shut pumped)

lemma moves_receive: "moves R (receive cl e)"
  by (simp add: moves_def received)

lemmas moves_intros = moves_then moves_if moves_basic moves_update moves_ops moves_receive

lemma moves_check_time: "moves R (check_time cl deadline closing)"
  unfolding check_time_def ask_cancelled_def Let_def by (intro moves_intros)

lemma moves_observe: "moves R (observe e)"
  unfolding observe_def by (intro moves_intros) (simp_all add: plain_def)

lemma moves_pumped:
  "moves R (io_then (io_check (event_ok b e) Transport_Error) (\<lambda>_.
     io_then (io_update (\<lambda>c. c\<lparr>cn_write_pending := sv_written e < int (length b)\<rparr>)) (\<lambda>_.
     io_then (check_time cl deadline closing) (\<lambda>_.
     io_then (receive cl e) (\<lambda>_. io_then (observe e) (\<lambda>_. io_return (nat (sv_written e))))))))"
  by (intro moves_intros moves_observe moves_check_time) (simp add: plain_def)

lemma moves_pump: "moves R (pump cl b deadline immediate closing)"
proof -
  have "moves R (case ev of None \<Rightarrow> io_raise Transport_Error
       | Some e \<Rightarrow>
           io_then (io_check (event_ok b e) Transport_Error) (\<lambda>_.
           io_then (io_update (\<lambda>c. c\<lparr>cn_write_pending := sv_written e < int (length b)\<rparr>)) (\<lambda>_.
           io_then (check_time cl deadline closing) (\<lambda>_.
           io_then (receive cl e) (\<lambda>_. io_then (observe e) (\<lambda>_. io_return (nat (sv_written e))))))))" for ev
    by (cases ev) (simp_all only: option.case moves_basic moves_pumped)
  note rest = this
  show ?thesis unfolding pump_def by (intro moves_intros moves_check_time rest)
qed

lemma moves_send_rest: "moves R (send_rest cl n b deadline)"
proof (induction n arbitrary: b)
  case 0
  then show ?case by (cases b) (simp_all add: moves_basic)
next
  case (Suc n)
  then show ?case by (cases b) (auto intro!: moves_intros moves_pump simp: plain_def)
qed

lemma moves_send: "moves R (send_frame cl n b deadline)"
  unfolding send_frame_def by (intro moves_intros moves_send_rest)

lemma moves_await_record: "moves R (await_record cl n deadline)"
proof (induction n)
  case 0
  then show ?case unfolding moves_def by (subst await_record.simps) (simp add: io_return_def io_stuck_def same)
next
  case (Suc n)
  have "moves R (io_then (io_check b Eof) (\<lambda>_. io_then (pump cl [] deadline False False) (\<lambda>_. await_record cl n deadline)))"
    for b
    by (intro moves_intros moves_pump Suc)
  then show ?case unfolding moves_def by (subst await_record.simps) (simp add: io_return_def same)
qed

lemma moves_read: "moves R (read_record cl n deadline)"
  unfolding read_record_def pop_record_def
  by (intro moves_intros moves_await_record moves_check_time) (simp add: plain_def)

lemma drain_moves: "cn_records (rw_conn w) = rs \<Longrightarrow> R w (snd (drain rs w))"
proof (induction rs arbitrary: w)
  case Nil
  then show ?case by (simp add: io_simps same)
next
  case (Cons r rs)
  let ?w = "w\<lparr>rw_conn := (rw_conn w)\<lparr>cn_records := rs\<rparr>\<rparr>"
  have 1: "R w ?w" by (rule assign) (simp add: plain_def Cons.prems)
  have "R ?w (snd (drain rs ?w))" by (rule Cons.IH) simp
  from trans [OF 1 this] 1 show ?case by (auto simp: io_then_def io_simps split: sum.split)
qed

lemma moves_drain_first:
  assumes g: "moves R g"
  shows "moves R (io_then (io_conn id) (\<lambda>c. io_then (io_check (b c) r) (\<lambda>_. io_then (drain (cn_records c)) (\<lambda>_. g))))"
  unfolding moves_def
proof
  fix w :: "'s rpc_state"
  obtain x w1 where 1: "drain (cn_records (rw_conn w)) w = (x, w1)" by (metis surj_pair)
  obtain y w2 where 2: "g w1 = (y, w2)" by (metis surj_pair)
  have "R w w1" using drain_moves [OF refl, of w] 1 by simp
  with trans [OF this movesD [OF g 2]] same
  show "R w (snd (io_then (io_conn id) (\<lambda>c. io_then (io_check (b c) r) (\<lambda>_. io_then (drain (cn_records c)) (\<lambda>_. g))) w))"
    by (cases x) (simp_all add: io_then_def io_simps 1 2)
qed

lemma moves_before: "moves R (before_command cl n deadline)"
proof (induction n)
  case (Suc n)
  show ?case unfolding before_command.simps by (intro moves_drain_first moves_intros moves_pump Suc)
qed (simp add: moves_basic)

lemma moves_await_response: "moves R (await_response cl n m i name deadline)"
proof (induction m)
  case (Suc m)
  show ?case unfolding await_response.simps by (intro moves_intros moves_read Suc) (simp add: plain_def)
qed (simp add: moves_basic)

lemma moves_exchange: "moves R (exchange cl n name args deadline)"
  unfolding exchange_def
  by (intro moves_intros moves_before moves_send moves_await_response) (simp_all add: plain_def)

lemma moves_initialize: "moves R (initialize cl n d deadline)"
  unfolding initialize_def by (intro moves_intros moves_exchange) (simp_all add: plain_def)

lemma moves_event_step: "moves R (event_step st record acked e)"
  unfolding event_step_def by (intro moves_intros) (simp add: plain_def)

lemma moves_shut_step: "moves R (shut_step cl shut e)"
  unfolding shut_step_def by (intro moves_intros) (simp add: plain_def)

lemma moves_events_loop: "moves R (run_events_loop cl n m st acked shut e)"
proof (induction m arbitrary: acked shut e)
  case 0
  then show ?case unfolding moves_def by (subst run_events_loop_step) (simp add: same)
next
  case (Suc m)
  have "moves R (io_then (io_conn cn_total_deadline) (\<lambda>deadline.
          io_then (read_record cl n deadline) (\<lambda>record.
          io_then (event_step st record acked e) (\<lambda>(acked', e').
          io_then (shut_step cl shut e') (\<lambda>_.
            run_events_loop cl n m st acked' (shut \<or> events_settled e') e')))))"
    by (intro moves_intros moves_read moves_event_step) (auto intro!: moves_then moves_shut_step Suc)
  then show ?case unfolding moves_def by (subst run_events_loop_step) (simp add: same)
qed

lemma moves_await_end: "moves R (await_end cl n deadline)"
proof (induction n)
  case 0
  have "moves R (io_then (io_conn cn_records) (\<lambda>rs. io_then (io_check (rs = []) Event_Sequence) (\<lambda>_.
      io_then (io_conn ended) (\<lambda>done. if done then io_return () else io_stuck))))"
    by (intro moves_intros)
  then show ?case unfolding moves_def by (subst await_end.simps) (simp only: nat.case simp_thms)
next
  case (Suc n)
  have "moves R (io_then (io_conn cn_records) (\<lambda>rs. io_then (io_check (rs = []) Event_Sequence) (\<lambda>_.
      io_then (io_conn ended) (\<lambda>done. if done then io_return ()
        else io_then (pump cl [] deadline False True) (\<lambda>_. await_end cl n deadline)))))"
    by (intro moves_intros moves_pump Suc)
  then show ?case unfolding moves_def by (subst await_end.simps) (simp only: nat.case simp_thms)
qed

lemma moves_run_prompt: "moves R (run_prompt cl n d um cwd)"
proof -
  have "moves R (case ev_candidate e of None \<Rightarrow> io_raise Event_Sequence | Some c \<Rightarrow> io_return c)" for e
    by (cases "ev_candidate e") (simp_all add: moves_basic)
  note last = this
  show ?thesis
    unfolding run_prompt_def
    by (intro moves_intros moves_before moves_send moves_events_loop moves_await_end last) (simp add: plain_def)
qed

lemma moves_converse: "moves R (converse cl n d um cwd started)"
  unfolding converse_def Let_def
  by (intro moves_intros moves_pump moves_initialize moves_run_prompt moves_check_time)

lemma moves_await_cancelled: "moves R (await_cancelled cl n m i name outstanding deadline)"
proof (induction m arbitrary: outstanding)
  case (Suc m)
  show ?case by (cases outstanding) (auto intro!: moves_intros moves_read Suc)
qed (simp add: moves_basic)

lemma moves_cancel_command: "moves R (cancel_command cl n name outstanding deadline)"
  unfolding cancel_command_def
  by (intro moves_intros moves_send moves_await_cancelled) (simp add: plain_def)

lemma moves_clearing:
  assumes f: "moves R f"
  shows "moves R (io_clearing f)"
  unfolding moves_def
proof
  fix w
  obtain r w1 where 1: "f w = (r, w1)" by (metis surj_pair)
  have "R w1 (w1\<lparr>rw_conn := (rw_conn w1)\<lparr>cn_records := []\<rparr>\<rparr>)" by (rule assign) (simp add: plain_def)
  with trans [OF movesD [OF f 1]] show "R w (snd (io_clearing f w))" by (simp add: io_clearing_def 1)
qed

end

text \<open>A relation that does not look at the connection: the handshake of a cancelled call, which sets its
  own deadline, respects it too.\<close>

locale client_moves_all = client_moves +
  assumes any_assign: "R w (w\<lparr>rw_conn := c\<rparr>)"
begin

lemma moves_any_update: "moves R (io_update h)"
  by (simp add: moves_def io_simps any_assign)

lemma moves_cancel: "moves R (cancel cl n)"
  unfolding cancel_def Let_def
  by (intro moves_then moves_if moves_basic moves_any_update moves_ops moves_clearing moves_cancel_command)

end

end
