(* ===== verification/Rpc_Messages_Laws.thy ===== *)
theory Rpc_Messages_Laws
  imports Rpc_Messages
begin

text \<open>What a settled turn has shown: its events in their only legal order, and a candidate that is the
  text of the one final message, within its bounds.\<close>

fun accept_events :: "run_setup \<Rightarrow> json_record list \<Rightarrow> run_events \<Rightarrow> (rpc_reason, run_events) outcome" where
  "accept_events st [] e = Inr e"
| "accept_events st (r # rs) e = and_then (accept_event st r e) (accept_events st rs)"

lemma accept_events_append:
  "accept_events st (rs @ qs) e = and_then (accept_events st rs e) (accept_events st qs)"
proof (induction rs arbitrary: e)
  case (Cons r rs)
  then show ?case by (cases "accept_event st r e") simp_all
qed simp

section \<open>The order of events\<close>

definition event_list :: "string list" where
  "event_list = [''agent_start'', ''turn_start'', ''message_start'', ''message_end'', ''message_start'',
     ''message_end'', ''message_start'', ''message_end'', ''turn_end'', ''agent_end'', ''agent_settled'']"

fun position_no :: "position \<Rightarrow> nat" where
  "position_no At_Agent_Start = 0"
| "position_no At_Turn_Start = 1"
| "position_no At_System_Start = 2"
| "position_no At_System_End = 3"
| "position_no At_User_Start = 4"
| "position_no At_User_End = 5"
| "position_no At_Assistant_Start = 6"
| "position_no At_Assistant_End = 7"
| "position_no At_Turn_End = 8"
| "position_no At_Agent_End = 9"
| "position_no At_Agent_Settled = 10"
| "position_no At_Complete = 11"

lemma event_of_list: "event_of p = (if position_no p < 11 then Some (event_list ! position_no p) else None)"
  by (cases p) (simp_all add: event_list_def)

lemma next_position_no: "position_no p < 11 \<Longrightarrow> position_no (next_position p) = Suc (position_no p)"
  by (cases p) simp_all

lemma position_no_bound: "position_no p \<le> 11"
  by (cases p) simp_all

definition kind_of :: "json_record \<Rightarrow> json option" where
  "kind_of r = member_of r ''type''"

definition kind :: "string \<Rightarrow> json option" where
  "kind name = Some (JStr (ascii name))"

lemma text_is_kind: "text_is v s \<longleftrightarrow> v = kind s"
  by (simp add: text_is_def kind_def)

text \<open>The kinds of the events accepted up to a position: the list of events so far, with updates only
  where the assistant message is open.\<close>

definition kinds_up_to :: "position \<Rightarrow> nat \<Rightarrow> json option list" where
  "kinds_up_to p n =
     (let i = position_no p; ks = map kind event_list in
      take (min 7 i) ks @ replicate n (kind ''message_update'') @ drop 7 (take i ks))"

lemma check_event_position: "check_event st r e = Inr e' \<Longrightarrow> ev_position e' = ev_position e"
  by (auto simp: check_event_def system_message_def user_event_def assistant_message_def result_simps
      split: position.splits if_splits)

lemma accept_event_cases:
  assumes "accept_event st r e = Inr e'"
  obtains (update) "kind_of r = kind ''message_update''" "ev_position e = At_Assistant_End" "e' = e"
  | (event) e1 where "position_no (ev_position e) < 11" "kind_of r = kind (event_list ! position_no (ev_position e))"
      "check_event st r e = Inr e1" "e' = e1\<lparr>ev_position := next_position (ev_position e)\<rparr>"
  using assms
  by (auto simp: accept_event_def Let_def kind_of_def text_is_kind event_of_list result_simps split: if_splits)

lemma accepted_kinds:
  assumes "accept_events st rs new_events = Inr e"
  shows "\<exists>n. (position_no (ev_position e) < 7 \<longrightarrow> n = 0) \<and> map kind_of rs = kinds_up_to (ev_position e) n"
  using assms
proof (induction rs arbitrary: e rule: rev_induct)
  case Nil
  then show ?case by (auto simp: new_events_def kinds_up_to_def)
next
  case (snoc r rs)
  from snoc.prems obtain e0 where e0: "accept_events st rs new_events = Inr e0" "accept_event st r e0 = Inr e"
    by (auto simp: accept_events_append result_simps)
  from snoc.IH [OF e0(1)] obtain n where n: "position_no (ev_position e0) < 7 \<longrightarrow> n = 0"
    "map kind_of rs = kinds_up_to (ev_position e0) n" by blast
  from e0(2) show ?case
  proof (cases rule: accept_event_cases)
    case update
    then have "map kind_of (rs @ [r]) = kinds_up_to (ev_position e) (Suc n)"
      using n(2) by (simp add: kinds_up_to_def Let_def replicate_append_same)
    with update show ?thesis by (intro exI [of _ "Suc n"]) simp
  next
    case (event e1)
    let ?i = "position_no (ev_position e0)"
    have i: "position_no (ev_position e) = Suc ?i"
      using event(1,4) by (simp add: next_position_no)
    have l: "length event_list = 11" by (simp add: event_list_def)
    have t: "take (Suc ?i) (map kind event_list) = take ?i (map kind event_list) @ [kind (event_list ! ?i)]"
      using event(1) l by (simp add: take_Suc_conv_app_nth)
    show ?thesis
    proof (cases "?i < 7")
      case True
      with n have "map kind_of rs = take ?i (map kind event_list)"
        by (simp add: kinds_up_to_def Let_def min_def)
      then have "map kind_of (rs @ [r]) = take (Suc ?i) (map kind event_list)"
        unfolding t using event(2) by simp
      with True show ?thesis
        using l by (intro exI [of _ 0]) (auto simp: kinds_up_to_def Let_def i min_def not_le intro!: arg_cong2 [where f = take])
    next
      case False
      then have "drop 7 (take (Suc ?i) (map kind event_list)) =
          drop 7 (take ?i (map kind event_list)) @ [kind (event_list ! ?i)]"
        unfolding t using event(1) l by simp
      with False n(2) event(2) show ?thesis
        by (intro exI [of _ n]) (simp add: kinds_up_to_def Let_def i min_def)
    qed
  qed
qed

lemma settled_kinds:
  assumes "accept_events st rs new_events = Inr e" "events_settled e"
  shows "\<exists>n. map kind_of rs = map kind (take 7 event_list) @ replicate n (kind ''message_update'') @
    map kind (drop 7 event_list)"
proof -
  obtain n where "map kind_of rs = kinds_up_to (ev_position e) n" using accepted_kinds [OF assms(1)] by blast
  moreover have "ev_position e = At_Complete" using assms(2) by (simp add: events_settled_def)
  ultimately show ?thesis
    by (intro exI [of _ n]) (simp add: kinds_up_to_def Let_def take_map drop_map event_list_def)
qed

section \<open>The candidate\<close>

text \<open>The message and the candidate it gives.\<close>

definition candidate_from :: "run_setup \<Rightarrow> json_record \<Rightarrow> rpc_candidate \<Rightarrow> bool" where
  "candidate_from st m c \<longleftrightarrow>
     text_is (member_of m ''role'') ''assistant'' \<and> text_is (member_of m ''stopReason'') ''stop'' \<and>
     (\<exists>texts tokens raw. assistant_texts st m = Inr texts \<and> texts \<noteq> [] \<and> message_usage m = Inr tokens \<and>
        utf8_encode (concat texts) = Some raw \<and> length raw \<le> max_candidate_bytes \<and> c = candidate_of m raw tokens)"

definition system_from :: "run_setup \<Rightarrow> json_record \<Rightarrow> bool" where
  "system_from st m \<longleftrightarrow> text_is (member_of m ''role'') ''system'' \<and> system_sections_ok st m"

definition user_from :: "run_setup \<Rightarrow> json_record \<Rightarrow> bool" where
  "user_from st m \<longleftrightarrow> text_is (member_of m ''role'') ''user'' \<and> user_content_ok st m"

definition events_ok :: "run_setup \<Rightarrow> run_events \<Rightarrow> bool" where
  "events_ok st e \<longleftrightarrow>
     (if position_no (ev_position e) \<le> 2 then ev_system e = None
      else \<exists>m. ev_system e = Some m \<and> system_from st m) \<and>
     (if position_no (ev_position e) \<le> 4 then ev_user e = None else \<exists>m. ev_user e = Some m \<and> user_from st m) \<and>
     (if position_no (ev_position e) \<le> 7 then ev_final e = None \<and> ev_candidate e = None
      else \<exists>m c. ev_final e = Some m \<and> ev_candidate e = Some c \<and> candidate_from st m c)"

lemma events_ok_new: "events_ok st new_events"
  by (simp add: events_ok_def new_events_def)

lemma keep_copyD: "keep_copy m c = Inr c' \<Longrightarrow> c' = (case c of None \<Rightarrow> Some m | Some x \<Rightarrow> Some x)"
  by (auto simp: keep_copy_def split: option.splits if_splits)

lemma message_forD: "message_for r role = Inr m \<Longrightarrow> text_is (member_of m ''role'') role \<and> member_of r ''message'' = Some (JObj m)"
  by (auto simp: message_for_def result_simps split: option.splits json.splits)

lemma system_messageD:
  assumes "system_message st r e = Inr e'"
  obtains m where "system_from st m" "e' = e\<lparr>ev_system := (case ev_system e of None \<Rightarrow> Some m | Some x \<Rightarrow> Some x)\<rparr>"
  using assms
  by (auto simp: system_message_def result_simps system_from_def dest!: message_forD keep_copyD)

lemma user_eventD:
  assumes "user_event st r e = Inr e'"
  obtains m where "user_from st m" "e' = e\<lparr>ev_user := (case ev_user e of None \<Rightarrow> Some m | Some x \<Rightarrow> Some x)\<rparr>"
  using assms
  by (auto simp: user_event_def result_simps user_from_def dest!: message_forD keep_copyD)

lemma assistant_messageD:
  assumes "assistant_message st r e = Inr e'"
  shows "if ev_position e = At_Assistant_Start then e' = e
    else \<exists>m c. candidate_from st m c \<and> e' = e\<lparr>ev_final := Some m, ev_candidate := Some c\<rparr>"
proof (cases "ev_position e = At_Assistant_Start")
  case False
  from assms False obtain m texts tokens raw where
    "message_for r ''assistant'' = Inr m" "assistant_texts st m = Inr texts" "message_usage m = Inr tokens"
    "text_is (member_of m ''stopReason'') ''stop''" "texts \<noteq> []" "utf8_encode (concat texts) = Some raw"
    "length raw \<le> max_candidate_bytes"
    "e' = e\<lparr>ev_final := Some m, ev_candidate := Some (candidate_of m raw tokens)\<rparr>"
    by (auto simp: assistant_message_def result_simps or_raise_def split: option.splits)
  then have "candidate_from st m (candidate_of m raw tokens)"
    unfolding candidate_from_def using message_forD by blast
  with False \<open>e' = _\<close> show ?thesis by auto
qed (use assms in \<open>auto simp: assistant_message_def result_simps\<close>)

lemma events_ok_step:
  assumes "events_ok st e" "accept_event st r e = Inr e'"
  shows "events_ok st e'"
  using assms(2)
proof (cases rule: accept_event_cases)
  case update
  with assms(1) show ?thesis by simp
next
  case (event e1)
  note A = assms(1) [unfolded events_ok_def]
  show ?thesis
  proof (cases "ev_position e")
    case At_System_Start
    with event(3) have "system_message st r e = Inr e1" by (simp add: check_event_def)
    then show ?thesis by (rule system_messageD) (use A event(4) At_System_Start in \<open>auto simp: events_ok_def\<close>)
  next
    case At_System_End
    with event(3) have "system_message st r e = Inr e1" by (simp add: check_event_def)
    then show ?thesis by (rule system_messageD) (use A event(4) At_System_End in \<open>auto simp: events_ok_def\<close>)
  next
    case At_User_Start
    with event(3) have "user_event st r e = Inr e1" by (simp add: check_event_def)
    then show ?thesis by (rule user_eventD) (use A event(4) At_User_Start in \<open>auto simp: events_ok_def\<close>)
  next
    case At_User_End
    with event(3) have "user_event st r e = Inr e1" by (simp add: check_event_def)
    then show ?thesis by (rule user_eventD) (use A event(4) At_User_End in \<open>auto simp: events_ok_def\<close>)
  next
    case At_Assistant_Start
    with event(3) have "assistant_message st r e = Inr e1" by (simp add: check_event_def)
    from assistant_messageD [OF this] show ?thesis using A event(4) At_Assistant_Start by (auto simp: events_ok_def)
  next
    case At_Assistant_End
    with event(3) have "assistant_message st r e = Inr e1" by (simp add: check_event_def)
    from assistant_messageD [OF this] show ?thesis using A event(4) At_Assistant_End by (auto simp: events_ok_def)
  qed (use A event in \<open>auto simp: events_ok_def check_event_def result_simps\<close>)
qed

lemma accept_events_ok: "accept_events st rs e = Inr e' \<Longrightarrow> events_ok st e \<Longrightarrow> events_ok st e'"
  by (induction rs arbitrary: e) (auto simp: result_simps intro: events_ok_step)

lemma settled_ok:
  assumes "events_ok st e" "events_settled e"
  obtains s u m c where "ev_system e = Some s" "system_from st s" "ev_user e = Some u" "user_from st u"
    "ev_final e = Some m" "ev_candidate e = Some c" "candidate_from st m c"
  using assms by (auto simp: events_ok_def events_settled_def)

text \<open>What a candidate is: text that decodes, within its limit, with both token counts or neither.\<close>

definition candidate_typed :: "rpc_candidate \<Rightarrow> bool" where
  "candidate_typed c \<longleftrightarrow>
     length (rp_raw_response c) \<le> max_candidate_bytes \<and> rp_provider c \<noteq> [] \<and> rp_model c \<noteq> [] \<and>
     (rp_input_tokens c = None \<and> rp_output_tokens c = None \<or>
      (\<exists>i j. rp_input_tokens c = Some i \<and> rp_output_tokens c = Some j \<and> 0 \<le> i \<and> 0 \<le> j \<and> 0 < i + j))"

lemma natural_int: "natural v \<Longrightarrow> 0 \<le> int_value v"
  by (auto simp: natural_def int_value_def split: option.splits json.splits)

lemma message_usage_tokens:
  assumes "message_usage m = Inr (a, b)"
  shows "a = None \<and> b = None \<or> (\<exists>i j. a = Some i \<and> b = Some j \<and> 0 \<le> i \<and> 0 \<le> j \<and> 0 < i + j)"
proof -
  from assms obtain usage where u: "member_of m ''usage'' = Some (JObj usage)"
    by (auto simp: message_usage_def split: option.splits json.splits)
  let ?c = "\<lambda>name. int_value (member_of usage name)"
  have n: "\<forall>name \<in> set usage_counts. natural (member_of usage name)" and
    t: "(a, b) = (if ?c ''input'' + ?c ''output'' + ?c ''cacheRead'' + ?c ''cacheWrite'' = 0 then (None, None)
        else (Some (?c ''input'' + ?c ''cacheRead'' + ?c ''cacheWrite''), Some (?c ''output'')))"
    using assms by (auto simp: message_usage_def u Let_def result_simps split: option.splits json.splits)
  from n have "0 \<le> ?c ''input''" "0 \<le> ?c ''output''" "0 \<le> ?c ''cacheRead''" "0 \<le> ?c ''cacheWrite''"
    by (auto simp: usage_counts_def dest: natural_int)
  with t show ?thesis by (auto split: if_splits)
qed

lemma full_text_value: "full_text v \<Longrightarrow> text_value v \<noteq> []"
  by (auto simp: full_text_def text_value_def split: option.splits json.splits)

lemma candidate_from_typed:
  assumes "candidate_from st m c"
  shows "candidate_typed c"
proof -
  from assms obtain texts tokens raw where c: "assistant_texts st m = Inr texts" "message_usage m = Inr tokens"
    "length raw \<le> max_candidate_bytes" "c = candidate_of m raw tokens" by (auto simp: candidate_from_def)
  from c(1) have f: "full_text (member_of m ''provider'')" "full_text (member_of m ''model'')"
    "present m ''responseModel'' \<longrightarrow> full_text (member_of m ''responseModel'')"
    by (auto simp: assistant_texts_def result_simps)
  from message_usage_tokens [of m "fst tokens" "snd tokens"] c(2) show ?thesis
    using c(3) f full_text_value by (auto simp: c(4) candidate_typed_def candidate_of_def)
qed

end
