(* ===== verification/Rpc_Frames_Laws.thy ===== *)
theory Rpc_Frames_Laws
  imports Rpc_Frames
begin

text \<open>The decoder does not depend on how the stream is cut into chunks, its tail is bounded, its reader
  is \<open>json.loads\<close> with both hooks, and it reads back the frames the client writes.\<close>

section \<open>Chunks\<close>

lemma and_then_return [simp]: "and_then r Inr = r"
  by (cases r) simp_all

lemma split_lf_nonempty [simp]: "split_lf bs \<noteq> []"
  by (induction bs) (auto split: list.splits)

lemma split_lf_append:
  "split_lf (a @ b) =
     (case split_lf b of p # ps \<Rightarrow> butlast (split_lf a) @ (last (split_lf a) @ p) # ps | [] \<Rightarrow> [])"
proof (induction a)
  case Nil
  then show ?case by (simp split: list.split)
next
  case (Cons x a)
  obtain q qs where q: "split_lf a = q # qs" by (cases "split_lf a") simp_all
  obtain p ps where p: "split_lf b = p # ps" by (cases "split_lf b") simp_all
  from Cons q p show ?case by (cases qs) auto
qed

lemma split_lf_concat: "\<forall>p \<in> set (split_lf bs). 10 \<notin> set p"
  by (induction bs) (auto split: list.splits)

lemma feed_rest_append:
  "feed_rest fl t (ps @ qs) =
     and_then (feed_rest fl t ps) (\<lambda>(rs, t'). and_then (feed_rest fl t' qs) (\<lambda>(rs', t''). Inr (rs @ rs', t'')))"
proof (induction ps arbitrary: t)
  case Nil
  then show ?case by (cases "feed_rest fl t qs") auto
next
  case (Cons p ps)
  have *: "and_then (and_then r (\<lambda>(rs, t'). Inr (x # rs, t')))
      (\<lambda>(rs, t'). and_then (f t') (\<lambda>(rs', t''). Inr (rs @ rs', t''))) =
    and_then (and_then r (\<lambda>(rs, t'). and_then (f t') (\<lambda>(rs', t''). Inr (rs @ rs', t''))))
      (\<lambda>(rs, t'). Inr (x # rs, t'))"
    for r :: "(rpc_reason, json_record list \<times> bytes) outcome" and x f
  proof (cases r)
    case (Inr y)
    then show ?thesis by (cases "f (snd y)") (auto simp: case_prod_unfold)
  qed simp
  show ?case
    by (cases "frame_record fl t"; cases "extend_tail [] p") (simp_all add: Cons *)
qed

lemma extend_extend:
  "extend_tail t (p @ q) = and_then (extend_tail t p) (\<lambda>t'. extend_tail t' q)"
  by (auto simp: extend_tail_def)

lemma feed_rest_join:
  "feed_rest fl t (ps @ [p @ q]) =
     and_then (feed_rest fl t (ps @ [p])) (\<lambda>(rs, t'). and_then (extend_tail t' q) (\<lambda>t''. Inr (rs, t'')))"
proof (induction ps arbitrary: t)
  case Nil
  then show ?case
    by (cases "frame_record fl t"; cases "extend_tail [] p"; cases "extend_tail [] (p @ q)")
      (auto simp: extend_extend)
next
  case (Cons a ps)
  show ?case
  proof (cases "frame_record fl t")
    case (Inr r)
    show ?thesis
    proof (cases "extend_tail [] a")
      case t: (Inr t')
      show ?thesis
        by (cases "feed_rest fl t' (ps @ [p])")
          (auto simp: Inr t Cons and_then_assoc case_prod_unfold)
    qed (simp add: Inr)
  qed simp
qed

lemma feed_append:
  "feed fl t (a @ b) =
     and_then (feed fl t a) (\<lambda>(rs, t'). and_then (feed fl t' b) (\<lambda>(rs', t''). Inr (rs @ rs', t'')))"
proof -
  obtain p ps where p: "split_lf a = p # ps" by (cases "split_lf a") simp_all
  obtain q qs where q: "split_lf b = q # qs" by (cases "split_lf b") simp_all
  show ?thesis
  proof (cases ps rule: rev_cases)
    case Nil
    have "feed fl t (a @ b) = and_then (extend_tail t (p @ q)) (\<lambda>t'. feed_rest fl t' qs)"
      by (simp add: feed_def split_lf_append q p Nil)
    also have "\<dots> = and_then (extend_tail t p) (\<lambda>t'. and_then (extend_tail t' q) (\<lambda>t''. feed_rest fl t'' qs))"
      by (simp add: extend_extend and_then_assoc)
    finally show ?thesis
      by (cases "extend_tail t p") (simp_all add: feed_def [of _ t a] feed_def [of _ _ b] p q Nil and_then_assoc)
  next
    case (snoc as x)
    have 1: "feed fl t (a @ b) = and_then (extend_tail t p) (\<lambda>t'. feed_rest fl t' ((as @ [x @ q]) @ qs))"
      by (simp add: feed_def split_lf_append q p snoc)
    have 2: "feed fl t a = and_then (extend_tail t p) (\<lambda>t'. feed_rest fl t' (as @ [x]))"
      by (simp add: feed_def p snoc)
    show ?thesis
    proof (cases "extend_tail t p")
      case t: (Inr t')
      show ?thesis
      proof (cases "feed_rest fl t' (as @ [x])")
        case r: (Inr y)
        obtain rs t2 where y: "y = (rs, t2)" by (cases y)
        have 3: "feed_rest fl t' ((as @ [x @ q]) @ qs) =
            and_then (and_then (extend_tail t2 q) (\<lambda>t''. Inr (rs, t'')))
              (\<lambda>(rs, t'). and_then (feed_rest fl t' qs) (\<lambda>(rs', t''). Inr (rs @ rs', t'')))"
          by (simp only: feed_rest_append [of fl t' "as @ [x @ q]" qs] feed_rest_join [of fl t' as x q] r y
              and_then_Inr prod.case)
        show ?thesis
          unfolding 1 2 t and_then_Inr 3 r y
          by (cases "extend_tail t2 q") (simp_all add: feed_def q)
      qed (simp add: 1 2 t feed_rest_append [of fl t' "as @ [x @ q]" qs] feed_rest_join [of fl t' as x q] del: append.append_Cons append_assoc)
    qed (simp add: 1 2)
  qed
qed

section \<open>Bounds\<close>

lemma extend_tail_bound: "extend_tail t p = Inr t' \<Longrightarrow> length t' \<le> max_frame_bytes"
  by (auto simp: extend_tail_def split: if_splits)

lemma feed_rest_bound:
  "feed_rest fl t ps = Inr (rs, t') \<Longrightarrow> length t \<le> max_frame_bytes \<Longrightarrow>
     length t' \<le> max_frame_bytes \<and> length rs = length ps"
  by (induction ps arbitrary: t rs) (auto simp: result_simps dest: extend_tail_bound)

lemma split_lf_length: "length (split_lf bs) \<le> Suc (length bs)"
  by (induction bs) (auto split: list.splits)

lemma feed_bound:
  assumes "feed fl t chunk = Inr (rs, t')"
  shows "length t' \<le> max_frame_bytes" "length rs \<le> length chunk"
proof -
  obtain p ps where p: "split_lf chunk = p # ps" by (cases "split_lf chunk") simp_all
  from assms obtain t2 where t2: "extend_tail t p = Inr t2" "feed_rest fl t2 ps = Inr (rs, t')"
    by (auto simp: feed_def p result_simps)
  from feed_rest_bound [OF t2(2) extend_tail_bound [OF t2(1)]]
  show "length t' \<le> max_frame_bytes" "length rs \<le> length chunk"
    using split_lf_length [of chunk] by (simp_all add: p)
qed

lemma feed_Nil [simp]: "length t \<le> max_frame_bytes \<Longrightarrow> feed fl t [] = Inr ([], t)"
  by (simp add: feed_def extend_tail_def)

section \<open>The reader\<close>

text \<open>No float of the value overflowed.\<close>

fun finite_json :: "json \<Rightarrow> bool" where
  "finite_json (JFloat r) \<longleftrightarrow> \<not> infinite_text r"
| "finite_json (JArr xs) \<longleftrightarrow> (\<forall>x \<in> set xs. finite_json x)"
| "finite_json (JObj kvs) \<longleftrightarrow> (\<forall>(k, v) \<in> set kvs. finite_json v)"
| "finite_json j \<longleftrightarrow> True"

definition frame_hooks :: "(pystr \<Rightarrow> pystr) \<Rightarrow> hooks" where
  "frame_hooks fl = \<lparr>hk_float = fl, hk_unique = True, hk_finite = True\<rparr>"

lemma or_invalid_Inr [simp]: "or_invalid x = Inr y \<longleftrightarrow> x = Some y"
  by (cases x) (simp_all add: or_invalid_def or_raise_def)

lemma scan_number_kind:
  "scan_number fl True s = Some (v, r) \<Longrightarrow> (\<exists>i. v = JInt i) \<or> (\<exists>x. v = JFloat x)"
  by (auto simp: scan_number_def unsigned_number_def Let_def split: option.splits list.splits if_splits prod.splits)

lemma frame_number_Inr:
  "frame_number fl s = Inr (v, r) \<longleftrightarrow> scan_number fl True s = Some (v, r) \<and> finite_json v"
proof (cases "find (\<lambda>(w, r). scan_word w s \<noteq> None) constants")
  case None
  show ?thesis
  proof (cases "scan_number fl True s")
    case num: (Some y)
    obtain v' r' where y: "y = (v', r')" by (cases y)
    from scan_number_kind [OF num [unfolded y]] show ?thesis
      using None num y by (auto simp: frame_number_def or_invalid_def or_raise_def split: if_splits)
  qed (use None in \<open>simp add: frame_number_def or_invalid_def or_raise_def\<close>)
next
  case (Some a)
  then show ?thesis by (auto simp: frame_number_def scan_number_def)
qed

lemma frame_pairs_Inr: "frame_pairs kvs = Inr v \<longleftrightarrow> make_object True kvs = Some v"
  by (auto simp: frame_pairs_def make_object_def)

lemma frame_scan_Inr:
  "frame_value fl n s = Inr (v, r) \<longleftrightarrow> scan_value (frame_hooks fl) n s = Some (v, r) \<and> finite_json v"
  "frame_elements fl n s = Inr (vs, r) \<longleftrightarrow>
     scan_elements (frame_hooks fl) n s = Some (vs, r) \<and> (\<forall>v \<in> set vs. finite_json v)"
  "frame_members fl n s = Inr (kvs, r) \<longleftrightarrow>
     scan_members (frame_hooks fl) n s = Some (kvs, r) \<and> (\<forall>(k, v) \<in> set kvs. finite_json v)"
proof (induction n arbitrary: s v r vs kvs)
  case 0
  { case 1 show ?case by simp next case 2 show ?case by simp next case 3 show ?case by simp }
next
  case (Suc n)
  {
    case 1
    show ?case
    proof (cases s)
      case (Cons c t)
      consider "c = 34" | "c = 123" | "c = 91" | "c \<noteq> 34" "c \<noteq> 123" "c \<noteq> 91" by blast
      then show ?thesis
      proof cases
        case 1
        then show ?thesis by (cases "scan_string t") (auto simp: Cons or_invalid_def or_raise_def)
      next
        case 2
        then show ?thesis
          using Suc.IH(3)
          by (cases "expect 125 (skip_ws t)")
            (auto simp: Cons result_simps frame_pairs_Inr make_object_def frame_hooks_def split: option.splits if_splits)
      next
        case 3
        then show ?thesis
          using Suc.IH(2)
          by (cases "expect 93 (skip_ws t)") (auto simp: Cons result_simps split: option.splits)
      next
        case 4
        then show ?thesis
          by (auto simp: Cons frame_number_Inr frame_hooks_def split: option.splits)
      qed
    qed simp
  next
    case 2
    show ?case
      using Suc.IH(1,2)
      by (auto simp: result_simps cons_fst_def split: option.splits)
  next
    case 3
    show ?case
      using Suc.IH(1,3)
      by (auto simp: result_simps cons_fst_def split: option.splits)
  }
qed

lemma frame_loads_Inr:
  "frame_loads fl s = Inr v \<longleftrightarrow> loads (frame_hooks fl) s = Some v \<and> finite_json v"
  by (auto simp: frame_loads_def loads_def result_simps frame_scan_Inr simp del: frame_value.simps scan_value.simps
      split: option.splits if_splits)

section \<open>Frames read back\<close>

lemma finite_plain: "plain_json j \<Longrightarrow> finite_json j"
  by (induction j) auto

lemma finite_sorted: "finite_json (sorted_members j) = finite_json j"
  by (induction j) auto

lemma frame_text_members: "frame_text kvs = 123 # commas (map print_member kvs) @ [125]"
  by (simp add: frame_text_def print_member_def [abs_def] case_prod_unfold)

lemma loads_frame_text:
  assumes "plain_json (JObj kvs)"
  shows "loads h (frame_text kvs) = Some (JObj (map (\<lambda>(k, v). (k, sorted_members v)) kvs))"
proof -
  let ?t = "frame_text kvs" and ?kvs = "map (\<lambda>(k, v). (k, sorted_members v)) kvs"
  have d: "distinct (map fst ?kvs)" using assms by (simp add: comp_def case_prod_unfold)
  have len: "length ?t \<le> 2 * length ?t" by simp
  have v: "scan_value h (Suc (2 * length ?t)) ?t = Some (JObj ?kvs, [])"
  proof (cases "kvs = []")
    case True
    have "scan_value h (Suc n) [123, 125] = Some (JObj [], [])" for n
      using make_object_distinct [of "[]"] by (simp add: skip_ws_Cons is_space_def)
    moreover have "?t = [123, 125]" using True by (simp add: frame_text_members)
    ultimately show ?thesis using True by (simp only: list.map)
  next
    case False
    have mem: "scan_members h (2 * length ?t) (commas (map print_member kvs) @ [125]) = Some (?kvs, [])"
    proof (rule scan_members_dumps [of kvs h _ "[]", OF _ False])
      show "scan_value h n (dumps v @ r) = Some (sorted_members v, r)"
        if "(k, v) \<in> set kvs" "stops r" "length (dumps v) \<le> n" for k v n r
        using assms that by (intro scan_value_dumps) auto
    qed (use assms in \<open>auto simp: frame_text_members\<close>)
    obtain y ys where "kvs = y # ys" using False by (cases kvs) auto
    then have "\<exists>t. commas (map print_member kvs) @ [125] = 34 # t"
      by (cases ys) (simp_all add: print_member_def print_string_def)
    then obtain t where t: "commas (map print_member kvs) @ [125] = 34 # t" by blast
    show ?thesis
      using mem make_object_distinct [OF d] unfolding frame_text_members t
      by (simp add: skip_ws_Cons is_space_def)
  qed
  have ws: "skip_ws ?t = ?t" "take 1 ?t \<noteq> [0xFEFF]"
    by (simp_all add: frame_text_members skip_ws_Cons is_space_def)
  show ?thesis
    unfolding loads_def ws(1) v using ws(2) by (simp add: skip_ws_def)
qed

text \<open>The members of a command are texts and Booleans, so no member is reordered.\<close>

definition flat_json :: "json \<Rightarrow> bool" where
  "flat_json j \<longleftrightarrow> (\<exists>b. j = JBool b) \<or> (\<exists>s. j = JStr s)"

lemma flat_plain: "flat_json j \<Longrightarrow> plain_json j \<and> sorted_members j = j"
  by (auto simp: flat_json_def)

lemma escape_no_lf: "10 \<notin> set (escape_char c)"
  by (auto simp: escape_char_def hex_digit_def)

lemma print_string_no_lf: "10 \<notin> set (print_string s)"
  using escape_no_lf by (auto simp: print_string_def)

lemma flat_no_lf: "flat_json j \<Longrightarrow> 10 \<notin> set (dumps j)"
  using print_string_no_lf by (auto simp: flat_json_def ascii_def split: if_splits)

lemma commas_no_lf: "\<forall>x \<in> set xs. 10 \<notin> set x \<Longrightarrow> 10 \<notin> set (commas xs)"
  by (cases xs) (auto simp: commas_def)

lemma frame_text_no_lf:
  assumes "\<forall>(k, v) \<in> set kvs. flat_json v"
  shows "10 \<notin> set (frame_text kvs)"
proof -
  have "10 \<notin> set (commas (map (\<lambda>(k, v). print_string k @ 58 # dumps v) kvs))"
    using assms print_string_no_lf flat_no_lf by (intro commas_no_lf) fastforce
  then show ?thesis by (simp add: frame_text_def)
qed

lemma encode_no_lf:
  assumes "10 \<notin> set s"
  shows "10 \<notin> set (concat (map encode_char s))"
  using assms by (induction s) (auto simp: encode_char_def split: if_splits)

lemma split_lf_line: "10 \<notin> set b \<Longrightarrow> split_lf (b @ [10]) = [b, []]"
  by (induction b) auto

lemma decode_encoded:
  assumes "utf8_encode s = Some b" "\<forall>c \<in> set s. c < 0x110000"
  shows "utf8_decode b = Some s"
proof -
  have "\<forall>c \<in> set s. scalar c" using assms by (auto simp: utf8_encode_def encodable_def scalar_def split: if_splits)
  from utf8_round_trip [OF this] assms(1) show ?thesis by simp
qed

lemma feed_command:
  assumes cmd: "command_frame i name args = Inr b" and flat: "\<forall>(k, v) \<in> set args. flat_json v"
    and keys: "distinct (map fst (command_record i name args))"
    and chars: "\<forall>c \<in> set (frame_text (command_record i name args)). c < 0x110000"
    and len: "length b \<le> max_frame_bytes"
  shows "feed fl [] b = Inr ([command_record i name args], [])"
proof -
  let ?kvs = "command_record i name args"
  have flat': "\<forall>(k, v) \<in> set ?kvs. flat_json v" using flat by (auto simp: command_record_def flat_json_def)
  obtain c where c: "utf8_encode (frame_text ?kvs) = Some c" "b = c @ [10]"
    using cmd by (auto simp: command_frame_def result_simps or_raise_def split: option.splits)
  have nolf: "10 \<notin> set c"
    using c(1) encode_no_lf [OF frame_text_no_lf [OF flat']] by (auto simp: utf8_encode_def split: if_splits)
  have dec: "utf8_decode c = Some (frame_text ?kvs)" using decode_encoded [OF c(1) chars] .
  have last: "frame_text ?kvs \<noteq> [] \<and> last (frame_text ?kvs) = 125" by (simp add: frame_text_members)
  have cr: "drop_cr c = c"
  proof -
    have "c = concat (map encode_char (frame_text ?kvs))" using c(1) by (auto simp: utf8_encode_def split: if_splits)
    also have "frame_text ?kvs = (123 # commas (map print_member ?kvs)) @ [125]" by (simp add: frame_text_members)
    finally have "last c = 125" by (simp add: encode_char_def)
    then show ?thesis by (simp add: drop_cr_def)
  qed
  have plain: "plain_json (JObj ?kvs)" using keys flat' flat_plain by fastforce
  have same: "map (\<lambda>(k, v). (k, sorted_members v)) ?kvs = ?kvs"
    using flat' flat_plain by (intro map_idI) auto
  have "frame_loads fl (frame_text ?kvs) = Inr (JObj ?kvs)"
    using loads_frame_text [OF plain, of "frame_hooks fl"] finite_plain [OF plain]
    by (simp add: frame_loads_Inr same)
  then have "frame_record fl c = Inr ?kvs" by (simp add: frame_record_def cr dec or_raise_def)
  moreover have "length c \<le> max_frame_bytes" using len c(2) by simp
  ultimately show ?thesis
    by (simp add: feed_def c(2) split_lf_line [OF nolf] extend_tail_def)
qed

end
