(* ===== verification/Rpc_Client_Laws.thy ===== *)
theory Rpc_Client_Laws
  imports Rpc_Moves Rpc_Messages_Laws Rpc_Frames_Laws
begin

text \<open>The log of a call: the sessions it created, the bytes they took, their terminations, and what the clock
  has raised since it last returned a time. A session that was created is asked to terminate before the call returns, whatever happened,
  unless the clock itself raises where the cleanup needs it.\<close>

section \<open>The log of a session\<close>

text \<open>The answers of the clock since it last returned a time: exceptions and interruptions.\<close>

definition note_clock :: "seconds reply list \<Rightarrow> seconds reply \<Rightarrow> seconds reply list" where
  "note_clock rs r = (case r of Returned _ \<Rightarrow> [] | _ \<Rightarrow> rs @ [r])"

record 's logged =
  lg_env :: 's
  lg_created :: nat
  lg_written :: bytes
  lg_terminated :: "seconds list"
  lg_raised :: "seconds reply list"

text \<open>The environment with a log: the sessions created, the bytes a session took, the terminations, what the
  clock raised.\<close>

definition logged_ops :: "'s session_ops \<Rightarrow> 's logged session_ops" where
  "logged_ops ops =
     \<lparr>op_create = (\<lambda>d s. let (r, e) = op_create ops d (lg_env s) in
        (r, s\<lparr>lg_env := e, lg_created := lg_created s + (if r = Returned () then 1 else 0)\<rparr>)),
      op_pump = (\<lambda>b t s. let (r, e) = op_pump ops b t (lg_env s) in
        (r, s\<lparr>lg_env := e, lg_written := lg_written s @
           (case r of Returned (Some ev) \<Rightarrow> if event_ok b ev then take (nat (sv_written ev)) b else [] | _ \<Rightarrow> [])\<rparr>)),
      op_close = (\<lambda>s. let (r, e) = op_close ops (lg_env s) in (r, s\<lparr>lg_env := e\<rparr>)),
      op_terminate = (\<lambda>t s. let (r, e) = op_terminate ops t (lg_env s) in
        (r, s\<lparr>lg_env := e, lg_terminated := lg_terminated s @ [t]\<rparr>)),
      op_clock = (\<lambda>s. let (r, e) = op_clock ops (lg_env s) in (r, s\<lparr>lg_env := e, lg_raised := note_clock (lg_raised s) r\<rparr>)),
      op_cancelled = (\<lambda>s. let (r, e) = op_cancelled ops (lg_env s) in (r, s\<lparr>lg_env := e\<rparr>))\<rparr>"

definition logged_client :: "'s rpc_client \<Rightarrow> 's logged rpc_client" where
  "logged_client cl = \<lparr>cl_ops = logged_ops (cl_ops cl), cl_float = cl_float cl, cl_limits = cl_limits cl\<rparr>"

definition fresh_log :: "'s \<Rightarrow> 's logged" where
  "fresh_log s = \<lparr>lg_env = s, lg_created = 0, lg_written = [], lg_terminated = [], lg_raised = []\<rparr>"

text \<open>Where the clock stops a cleanup: its last answer was an exception, or its last two were interruptions.\<close>

definition clock_raised :: "seconds reply list \<Rightarrow> bool" where
  "clock_raised cs \<longleftrightarrow> cs \<noteq> [] \<and> (last cs = Failing \<or> (\<exists>e. last cs = Refused e))"

definition clock_interrupted_twice :: "seconds reply list \<Rightarrow> bool" where
  "clock_interrupted_twice cs \<longleftrightarrow> (\<exists>as. cs = as @ [Interrupting, Interrupting])"

definition clock_stopped :: "seconds reply list \<Rightarrow> bool" where
  "clock_stopped cs \<longleftrightarrow> clock_raised cs \<or> clock_interrupted_twice cs"

lemma clock_stopped_iff:
  "clock_stopped cs \<longleftrightarrow>
     (\<exists>as. cs = as @ [Failing] \<or> (\<exists>e. cs = as @ [Refused e]) \<or> cs = as @ [Interrupting, Interrupting])"
  by (cases cs rule: rev_cases) (auto simp: clock_stopped_def clock_raised_def clock_interrupted_twice_def)

lemma clock_stopped_append: "clock_stopped cs \<Longrightarrow> clock_stopped (bs @ cs)"
  unfolding clock_stopped_def clock_raised_def clock_interrupted_twice_def by (auto simp: last_append)

lemma clock_stopped_noted:
  assumes "clock_stopped cs"
  shows "clock_stopped (foldl note_clock rs cs)"
proof -
  from assms consider as c where "cs = as @ [c]" "c = Failing \<or> (\<exists>e. c = Refused e)"
    | as where "cs = as @ [Interrupting, Interrupting]"
    unfolding clock_stopped_def clock_raised_def clock_interrupted_twice_def by (metis append_butlast_last_id)
  then show ?thesis
    by cases (auto simp: note_clock_def clock_stopped_def clock_raised_def clock_interrupted_twice_def)
qed

lemma clock_stopped_one [simp]:
  "clock_stopped [Failing]" "clock_stopped [Refused e]" "clock_stopped [Interrupting, Interrupting]"
  "clock_stopped [Interrupting, Failing]" "clock_stopped [Interrupting, Refused e]"
  by (auto simp: clock_stopped_def clock_raised_def clock_interrupted_twice_def)

text \<open>A stretch of a call that creates no session: its terminations, none with a negative timeout, and the
  answers of the clock.\<close>

definition logs :: "'s logged \<Rightarrow> seconds list \<Rightarrow> seconds reply list \<Rightarrow> 's logged \<Rightarrow> bool" where
  "logs s ts cs s' \<longleftrightarrow>
     lg_created s' = lg_created s \<and> lg_terminated s' = lg_terminated s @ ts \<and> lg_raised s' = foldl note_clock (lg_raised s) cs \<and>
     (\<forall>t \<in> set ts. 0 \<le> t)"

lemma logs_refl: "logs s [] [] s"
  by (simp add: logs_def)

lemma logs_trans: "logs s ts cs s1 \<Longrightarrow> logs s1 us ds s2 \<Longrightarrow> logs s (ts @ us) (cs @ ds) s2"
  by (auto simp: logs_def)

text \<open>No step of a conversation creates or terminates a session.\<close>

definition same_log :: "'s logged rpc_state \<Rightarrow> 's logged rpc_state \<Rightarrow> bool" where
  "same_log w w' \<longleftrightarrow> (\<exists>cs. logs (rw_env w) [] cs (rw_env w'))"

lemma same_log_refl: "same_log w w"
  unfolding same_log_def using logs_refl by blast

lemma same_log_trans: "same_log w w1 \<Longrightarrow> same_log w1 w2 \<Longrightarrow> same_log w w2"
  unfolding same_log_def using logs_trans by fastforce

lemma receive_env: "rw_env (snd (receive cl e w)) = rw_env w"
  by (auto simp: receive_def io_then_def io_simps split: sum.split)

lemma logged_steps:
  "\<exists>cs. logs s [] cs (snd (op_clock (logged_ops ops) s))" "\<exists>cs. logs s [] cs (snd (op_cancelled (logged_ops ops) s))"
  "\<exists>cs. logs s [] cs (snd (op_close (logged_ops ops) s))" "\<exists>cs. logs s [] cs (snd (op_pump (logged_ops ops) b t s))"
  by (auto simp: logs_def logged_ops_def case_prod_unfold Let_def
      intro: exI [of _ "[]"] exI [of _ "[fst (op_clock ops (lg_env s))]"])

lemma same_log_env: "\<exists>cs. logs (rw_env w) [] cs s \<Longrightarrow> same_log w (w\<lparr>rw_env := s\<rparr>)"
  by (simp add: same_log_def)

lemma same_log_conn: "same_log w (w\<lparr>rw_conn := c\<rparr>)"
  unfolding same_log_def using logs_refl by fastforce

lemma same_log_receive: "same_log w (snd (receive cl e w))"
  unfolding same_log_def receive_env using logs_refl by blast

interpretation log: client_moves_all "logged_client cl" same_log for cl
  by unfold_locales
    (simp_all add: same_log_refl same_log_conn same_log_receive same_log_env logged_client_def logged_steps,
      erule same_log_trans)

section \<open>The cleanup in the log\<close>

lemma clock_logs: "op_clock (cl_ops (logged_client cl)) s = (r, s') \<Longrightarrow> logs s [] [r] s'"
  by (auto simp: logs_def logged_client_def logged_ops_def case_prod_unfold Let_def)

lemma terminate_op_logs:
  "0 \<le> t \<Longrightarrow> op_terminate (cl_ops (logged_client cl)) t s = (r, s') \<Longrightarrow> logs s [t] [] s'"
  by (auto simp: logs_def logged_client_def logged_ops_def case_prod_unfold Let_def)

lemma close_op_logs: "op_close (cl_ops (logged_client cl)) s = (r, s') \<Longrightarrow> logs s [] [] s'"
  by (auto simp: logs_def logged_client_def logged_ops_def case_prod_unfold Let_def)

text \<open>One try to terminate: the clock raised, or the session was asked.\<close>

lemma terminate_by_logs:
  assumes "terminate_by (logged_client cl) dl s = (r, s')"
  obtains now t where "logs s [t] [Returned now] s'"
    | "r = Failing" "logs s [] [Failing] s'"
    | e where "r = Refused e" "logs s [] [Refused e] s'"
    | "r = Interrupting" "logs s [] [Interrupting] s'"
proof -
  obtain c s1 where c: "op_clock (cl_ops (logged_client cl)) s = (c, s1)" by (metis surj_pair)
  note L = clock_logs [OF c]
  show thesis
  proof (cases c)
    case (Returned now)
    with assms c have "op_terminate (cl_ops (logged_client cl)) (max 0 (dl - now)) s1 = (r, s')"
      by (simp add: terminate_by_def reply_then_def)
    from logs_trans [OF L terminate_op_logs [OF _ this]] Returned that(1) show thesis by simp
  qed (use assms c L that in \<open>auto simp: terminate_by_def reply_then_def\<close>)
qed

text \<open>Two tries: the session was asked to terminate, or the clock stopped them.\<close>

lemma terminate_twice:
  assumes "attempt_twice (terminate_by (logged_client cl) dl) s = (x, s')"
  shows "\<exists>ts cs. logs s ts cs s' \<and> (ts \<noteq> [] \<or> clock_stopped cs)"
proof -
  let ?f = "terminate_by (logged_client cl) dl"
  obtain r s1 where 1: "?f s = (r, s1)" by (metis surj_pair)
  obtain q s2 where 2: "?f s1 = (q, s2)" by (metis surj_pair)
  have s': "s' = (if r = Interrupting then s2 else s1)"
    using assms by (cases r; cases q) (auto simp: attempt_twice_def 1 2)
  obtain us ds where L2: "logs s1 us ds s2" "us \<noteq> [] \<or> clock_stopped (Interrupting # ds)"
    by (rule terminate_by_logs [OF 2]) (auto intro: that)
  show ?thesis
  proof (rule terminate_by_logs [OF 1])
    fix now t
    assume a: "logs s [t] [Returned now] s1"
    from logs_trans [OF this L2(1)] a show ?thesis unfolding s' by (metis append_Cons list.distinct(1))
  next
    assume "r = Failing" "logs s [] [Failing] s1"
    then show ?thesis unfolding s' by (intro exI [of _ "[]"] exI [of _ "[Failing]"]) simp
  next
    fix e
    assume "r = Refused e" "logs s [] [Refused e] s1"
    then show ?thesis unfolding s' by (intro exI [of _ "[]"] exI [of _ "[Refused e]"]) simp
  next
    assume "r = Interrupting" "logs s [] [Interrupting] s1"
    with logs_trans [OF this(2) L2(1)] L2(2) show ?thesis unfolding s' by auto
  qed
qed

lemma close_twice:
  assumes "attempt_twice (op_close (cl_ops (logged_client cl))) s = (x, s')"
  shows "logs s [] [] s'"
proof -
  let ?f = "op_close (cl_ops (logged_client cl))"
  obtain r s1 where 1: "?f s = (r, s1)" by (metis surj_pair)
  obtain q s2 where 2: "?f s1 = (q, s2)" by (metis surj_pair)
  have "s' = (if r = Interrupting then s2 else s1)"
    using assms by (cases r; cases q) (auto simp: attempt_twice_def 1 2)
  with close_op_logs [OF 1] logs_trans [OF close_op_logs [OF 1] close_op_logs [OF 2]] show ?thesis by simp
qed

lemma cleanup_logs:
  assumes "cleanup (logged_client cl) dl s = (r, s')"
  shows "\<exists>ts cs. logs s ts cs s' \<and> (ts \<noteq> [] \<or> clock_stopped cs)"
proof -
  obtain x s1 where 1: "attempt_twice (op_close (cl_ops (logged_client cl))) s = (x, s1)" by (metis surj_pair)
  obtain y s2 where 2: "attempt_twice (terminate_by (logged_client cl) dl) s1 = (y, s2)" by (metis surj_pair)
  have "s' = s2" using assms by (simp add: cleanup_def 1 2 case_prod_unfold Let_def)
  with terminate_twice [OF 2] logs_trans [OF close_twice [OF 1]] show ?thesis by fastforce
qed

text \<open>One round of the compensation: as the cleanup, or an interrupted clock before it has a deadline.\<close>

lemma cleanup_deadline_logs:
  assumes "cleanup_deadline (logged_client cl) dl s = (r, s')"
  shows "case r of Returned t \<Rightarrow> \<exists>cs. logs s [] cs s'
    | Interrupting \<Rightarrow> logs s [] [Interrupting] s'
    | _ \<Rightarrow> \<exists>cs. logs s [] cs s' \<and> clock_stopped cs"
proof (cases dl)
  case (Some t)
  with assms logs_refl show ?thesis by (fastforce simp: cleanup_deadline_def)
next
  case None
  obtain c s1 where c: "op_clock (cl_ops (logged_client cl)) s = (c, s1)" by (metis surj_pair)
  from clock_logs [OF c] assms None c show ?thesis
    by (cases c) (auto simp: cleanup_deadline_def reply_then_def intro!: exI [of _ "[c]"])
qed

lemma compensate_once_logs:
  assumes "compensate_once (logged_client cl) dl s = ((r, dl'), s')"
  shows "if r = Interrupting \<and> dl' = None then logs s [] [Interrupting] s'
    else \<exists>ts cs. logs s ts cs s' \<and> (ts \<noteq> [] \<or> clock_stopped cs)"
proof -
  obtain q s1 where q: "cleanup_deadline (logged_client cl) dl s = (q, s1)" by (metis surj_pair)
  show ?thesis
  proof (cases q)
    case (Returned t)
    obtain u s2 where u: "cleanup (logged_client cl) t s1 = (u, s2)" by (metis surj_pair)
    from assms q Returned u have out: "s' = s2" "dl' = Some t" by (simp_all add: compensate_once_def)
    obtain cs where "logs s [] cs s1" using cleanup_deadline_logs [OF q] Returned by auto
    moreover obtain ts ds where "logs s1 ts ds s2" "ts \<noteq> [] \<or> clock_stopped ds" using cleanup_logs [OF u] by blast
    ultimately show ?thesis using out logs_trans clock_stopped_append by fastforce
  qed (use cleanup_deadline_logs [OF q] assms q in \<open>auto simp: compensate_once_def\<close>)
qed

lemma compensate_once_Some: "compensate_once cl (Some t) s = ((r, dl'), s') \<Longrightarrow> dl' = Some t"
  by (auto simp: compensate_once_def cleanup_deadline_def case_prod_unfold Let_def)

section \<open>Every session is terminated\<close>

lemma compensate_logs:
  assumes "compensate (logged_client cl) dl s = (i, s')"
  shows "\<exists>ts cs. logs s ts cs s' \<and> (ts \<noteq> [] \<or> clock_stopped cs)"
proof -
  obtain r dl1 s1 where 1: "compensate_once (logged_client cl) dl s = ((r, dl1), s1)" by (metis surj_pair)
  obtain q dl2 s2 where 2: "compensate_once (logged_client cl) dl1 s1 = ((q, dl2), s2)" by (metis surj_pair)
  have s': "s' = (if r = Interrupting then s2 else s1)"
    using assms by (cases r) (auto simp: compensate_def 1 2)
  obtain ts cs where L1: "logs s ts cs s1" using compensate_once_logs [OF 1] by (auto split: if_splits)
  show ?thesis
  proof (cases "r = Interrupting")
    case r: True
    show ?thesis
    proof (cases "q = Interrupting \<and> dl2 = None")
      case True
      with compensate_once_Some 2 have "dl1 = None" by (metis option.distinct(1) option.exhaust)
      with compensate_once_logs [OF 1] r have "logs s [] [Interrupting] s1" by simp
      moreover have "logs s1 [] [Interrupting] s2" using compensate_once_logs [OF 2] True by simp
      ultimately have "logs s [] [Interrupting, Interrupting] s2" using logs_trans by fastforce
      with s' r show ?thesis by (intro exI [of _ "[]"] exI [of _ "[Interrupting, Interrupting]"]) simp
    next
      case False
      with compensate_once_logs [OF 2] obtain us ds where "logs s1 us ds s2" "us \<noteq> [] \<or> clock_stopped ds" by auto
      with logs_trans [OF L1 this(1)] s' r show ?thesis using clock_stopped_append by fastforce
    qed
  next
    case False
    with compensate_once_logs [OF 1] s' show ?thesis by auto
  qed
qed

text \<open>A cleanup that returned has asked the session to terminate.\<close>

lemma cleanup_returned_logs:
  assumes "cleanup (logged_client cl) dl s = (Returned u, s')"
  shows "\<exists>ts cs. logs s ts cs s' \<and> ts \<noteq> []"
proof -
  obtain x s1 where 1: "attempt_twice (op_close (cl_ops (logged_client cl))) s = (x, s1)" by (metis surj_pair)
  obtain i f s2 where 2: "attempt_twice (terminate_by (logged_client cl) dl) s1 = ((i, f), s2)" by (metis surj_pair)
  from assms 1 2 have out: "s' = s2" "\<not> i" "f = None \<or> f = Some (Returned u)"
    by (auto simp: cleanup_def case_prod_unfold Let_def split: if_splits option.splits)
  obtain r s3 where 3: "terminate_by (logged_client cl) dl s1 = (r, s3)" by (metis surj_pair)
  from 2 3 out(2,3) have "s2 = s3" "\<exists>v. r = Returned v"
    by (cases r; auto simp: attempt_twice_def split: prod.splits reply.splits)+
  with terminate_by_logs [OF 3] obtain ts cs where "logs s1 ts cs s2" "ts \<noteq> []" by blast
  with out(1) logs_trans [OF close_twice [OF 1]] show ?thesis by fastforce
qed

lemma conclude_logs:
  fixes w :: "'s logged rpc_state"
  assumes "conclude (logged_client cl) c w = ((r, ck), w')"
  shows "\<exists>ts cs. logs (rw_env w) ts cs (rw_env w') \<and> (ck_finished ck \<longrightarrow> ts \<noteq> [])"
proof -
  let ?cl = "logged_client cl"
  obtain q s where q: "cleanup_deadline ?cl None (rw_env w) = (q, s)" by (metis surj_pair)
  then obtain cs where L: "logs (rw_env w) [] cs s"
    using cleanup_deadline_logs [OF q] by (cases q) auto
  show ?thesis
  proof (cases q)
    case (Returned dl)
    obtain x s1 where x: "cleanup ?cl dl s = (x, s1)" by (metis surj_pair)
    show ?thesis
    proof (cases "\<exists>u. x = Returned u")
      case True
      then obtain ts ds where t: "logs s ts ds s1" "ts \<noteq> []" using cleanup_returned_logs x by blast
      let ?w = "w\<lparr>rw_env := s1\<rparr>"
      obtain y w2 where y: "io_then (check_time ?cl (cn_total_deadline (rw_conn ?w)) True) (\<lambda>_. io_return c) ?w = (y, w2)"
        by (metis surj_pair)
      have "w' = w2" using assms y True by (auto simp: conclude_def q Returned x Let_def)
      moreover have "same_log ?w w2" by (rule movesD [OF log.moves_then [OF log.moves_check_time log.moves_basic(1)] y])
      ultimately obtain es where "logs s1 [] es (rw_env w')" by (auto simp: same_log_def)
      with logs_trans [OF logs_trans [OF L t(1)] this] t(2) show ?thesis by fastforce
    next
      case False
      then have w': "rw_env w' = s1" "\<not> ck_finished ck"
        using assms by (cases x; auto simp: conclude_def q Returned x Let_def)+
      from cleanup_logs [OF x] obtain ts ds where "logs s ts ds s1" by blast
      with logs_trans [OF L this] w' show ?thesis by blast
    qed
  qed (use L assms q in \<open>auto simp: conclude_def intro!: exI [of _ "[]"] exI [of _ cs]\<close>)
qed

lemma handle_logs:
  fixes w :: "'s logged rpc_state"
  assumes "handle (logged_client cl) n r w = (x, w')"
  shows "\<exists>cs. logs (rw_env w) [] cs (rw_env w')"
proof -
  obtain y w2 where y: "cancel (logged_client cl) n w = (y, w2)" by (metis surj_pair)
  have "\<exists>cs. logs (rw_env w) [] cs (rw_env w2)" using movesD [OF log.moves_cancel y] by (simp add: same_log_def)
  with logs_refl [of "rw_env w"] show ?thesis
    using assms by (auto simp: handle_def y split: result.splits if_splits)
qed

lemma run_session_logs:
  assumes "run_session (logged_client cl) n d um cwd started s = (res, s')" "res \<noteq> Unfinished"
  shows "\<exists>ts cs. logs s ts cs s' \<and> (ts \<noteq> [] \<or> clock_stopped cs)"
proof -
  let ?cl = "logged_client cl"
  let ?w = "\<lparr>rw_env = s, rw_conn = new_connection (started + lm_total (cl_limits ?cl))\<rparr>"
  obtain r w1 where conv: "converse ?cl n d um cwd started ?w = (r, w1)" by (metis surj_pair)
  obtain bs where w1: "logs s [] bs (rw_env w1)"
    using movesD [OF log.moves_converse conv] by (auto simp: same_log_def)
  obtain r' ck w2 where con: "(case r of Done c \<Rightarrow> conclude ?cl c w1
      | _ \<Rightarrow> ((r, \<lparr>ck_deadline = None, ck_finished = False\<rparr>), w1)) = ((r', ck), w2)" by (metis surj_pair)
  have "\<exists>ts cs. logs (rw_env w1) ts cs (rw_env w2) \<and> (ck_finished ck \<longrightarrow> ts \<noteq> [])"
  proof (cases r)
    case (Done c)
    with con have "conclude ?cl c w1 = ((r', ck), w2)" by simp
    from conclude_logs [OF this] show ?thesis .
  qed (use con logs_refl [of "rw_env w1"] in auto)
  then obtain ts cs where w2: "logs (rw_env w1) ts cs (rw_env w2)" "ck_finished ck \<longrightarrow> ts \<noteq> []" by blast
  obtain res0 w3 where h: "handle ?cl n r' w2 = (res0, w3)" by (metis surj_pair)
  from handle_logs [OF h] obtain ds where "logs (rw_env w2) [] ds (rw_env w3)" by blast
  with logs_trans [OF logs_trans [OF w1 w2(1)] this] have w3: "logs s ts (bs @ cs @ ds) (rw_env w3)" by simp
  obtain i s4 where comp: "compensate ?cl (ck_deadline ck) (rw_env w3) = (i, s4)" by (metis surj_pair)
  have out: "(res, s') = (if res0 = Unfinished \<or> ck_finished ck then (res0, rw_env w3)
      else (if i then Interruption else res0, s4))"
    using assms(1) unfolding run_session_def Let_def conv prod.case con h comp by (auto split: if_splits)
  show ?thesis
  proof (cases "ck_finished ck")
    case True
    with out w2(2) w3 show ?thesis by auto
  next
    case False
    with out assms(2) have s4: "s' = s4" by (auto split: if_splits)
    from compensate_logs [OF comp] obtain us es where "logs (rw_env w3) us es s4" "us \<noteq> [] \<or> clock_stopped es" by blast
    with logs_trans [OF w3 this(1)] s4 show ?thesis using clock_stopped_append by fastforce
  qed
qed

lemma start_reading_logs:
  assumes "start_reading (logged_client cl) s = (r, s')"
  shows "\<exists>cs. logs s [] cs s'"
proof -
  obtain c s1 where c: "op_clock (cl_ops (logged_client cl)) s = (c, s1)" by (metis surj_pair)
  obtain x s2 where x: "op_cancelled (cl_ops (logged_client cl)) s1 = (x, s2)" by (metis surj_pair)
  have "logs s1 [] [] s2" using x by (auto simp: logs_def logged_client_def logged_ops_def case_prod_unfold Let_def)
  with clock_logs [OF c] logs_trans [OF clock_logs [OF c] this] assms show ?thesis
    by (cases c; cases x) (auto simp: start_reading_def reply_then_def c x)
qed

lemma run_call_terminates_session:
  assumes "run_call (logged_client cl) n d um cwd (fresh_log s) = (res, s')" "res \<noteq> Unfinished"
  shows "lg_created s' \<le> 1 \<and> (lg_created s' = 1 \<longrightarrow> lg_terminated s' \<noteq> [] \<or> clock_stopped (lg_raised s')) \<and>
    (\<forall>t \<in> set (lg_terminated s'). 0 \<le> t)"
proof -
  let ?cl = "logged_client cl" and ?s = "fresh_log s"
  let ?P = "\<lambda>s'. lg_created s' \<le> 1 \<and> (lg_created s' = 1 \<longrightarrow> lg_terminated s' \<noteq> [] \<or> clock_stopped (lg_raised s')) \<and>
    (\<forall>t \<in> set (lg_terminated s'). 0 \<le> t)"
  have fresh: "?P s'" if "logs ?s [] cs s'" for cs s' using that by (simp add: logs_def fresh_log_def)
  have 0: "?P ?s" by (rule fresh [of "[]"]) (simp add: logs_refl)
  obtain q s2 where q: "start_reading ?cl ?s = (q, s2)" by (metis surj_pair)
  obtain cs where s2: "logs ?s [] cs s2" using start_reading_logs [OF q] by blast
  show ?thesis
  proof (cases "description_ok d (cl_limits ?cl) \<and> (\<exists>frame. prompt_frame um = Inr frame) \<and> (\<exists>t. q = Returned (t, False))")
    case True
    then obtain frame started where 1: "description_ok d (cl_limits ?cl)" "prompt_frame um = Inr frame"
      "q = Returned (started, False)" by blast
    obtain r s3 where cr: "op_create (cl_ops ?cl) d s2 = (r, s3)" by (metis surj_pair)
    have s3: "lg_created s3 = (if r = Returned () then 1 else 0)" "lg_terminated s3 = []"
      using cr s2 by (auto simp: logs_def fresh_log_def logged_client_def logged_ops_def case_prod_unfold Let_def)
    show ?thesis
    proof (cases "r = Returned ()")
      case created: True
      with assms(1) 1 have "run_session ?cl n d um cwd started s3 = (res, s')" by (simp add: run_call_def q cr)
      from run_session_logs [OF this assms(2)] s3 created show ?thesis
        by (auto simp: logs_def intro: clock_stopped_noted)
    next
      case False
      with assms(1) 1 s3 show ?thesis by (cases r) (auto simp: run_call_def q cr)
    qed
  next
    case False
    with assms(1) have "s' = ?s \<or> s' = s2"
      by (auto simp: run_call_def q split: if_splits sum.splits reply.splits prod.splits)
    with 0 fresh [OF s2] show ?thesis by blast
  qed
qed

end
