(* ===== verification/Rpc_Termination.thy ===== *)
theory Rpc_Termination
  imports Rpc_Client_Laws
begin

text \<open>A call returns. Every pump of the session takes some time, so the pumps before the deadline are
  bounded; every record takes a byte of standard output, so the records are bounded too. The loops of
  the client pump or take a record in every round.\<close>

section \<open>The clock and the two potentials\<close>

text \<open>A clock that may raise, but does not go back, and gains at least \<open>\<delta>\<close> while the session is pumped.\<close>

definition ticking :: "'s session_ops \<Rightarrow> ('s \<Rightarrow> seconds) \<Rightarrow> seconds \<Rightarrow> bool" where
  "ticking ops now \<delta> \<longleftrightarrow>
     0 < \<delta> \<and>
     (\<forall>s. (\<forall>t. fst (op_clock ops s) = Returned t \<longrightarrow> t = now s) \<and> now s \<le> now (snd (op_clock ops s)) \<and>
        now s \<le> now (snd (op_cancelled ops s)) \<and> now s \<le> now (snd (op_close ops s)) \<and>
        (\<forall>d. now s \<le> now (snd (op_create ops d s))) \<and> (\<forall>t. now s \<le> now (snd (op_terminate ops t s))) \<and>
        (\<forall>b t. now s + \<delta> \<le> now (snd (op_pump ops b t s))))"

definition ticks :: "seconds \<Rightarrow> seconds \<Rightarrow> nat" where
  "ticks \<delta> t = nat \<lceil>t / \<delta>\<rceil>"

lemma ticks_mono: "0 < \<delta> \<Longrightarrow> t \<le> u \<Longrightarrow> ticks \<delta> t \<le> ticks \<delta> u"
  by (simp add: ticks_def ceiling_mono divide_right_mono nat_mono)

lemma ticks_less:
  assumes "0 < \<delta>" "0 < u" "t + \<delta> \<le> u"
  shows "ticks \<delta> t < ticks \<delta> u"
proof -
  have "(t + \<delta>) / \<delta> \<le> u / \<delta>" using assms by (intro divide_right_mono) simp_all
  then have "t / \<delta> + 1 \<le> u / \<delta>" using assms(1) by (simp add: add_divide_distrib)
  then have "\<lceil>t / \<delta>\<rceil> + 1 \<le> \<lceil>u / \<delta>\<rceil>" by (metis ceiling_mono ceiling_add_one)
  moreover have "0 < \<lceil>u / \<delta>\<rceil>" using assms by simp
  ultimately show ?thesis by (simp add: ticks_def)
qed

abbreviation time_left :: "('s \<Rightarrow> seconds) \<Rightarrow> seconds \<Rightarrow> 's rpc_state \<Rightarrow> nat" where
  "time_left now \<delta> w \<equiv> ticks \<delta> (cn_total_deadline (rw_conn w) - now (rw_env w))"

definition records_left :: "'s rpc_state \<Rightarrow> nat" where
  "records_left w = length (cn_records (rw_conn w)) + (max_stdout_bytes - cn_stdout_bytes (rw_conn w))"

text \<open>Every step keeps the deadline and raises neither potential.\<close>

definition falling :: "('s \<Rightarrow> seconds) \<Rightarrow> 's rpc_state \<Rightarrow> 's rpc_state \<Rightarrow> bool" where
  "falling now w w' \<longleftrightarrow>
     cn_total_deadline (rw_conn w') = cn_total_deadline (rw_conn w) \<and> now (rw_env w) \<le> now (rw_env w') \<and>
     records_left w' \<le> records_left w"

lemma falling_time: "falling now w w' \<Longrightarrow> 0 < \<delta> \<Longrightarrow> time_left now \<delta> w' \<le> time_left now \<delta> w"
  by (simp add: falling_def ticks_mono)

lemma falling_receive: "falling now w (snd (receive cl e w))"
proof -
  let ?c = "rw_conn w"
  let ?d = "?c\<lparr>cn_stdout_bytes := cn_stdout_bytes ?c + length (sv_stdout e),
    cn_stderr_bytes := cn_stderr_bytes ?c + sv_stderr_bytes e\<rparr>"
  show ?thesis
  proof (cases "feed (cl_float cl) (cn_tail ?c) (sv_stdout e)")
    case (Inl r)
    then show ?thesis by (simp add: receive_def io_then_def io_simps falling_def records_left_def diff_le_mono2)
  next
    case (Inr p)
    then obtain rs t where p: "feed (cl_float cl) (cn_tail ?c) (sv_stdout e) = Inr (rs, t)" by (cases p) simp
    from feed_bound(2) [OF p] p show ?thesis
      by (auto simp: receive_def io_then_def io_simps falling_def records_left_def)
  qed
qed

lemma falling_moves:
  assumes T: "ticking (cl_ops cl) now \<delta>"
  shows "client_moves cl (falling now)"
proof unfold_locales
  fix w :: "'a rpc_state" and b t
  from T have "now (rw_env w) + \<delta> \<le> now (snd (op_pump (cl_ops cl) b t (rw_env w)))" "0 < \<delta>" by (auto simp: ticking_def)
  then show "falling now w (w\<lparr>rw_env := snd (op_pump (cl_ops cl) b t (rw_env w))\<rparr>)"
    by (simp add: falling_def records_left_def)
qed (use T in \<open>auto simp: falling_def records_left_def plain_def ticking_def falling_receive [unfolded falling_def records_left_def]\<close>)

text \<open>A pump that returned was in time, and took its time.\<close>

lemma check_time_Done:
  assumes T: "ticking (cl_ops cl) now \<delta>" and D: "check_time cl deadline closing w = (Done left, w')"
  shows "now (rw_env w) < cn_total_deadline (rw_conn w)" "rw_conn w' = rw_conn w"
proof -
  from D obtain c w1 t where
    1: "ask_cancelled cl w = (Done c, w1)" and
    2: "0 < min deadline (cn_total_deadline (rw_conn w1)) - t" "fst (op_clock (cl_ops cl) (rw_env w1)) = Returned t" and
    3: "w' = w1\<lparr>rw_env := snd (op_clock (cl_ops cl) (rw_env w1))\<rparr>"
    by (auto simp: check_time_def io_then_Done io_simps Let_def split: if_splits)
  have t: "t = now (rw_env w1)" using T 2(2) by (auto simp: ticking_def)
  from 1 have c: "rw_conn w1 = rw_conn w" "now (rw_env w) \<le> now (rw_env w1)"
    using T by (auto simp: ask_cancelled_def io_simps io_then_def ticking_def split: if_splits)
  with 2(1) t show "now (rw_env w) < cn_total_deadline (rw_conn w)" by (auto simp: ticking_def)
  from c 3 show "rw_conn w' = rw_conn w" by simp
qed

lemma pump_ticks:
  assumes T: "ticking (cl_ops cl) now \<delta>" and D: "pump cl b deadline immediate closing w = (Done k, w')"
  shows "time_left now \<delta> w' < time_left now \<delta> w"
proof -
  note m = falling_moves [OF T]
  from D obtain left w1 ev w2 where
    1: "check_time cl deadline closing w = (Done left, w1)" and
    2: "io_reply (op_pump (cl_ops cl) b (if immediate then 0 else min left (lm_poll (cl_limits cl)))) w1 = (Done ev, w2)" and
    3: "(case ev of None \<Rightarrow> io_raise Transport_Error
       | Some e \<Rightarrow>
           io_then (io_check (event_ok b e) Transport_Error) (\<lambda>_.
           io_then (io_update (\<lambda>c. c\<lparr>cn_write_pending := sv_written e < int (length b)\<rparr>)) (\<lambda>_.
           io_then (check_time cl deadline closing) (\<lambda>_.
           io_then (receive cl e) (\<lambda>_. io_then (observe e) (\<lambda>_. io_return (nat (sv_written e)))))))) w2 = (Done k, w')"
    unfolding pump_def io_then_Done by blast
  from 3 have F: "falling now w2 w'"
    by (cases ev) (auto simp: io_simps dest: movesD [OF client_moves.moves_pumped [OF m]])
  from T have d: "0 < \<delta>" by (simp add: ticking_def)
  from 2 T have p: "rw_conn w2 = rw_conn w1" "now (rw_env w1) + \<delta> \<le> now (rw_env w2)"
    by (auto simp: io_simps ticking_def)
  note C = check_time_Done [OF T 1] movesD [OF client_moves.moves_check_time [OF m] 1]
  from d C(1) p F C(2,3) show ?thesis by (intro ticks_less) (auto simp: falling_def)
qed

section \<open>Loops that end\<close>

text \<open>A step that does not run out of fuel while less than \<open>n\<close> ticks and less than \<open>m\<close> records are left.\<close>

definition lasts :: "('s \<Rightarrow> seconds) \<Rightarrow> seconds \<Rightarrow> nat \<Rightarrow> nat \<Rightarrow> ('s rpc_state, 'a) io \<Rightarrow> bool" where
  "lasts now \<delta> n m f \<longleftrightarrow> (\<forall>w. time_left now \<delta> w < n \<and> records_left w < m \<longrightarrow> fst (f w) \<noteq> Stuck)"

lemma lastsD: "lasts now \<delta> n m f \<Longrightarrow> time_left now \<delta> w < n \<Longrightarrow> records_left w < m \<Longrightarrow> f w = (r, w') \<Longrightarrow> r \<noteq> Stuck"
  by (metis lasts_def fst_conv)

lemma lasts_none [simp]: "lasts now \<delta> 0 m f" "lasts now \<delta> n 0 f"
  by (simp_all add: lasts_def)

lemma lasts_if: "lasts now \<delta> n m f \<Longrightarrow> lasts now \<delta> n m g \<Longrightarrow> lasts now \<delta> n m (if b then f else g)"
  by simp

lemma lasts_basic:
  "lasts now \<delta> n m (io_return x)" "lasts now \<delta> n m (io_raise r)" "lasts now \<delta> n m (io_check b r)"
  "lasts now \<delta> n m (io_conn f)" "lasts now \<delta> n m (io_outcome y)" "lasts now \<delta> n m (io_update h)"
  "lasts now \<delta> n m (io_reply p)"
  by (simp_all add: lasts_def io_simps reply_result_def split: sum.split reply.split)

lemma lasts_then:
  assumes d: "0 < \<delta>" and f: "moves (falling now) f" "lasts now \<delta> n m f" and g: "\<And>x. lasts now \<delta> n m (g x)"
  shows "lasts now \<delta> n m (io_then f g)"
  unfolding lasts_def
proof (intro allI impI)
  fix w
  assume w: "time_left now \<delta> w < n \<and> records_left w < m"
  obtain r w1 where 1: "f w = (r, w1)" by (metis surj_pair)
  from lastsD [OF f(2) _ _ 1] w have r: "r \<noteq> Stuck" by simp
  note F = movesD [OF f(1) 1]
  show "fst (io_then f g w) \<noteq> Stuck"
  proof (cases r)
    case (Done x)
    from falling_time [OF F d] F w g [of x] have "fst (g x w1) \<noteq> Stuck" by (auto simp: lasts_def falling_def)
    then show ?thesis by (simp add: io_then_def 1 Done)
  qed (use r in \<open>simp_all add: io_then_def 1\<close>)
qed

text \<open>The steps without a loop.\<close>

definition never_stuck :: "('w, 'a) io \<Rightarrow> bool" where
  "never_stuck f \<longleftrightarrow> (\<forall>w. fst (f w) \<noteq> Stuck)"

lemma lasts_always: "never_stuck f \<Longrightarrow> lasts now \<delta> n m f"
  by (simp add: lasts_def never_stuck_def)

lemma never_stuck_then: "never_stuck f \<Longrightarrow> (\<And>x. never_stuck (g x)) \<Longrightarrow> never_stuck (io_then f g)"
  unfolding never_stuck_def
proof
  fix w
  assume f: "\<forall>w. fst (f w) \<noteq> Stuck" and g: "\<And>x. \<forall>w. fst (g x w) \<noteq> Stuck"
  obtain r w1 where 1: "f w = (r, w1)" by (metis surj_pair)
  with f have "r \<noteq> Stuck" by (metis fst_conv)
  with 1 g show "fst (io_then f g w) \<noteq> Stuck" by (cases r) (simp_all add: io_then_def)
qed

lemma never_stuck_if: "never_stuck f \<Longrightarrow> never_stuck g \<Longrightarrow> never_stuck (if b then f else g)"
  by simp

lemma never_stuck_basic:
  "never_stuck (io_return x)" "never_stuck (io_raise r)" "never_stuck (io_check b r)" "never_stuck (io_conn f)"
  "never_stuck (io_outcome y)" "never_stuck (io_update h)" "never_stuck (io_reply p)"
  by (simp_all add: never_stuck_def io_simps reply_result_def split: sum.split reply.split)

lemmas never_stuck_intros = never_stuck_then never_stuck_if never_stuck_basic

lemma never_stuck_check_time: "never_stuck (check_time cl deadline closing)"
  unfolding check_time_def ask_cancelled_def Let_def by (intro never_stuck_intros)

lemma never_stuck_receive: "never_stuck (receive cl e)"
  unfolding receive_def by (intro never_stuck_intros) (simp add: case_prod_unfold never_stuck_basic)

lemma never_stuck_observe: "never_stuck (observe e)"
  unfolding observe_def by (intro never_stuck_intros)

lemma never_stuck_pump: "never_stuck (pump cl b deadline immediate closing)"
proof -
  have "never_stuck (case ev of None \<Rightarrow> io_raise Transport_Error
       | Some e \<Rightarrow>
           io_then (io_check (event_ok b e) Transport_Error) (\<lambda>_.
           io_then (io_update (\<lambda>c. c\<lparr>cn_write_pending := sv_written e < int (length b)\<rparr>)) (\<lambda>_.
           io_then (check_time cl deadline closing) (\<lambda>_.
           io_then (receive cl e) (\<lambda>_. io_then (observe e) (\<lambda>_. io_return (nat (sv_written e))))))))" for ev
    by (cases ev) (simp_all add: never_stuck_intros never_stuck_check_time never_stuck_receive never_stuck_observe)
  then show ?thesis
    unfolding pump_def by (intro never_stuck_intros never_stuck_check_time)
qed

lemma never_stuck_drain: "never_stuck (drain rs)"
  by (induction rs) (auto intro!: never_stuck_intros)

lemma never_stuck_event_step: "never_stuck (event_step st record acked e)"
  unfolding event_step_def by (intro never_stuck_intros)

lemma never_stuck_shut_step: "never_stuck (shut_step cl shut e)"
  unfolding shut_step_def by (intro never_stuck_intros)

text \<open>The two steps that make progress.\<close>

lemma lasts_pump:
  assumes T: "ticking (cl_ops cl) now \<delta>" and g: "\<And>k. lasts now \<delta> n m (g k)"
  shows "lasts now \<delta> (Suc n) m (io_then (pump cl b deadline immediate closing) g)"
  unfolding lasts_def
proof (intro allI impI)
  fix w
  assume w: "time_left now \<delta> w < Suc n \<and> records_left w < m"
  obtain r w1 where 1: "pump cl b deadline immediate closing w = (r, w1)" by (metis surj_pair)
  have r: "r \<noteq> Stuck" using never_stuck_pump 1 by (metis never_stuck_def fst_conv)
  have F: "falling now w w1" by (rule movesD [OF client_moves.moves_pump [OF falling_moves [OF T]] 1])
  show "fst (io_then (pump cl b deadline immediate closing) g w) \<noteq> Stuck"
  proof (cases r)
    case (Done k)
    from pump_ticks [OF T 1 [unfolded Done]] F w g [of k] have "fst (g k w1) \<noteq> Stuck" by (auto simp: lasts_def falling_def)
    then show ?thesis by (simp add: io_then_def 1 Done)
  qed (use r in \<open>simp_all add: io_then_def 1\<close>)
qed

lemma await_record_Done: "await_record cl n deadline w = (Done u, w') \<Longrightarrow> cn_records (rw_conn w') \<noteq> []"
proof (induction n arbitrary: w)
  case 0
  then show ?case by (subst (asm) await_record.simps) (auto simp: io_return_def io_stuck_def split: if_splits)
next
  case (Suc n)
  then show ?case
    by (subst (asm) (2) await_record.simps) (auto simp: io_return_def io_then_Done split: if_splits)
qed

lemma read_record_pops:
  assumes T: "ticking (cl_ops cl) now \<delta>" and D: "read_record cl n deadline w = (Done r, w')"
  shows "records_left w' < records_left w"
proof -
  from D obtain w1 w2 left where
    1: "await_record cl n deadline w = (Done (), w1)" and 2: "check_time cl deadline False w1 = (Done left, w2)" and
    3: "w' = w2\<lparr>rw_conn := (rw_conn w2)\<lparr>cn_records := tl (cn_records (rw_conn w2))\<rparr>\<rparr>"
    by (auto simp: read_record_def pop_record_def io_then_Done io_simps)
  from movesD [OF client_moves.moves_await_record [OF falling_moves [OF T]] 1] have "records_left w1 \<le> records_left w"
    by (simp add: falling_def)
  moreover obtain x xs where "cn_records (rw_conn w1) = x # xs"
    using await_record_Done [OF 1] by (auto simp: neq_Nil_conv)
  ultimately show ?thesis using check_time_Done(2) [OF T 2] 3 by (simp add: records_left_def)
qed

lemma lasts_read:
  assumes T: "ticking (cl_ops cl) now \<delta>"
  shows "lasts now \<delta> n m (read_record cl n deadline)"
proof -
  have d: "0 < \<delta>" using T by (simp add: ticking_def)
  note M = falling_moves [OF T]
  have 1: "lasts now \<delta> n m (await_record cl n deadline)"
  proof (induction n)
    case (Suc n)
    have "lasts now \<delta> (Suc n) m (io_then (io_check b Eof) (\<lambda>_. io_then (pump cl [] deadline False False)
        (\<lambda>_. await_record cl n deadline)))" for b
      by (intro lasts_then d lasts_pump T Suc lasts_basic client_moves.moves_basic [OF M])
    then show ?case unfolding lasts_def by (subst await_record.simps) (simp add: io_return_def)
  qed simp
  have 2: "lasts now \<delta> n m (io_then (check_time cl deadline False) (\<lambda>_. pop_record))"
    unfolding pop_record_def
    by (intro lasts_always never_stuck_intros never_stuck_check_time)
  show ?thesis
    unfolding read_record_def by (rule lasts_then [OF d client_moves.moves_await_record [OF M] 1 2])
qed

lemma lasts_pop:
  assumes T: "ticking (cl_ops cl) now \<delta>" and g: "\<And>r. lasts now \<delta> n m (g r)"
  shows "lasts now \<delta> n (Suc m) (io_then (read_record cl n deadline) g)"
  unfolding lasts_def
proof (intro allI impI)
  fix w
  assume w: "time_left now \<delta> w < n \<and> records_left w < Suc m"
  have d: "0 < \<delta>" using T by (simp add: ticking_def)
  obtain r w1 where 1: "read_record cl n deadline w = (r, w1)" by (metis surj_pair)
  from lastsD [OF lasts_read [OF T] _ _ 1] w have r: "r \<noteq> Stuck" by blast
  have F: "falling now w w1" by (rule movesD [OF client_moves.moves_read [OF falling_moves [OF T]] 1])
  show "fst (io_then (read_record cl n deadline) g w) \<noteq> Stuck"
  proof (cases r)
    case (Done x)
    from read_record_pops [OF T 1 [unfolded Done]] falling_time [OF F d] w g [of x] have "fst (g x w1) \<noteq> Stuck"
      by (auto simp: lasts_def)
    then show ?thesis by (simp add: io_then_def 1 Done)
  qed (use r in \<open>simp_all add: io_then_def 1\<close>)
qed

section \<open>A call returns\<close>

lemmas falling_rules = client_moves.moves_intros [OF falling_moves]

lemma tick_pos: "ticking ops now \<delta> \<Longrightarrow> 0 < \<delta>"
  by (simp add: ticking_def)

lemmas lasts_seq = lasts_then [OF tick_pos]

lemma lasts_send_rest:
  assumes T: "ticking (cl_ops cl) now \<delta>"
  shows "lasts now \<delta> n m (send_rest cl n b deadline)"
proof (induction n arbitrary: b)
  case (Suc n)
  then show ?case
    by (cases b) (auto intro!: lasts_seq [OF T] falling_rules [OF T] lasts_basic lasts_pump [OF T] simp: plain_def)
qed simp

lemma lasts_send:
  assumes T: "ticking (cl_ops cl) now \<delta>"
  shows "lasts now \<delta> n m (send_frame cl n b deadline)"
  unfolding send_frame_def
  by (intro lasts_seq [OF T] falling_rules [OF T] lasts_basic lasts_send_rest [OF T])

lemma lasts_drain_first:
  fixes cl :: "'s rpc_client"
  assumes T: "ticking (cl_ops cl) now \<delta>" and g: "lasts now \<delta> n m g"
  shows "lasts now \<delta> n m
    (io_then (io_conn id) (\<lambda>c. io_then (io_check (b c) r) (\<lambda>_. io_then (drain (cn_records c)) (\<lambda>_. g))))"
  unfolding lasts_def
proof (intro allI impI)
  fix w
  assume w: "time_left now \<delta> w < n \<and> records_left w < m"
  obtain x w1 where 1: "drain (cn_records (rw_conn w)) w = (x, w1)" by (metis surj_pair)
  have x: "x \<noteq> Stuck" using never_stuck_drain 1 by (metis never_stuck_def fst_conv)
  have F: "falling now w w1" using client_moves.drain_moves [OF falling_moves [OF T] refl, of w] 1 by simp
  from falling_time [OF F tick_pos [OF T]] F w g have "fst (g w1) \<noteq> Stuck" by (auto simp: lasts_def falling_def)
  with x show "fst (io_then (io_conn id)
      (\<lambda>c. io_then (io_check (b c) r) (\<lambda>_. io_then (drain (cn_records c)) (\<lambda>_. g))) w) \<noteq> Stuck"
    by (cases x) (simp_all add: io_then_def io_simps 1)
qed

lemma lasts_before:
  assumes T: "ticking (cl_ops cl) now \<delta>"
  shows "lasts now \<delta> n m (before_command cl n deadline)"
proof (induction n)
  case (Suc n)
  then show ?case
    unfolding before_command.simps
    by (intro lasts_drain_first [OF T] lasts_pump [OF T] lasts_seq [OF T] falling_rules [OF T] lasts_if lasts_basic)
qed simp

lemma lasts_await_response:
  assumes T: "ticking (cl_ops cl) now \<delta>"
  shows "lasts now \<delta> n m (await_response cl n m i name deadline)"
proof (induction m)
  case (Suc m)
  have "lasts now \<delta> n m (io_then (io_conn (notification r)) (\<lambda>x. io_then (io_outcome x)
      (\<lambda>_. await_response cl n m i name deadline)))" for r
    by (intro lasts_seq [OF T] falling_rules [OF T] lasts_basic Suc)
  moreover have "lasts now \<delta> n m (io_then (io_outcome (response r i name)) (\<lambda>data.
      io_then (io_update (\<lambda>c. c\<lparr>cn_awaiting := None\<rparr>)) (\<lambda>_. io_return data)))" for r
    by (intro lasts_always never_stuck_intros)
  ultimately show ?case
    unfolding await_response.simps by (intro lasts_pop [OF T] lasts_if)
qed simp

lemma lasts_exchange:
  assumes T: "ticking (cl_ops cl) now \<delta>"
  shows "lasts now \<delta> n n (exchange cl n name args deadline)"
  unfolding exchange_def
  by (intro lasts_seq [OF T] falling_rules [OF T] client_moves.moves_before [OF falling_moves [OF T]]
      client_moves.moves_send [OF falling_moves [OF T]] lasts_before [OF T] lasts_send [OF T]
      lasts_await_response [OF T] lasts_basic) (simp_all add: plain_def)

lemma lasts_initialize:
  assumes T: "ticking (cl_ops cl) now \<delta>"
  shows "lasts now \<delta> n n (initialize cl n d deadline)"
  unfolding initialize_def
  by (intro lasts_seq [OF T] falling_rules [OF T] client_moves.moves_exchange [OF falling_moves [OF T]]
      lasts_exchange [OF T] lasts_basic) (simp_all add: plain_def)

lemma lasts_events_loop:
  assumes T: "ticking (cl_ops cl) now \<delta>"
  shows "lasts now \<delta> n m (run_events_loop cl n m st acked shut e)"
proof (induction m arbitrary: acked shut e)
  case (Suc m)
  have "lasts now \<delta> n m (io_then (event_step st r acked e) (\<lambda>(acked', e').
      io_then (shut_step cl shut e') (\<lambda>_. run_events_loop cl n m st acked' (shut \<or> events_settled e') e')))" for r
    by (intro lasts_seq [OF T] client_moves.moves_event_step [OF falling_moves [OF T]]
        lasts_always [OF never_stuck_event_step])
      (auto intro!: lasts_seq [OF T] client_moves.moves_shut_step [OF falling_moves [OF T]]
        lasts_always [OF never_stuck_shut_step] Suc)
  then have pop: "lasts now \<delta> n (Suc m) (io_then (read_record cl n deadline) (\<lambda>record.
      io_then (event_step st record acked e) (\<lambda>(acked', e').
      io_then (shut_step cl shut e') (\<lambda>_. run_events_loop cl n m st acked' (shut \<or> events_settled e') e'))))"
    for deadline by (rule lasts_pop [OF T])
  have "lasts now \<delta> n (Suc m) (io_then (io_conn cn_total_deadline) (\<lambda>deadline.
      io_then (read_record cl n deadline) (\<lambda>record. io_then (event_step st record acked e) (\<lambda>(acked', e').
      io_then (shut_step cl shut e') (\<lambda>_. run_events_loop cl n m st acked' (shut \<or> events_settled e') e')))))"
    by (rule lasts_seq [OF T client_moves.moves_basic(5) [OF falling_moves [OF T]] lasts_basic(4) pop])
  then show ?case unfolding lasts_def by (subst run_events_loop_step) simp
qed simp

lemma lasts_await_end:
  assumes T: "ticking (cl_ops cl) now \<delta>"
  shows "lasts now \<delta> n m (await_end cl n deadline)"
proof (induction n)
  case (Suc n)
  have "lasts now \<delta> (Suc n) m (io_then (io_conn cn_records) (\<lambda>rs. io_then (io_check (rs = []) Event_Sequence) (\<lambda>_.
      io_then (io_conn ended) (\<lambda>done. if done then io_return ()
        else io_then (pump cl [] deadline False True) (\<lambda>_. await_end cl n deadline)))))"
    by (intro lasts_seq [OF T] falling_rules [OF T] lasts_if lasts_basic lasts_pump [OF T] Suc)
  then show ?case unfolding lasts_def by (subst await_end.simps) (simp only: nat.case simp_thms)
qed simp

lemma lasts_run_prompt:
  assumes T: "ticking (cl_ops cl) now \<delta>"
  shows "lasts now \<delta> n n (run_prompt cl n d um cwd)"
proof -
  note M = falling_moves [OF T]
  have "lasts now \<delta> n n (case ev_candidate e of None \<Rightarrow> io_raise Event_Sequence | Some c \<Rightarrow> io_return c)" for e
    by (cases "ev_candidate e") (simp_all add: lasts_basic)
  note last = this
  show ?thesis
    unfolding run_prompt_def
    by (intro lasts_seq [OF T] falling_rules [OF T] client_moves.moves_before [OF M] client_moves.moves_send [OF M]
        client_moves.moves_events_loop [OF M] client_moves.moves_await_end [OF M] lasts_before [OF T] lasts_send [OF T]
        lasts_events_loop [OF T] lasts_await_end [OF T] lasts_basic last) (simp add: plain_def)
qed

lemma lasts_converse:
  assumes T: "ticking (cl_ops cl) now \<delta>"
  shows "lasts now \<delta> n n (converse cl n d um cwd started)"
proof -
  note M = falling_moves [OF T]
  show ?thesis
    unfolding converse_def Let_def
    by (intro lasts_seq [OF T] falling_rules [OF T] client_moves.moves_pump [OF M] client_moves.moves_initialize [OF M]
        client_moves.moves_run_prompt [OF M] client_moves.moves_check_time [OF M] lasts_always [OF never_stuck_pump]
        lasts_always [OF never_stuck_check_time] lasts_initialize [OF T] lasts_run_prompt [OF T] lasts_basic)
qed

lemma lasts_await_cancelled:
  assumes T: "ticking (cl_ops cl) now \<delta>"
  shows "lasts now \<delta> n m (await_cancelled cl n m i name outstanding deadline)"
proof (induction m arbitrary: outstanding)
  case (Suc m)
  note M = falling_moves [OF T]
  have "lasts now \<delta> n m (io_then (io_outcome (response r j other))
      (\<lambda>_. await_cancelled cl n m i name None deadline))" for r j other
    by (intro lasts_seq [OF T] falling_rules [OF T] lasts_basic Suc)
  moreover have "lasts now \<delta> n m (io_then (io_outcome (response r i name)) (\<lambda>data.
      io_then (io_check (name = ''clear_queue'' \<longrightarrow> queue_texts_ok data) Response_Mismatch) (\<lambda>_. io_return x)))" for r x
    by (intro lasts_always never_stuck_intros)
  ultimately show ?case
    unfolding await_cancelled.simps
    by (cases outstanding) (auto intro!: lasts_pop [OF T] lasts_if Suc)
qed simp

lemma lasts_cancel_command:
  assumes T: "ticking (cl_ops cl) now \<delta>"
  shows "lasts now \<delta> n n (cancel_command cl n name outstanding deadline)"
proof -
  note M = falling_moves [OF T]
  show ?thesis
    unfolding cancel_command_def
    by (intro lasts_seq [OF T] falling_rules [OF T] client_moves.moves_send [OF M] lasts_send [OF T]
        lasts_await_cancelled [OF T] lasts_basic) (simp add: plain_def)
qed

lemma cancel_lasts:
  assumes T: "ticking (cl_ops cl) now \<delta>" and n: "records_left w < n" "ticks \<delta> (lm_close (cl_limits cl)) < n"
  shows "fst (cancel cl n w) \<noteq> Stuck"
proof -
  note M = falling_moves [OF T]
  let ?c = "rw_conn w" and ?s = "snd (op_clock (cl_ops cl) (rw_env w))"
  let ?by = "now (rw_env w) + lm_close (cl_limits cl)"
  let ?w = "w\<lparr>rw_env := ?s, rw_conn := ?c\<lparr>cn_uncancelled := True, cn_total_deadline := ?by\<rparr>\<rparr>"
  let ?F = "io_then (cancel_command cl n ''clear_queue'' (cn_awaiting ?c) ?by) (\<lambda>outstanding.
    io_then (cancel_command cl n ''abort'' outstanding ?by) (\<lambda>_. io_return ()))"
  have "lasts now \<delta> n n ?F"
    by (intro lasts_seq [OF T] client_moves.moves_cancel_command [OF M] lasts_cancel_command [OF T] lasts_basic)
  moreover have "time_left now \<delta> ?w \<le> ticks \<delta> (lm_close (cl_limits cl))"
    using T by (intro ticks_mono) (auto simp: ticking_def)
  moreover have "records_left ?w = records_left w" by (simp add: records_left_def)
  ultimately have "fst (?F ?w) \<noteq> Stuck" using n unfolding lasts_def by simp
  moreover have "fst (cancel cl n w) = fst (?F ?w) \<or> fst (cancel cl n w) \<in> {Done (), Crashed, Interrupted} \<or>
    (\<exists>e. fst (cancel cl n w) = Problem e)"
  proof -
    obtain q s where q: "op_clock (cl_ops cl) (rw_env w) = (q, s)" by (metis surj_pair)
    have "t = now (rw_env w)" if "q = Returned t" for t using T q that unfolding ticking_def by (metis fst_conv)
    then show ?thesis
      by (cases q) (simp_all add: cancel_def io_then_def [of "io_conn id"] io_then_def [of "io_update h" for h]
          io_then_def [of "io_reply f" for f] io_simps Let_def io_clearing_def case_prod_unfold q reply_result_def)
  qed
  ultimately show ?thesis by auto
qed

lemma conclude_lasts:
  assumes "conclude cl c w = ((r, ck), w')"
  shows "r \<noteq> Stuck"
proof -
  have "never_stuck (io_then (check_time cl dl True) (\<lambda>_. io_return c))" for dl
    by (intro never_stuck_then never_stuck_check_time never_stuck_basic)
  then have "fst (io_then (check_time cl dl True) (\<lambda>_. io_return c) v) \<noteq> Stuck" for dl v
    by (simp add: never_stuck_def)
  then show ?thesis
    using assms by (auto simp: conclude_def Let_def split: prod.splits reply.splits) (metis fst_conv)+
qed

lemma conclude_records:
  assumes T: "ticking (cl_ops cl) now \<delta>" and D: "conclude cl c w = ((r, ck), w')"
  shows "records_left w' \<le> records_left w"
proof -
  have "moves (falling now) (io_then (check_time cl dl True) (\<lambda>_. io_return c))" for dl
    by (intro client_moves.moves_then [OF falling_moves [OF T]] client_moves.moves_check_time [OF falling_moves [OF T]]
        client_moves.moves_basic [OF falling_moves [OF T]])
  then have "records_left v' \<le> records_left v"
    if "io_then (check_time cl dl True) (\<lambda>_. io_return c) v = (x, v')" for dl v x v'
    using movesD that by (fastforce simp: falling_def)
  moreover have "records_left (w\<lparr>rw_env := s\<rparr>) = records_left w" for s by (simp add: records_left_def)
  ultimately show ?thesis
    using D by (auto simp: conclude_def Let_def split: prod.splits reply.splits) metis+
qed

text \<open>The fuel of a session: the ticks of its two deadlines, and the bytes of its output.\<close>

lemma run_session_returns:
  assumes T: "ticking (cl_ops cl) now \<delta>" and s: "started \<le> now s"
    and n: "ticks \<delta> (lm_total (cl_limits cl)) < n" "ticks \<delta> (lm_close (cl_limits cl)) < n" "max_stdout_bytes < n"
  shows "fst (run_session cl n d um cwd started s) \<noteq> Unfinished"
proof -
  let ?w = "\<lparr>rw_env = s, rw_conn = new_connection (started + lm_total (cl_limits cl))\<rparr>"
  obtain r w1 where conv: "converse cl n d um cwd started ?w = (r, w1)" by (metis surj_pair)
  obtain r' ck w2 where con: "(case r of Done c \<Rightarrow> conclude cl c w1
      | _ \<Rightarrow> ((r, \<lparr>ck_deadline = None, ck_finished = False\<rparr>), w1)) = ((r', ck), w2)" by (metis surj_pair)
  obtain res w3 where h: "handle cl n r' w2 = (res, w3)" by (metis surj_pair)
  have "time_left now \<delta> ?w \<le> ticks \<delta> (lm_total (cl_limits cl))"
    using s tick_pos [OF T] by (intro ticks_mono) (simp_all add: new_connection_def)
  moreover have start: "records_left ?w = max_stdout_bytes" by (simp add: records_left_def new_connection_def)
  ultimately have r: "r \<noteq> Stuck" using lastsD [OF lasts_converse [OF T] _ _ conv] n by simp
  have w1: "records_left w1 \<le> max_stdout_bytes"
    using movesD [OF client_moves.moves_converse [OF falling_moves [OF T]] conv] start by (simp add: falling_def)
  have r': "r' \<noteq> Stuck \<and> records_left w2 \<le> max_stdout_bytes"
  proof (cases r)
    case (Done c)
    with con have "conclude cl c w1 = ((r', ck), w2)" by simp
    from conclude_lasts [OF this] conclude_records [OF T this] w1 show ?thesis by simp
  qed (use con r w1 in auto)
  then have "fst (cancel cl n w2) \<noteq> Stuck" using cancel_lasts [OF T _ n(2)] n(3) by simp
  with r' h have "res \<noteq> Unfinished" by (auto simp: handle_def split: result.splits if_splits prod.splits)
  moreover obtain i s4 where "compensate cl (ck_deadline ck) (rw_env w3) = (i, s4)" by (metis surj_pair)
  ultimately show ?thesis
    unfolding run_session_def Let_def conv prod.case con h by simp
qed

lemma start_reading_time:
  assumes T: "ticking (cl_ops cl) now \<delta>" and D: "start_reading cl s = (Returned (t, c), s')"
  shows "t \<le> now s'"
proof -
  from D obtain s1 where 1: "op_clock (cl_ops cl) s = (Returned t, s1)" and 2: "op_cancelled (cl_ops cl) s1 = (Returned c, s')"
    by (auto simp: start_reading_def reply_then_def split: prod.splits reply.splits)
  have "t = now s" "now s \<le> now s1" using T 1 unfolding ticking_def by (metis fst_conv, metis snd_conv)
  moreover have "now s1 \<le> now s'" using T 2 unfolding ticking_def by (metis snd_conv)
  ultimately show ?thesis by simp
qed

lemma run_call_returns:
  assumes T: "ticking (cl_ops cl) now \<delta>" and n: "ticks \<delta> 300 + max_stdout_bytes < n"
  shows "fst (run_call cl n d um cwd s) \<noteq> Unfinished"
proof (cases "description_ok d (cl_limits cl)")
  case True
  have d: "0 < \<delta>" by (rule tick_pos [OF T])
  from True have "ticks \<delta> (lm_total (cl_limits cl)) \<le> ticks \<delta> 300" "ticks \<delta> (lm_close (cl_limits cl)) \<le> ticks \<delta> 300"
    by (auto simp: description_ok_def default_limits_def intro!: ticks_mono d)
  with n have "ticks \<delta> (lm_total (cl_limits cl)) < n" "ticks \<delta> (lm_close (cl_limits cl)) < n" "max_stdout_bytes < n"
    by simp_all
  note session = run_session_returns [OF T _ this]
  have "started \<le> now s3" if "start_reading cl s = (Returned (started, c), s2)" "op_create (cl_ops cl) d s2 = (r, s3)"
    for started c s2 r s3
  proof -
    have "now s2 \<le> now s3" using T that(2) unfolding ticking_def by (metis snd_conv)
    with start_reading_time [OF T that(1)] show ?thesis by simp
  qed
  with session show ?thesis
    by (auto simp: run_call_def split: sum.split reply.split prod.split)
qed (simp add: run_call_def)

end
