(* ===== verification/Rpc_Conversation.thy ===== *)
theory Rpc_Conversation
  imports Rpc_Client_Laws
begin

text \<open>What a call that returned a candidate has said and heard: exactly nine commands, in order, of which
  one prompt; a turn of legal events; an end with exit code zero.\<close>

abbreviation written :: "'s logged rpc_state \<Rightarrow> bytes" where
  "written w \<equiv> lg_written (rw_env w)"

abbreviation command_no :: "'s rpc_state \<Rightarrow> nat" where
  "command_no w \<equiv> cn_command_no (rw_conn w)"

lemma io_outcome_Done: "io_outcome x w = (Done y, w') \<longleftrightarrow> x = Inr y \<and> w' = w"
  by (auto simp: io_outcome_def io_return_def io_raise_def split: sum.splits)

text \<open>A step that writes nothing and issues no command.\<close>

definition inert :: "('s logged rpc_state, 'a) io \<Rightarrow> bool" where
  "inert f \<longleftrightarrow> (\<forall>w x w'. f w = (Done x, w') \<longrightarrow> written w' = written w \<and> command_no w' = command_no w)"

lemma inertD: "inert f \<Longrightarrow> f w = (Done x, w') \<Longrightarrow> written w' = written w \<and> command_no w' = command_no w"
  by (simp add: inert_def)

lemma inert_then: "inert f \<Longrightarrow> (\<And>x. inert (g x)) \<Longrightarrow> inert (io_then f g)"
  unfolding inert_def io_then_Done by fastforce

lemma inert_if: "inert f \<Longrightarrow> inert g \<Longrightarrow> inert (if b then f else g)"
  by simp

lemma inert_update: "(\<And>c. cn_command_no (h c) = cn_command_no c) \<Longrightarrow> inert (io_update h)"
  by (auto simp: inert_def io_simps)

lemma inert_basic:
  "inert (io_return x)" "inert (io_raise r)" "inert io_stuck" "inert (io_check b r)" "inert (io_conn f)"
  "inert (io_outcome y)"
  by (auto simp: inert_def io_simps io_stuck_def split: sum.splits)

lemma inert_ops:
  "inert (io_reply (op_clock (logged_ops ops)))" "inert (io_reply (op_cancelled (logged_ops ops)))"
  "inert (io_reply (op_close (logged_ops ops)))"
  by (auto simp: inert_def io_simps logged_ops_def case_prod_unfold Let_def)

lemmas inert_intros = inert_then inert_if inert_update inert_basic

lemma inert_check_time: "inert (check_time (logged_client cl) deadline closing)"
  unfolding check_time_def ask_cancelled_def Let_def logged_client_def rpc_client.simps
  by (intro inert_intros inert_ops)

lemma inert_receive: "inert (receive cl e)"
  unfolding receive_def by (intro inert_intros) (auto intro!: inert_intros)

lemma inert_observe: "inert (observe e)"
  unfolding observe_def by (intro inert_intros) simp_all

text \<open>The bytes of one pump.\<close>

lemma pump_written:
  assumes "pump (logged_client cl) b deadline immediate closing w = (Done k, w')"
  shows "k \<le> length b" "written w' = written w @ take k b" "command_no w' = command_no w"
proof -
  let ?cl = "logged_client cl"
  from assms obtain left w1 ev w2 where
    1: "check_time ?cl deadline closing w = (Done left, w1)" and
    2: "io_reply (op_pump (cl_ops ?cl) b (if immediate then 0 else min left (lm_poll (cl_limits ?cl)))) w1 = (Done ev, w2)" and
    3: "(case ev of None \<Rightarrow> io_raise Transport_Error
       | Some e \<Rightarrow>
           io_then (io_check (event_ok b e) Transport_Error) (\<lambda>_.
           io_then (io_update (\<lambda>c. c\<lparr>cn_write_pending := sv_written e < int (length b)\<rparr>)) (\<lambda>_.
           io_then (check_time ?cl deadline closing) (\<lambda>_.
           io_then (receive ?cl e) (\<lambda>_. io_then (observe e) (\<lambda>_. io_return (nat (sv_written e)))))))) w2 = (Done k, w')"
    unfolding pump_def io_then_Done by blast
  let ?t = "if immediate then 0 else min left (lm_poll (cl_limits ?cl))"
  from 3 obtain e where e: "ev = Some e" by (cases ev) (auto simp: io_simps)
  obtain r s where r: "op_pump (cl_ops cl) b ?t (lg_env (rw_env w1)) = (r, s)" by (metis surj_pair)
  have two: "r = Returned (Some e)" "w2 = w1\<lparr>rw_env := (rw_env w1)\<lparr>lg_env := s,
      lg_written := lg_written (rw_env w1) @ (if event_ok b e then take (nat (sv_written e)) b else [])\<rparr>\<rparr>"
    using 2 r by (auto simp: e io_simps logged_client_def logged_ops_def reply_result_def split: reply.splits)
  from 3 [unfolded e option.case] obtain w3 w4 w5 w6 where
    ok: "event_ok b e" and
    w3: "w3 = w2\<lparr>rw_conn := (rw_conn w2)\<lparr>cn_write_pending := sv_written e < int (length b)\<rparr>\<rparr>" and
    4: "check_time ?cl deadline closing w3 = (Done w4, w5)" and
    5: "receive ?cl e w5 = (Done (), w6)" and 6: "observe e w6 = (Done (), w')" and k: "k = nat (sv_written e)"
    unfolding io_then_Done by (auto simp: io_simps split: if_splits)
  note same = inertD [OF inert_check_time 1] inertD [OF inert_check_time 4] inertD [OF inert_receive 5]
    inertD [OF inert_observe 6]
  from same w3 two ok k show "written w' = written w @ take k b" "command_no w' = command_no w" by simp_all
  from ok k show "k \<le> length b" by (auto simp: event_ok_def)
qed

lemma inert_pump: "inert (pump (logged_client cl) [] deadline immediate closing)"
  using pump_written [of cl "[]"] by (auto simp: inert_def)

lemma send_rest_written:
  "send_rest (logged_client cl) n b deadline w = (Done (), w') \<Longrightarrow>
     written w' = written w @ b \<and> command_no w' = command_no w"
proof (induction "logged_client cl" n b deadline arbitrary: w rule: send_rest.induct)
  case (3 n v va deadline)
  from 3(2) obtain k w1 where
    1: "pump (logged_client cl) (v # va) deadline False False
        (w\<lparr>rw_conn := (rw_conn w)\<lparr>cn_write_pending := True\<rparr>\<rparr>) = (Done k, w1)" and
    2: "send_rest (logged_client cl) n (drop k (v # va)) deadline w1 = (Done (), w')"
    by (auto simp: io_then_Done io_simps)
  from 3(1) [OF 2] pump_written [OF 1] show ?case
    by (metis (no_types, lifting) append_assoc append_take_drop_id connection.ext_inject connection.surjective
        connection.update_convs(11) rpc_state.select_convs rpc_state.surjective rpc_state.update_convs(2))
qed (auto simp: io_simps io_stuck_def)

lemma send_written:
  "send_frame (logged_client cl) n b deadline w = (Done (), w') \<Longrightarrow>
     written w' = written w @ b \<and> command_no w' = command_no w"
  by (auto simp: send_frame_def io_then_Done io_simps dest!: send_rest_written split: if_splits)

lemma inert_await_record: "inert (await_record (logged_client cl) n deadline)"
proof (induction n)
  case 0
  then show ?case unfolding inert_def by (subst await_record.simps) (simp add: io_return_def io_stuck_def)
next
  case (Suc n)
  have "inert (io_then (io_check b Eof) (\<lambda>_. io_then (pump (logged_client cl) [] deadline False False)
      (\<lambda>_. await_record (logged_client cl) n deadline)))" for b
    by (intro inert_intros inert_pump Suc)
  then show ?case unfolding inert_def by (subst await_record.simps) (simp add: io_return_def)
qed

lemma inert_read: "inert (read_record (logged_client cl) n deadline)"
  unfolding read_record_def pop_record_def
  by (intro inert_intros inert_await_record inert_check_time) simp

lemma inert_drain: "inert (drain rs)"
  by (induction rs) (auto intro!: inert_intros)

lemma inert_before: "inert (before_command (logged_client cl) n deadline)"
  by (induction n) (auto intro!: inert_intros inert_drain inert_pump)

lemma inert_await_response: "inert (await_response (logged_client cl) n m i name deadline)"
  by (induction m) (auto intro!: inert_intros inert_read)

text \<open>A command that was answered: its frame, with the next number, and nothing else.\<close>

lemma exchange_written:
  assumes "exchange (logged_client cl) n name args deadline w = (Done x, w')"
  obtains b where "command_frame (command_id (Suc (command_no w))) name args = Inr b"
    "written w' = written w @ b" "command_no w' = Suc (command_no w)"
proof -
  let ?cl = "logged_client cl"
  from assms obtain w1 frame w4 where
    1: "before_command ?cl n deadline w = (Done (), w1)" and
    2: "command_frame (command_id (Suc (command_no w1))) name args = Inr frame" and
    3: "send_frame ?cl n frame deadline (w1\<lparr>rw_conn := (rw_conn w1)\<lparr>cn_command_no := Suc (command_no w1),
          cn_awaiting := Some (command_id (Suc (command_no w1)), name)\<rparr>\<rparr>) = (Done (), w4)" and
    4: "await_response ?cl n n (command_id (Suc (command_no w1))) name deadline w4 = (Done x, w')"
    by (auto simp: exchange_def io_then_Done io_outcome_Done io_simps simp del: io_outcome_simps)
  note same = inertD [OF inert_before 1] send_written [OF 3] inertD [OF inert_await_response 4]
  show ?thesis by (rule that [of frame]) (use 2 same in simp_all)
qed

section \<open>The commands of a call\<close>

definition init_commands :: "call_description \<Rightarrow> (string \<times> json_record) list" where
  "init_commands d =
     [(''new_session'', []), (''set_auto_retry'', [(ascii ''enabled'', JBool False)]),
      (''set_auto_compaction'', [(ascii ''enabled'', JBool False)]),
      (''set_model'', [(ascii ''provider'', JStr (cd_provider d)), (ascii ''modelId'', JStr (cd_model d))]),
      (''get_available_thinking_levels'', []),
      (''set_thinking_level'', [(ascii ''level'', JStr (cd_thinking_level d))]),
      (''get_commands'', []), (''get_state'', [])]"

text \<open>The frames of commands numbered from \<open>k\<close>.\<close>

fun frames_from :: "nat \<Rightarrow> (string \<times> json_record) list \<Rightarrow> bytes \<Rightarrow> bool" where
  "frames_from k [] b \<longleftrightarrow> b = []"
| "frames_from k ((name, args) # cs) b \<longleftrightarrow>
     (\<exists>f r. command_frame (command_id k) name args = Inr f \<and> frames_from (Suc k) cs r \<and> b = f @ r)"

lemma frames_from_append:
  "frames_from k (cs @ ds) b \<longleftrightarrow> (\<exists>x y. frames_from k cs x \<and> frames_from (k + length cs) ds y \<and> b = x @ y)"
proof (induction cs arbitrary: k b)
  case (Cons c cs)
  then show ?case by (cases c) (auto; metis append_assoc)
qed simp

text \<open>A step that issues these commands.\<close>

definition issues :: "(string \<times> json_record) list \<Rightarrow> ('s logged rpc_state, 'a) io \<Rightarrow> bool" where
  "issues cs f \<longleftrightarrow>
     (\<forall>w x w'. f w = (Done x, w') \<longrightarrow>
        (\<exists>b. frames_from (Suc (command_no w)) cs b \<and> written w' = written w @ b) \<and>
        command_no w' = command_no w + length cs)"

lemma issues_inert: "inert f \<Longrightarrow> issues [] f"
  by (simp add: issues_def inert_def)

lemma issues_then:
  assumes "issues cs f" "\<And>x. issues ds (g x)"
  shows "issues (cs @ ds) (io_then f g)"
  unfolding issues_def
proof (intro allI impI)
  fix w y w'
  assume "io_then f g w = (Done y, w')"
  then obtain x w1 where 1: "f w = (Done x, w1)" "g x w1 = (Done y, w')" by (auto simp: io_then_Done)
  from assms(1) 1(1) obtain b where b: "frames_from (Suc (command_no w)) cs b" "written w1 = written w @ b"
      "command_no w1 = command_no w + length cs" unfolding issues_def by blast
  from assms(2) 1(2) obtain c where c: "frames_from (Suc (command_no w1)) ds c" "written w' = written w1 @ c"
      "command_no w' = command_no w1 + length ds" unfolding issues_def by blast
  show "(\<exists>b. frames_from (Suc (command_no w)) (cs @ ds) b \<and> written w' = written w @ b) \<and>
      command_no w' = command_no w + length (cs @ ds)"
    using b c by (auto simp: frames_from_append)
qed

lemma issues_exchange: "issues [(name, args)] (exchange (logged_client cl) n name args deadline)"
  unfolding issues_def
proof (intro allI impI)
  fix w x w'
  assume "exchange (logged_client cl) n name args deadline w = (Done x, w')"
  then obtain b where "command_frame (command_id (Suc (command_no w))) name args = Inr b"
    "written w' = written w @ b" "command_no w' = Suc (command_no w)" by (rule exchange_written)
  then show "(\<exists>b. frames_from (Suc (command_no w)) [(name, args)] b \<and> written w' = written w @ b) \<and>
      command_no w' = command_no w + length [(name, args)]" by simp
qed

lemma issues_Cons: "issues [c] f \<Longrightarrow> (\<And>x. issues cs (g x)) \<Longrightarrow> issues (c # cs) (io_then f g)"
  using issues_then [of "[c]" f cs g] by simp

lemma issues_skip: "inert f \<Longrightarrow> (\<And>x. issues cs (g x)) \<Longrightarrow> issues cs (io_then f g)"
  using issues_then [OF issues_inert, of f cs g] by simp

lemma issues_initialize: "issues (init_commands d) (initialize (logged_client cl) n d deadline)"
  unfolding initialize_def init_commands_def
  by (rule issues_Cons issues_exchange issues_skip inert_basic inert_update refl connection.select_convs issues_inert
      inert_then | simp)+

section \<open>The prompt and its turn\<close>

lemma inert_event_step: "inert (event_step st record acked e)"
  unfolding event_step_def by (intro inert_intros) simp

lemma inert_shut: "inert (shut_step (logged_client cl) shut e)"
  unfolding shut_step_def logged_client_def rpc_client.simps by (intro inert_intros inert_ops) simp

lemma event_step_accepts:
  "event_step st record acked e w = (Done (acked', e'), w') \<Longrightarrow> \<exists>rs. accept_events st rs e = Inr e'"
  by (auto simp: event_step_def io_then_Done io_simps split: if_splits sum.splits
      intro: exI [of _ "[]"] exI [of _ "[record]"])

lemma run_events_loop_turn:
  "run_events_loop (logged_client cl) n m st acked shut e w = (Done e', w') \<Longrightarrow>
     written w' = written w \<and> events_settled e' \<and> (\<exists>rs. accept_events st rs e = Inr e')"
proof (induction m arbitrary: acked shut e w)
  case 0
  then show ?case by (subst (asm) run_events_loop_step) (auto split: if_splits intro: exI [of _ "[]"])
next
  case (Suc m)
  show ?case
  proof (cases "acked \<and> events_settled e")
    case True
    with Suc.prems show ?thesis by (subst (asm) run_events_loop_step) (auto intro: exI [of _ "[]"])
  next
    case False
    with Suc.prems obtain rcd w1 acked' e1 w2 w3 where
      1: "read_record (logged_client cl) n (cn_total_deadline (rw_conn w)) w = (Done rcd, w1)" and
      2: "event_step st rcd acked e w1 = (Done (acked', e1), w2)" and
      3: "shut_step (logged_client cl) shut e1 w2 = (Done (), w3)" and
      4: "run_events_loop (logged_client cl) n m st acked' (shut \<or> events_settled e1) e1 w3 = (Done e', w')"
      by (subst (asm) run_events_loop_step) (auto simp: io_then_Done io_conn_simps split: prod.splits)
    from event_step_accepts [OF 2] obtain rs where rs: "accept_events st rs e = Inr e1" by blast
    from Suc.IH [OF 4] obtain qs where "written w' = written w3" "events_settled e'" "accept_events st qs e1 = Inr e'"
      by blast
    with rs inertD [OF inert_read 1] inertD [OF inert_event_step 2] inertD [OF inert_shut 3]
    show ?thesis by (auto simp: accept_events_append intro!: exI [of _ "rs @ qs"])
  qed
qed

lemma inert_await_end: "inert (await_end (logged_client cl) n deadline)"
proof (induction n)
  case 0
  have "inert (io_then (io_conn cn_records) (\<lambda>rs. io_then (io_check (rs = []) Event_Sequence) (\<lambda>_.
      io_then (io_conn ended) (\<lambda>done. if done then io_return () else io_stuck))))"
    by (intro inert_intros)
  then show ?case unfolding inert_def by (subst await_end.simps) (simp only: nat.case)
next
  case (Suc n)
  have "inert (io_then (io_conn cn_records) (\<lambda>rs. io_then (io_check (rs = []) Event_Sequence) (\<lambda>_.
      io_then (io_conn ended) (\<lambda>done. if done then io_return ()
        else io_then (pump (logged_client cl) [] deadline False True) (\<lambda>_. await_end (logged_client cl) n deadline)))))"
    by (intro inert_intros inert_pump Suc)
  then show ?case unfolding inert_def by (subst await_end.simps) (simp only: nat.case)
qed

text \<open>The prompt: one frame with the ninth number, then a settled turn of legal events.\<close>

definition turn_of :: "run_setup \<Rightarrow> rpc_candidate \<Rightarrow> bool" where
  "turn_of st c \<longleftrightarrow>
     (\<exists>rs e. accept_events st rs new_events = Inr e \<and> events_settled e \<and> ev_candidate e = Some c)"

lemma run_prompt_turn:
  assumes "run_prompt (logged_client cl) n d um cwd w = (Done c, w')"
  shows "\<exists>message frame. utf8_decode um = Some message \<and>
    command_frame (command_id prompt_command_no) ''prompt'' (prompt_args message) = Inr frame \<and>
    written w' = written w @ frame \<and>
    turn_of \<lparr>st_description = d, st_user_message = message, st_cwd_section = cwd\<rparr> c"
proof -
  let ?cl = "logged_client cl"
  let ?total = "cn_total_deadline (rw_conn w)"
  from assms obtain message w1 frame w3 e w4 now w5 u w6 where
    1: "utf8_decode um = Some message" and
    2: "before_command ?cl n ?total w = (Done (), w1)" and
    3: "prompt_frame um = Inr frame" and
    4: "send_frame ?cl n frame ?total (w1\<lparr>rw_conn := (rw_conn w1)\<lparr>cn_command_no := prompt_command_no,
          cn_awaiting := Some (command_id prompt_command_no, ''prompt'')\<rparr>\<rparr>) = (Done (), w3)" and
    5: "run_events_loop ?cl n n \<lparr>st_description = d, st_user_message = message, st_cwd_section = cwd\<rparr> False False
          new_events w3 = (Done e, w4)" and
    6: "io_reply (op_clock (cl_ops ?cl)) w4 = (Done now, w5)" and
    7: "await_end ?cl n u w5 = (Done (), w6)" and
    8: "(case ev_candidate e of None \<Rightarrow> io_raise Event_Sequence | Some c \<Rightarrow> io_return c) w6 = (Done c, w')"
    unfolding run_prompt_def io_then_Done io_outcome_Done io_conn_simps io_update_simps
    by (auto simp: or_raise_def split: option.splits)
  from 8 have c: "ev_candidate e = Some c" "w' = w6" by (auto simp: io_simps split: option.splits)
  have ask: "written w5 = written w4"
    using inertD [OF inert_ops(1) 6 [unfolded logged_client_def rpc_client.simps]] by simp
  from 1 3 have frame: "command_frame (command_id prompt_command_no) ''prompt'' (prompt_args message) = Inr frame"
    by (cases "command_frame (command_id prompt_command_no) ''prompt'' (prompt_args message)")
      (auto simp: prompt_frame_def or_raise_def split: if_splits)
  show ?thesis
    using 1 frame c ask inertD [OF inert_before 2] send_written [OF 4] run_events_loop_turn [OF 5]
      inertD [OF inert_await_end 7]
    by (auto simp: turn_of_def)
qed

section \<open>The whole call\<close>

definition call_commands :: "call_description \<Rightarrow> pystr \<Rightarrow> (string \<times> json_record) list" where
  "call_commands d message = init_commands d @ [(''prompt'', prompt_args message)]"

lemma converse_turn:
  assumes "converse (logged_client cl) n d um cwd started w = (Done c, w')" "command_no w = 0"
  shows "\<exists>message b. utf8_decode um = Some message \<and> frames_from 1 (call_commands d message) b \<and>
    written w' = written w @ b \<and>
    turn_of \<lparr>st_description = d, st_user_message = message, st_cwd_section = cwd\<rparr> c"
proof -
  let ?cl = "logged_client cl"
  from assms(1) obtain t k w1 w2 w3 u left where
    1: "pump ?cl [] t True False w = (Done k, w1)" and
    2: "initialize ?cl n d t w1 = (Done (), w2)" and
    3: "run_prompt ?cl n d um cwd w2 = (Done c, w3)" and
    4: "check_time ?cl u True w3 = (Done left, w')"
    unfolding converse_def Let_def io_then_Done io_conn_simps by (auto simp: io_simps split: if_splits)
  from issues_initialize [of d cl n t] 2 obtain b where
    b: "frames_from (Suc (command_no w1)) (init_commands d) b" "written w2 = written w1 @ b"
    unfolding issues_def by blast
  from run_prompt_turn [OF 3] obtain message f where
    f: "utf8_decode um = Some message" "written w3 = written w2 @ f"
      "command_frame (command_id prompt_command_no) ''prompt'' (prompt_args message) = Inr f"
      "turn_of \<lparr>st_description = d, st_user_message = message, st_cwd_section = cwd\<rparr> c" by blast
  have one: "written w1 = written w" "command_no w1 = 0" "written w' = written w3"
    using inertD [OF inert_pump 1] inertD [OF inert_check_time 4] assms(2) by simp_all
  have 5: "frames_from 1 (init_commands d) b" using b(1) one(2) by simp
  have "1 + length (init_commands d) = prompt_command_no" by (simp add: init_commands_def prompt_command_no_def)
  with f(3) have "frames_from (1 + length (init_commands d)) [(''prompt'', prompt_args message)] f" by simp
  with 5 have "frames_from 1 (call_commands d message) (b @ f)"
    unfolding call_commands_def frames_from_append by blast
  with f one b show ?thesis by auto
qed

lemma attempt_twice_keeps:
  "(\<And>s. Q (snd (f s)) = Q s) \<Longrightarrow> Q (snd (attempt_twice f s)) = Q s"
  unfolding attempt_twice_def by (auto split: prod.split reply.split) (metis snd_conv)+

lemma logged_written:
  "lg_written (snd (op_clock (logged_ops ops) s)) = lg_written s"
  "lg_written (snd (op_cancelled (logged_ops ops) s)) = lg_written s"
  "lg_written (snd (op_close (logged_ops ops) s)) = lg_written s"
  "lg_written (snd (op_terminate (logged_ops ops) t s)) = lg_written s"
  "lg_written (snd (op_create (logged_ops ops) d s)) = lg_written s"
  by (simp_all add: logged_ops_def case_prod_unfold Let_def)

lemma reply_then_written:
  "(\<And>s. lg_written (snd (f s)) = lg_written s) \<Longrightarrow> (\<And>x s. lg_written (snd (g x s)) = lg_written s) \<Longrightarrow>
     lg_written (snd (reply_then f g s)) = lg_written s"
  unfolding reply_then_def by (auto split: prod.split reply.split) (metis snd_conv)+

lemma cleanup_written: "lg_written (snd (cleanup (logged_client cl) t s)) = lg_written s"
proof -
  have "lg_written (snd (attempt_twice (op_close (cl_ops (logged_client cl))) s)) = lg_written s" for s :: "'a logged"
    by (rule attempt_twice_keeps) (simp add: logged_client_def logged_written)
  moreover have "lg_written (snd (attempt_twice (terminate_by (logged_client cl) t) s)) = lg_written s" for s :: "'a logged"
    by (rule attempt_twice_keeps) (simp add: terminate_by_def logged_client_def reply_then_written logged_written)
  ultimately show ?thesis by (simp add: cleanup_def case_prod_unfold Let_def)
qed

lemma start_reading_written: "lg_written (snd (start_reading (logged_client cl) s)) = lg_written s"
  unfolding start_reading_def
  by (intro reply_then_written) (simp_all add: reply_then_written logged_client_def logged_written)

lemma cleanup_deadline_written: "lg_written (snd (cleanup_deadline (logged_client cl) dl s)) = lg_written s"
  by (cases dl) (simp_all add: cleanup_deadline_def reply_then_written logged_client_def logged_written)

lemma conclude_written:
  assumes "conclude (logged_client cl) c w = ((Done x, ck), w')"
  shows "written w' = written w \<and> x = c \<and> ck_finished ck"
proof -
  let ?cl = "logged_client cl"
  obtain q s where k: "cleanup_deadline ?cl None (rw_env w) = (q, s)" by (metis surj_pair)
  from assms obtain t where q: "q = Returned t" by (cases q) (auto simp: conclude_def k)
  obtain r s1 where c1: "cleanup ?cl t s = (r, s1)" by (metis surj_pair)
  have s1: "lg_written s1 = written w"
    using cleanup_written [of cl t s] c1 cleanup_deadline_written [of cl None "rw_env w"] k by simp
  let ?w = "w\<lparr>rw_env := s1\<rparr>"
  obtain y w2 where y: "io_then (check_time ?cl (cn_total_deadline (rw_conn w)) True) (\<lambda>_. io_return c) ?w = (y, w2)"
    by (metis surj_pair)
  from assms have "r = Returned ()" by (cases r) (auto simp: conclude_def k q c1 Let_def)
  with assms y have "y = Done x" "w2 = w'" "ck_finished ck" by (auto simp: conclude_def k q c1 Let_def)
  with y s1 show ?thesis
    by (auto simp: io_then_Done io_simps dest!: inertD [OF inert_check_time])
qed

lemma handle_candidate: "handle cl n r w = (Candidate_Result c, w') \<Longrightarrow> r = Done c \<and> w' = w"
  by (auto simp: handle_def split: result.splits if_splits prod.splits)

lemma run_session_candidate:
  assumes "run_session (logged_client cl) n d um cwd started s = (Candidate_Result c, s')"
  obtains message b where "utf8_decode um = Some message" "frames_from 1 (call_commands d message) b"
    "lg_written s' = lg_written s @ b"
    "turn_of \<lparr>st_description = d, st_user_message = message, st_cwd_section = cwd\<rparr> c"
proof -
  let ?cl = "logged_client cl"
  let ?w = "\<lparr>rw_env = s, rw_conn = new_connection (started + lm_total (cl_limits ?cl))\<rparr>"
  obtain r w1 where conv: "converse ?cl n d um cwd started ?w = (r, w1)" by (metis surj_pair)
  obtain r' ck w2 where con: "(case r of Done c \<Rightarrow> conclude ?cl c w1
      | _ \<Rightarrow> ((r, \<lparr>ck_deadline = None, ck_finished = False\<rparr>), w1)) = ((r', ck), w2)" by (metis surj_pair)
  obtain res w3 where h: "handle ?cl n r' w2 = (res, w3)" by (metis surj_pair)
  obtain i s4 where comp: "compensate ?cl (ck_deadline ck) (rw_env w3) = (i, s4)" by (metis surj_pair)
  have out: "(Candidate_Result c, s') = (if res = Unfinished \<or> ck_finished ck then (res, rw_env w3)
      else (if i then Interruption else res, s4))"
    using assms unfolding run_session_def Let_def conv prod.case con h comp by (auto split: if_splits)
  then have res: "res = Candidate_Result c" by (auto split: if_splits)
  from handle_candidate [OF h [unfolded res]] have r': "r' = Done c" "w3 = w2" by simp_all
  from con r' obtain x where x: "r = Done x" "conclude ?cl x w1 = ((Done c, ck), w2)" by (cases r) auto
  from conclude_written [OF x(2)] have w2: "written w2 = written w1" "c = x" "ck_finished ck" by simp_all
  from converse_turn [OF conv [unfolded x(1)]] obtain message b where
    m: "utf8_decode um = Some message" "frames_from 1 (call_commands d message) b" "written w1 = lg_written s @ b"
      "turn_of \<lparr>st_description = d, st_user_message = message, st_cwd_section = cwd\<rparr> x"
    by (auto simp: new_connection_def)
  from out res w2 r' have "s' = rw_env w2" by simp
  with m w2 show ?thesis by (intro that [of message b]) simp_all
qed

lemma run_call_conversation:
  assumes "run_call (logged_client cl) n d um cwd (fresh_log s) = (Candidate_Result c, s')"
  obtains message where "utf8_decode um = Some message" "frames_from 1 (call_commands d message) (lg_written s')"
    "turn_of \<lparr>st_description = d, st_user_message = message, st_cwd_section = cwd\<rparr> c" "lg_created s' = 1"
proof -
  let ?cl = "logged_client cl"
  obtain q s2 where q: "start_reading ?cl (fresh_log s) = (q, s2)" by (metis surj_pair)
  obtain r s3 where cr: "op_create (cl_ops ?cl) d s2 = (r, s3)" by (metis surj_pair)
  from assms obtain t where "q = Returned (t, False)" "r = Returned ()"
    and run: "run_session ?cl n d um cwd t s3 = (Candidate_Result c, s')"
    by (auto simp: run_call_def q cr split: if_splits sum.splits reply.splits)
  then have s3: "lg_written s3 = []" "lg_created s3 = 1"
    using cr start_reading_logs [OF q] start_reading_written [of cl "fresh_log s"] q
      logged_written(5) [of "cl_ops cl" d s2]
    by (auto simp: logs_def fresh_log_def logged_client_def logged_ops_def case_prod_unfold Let_def)
  then have "lg_created s' = 1" using run_session_logs [OF run] by (auto simp: logs_def)
  with run_session_candidate [OF run] that s3(1) show thesis by auto
qed

text \<open>What a turn says of its candidate.\<close>

lemma turn_of_candidate: "turn_of st c \<Longrightarrow> \<exists>m. candidate_from st m c"
  unfolding turn_of_def using accept_events_ok [OF _ events_ok_new] settled_ok by (metis option.inject)

lemma turn_of_typed: "turn_of st c \<Longrightarrow> candidate_typed c"
  using turn_of_candidate candidate_from_typed by blast

end
