(* ===== verification/Rpc_Sample.thy ===== *)
theory Rpc_Sample
  imports Rpc_Termination Rpc_Conversation
begin

text \<open>A scripted session: a clock that gains a second with every pump, a program that answers each frame
  it takes with the next chunks of a script, and ends once its standard input is shut.\<close>

record script =
  sc_time :: seconds
  sc_replies :: "bytes list list"
  sc_ready :: "bytes list"
  sc_shut :: bool

definition script_pump :: "bytes \<Rightarrow> seconds \<Rightarrow> script \<Rightarrow> session_event option reply \<times> script" where
  "script_pump pending timeout s =
     (let s' = s\<lparr>sc_time := sc_time s + 1\<rparr> in
      if pending \<noteq> [] then
        (case sc_replies s of
           r # rs \<Rightarrow>
             (Returned (Some \<lparr>sv_written = int (length pending), sv_stdout = [], sv_stderr_bytes = 0,
                sv_stdout_eof = False, sv_stderr_eof = False, sv_exit_code = None\<rparr>),
              s'\<lparr>sc_replies := rs, sc_ready := r\<rparr>)
         | [] \<Rightarrow> (Failing, s'))
      else
        (Returned (Some \<lparr>sv_written = 0, sv_stdout = concat (take 1 (sc_ready s)), sv_stderr_bytes = 0, sv_stdout_eof = sc_shut s,
           sv_stderr_eof = sc_shut s, sv_exit_code = (if sc_shut s then Some 0 else None)\<rparr>),
         s'\<lparr>sc_ready := drop 1 (sc_ready s)\<rparr>))"

definition script_ops :: "script session_ops" where
  "script_ops =
     \<lparr>op_create = (\<lambda>d s. (Returned (), s)), op_pump = script_pump,
      op_close = (\<lambda>s. (Returned (), s\<lparr>sc_shut := True\<rparr>)), op_terminate = (\<lambda>t s. (Returned (), s)),
      op_clock = (\<lambda>s. (Returned (sc_time s), s)), op_cancelled = (\<lambda>s. (Returned False, s))\<rparr>"

definition script_client :: "script rpc_client" where
  "script_client = \<lparr>cl_ops = script_ops, cl_float = id, cl_limits = default_limits\<rparr>"

definition script_start :: "bytes list list \<Rightarrow> script" where
  "script_start replies = \<lparr>sc_time = 0, sc_replies = replies, sc_ready = [], sc_shut = False\<rparr>"

lemma script_ticking: "ticking script_ops sc_time 1"
  by (auto simp: ticking_def script_ops_def script_pump_def Let_def split: list.split)

definition sample_description :: call_description where
  "sample_description =
     \<lparr>cd_stage = ''value'', cd_fingerprint = [], cd_projection_id = [], cd_semantic_snapshot_id = [],
      cd_audit_snapshot_id = [], cd_pi_version = ascii ''1.4.0'', cd_adapter_version = ascii ''1'',
      cd_protocol_profile = ascii ''pi-rpc-1.4.0-v1'', cd_provider = ascii ''p'', cd_model = ascii ''m'',
      cd_protocol = ascii ''prompt_only'', cd_thinking_level = ascii ''low'', cd_temperature = None, cd_top_p = None,
      cd_policy_json = [], cd_system_prompt = ascii ''S'', cd_stage_input_payload = [], cd_user_payload_json = [],
      cd_sampling = ''provider_default'', cd_render_format = 1\<rparr>"

definition json_line :: "json_record \<Rightarrow> bytes" where
  "json_line kvs = frame_text kvs @ [10]"

definition text_pair :: "string \<Rightarrow> string \<Rightarrow> pystr \<times> json" where
  "text_pair k v = (ascii k, JStr (ascii v))"

definition answer :: "nat \<Rightarrow> string \<Rightarrow> json_record \<Rightarrow> json_record" where
  "answer i name data =
     [(ascii ''id'', JStr (command_id i)), text_pair ''type'' ''response'', text_pair ''command'' name,
      (ascii ''success'', JBool True), (ascii ''data'', JObj data)]"

text \<open>The data of the eight answers, with the members of every object in order.\<close>

definition state_data :: json_record where
  "state_data =
     [(ascii ''autoCompactionEnabled'', JBool False), (ascii ''isCompacting'', JBool False),
      (ascii ''isStreaming'', JBool False), (ascii ''messageCount'', JInt 0),
      (ascii ''model'', JObj [text_pair ''id'' ''m'', text_pair ''provider'' ''p'']),
      (ascii ''pendingMessageCount'', JInt 0), text_pair ''thinkingLevel'' ''low'']"

definition model_data :: json_record where
  "model_data = [text_pair ''id'' ''m'', text_pair ''provider'' ''p'']"

definition levels_data :: json_record where
  "levels_data = [(ascii ''levels'', JArr [JStr (ascii ''low'')])]"

definition usage_json :: json where
  "usage_json =
     JObj [(ascii ''cacheRead'', JInt 0), (ascii ''cacheWrite'', JInt 0),
       (ascii ''cost'', JObj [(ascii ''cacheRead'', JInt 0), (ascii ''cacheWrite'', JInt 0), (ascii ''input'', JInt 0),
          (ascii ''output'', JInt 0), (ascii ''total'', JInt 0)]),
       (ascii ''input'', JInt 3), (ascii ''output'', JInt 2), (ascii ''totalTokens'', JInt 5)]"

definition assistant_json :: "string \<Rightarrow> json list \<Rightarrow> json_record" where
  "assistant_json stop blocks =
     [text_pair ''api'' ''a'', (ascii ''content'', JArr blocks), text_pair ''model'' ''m'',
      text_pair ''provider'' ''p'', text_pair ''role'' ''assistant'', text_pair ''stopReason'' stop,
      (ascii ''timestamp'', JInt 0), (ascii ''usage'', usage_json)]"

definition system_json :: json_record where
  "system_json =
     [(ascii ''content'', JStr []), text_pair ''role'' ''system'',
      (ascii ''sections'', JObj [text_pair ''cwd'' ''/w'', text_pair ''preamble'' ''S'']),
      (ascii ''timestamp'', JInt 0)]"

definition user_json :: json_record where
  "user_json =
     [(ascii ''content'', JArr [JObj [text_pair ''text'' ''hi'', text_pair ''type'' ''text'']]),
      text_pair ''role'' ''user'', (ascii ''timestamp'', JInt 0)]"

definition final_json :: json_record where
  "final_json = assistant_json ''stop'' [JObj [text_pair ''text'' ''ok'', text_pair ''type'' ''text'']]"

definition event_record :: "string \<Rightarrow> json_record \<Rightarrow> json_record" where
  "event_record name kvs = text_pair ''type'' name # kvs"

definition turn_events :: "json_record list" where
  "turn_events =
     [event_record ''agent_start'' [], event_record ''turn_start'' [],
      event_record ''message_start'' [(ascii ''message'', JObj system_json)],
      event_record ''message_end'' [(ascii ''message'', JObj system_json)],
      event_record ''message_start'' [(ascii ''message'', JObj user_json)],
      event_record ''message_end'' [(ascii ''message'', JObj user_json)],
      event_record ''message_start'' [(ascii ''message'', JObj (assistant_json ''pending'' []))],
      event_record ''message_end'' [(ascii ''message'', JObj final_json)],
      event_record ''turn_end'' [(ascii ''message'', JObj final_json), (ascii ''toolResults'', JArr [])],
      event_record ''agent_end''
        [(ascii ''messages'', JArr [JObj system_json, JObj user_json, JObj final_json]),
         (ascii ''willRetry'', JBool False)],
      event_record ''agent_settled'' [(ascii ''aborted'', JBool False)]]"

definition sample_records :: "json_record list" where
  "sample_records =
     [answer 1 ''new_session'' [(ascii ''cancelled'', JBool False)], answer 2 ''set_auto_retry'' [],
      answer 3 ''set_auto_compaction'' [], answer 4 ''set_model'' model_data,
      answer 5 ''get_available_thinking_levels'' levels_data, answer 6 ''set_thinking_level'' [],
      answer 7 ''get_commands'' [(ascii ''commands'', JArr [])], answer 8 ''get_state'' state_data,
      answer 9 ''prompt'' [text_pair ''disposition'' ''started'']]"

definition sample_replies :: "bytes list list" where
  "sample_replies = map (\<lambda>r. [json_line r]) (take 8 sample_records) @
     [map json_line (drop 8 sample_records @ turn_events)]"

section \<open>Lines read back\<close>

definition said :: "json_record \<Rightarrow> bool" where
  "said r \<longleftrightarrow> feed id [] (json_line r) = Inr ([r], []) \<and> length (json_line r) \<le> 2000"

definition clean_text :: "pystr \<Rightarrow> bool" where
  "clean_text s \<longleftrightarrow> list_all (\<lambda>c. 32 \<le> c \<and> c < 128) s"

text \<open>Values whose texts are printable ASCII, with numbers of one digit, and the size of what they print as.\<close>

fun clean_json :: "json \<Rightarrow> bool" where
  "clean_json (JInt i) \<longleftrightarrow> 0 \<le> i \<and> i < 10"
| "clean_json (JFloat r) \<longleftrightarrow> False"
| "clean_json (JStr s) \<longleftrightarrow> clean_text s"
| "clean_json (JArr xs) \<longleftrightarrow> list_all clean_json xs"
| "clean_json (JObj kvs) \<longleftrightarrow> list_all (\<lambda>(k, v). clean_text k \<and> clean_json v) kvs"
| "clean_json j \<longleftrightarrow> True"

fun weight :: "json \<Rightarrow> nat" where
  "weight (JInt i) = 1"
| "weight (JStr s) = 2 * length s + 2"
| "weight (JArr xs) = sum_list (map (\<lambda>x. weight x + 1) xs) + 2"
| "weight (JObj kvs) = sum_list (map (\<lambda>(k, v). 2 * length k + weight v + 4) kvs) + 2"
| "weight j = 5"

lemma ascii_encode: "\<forall>c \<in> set s. c < 128 \<Longrightarrow> utf8_encode s = Some s"
  by (induction s)
    (auto simp: utf8_encode_def encodable_def encode_char_def high_surrogate_def low_surrogate_def split: if_splits)

lemma clean_print_string: "clean_text s \<Longrightarrow> clean_text (print_string s) \<and> length (print_string s) \<le> Suc (Suc (2 * length s))"
  by (induction s) (auto simp: print_string_def clean_text_def escape_char_def)

lemma clean_append [simp]: "clean_text (s @ t) \<longleftrightarrow> clean_text s \<and> clean_text t"
  by (simp add: clean_text_def)

lemma clean_Cons [simp]: "clean_text (c # s) \<longleftrightarrow> 32 \<le> c \<and> c < 128 \<and> clean_text s"
  by (simp add: clean_text_def)

lemma clean_Nil [simp]: "clean_text []"
  by (simp add: clean_text_def)

lemma clean_commas: "list_all clean_text xs \<Longrightarrow> clean_text (commas xs)"
  by (induction xs rule: induct_list012) auto

lemma length_commas: "length (commas xs) \<le> sum_list (map (\<lambda>x. length x + 1) xs)"
  by (induction xs rule: induct_list012) auto

lemma dec_digit: "0 \<le> i \<Longrightarrow> i < 10 \<Longrightarrow> dec_int i = [48 + nat i]"
  by (simp add: dec_int_def dec.simps)

lemma clean_members:
  assumes "\<forall>(k, v) \<in> set kvs. clean_text k \<and> clean_text (dumps v) \<and> length (dumps v) \<le> weight v"
  shows "clean_text (commas (map print_member kvs)) \<and>
    length (commas (map print_member kvs)) \<le> sum_list (map (\<lambda>(k, v). 2 * length k + weight v + 4) kvs)"
proof -
  have one: "clean_text (print_member kv) \<and> length (print_member kv) + 1 \<le> (\<lambda>(k, v). 2 * length k + weight v + 4) kv"
    if "kv \<in> set kvs" for kv
  proof -
    obtain k v where kv: "kv = (k, v)" by (cases kv)
    with assms that have "clean_text k" "clean_text (dumps v)" "length (dumps v) \<le> weight v" by auto
    with clean_print_string [of k] kv show ?thesis by (simp add: print_member_def)
  qed
  then have "list_all clean_text (map print_member kvs)" by (simp add: list_all_iff)
  moreover have "sum_list (map (\<lambda>x. length x + 1) (map print_member kvs))
      \<le> sum_list (map (\<lambda>(k, v). 2 * length k + weight v + 4) kvs)"
    unfolding map_map comp_def using one by (intro sum_list_mono) blast
  ultimately show ?thesis using clean_commas [of "map print_member kvs"] length_commas [of "map print_member kvs"] by simp
qed

lemma sum_sort_key: "sum_list (map f (sort_key g xs)) = sum_list (map f xs)" for f :: "'a \<Rightarrow> nat"
  by (metis mset_map mset_sort sum_mset_sum_list)

lemma clean_dumps: "clean_json j \<Longrightarrow> clean_text (dumps j) \<and> length (dumps j) \<le> weight j"
proof (induction j)
  case (JArr xs)
  then have "list_all clean_text (map dumps xs)" "\<forall>x \<in> set xs. length (dumps x) \<le> weight x" by (auto simp: list_all_iff)
  moreover from this(2) have "sum_list (map (\<lambda>x. length x + 1) (map dumps xs)) \<le> sum_list (map (\<lambda>x. weight x + 1) xs)"
    by (simp add: comp_def sum_list_mono)
  ultimately show ?case using clean_commas [of "map dumps xs"] length_commas [of "map dumps xs"] by simp
next
  case (JObj kvs)
  have "\<forall>(k, v) \<in> set (sort_key fst kvs). clean_text k \<and> clean_text (dumps v) \<and> length (dumps v) \<le> weight v"
    using JObj by (fastforce simp: list_all_iff)
  from clean_members [OF this] show ?case unfolding dumps_object by (simp add: sum_sort_key)
qed (auto simp: dec_digit clean_print_string ascii_def)

lemma clean_frame_text:
  assumes "clean_json (JObj r)"
  shows "clean_text (frame_text r)" "length (frame_text r) \<le> weight (JObj r)"
proof -
  have "\<forall>(k, v) \<in> set r. clean_text k \<and> clean_text (dumps v) \<and> length (dumps v) \<le> weight v"
    using assms clean_dumps by (fastforce simp: list_all_iff)
  from clean_members [OF this] show "clean_text (frame_text r)" "length (frame_text r) \<le> weight (JObj r)"
    by (simp_all add: frame_text_members)
qed

lemma said_record:
  assumes c: "clean_json (JObj r)" and p: "plain_json (JObj r)" and o: "\<forall>(k, v) \<in> set r. sorted_members v = v"
    and w: "weight (JObj r) < 2000"
  shows "said r"
proof -
  have t: "clean_text (frame_text r)" "length (frame_text r) < 2000" using clean_frame_text [OF c] w by simp_all
  then have chars: "\<forall>c \<in> set (frame_text r). c < 128 \<and> c \<noteq> 10" by (auto simp: clean_text_def list_all_iff)
  have e: "utf8_encode (frame_text r) = Some (frame_text r)" using chars by (intro ascii_encode) simp
  have dec: "utf8_decode (frame_text r) = Some (frame_text r)" by (rule decode_encoded [OF e]) (use chars in fastforce)
  have nolf: "10 \<notin> set (frame_text r)" using chars by auto
  have cr: "drop_cr (frame_text r) = frame_text r" by (simp add: drop_cr_def frame_text_def)
  have same: "map (\<lambda>(k, v). (k, sorted_members v)) r = r" using o by (intro map_idI) auto
  have "frame_loads id (frame_text r) = Inr (JObj r)"
    using loads_frame_text [OF p, of "frame_hooks id"] finite_plain [OF p]
    by (simp add: frame_loads_Inr same)
  then have "frame_record id (frame_text r) = Inr r" by (simp add: frame_record_def cr dec or_raise_def)
  moreover have "length (frame_text r) \<le> max_frame_bytes" using t(2) by (simp add: max_frame_bytes_def)
  ultimately show ?thesis
    using t(2) by (simp add: said_def json_line_def feed_def split_lf_line [OF nolf] extend_tail_def)
qed

lemmas sample_defs = sample_records_def turn_events_def answer_def event_record_def text_pair_def state_data_def
  model_data_def levels_data_def assistant_json_def system_json_def user_json_def final_json_def usage_json_def

lemma digits: "dec 0 = [48]" "dec (Suc 0) = [49]" "dec 2 = [50]" "dec 3 = [51]" "dec 4 = [52]" "dec 5 = [53]"
  "dec 6 = [54]" "dec 7 = [55]" "dec 8 = [56]" "dec 9 = [57]"
  by (simp_all add: dec.simps)

lemma sample_plain: "list_all (\<lambda>r. plain_json (JObj r)) (sample_records @ turn_events)"
  by (simp add: sample_defs ascii_def int_max_str_digits_def digits)

lemma sample_sorted: "list_all (\<lambda>r. \<forall>(k, v) \<in> set r. sorted_members v = v) (sample_records @ turn_events)"
  by (simp add: sample_defs ascii_def)

lemma sample_clean: "list_all (\<lambda>r. clean_json (JObj r)) (sample_records @ turn_events)"
  by (simp add: sample_defs ascii_def command_id_def digits)

lemma sample_weight: "list_all (\<lambda>r. weight (JObj r) < 2000) (sample_records @ turn_events)"
  by (simp add: sample_defs ascii_def command_id_def digits)

lemma sample_said: "list_all said (sample_records @ turn_events)"
  using sample_plain sample_sorted sample_clean sample_weight said_record
  unfolding list_all_iff by blast

section \<open>The commands of the sample\<close>

abbreviation sample_client :: "script logged rpc_client" where
  "sample_client \<equiv> logged_client script_client"

text \<open>The state of the sample: its clock and script, the log, and the connection, whose tail and records
  are empty between two steps.\<close>

definition conn_at :: "nat \<Rightarrow> nat \<Rightarrow> pystr option \<Rightarrow> bool \<Rightarrow> (pystr \<times> string) option \<Rightarrow> bool \<Rightarrow> connection" where
  "conn_at b k lvl pending awaiting settled =
     \<lparr>cn_total_deadline = 300, cn_tail = [], cn_records = [], cn_stdout_bytes = b, cn_stderr_bytes = 0,
      cn_stdout_eof = False, cn_stderr_eof = False, cn_exit_code = None, cn_command_no = k,
      cn_expected_level = lvl, cn_write_pending = pending, cn_awaiting = awaiting, cn_settled = settled,
      cn_uncancelled = False\<rparr>"

definition talk :: "seconds \<Rightarrow> bytes list list \<Rightarrow> bytes list \<Rightarrow> bool \<Rightarrow> bytes \<Rightarrow> connection \<Rightarrow> script logged rpc_state" where
  "talk t rs ready sh out c =
     \<lparr>rw_env = \<lparr>lg_env = \<lparr>sc_time = t, sc_replies = rs, sc_ready = ready, sc_shut = sh\<rparr>, lg_created = 1,
        lg_written = out, lg_terminated = [], lg_raised = []\<rparr>,
      rw_conn = c\<rparr>"

lemmas step_defs = pump_def check_time_def ask_cancelled_def receive_def observe_def event_ok_def io_then_def io_simps
  reply_result_def logged_client_def logged_ops_def note_clock_def script_client_def script_ops_def script_pump_def new_connection_def

lemma pump_idle:
  assumes "t + 1 < deadline" "t + 1 < 300" "b \<le> 100000"
  shows "pump sample_client [] deadline immediate closing (talk t rs [] False out (conn_at b k lvl p aw se)) =
    (Done 0, talk (t + 1) rs [] False out (conn_at b k lvl False aw se))"
  using assms by (simp add: talk_def conn_at_def step_defs Let_def max_stdout_bytes_def max_stderr_bytes_def)

lemma pump_writes:
  assumes "t + 1 < deadline" "t + 1 < 300" "b \<le> 100000" "f \<noteq> []"
  shows "pump sample_client f deadline False False (talk t (r # rs) [] False out (conn_at b k lvl p aw se)) =
    (Done (length f), talk (t + 1) rs r False (out @ f) (conn_at b k lvl False aw se))"
  using assms by (simp add: talk_def conn_at_def step_defs Let_def max_stdout_bytes_def max_stderr_bytes_def)

lemma read_next:
  assumes "t + 1 < deadline" "t + 1 < 300" "b \<le> 98000" "said r"
  shows "read_record sample_client (Suc n) deadline (talk t rs (json_line r # cs) False out (conn_at b k lvl p aw se)) =
    (Done r, talk (t + 1) rs cs False out (conn_at (b + length (json_line r)) k lvl False aw se))"
  using assms
  by (simp add: talk_def conn_at_def read_record_def pop_record_def await_record.simps [of _ "Suc n"] step_defs Let_def
      max_stdout_bytes_def max_stderr_bytes_def said_def await_record.simps [of _ n])

lemma conn_at_simps [simp]:
  "cn_records (conn_at b k lvl p aw se) = []" "cn_tail (conn_at b k lvl p aw se) = []"
  "cn_stdout_eof (conn_at b k lvl p aw se) = False" "cn_exit_code (conn_at b k lvl p aw se) = None"
  "cn_command_no (conn_at b k lvl p aw se) = k" "byte_counts (conn_at b k lvl p aw se) = (b, 0)"
  "cn_total_deadline (conn_at b k lvl p aw se) = 300" "cn_expected_level (conn_at b k lvl p aw se) = lvl"
  "(conn_at b k lvl p aw se)\<lparr>cn_command_no := j\<rparr> = conn_at b j lvl p aw se"
  "(conn_at b k lvl p aw se)\<lparr>cn_expected_level := m\<rparr> = conn_at b k m p aw se"
  "(conn_at b k lvl p aw se)\<lparr>cn_write_pending := q\<rparr> = conn_at b k lvl q aw se"
  "(conn_at b k lvl p aw se)\<lparr>cn_awaiting := v\<rparr> = conn_at b k lvl p v se"
  "(conn_at b k lvl p aw se)\<lparr>cn_settled := u\<rparr> = conn_at b k lvl p aw u"
  "rw_conn (talk t rs ready sh out c) = c" "(talk t rs ready sh out c)\<lparr>rw_conn := c'\<rparr> = talk t rs ready sh out c'"
  by (simp_all add: conn_at_def byte_counts_def talk_def)

lemma before_idle:
  assumes "t + 1 < deadline" "t + 1 < 300" "b \<le> 100000"
  shows "before_command sample_client (Suc n) deadline (talk t rs [] False out (conn_at b k lvl p aw se)) =
    (Done (), talk (t + 1) rs [] False out (conn_at b k lvl False aw se))"
  by (simp add: io_then_def io_simps pump_idle [OF assms])

lemma send_talk:
  assumes "t + 1 < deadline" "t + 1 < 300" "b \<le> 100000" "f \<noteq> []"
  shows "send_frame sample_client (Suc n) f deadline (talk t (r # rs) [] False out (conn_at b k lvl p aw se)) =
    (Done (), talk (t + 1) rs r False (out @ f) (conn_at b k lvl False aw se))"
proof -
  obtain x xs where f: "f = x # xs" using assms(4) by (cases f) simp_all
  have "send_rest sample_client (Suc n) f deadline (talk t (r # rs) [] False out (conn_at b k lvl p aw se)) =
    (Done (), talk (t + 1) rs r False (out @ f) (conn_at b k lvl False aw se))"
    unfolding f send_rest.simps
    using pump_writes [OF assms, of r rs out k lvl True aw se] by (simp add: io_simps io_then_def f)
  then show ?thesis by (simp add: send_frame_def io_then_def io_simps)
qed

lemma exchange_talk:
  assumes "said r" "response r (command_id (Suc k)) name = Inr data" "\<not> is_notification r"
    "command_frame (command_id (Suc k)) name args = Inr f" "f \<noteq> []" "t + 3 < deadline" "t + 3 < 300" "b \<le> 90000"
  shows "exchange sample_client (Suc n) name args deadline
      (talk t ([json_line r] # rs) [] False out (conn_at b k lvl False None False)) =
    (Done data, talk (t + 3) rs [] False (out @ f) (conn_at (b + length (json_line r)) (Suc k) lvl False None False))"
  using assms
  by (simp add: exchange_def io_then_def io_simps before_idle send_talk read_next add.commute del: before_command.simps)

lemma ascii_eq [simp]: "ascii a = ascii b \<longleftrightarrow> a = b"
  by (auto simp: ascii_def inj_map_eq_map [OF inj_on_subset [OF inj_of_char subset_UNIV]])

lemma ascii_size [simp]: "ascii s = [] \<longleftrightarrow> s = []" "length (ascii s) = length s"
  by (simp_all add: ascii_def)

lemma ascii_member: "member_of ((ascii a, v) # kvs) b = (if a = b then Some v else member_of kvs b)"
  by (simp add: member_of_def)

lemma member_Nil: "member_of [] b = None"
  by (simp add: member_of_def)

lemma answer_response: "response (answer k name data) (command_id k) name = Inr data"
  by (simp add: response_def answer_def text_pair_def ascii_member text_is_def a_bool_def)

lemma answer_not_notification: "\<not> is_notification (answer k name data)"
  by (simp add: is_notification_def answer_def text_pair_def ascii_member text_is_def)

lemma clean_frame:
  assumes "clean_json (JObj (command_record i name args))"
  shows "command_frame i name args = Inr (json_line (command_record i name args))"
proof -
  let ?r = "command_record i name args"
  have "clean_text (frame_text ?r)" by (rule clean_frame_text [OF assms])
  then have "utf8_encode (frame_text ?r) = Some (frame_text ?r)"
    by (intro ascii_encode) (auto simp: clean_text_def list_all_iff)
  then show ?thesis by (simp add: command_frame_def json_line_def or_raise_def)
qed

lemma exchange_answer:
  assumes "said (answer (Suc k) name data)" "clean_json (JObj (command_record (command_id (Suc k)) name args))"
    "t + 3 < deadline" "t + 3 < 300" "b \<le> 2000 * k" "k < 20"
  shows "\<exists>c out'. c \<le> 2000 * Suc k \<and>
    exchange sample_client (Suc n) name args deadline
      (talk t ([json_line (answer (Suc k) name data)] # rs) [] False out (conn_at b k lvl False None False)) =
    (Done data, talk (t + 3) rs [] False out' (conn_at c (Suc k) lvl False None False))"
proof -
  let ?r = "answer (Suc k) name data" and ?f = "json_line (command_record (command_id (Suc k)) name args)"
  have "?f \<noteq> []" by (simp add: json_line_def)
  from exchange_talk [OF assms(1) answer_response answer_not_notification clean_frame [OF assms(2)] this assms(3,4),
      of b n rs out lvl] assms(1,5,6)
  show ?thesis by (intro exI [of _ "b + length (json_line ?r)"] exI [of _ "out @ ?f"]) (simp add: said_def)
qed

lemma sample_records_said: "list_all said sample_records" "list_all said turn_events"
  using sample_said by (simp_all add: list_all_append)

text \<open>A step that goes through a list of answers, one exchange each.\<close>

definition goes ::
    "nat \<Rightarrow> pystr option \<Rightarrow> json_record list \<Rightarrow> pystr option \<Rightarrow> (script logged rpc_state, 'a) io \<Rightarrow> 'a \<Rightarrow> bool" where
  "goes k lvl ss lvl' f x \<longleftrightarrow>
     (\<forall>t b out rs. t + 3 * of_nat (length ss) < 30 \<and> b \<le> 2000 * k \<longrightarrow>
        (\<exists>c out'. c \<le> 2000 * (k + length ss) \<and>
           f (talk t (map (\<lambda>r. [json_line r]) ss @ rs) [] False out (conn_at b k lvl False None False)) =
           (Done x, talk (t + 3 * of_nat (length ss)) rs [] False out'
              (conn_at c (k + length ss) lvl' False None False))))"

lemma goes_exchange:
  assumes "said (answer (Suc k) name data)" "clean_json (JObj (command_record (command_id (Suc k)) name args))" "k < 20"
  shows "goes k lvl [answer (Suc k) name data] lvl (exchange sample_client (Suc n) name args 30) data"
  unfolding goes_def
proof (intro allI impI)
  fix t b out rs
  assume "t + 3 * of_nat (length [answer (Suc k) name data]) < (30::seconds) \<and> b \<le> 2000 * k"
  then have "t + 3 < (30::seconds)" "t + 3 < 300" "b \<le> 2000 * k" by simp_all
  from exchange_answer [OF assms(1,2) this assms(3), of n rs out lvl]
  show "\<exists>c out'. c \<le> 2000 * (k + length [answer (Suc k) name data]) \<and>
      exchange sample_client (Suc n) name args 30
        (talk t (map (\<lambda>r. [json_line r]) [answer (Suc k) name data] @ rs) [] False out (conn_at b k lvl False None False)) =
      (Done data, talk (t + 3 * of_nat (length [answer (Suc k) name data])) rs [] False out'
         (conn_at c (k + length [answer (Suc k) name data]) lvl False None False))"
    by simp
qed

lemma goes_then:
  assumes f: "goes k lvl ss l1 f x" and g: "goes (k + length ss) l1 qs l2 (g x) y"
  shows "goes k lvl (ss @ qs) l2 (io_then f g) y"
  unfolding goes_def
proof (intro allI impI)
  fix t :: seconds and b out rs
  let ?m = "map (\<lambda>r. [json_line r])"
  assume t: "t + 3 * of_nat (length (ss @ qs)) < 30 \<and> b \<le> 2000 * k"
  then have "t + 3 * of_nat (length ss) + 3 * of_nat (length qs) < (30::seconds)" by (simp add: algebra_simps)
  moreover have "0 \<le> (of_nat (length qs) :: seconds)" by simp
  ultimately have "t + 3 * of_nat (length ss) < 30" "t + 3 * of_nat (length ss) + 3 * of_nat (length qs) < 30"
    by linarith+
  then obtain c o1 d o2 where
    "c \<le> 2000 * (k + length ss)" "f (talk t (?m ss @ ?m qs @ rs) [] False out (conn_at b k lvl False None False)) =
      (Done x, talk (t + 3 * of_nat (length ss)) (?m qs @ rs) [] False o1 (conn_at c (k + length ss) l1 False None False))"
    "d \<le> 2000 * (k + length ss + length qs)"
    "g x (talk (t + 3 * of_nat (length ss)) (?m qs @ rs) [] False o1 (conn_at c (k + length ss) l1 False None False)) =
      (Done y, talk (t + 3 * of_nat (length ss) + 3 * of_nat (length qs)) rs [] False o2
        (conn_at d (k + length ss + length qs) l2 False None False))"
    using f [unfolded goes_def] g [unfolded goes_def] t by blast
  then show "\<exists>c out'. c \<le> 2000 * (k + length (ss @ qs)) \<and>
      io_then f g (talk t (?m (ss @ qs) @ rs) [] False out (conn_at b k lvl False None False)) =
      (Done y, talk (t + 3 * of_nat (length (ss @ qs))) rs [] False out'
        (conn_at c (k + length (ss @ qs)) l2 False None False))"
    by (intro exI [of _ d] exI [of _ o2]) (simp add: io_then_def algebra_simps)
qed

lemma goes_Cons: "goes k lvl [s] l1 f x \<Longrightarrow> goes (Suc k) l1 qs l2 (g x) y \<Longrightarrow> goes k lvl (s # qs) l2 (io_then f g) y"
  using goes_then [of k lvl "[s]" l1 f x qs l2 g y] by simp

lemma goes_skip: "goes k lvl [] l1 f x \<Longrightarrow> goes k l1 qs l2 (g x) y \<Longrightarrow> goes k lvl qs l2 (io_then f g) y"
  using goes_then [of k lvl "[]" l1 f x qs l2 g y] by simp

lemma goes_outcome: "x = Inr () \<Longrightarrow> goes k lvl [] lvl (io_outcome x) ()"
  by (auto simp: goes_def io_simps)

lemma goes_check: "P \<Longrightarrow> goes k lvl [] lvl (io_check P r) ()"
  by (auto simp: goes_def io_simps)

lemma goes_level: "goes k lvl [] l (io_update (\<lambda>c. c\<lparr>cn_expected_level := l\<rparr>)) ()"
  by (auto simp: goes_def io_simps)

lemma goes_no_records: "goes k lvl [] lvl (io_then (io_conn cn_records) (\<lambda>rs. io_check (rs = []) r)) ()"
  by (auto simp: goes_def io_simps io_then_def)

lemma goes_answer:
  "m = Suc k \<Longrightarrow> said (answer m name data) \<Longrightarrow> clean_json (JObj (command_record (command_id m) name args)) \<Longrightarrow> k < 20 \<Longrightarrow>
     goes k lvl [answer m name data] lvl (exchange sample_client (Suc n) name args 30) data"
  using goes_exchange by simp

lemmas goes_rules = goes_Cons [OF goes_answer] goes_skip [OF goes_outcome] goes_skip [OF goes_check]
  goes_skip [OF goes_level] goes_no_records

lemma clean_ascii [simp]: "clean_text (ascii s) \<longleftrightarrow> list_all (\<lambda>c. 32 \<le> (of_char c :: nat) \<and> of_char c < (128 :: nat)) s"
  by (simp add: clean_text_def ascii_def list.pred_map comp_def)

lemma command_clean:
  assumes "0 < m" "m < 10" "clean_text (ascii name)" "clean_json (JObj args)"
  shows "clean_json (JObj (command_record (command_id m) name args))"
proof -
  have "command_id m = ascii ''rpc-'' @ [48 + m]" using assms(1,2) by (simp add: command_id_def dec.simps)
  with assms show ?thesis by (simp add: command_record_def)
qed

lemma sample_levels:
  "session_ready [(ascii ''cancelled'', JBool False)] = Inr ()" "match_model (Some (JObj model_data)) sample_description = Inr ()"
  "levels_ok sample_description levels_data" "match_model (member_of state_data ''model'') sample_description = Inr ()"
  "member_of [(ascii ''commands'', JArr [])] ''commands'' = Some (JArr [])"
  "member_of state_data ''thinkingLevel'' = Some (JStr (cd_thinking_level sample_description))" "clean_state state_data"
  by (simp_all add: session_ready_def match_model_def levels_ok_def clean_state_def state_data_def model_data_def
      levels_data_def sample_description_def text_pair_def ascii_member member_Nil thinking_levels_def)

lemma initialize_talk:
  "goes 0 None (take 8 sample_records) (Some (ascii ''low'')) (initialize sample_client (Suc n) sample_description 30) ()"
proof -
  note s = sample_records_said(1) [unfolded sample_records_def list.pred_inject One_nat_def]
  have t: "take 8 sample_records = [answer 1 ''new_session'' [(ascii ''cancelled'', JBool False)], answer 2 ''set_auto_retry'' [],
      answer 3 ''set_auto_compaction'' [], answer 4 ''set_model'' model_data,
      answer 5 ''get_available_thinking_levels'' levels_data, answer 6 ''set_thinking_level'' [],
      answer 7 ''get_commands'' [(ascii ''commands'', JArr [])], answer 8 ''get_state'' state_data]"
    by (simp add: sample_records_def)
  have l: "cd_thinking_level sample_description = ascii ''low''" by (simp add: sample_description_def)
  show ?thesis
    unfolding initialize_def t l
    by (rule goes_rules refl sample_levels command_clean | simp add: s sample_levels sample_description_def)+
qed

section \<open>The turn of the sample\<close>

abbreviation sample_setup :: run_setup where
  "sample_setup \<equiv> \<lparr>st_description = sample_description, st_user_message = ascii ''hi'', st_cwd_section = None\<rparr>"

lemma sample_prompt: "utf8_decode (ascii ''S'') = Some (ascii ''S'')" "utf8_decode (ascii ''hi'') = Some (ascii ''hi'')"
  by (rule decode_encoded [OF ascii_encode]; simp add: ascii_def)+

lemma same_texts:
  "same_json (JObj system_json) (JObj system_json)" "same_json (JObj user_json) (JObj user_json)"
  "same_json (JObj final_json) (JObj final_json)"
  by (simp_all add: system_json_def user_json_def final_json_def assistant_json_def usage_json_def text_pair_def)

lemma sample_messages:
  "system_message sample_setup (event_record name [(ascii ''message'', JObj system_json)]) e =
     and_then (keep_copy system_json (ev_system e)) (\<lambda>c. Inr (e\<lparr>ev_system := c\<rparr>))"
  "user_event sample_setup (event_record name [(ascii ''message'', JObj user_json)]) e =
     and_then (keep_copy user_json (ev_user e)) (\<lambda>c. Inr (e\<lparr>ev_user := c\<rparr>))"
  by (simp_all add: system_message_def user_event_def message_for_def system_json_def user_json_def event_record_def
      text_pair_def ascii_member member_Nil text_is_def number_ok_def require_def system_sections_ok_def present_def
      user_content_ok_def a_text_def sample_description_def sample_prompt insert_commute)

lemma sample_assistant:
  "ev_position e = At_Assistant_Start \<Longrightarrow>
     assistant_message sample_setup (event_record name [(ascii ''message'', JObj (assistant_json ''pending'' []))]) e = Inr e"
  "ev_position e \<noteq> At_Assistant_Start \<Longrightarrow>
     assistant_message sample_setup (event_record name [(ascii ''message'', JObj final_json)]) e =
     Inr (e\<lparr>ev_final := Some final_json,
       ev_candidate := Some \<lparr>rp_raw_response = ascii ''ok'', rp_provider = ascii ''p'', rp_model = ascii ''m'',
         rp_input_tokens = Some 3, rp_output_tokens = Some 2\<rparr>\<rparr>)"
proof -
  have "utf8_encode (ascii ''ok'') = Some (ascii ''ok'')" by (rule ascii_encode) (simp add: ascii_def)
  then show "ev_position e = At_Assistant_Start \<Longrightarrow>
     assistant_message sample_setup (event_record name [(ascii ''message'', JObj (assistant_json ''pending'' []))]) e = Inr e"
    "ev_position e \<noteq> At_Assistant_Start \<Longrightarrow>
     assistant_message sample_setup (event_record name [(ascii ''message'', JObj final_json)]) e =
     Inr (e\<lparr>ev_final := Some final_json,
       ev_candidate := Some \<lparr>rp_raw_response = ascii ''ok'', rp_provider = ascii ''p'', rp_model = ascii ''m'',
         rp_input_tokens = Some 3, rp_output_tokens = Some 2\<rparr>\<rparr>)"
    by (simp_all add: assistant_message_def message_for_def final_json_def assistant_json_def usage_json_def
        event_record_def text_pair_def ascii_member member_Nil text_is_def text_in_def number_ok_def require_def present_def
        assistant_texts_def full_text_def stop_reasons_def thinking_level_ok_def content_block_def a_text_def text_value_def
        message_usage_def usage_counts_def usage_costs_def natural_def int_value_def candidate_of_def or_raise_def
        max_candidate_bytes_def Let_def)
qed

lemma sample_turn:
  "accept_events sample_setup turn_events new_events =
     Inr \<lparr>ev_position = At_Complete, ev_system = Some system_json, ev_user = Some user_json, ev_final = Some final_json,
       ev_candidate = Some \<lparr>rp_raw_response = ascii ''ok'', rp_provider = ascii ''p'', rp_model = ascii ''m'',
         rp_input_tokens = Some 3, rp_output_tokens = Some 2\<rparr>\<rparr>"
proof -
  have k: "member_of (event_record name kvs) ''type'' = Some (JStr (ascii name))" for name kvs
    by (simp add: event_record_def text_pair_def ascii_member)
  have "keep_copy m None = Inr (Some m)" for m by (simp add: keep_copy_def)
  moreover have "keep_copy system_json (Some system_json) = Inr (Some system_json)"
    "keep_copy user_json (Some user_json) = Inr (Some user_json)"
    by (simp_all add: keep_copy_def same_texts del: same_json.simps(1))
  ultimately show ?thesis
    by (simp add: turn_events_def accept_event_def check_event_def new_events_def k text_is_def text_in_def event_names_def
        sample_messages sample_assistant same_copy_def copies_def require_def)
      (simp add: event_record_def text_pair_def ascii_member same_texts del: same_json.simps(1))
qed

lemma accept_not_settled: "accept_event st r e = Inr e' \<Longrightarrow> \<not> events_settled e"
  by (auto simp: accept_event_def events_settled_def Let_def split: if_splits)

lemma loop_talk:
  assumes "accept_events st rs e = Inr e'" "events_settled e'" "\<not> events_settled e" "list_all said rs"
    "\<forall>r \<in> set rs. \<not> text_is (member_of r ''type'') ''response''"
    "t + of_nat (length rs) < 300" "b + 2000 * length rs \<le> 98000" "length rs \<le> m"
  shows "\<exists>c. run_events_loop sample_client (Suc n) m st True False e
      (talk t qs (map json_line rs) False out (conn_at b k lvl False None False)) =
    (Done e', talk (t + of_nat (length rs)) qs [] True out (conn_at c k lvl False None True)) \<and> c \<le> 98000"
  using assms
proof (induction rs arbitrary: e t b m)
  case Nil
  then show ?case by simp
next
  case (Cons r rs)
  from Cons.prems(1) obtain e1 where e1: "accept_event st r e = Inr e1" "accept_events st rs e1 = Inr e'"
    by (auto simp: result_simps)
  from Cons.prems(8) obtain j where m: "m = Suc j" by (cases m) auto
  have t: "t + 1 < 300" "t + 1 + of_nat (length rs) < 300" using Cons.prems(6) by auto
  let ?b = "b + length (json_line r)"
  have r: "said r" "length (json_line r) \<le> 2000" "\<not> text_is (member_of r ''type'') ''response''"
    using Cons.prems(4,5) by (auto simp: said_def)
  have b: "b \<le> 96000" "?b + 2000 * length rs \<le> 98000" using Cons.prems(7) r(2) by simp_all
  have read: "read_record sample_client (Suc n) 300 (talk t qs (json_line r # map json_line rs) False out
      (conn_at b k lvl False None False)) =
    (Done r, talk (t + 1) qs (map json_line rs) False out (conn_at ?b k lvl False None False))"
    using read_next [OF t(1) t(1) _ r(1), of b n] b(1) by simp
  have step: "event_step st r True e w = (Done (True, e1), w)" for w :: "script logged rpc_state"
    using r(3) e1(1) by (simp add: event_step_def io_then_def io_simps)
  have loop: "run_events_loop sample_client (Suc n) m st True False e
      (talk t qs (map json_line (r # rs)) False out (conn_at b k lvl False None False)) =
    io_then (shut_step sample_client False e1)
      (\<lambda>_. run_events_loop sample_client (Suc n) j st True (events_settled e1) e1)
      (talk (t + 1) qs (map json_line rs) False out (conn_at ?b k lvl False None False))"
    using Cons.prems(3) by (subst run_events_loop_step) (simp add: m io_then_def io_simps read step)
  show ?case
  proof (cases "events_settled e1")
    case True
    then have "rs = []" "e1 = e'" using e1(2) accept_not_settled by (cases rs; auto simp: result_simps)+
    moreover have "run_events_loop sample_client (Suc n) j st True True e1 w = (Done e1, w)" for w
      using True by (subst run_events_loop_step) simp
    moreover have "shut_step sample_client False e1 (talk u qs [] False out (conn_at c k lvl False None False)) =
        (Done (), talk u qs [] True out (conn_at c k lvl False None True))" for u c
      using True by (simp add: shut_step_def io_then_def io_simps talk_def conn_at_def logged_client_def logged_ops_def
          script_client_def script_ops_def reply_result_def)
    ultimately show ?thesis using True b(2) unfolding loop by (auto simp: io_then_def)
  next
    case False
    have "length rs \<le> j" using Cons.prems(8) m by simp
    from Cons.IH [OF e1(2) Cons.prems(2) False _ _ t(2) b(2) this] Cons.prems(4,5) obtain c where
      "run_events_loop sample_client (Suc n) j st True False e1
        (talk (t + 1) qs (map json_line rs) False out (conn_at ?b k lvl False None False)) =
      (Done e', talk (t + 1 + of_nat (length rs)) qs [] True out (conn_at c k lvl False None True))" "c \<le> 98000"
      by auto
    with False show ?thesis unfolding loop by (auto simp: shut_step_def io_then_def io_simps add.assoc)
  qed
qed

text \<open>The end of the session.\<close>

definition conn_ended :: "nat \<Rightarrow> nat \<Rightarrow> pystr option \<Rightarrow> connection" where
  "conn_ended b k lvl = (conn_at b k lvl False None True)\<lparr>cn_stdout_eof := True, cn_stderr_eof := True, cn_exit_code := Some 0\<rparr>"

lemma await_end_talk:
  assumes "t + 1 < deadline" "t + 1 < 300" "b \<le> 100000"
  shows "await_end sample_client (Suc n) deadline (talk t rs [] True out (conn_at b k lvl False None True)) =
    (Done (), talk (t + 1) rs [] True out (conn_ended b k lvl))"
proof -
  have p: "pump sample_client [] deadline False True (talk t rs [] True out (conn_at b k lvl False None True)) =
      (Done 0, talk (t + 1) rs [] True out (conn_ended b k lvl))"
    using assms by (simp add: talk_def conn_at_def conn_ended_def step_defs Let_def max_stdout_bytes_def
        max_stderr_bytes_def finish_frames_def require_def)
  have "ended (conn_ended b k lvl)" "cn_records (conn_ended b k lvl) = []" "\<not> ended (conn_at b k lvl False None True)"
    by (simp_all add: ended_def conn_ended_def)
  then show ?thesis
    by (subst await_end.simps) (simp add: io_then_def io_simps p await_end.simps [of _ n])
qed

lemma turn_said: "list_all said turn_events" "length turn_events = 11"
  "\<forall>r \<in> set turn_events. \<not> text_is (member_of r ''type'') ''response''"
  using sample_records_said(2)
  by (simp_all add: turn_events_def event_record_def text_pair_def ascii_member text_is_def)

abbreviation sample_candidate :: rpc_candidate where
  "sample_candidate \<equiv> \<lparr>rp_raw_response = ascii ''ok'', rp_provider = ascii ''p'', rp_model = ascii ''m'',
     rp_input_tokens = Some 3, rp_output_tokens = Some 2\<rparr>"

abbreviation sample_prompt_record :: json_record where
  "sample_prompt_record \<equiv> command_record (command_id 9) ''prompt'' (prompt_args (ascii ''hi''))"

lemma sample_prompt_clean: "clean_json (JObj sample_prompt_record)" "length (frame_text sample_prompt_record) < 1000"
proof -
  show c: "clean_json (JObj sample_prompt_record)" by (rule command_clean) (simp_all add: prompt_args_def)
  have "weight (JObj sample_prompt_record) < 1000"
    by (simp add: command_record_def prompt_args_def command_id_def dec.simps)
  with clean_frame_text(2) [OF c] show "length (frame_text sample_prompt_record) < 1000" by simp
qed

lemma sample_prompt_frame: "prompt_frame (ascii ''hi'') = Inr (json_line sample_prompt_record)"
  using sample_prompt_clean(2)
  by (simp add: prompt_frame_def or_raise_def sample_prompt(2) prompt_command_no_def clean_frame [OF sample_prompt_clean(1)]
      max_request_bytes_def json_line_def)

lemma run_prompt_talk:
  assumes "b \<le> 70000"
  shows "\<exists>c out'. run_prompt sample_client 20 sample_description (ascii ''hi'') None
      (talk 25 [map json_line (drop 8 sample_records @ turn_events)] [] False out (conn_at b 8 lvl False None False)) =
    (Done sample_candidate, talk 40 [] [] True out' (conn_ended c 9 lvl))"
proof -
  let ?f = "json_line (command_record (command_id 9) ''prompt'' (prompt_args (ascii ''hi'')))"
  let ?a = "answer 9 ''prompt'' [text_pair ''disposition'' ''started'']"
  have d: "drop 8 sample_records = [?a]" by (simp add: sample_records_def)
  have a: "said ?a" using sample_records_said(1) by (simp add: sample_records_def)
  have ack: "prompt_acknowledged ?a False = Inr ()" "text_is (member_of ?a ''type'') ''response''"
    using answer_response [of 9 "''prompt''" "[text_pair ''disposition'' ''started'']"]
    by (simp_all add: prompt_acknowledged_def require_def prompt_command_no_def text_pair_def ascii_member text_is_def
        answer_def)
  have f: "?f \<noteq> []" by (simp add: json_line_def)
  let ?c = "conn_at b 9 lvl False (Some (command_id 9, ''prompt'')) False"
  let ?rs = "[map json_line (?a # turn_events)]"
  have 1: "before_command sample_client 20 300 (talk 25 ?rs [] False out (conn_at b 8 lvl False None False)) =
      (Done (), talk 26 ?rs [] False out (conn_at b 8 lvl False None False))"
    using before_idle [of 25 300 b 19 ?rs out 8 lvl False None False] assms by (simp del: before_command.simps)
  have 2: "send_frame sample_client 20 ?f 300 (talk 26 ?rs [] False out ?c) =
      (Done (), talk 27 [] (map json_line (?a # turn_events)) False (out @ ?f) ?c)"
    using send_talk [of 26 300 b ?f 19] f assms by simp
  let ?b = "b + length (json_line ?a)"
  have 3: "read_record sample_client 20 300 (talk 27 [] (map json_line (?a # turn_events)) False (out @ ?f) ?c) =
      (Done ?a, talk 28 [] (map json_line turn_events) False (out @ ?f)
        (conn_at ?b 9 lvl False (Some (command_id 9, ''prompt'')) False))"
    using read_next [of 27 300 b ?a 19] a assms by simp
  have "\<not> events_settled new_events" by (simp add: new_events_def events_settled_def)
  moreover have "event_step st ?a False e w = (Done (True, e), w\<lparr>rw_conn := (rw_conn w)\<lparr>cn_awaiting := None\<rparr>\<rparr>)"
    for st e and w :: "script logged rpc_state"
    using ack by (simp add: event_step_def io_then_def io_simps)
  moreover have "(20 :: nat) = Suc 19" by simp
  ultimately have loop: "run_events_loop sample_client 20 20 sample_setup False False new_events
      (talk 27 [] (map json_line (?a # turn_events)) False (out @ ?f) ?c) =
    run_events_loop sample_client 20 19 sample_setup True False new_events
      (talk 28 [] (map json_line turn_events) False (out @ ?f) (conn_at ?b 9 lvl False None False))"
    by (subst run_events_loop_step) (simp add: io_then_def io_simps 3 [simplified] shut_step_def)
  have "?b + 2000 * length turn_events \<le> 98000" using a assms by (simp add: said_def turn_said)
  then obtain c where c: "c \<le> 98000"
    "run_events_loop sample_client 20 19 sample_setup True False new_events
      (talk 28 [] (map json_line turn_events) False (out @ ?f) (conn_at ?b 9 lvl False None False)) =
    (Done \<lparr>ev_position = At_Complete, ev_system = Some system_json, ev_user = Some user_json, ev_final = Some final_json,
       ev_candidate = Some sample_candidate\<rparr>, talk 39 [] [] True (out @ ?f) (conn_at c 9 lvl False None True))"
    using loop_talk [OF sample_turn _ _ turn_said(1,3), of 28 ?b 19 19 "[]" "out @ ?f" 9 lvl] turn_said(2)
    by (auto simp: new_events_def events_settled_def)
  have 4: "await_end sample_client 20 49 (talk 39 [] [] True (out @ ?f) (conn_at c 9 lvl False None True)) =
      (Done (), talk 40 [] [] True (out @ ?f) (conn_ended c 9 lvl))"
    using await_end_talk [of 39 49 c 19] c(1) by simp
  have clock: "op_clock (cl_ops sample_client) (rw_env (talk t rs cs sh o' k)) = (Returned t, rw_env (talk t rs cs sh o' k))"
    "(talk t rs cs sh o' k)\<lparr>rw_env := rw_env (talk t rs cs sh o' k)\<rparr> = talk t rs cs sh o' k"
    "lm_close (cl_limits sample_client) = 10" for t rs cs sh o' k
    by (simp_all add: talk_def logged_client_def logged_ops_def note_clock_def script_client_def script_ops_def default_limits_def)
  show ?thesis
    unfolding run_prompt_def d
    by (simp add: io_then_def io_simps or_raise_def sample_prompt(2) 1 [simplified] sample_prompt_frame prompt_command_no_def
      2 [simplified] loop [simplified] c clock reply_result_def 4 del: before_command.simps)
     auto
qed

section \<open>The sample call\<close>

lemma converse_talk:
  "\<exists>c out. converse sample_client 20 sample_description (ascii ''hi'') None 0
      (talk 0 sample_replies [] False [] (conn_at 0 0 None False None False)) =
    (Done sample_candidate, talk 40 [] [] True out (conn_ended c 9 (Some (ascii ''low''))))"
proof -
  let ?last = "[map json_line (drop 8 sample_records @ turn_events)]"
  have l: "lm_initialization (cl_limits sample_client) = 30"
    by (simp add: logged_client_def script_client_def default_limits_def)
  have 1: "pump sample_client [] 30 True False (talk 0 sample_replies [] False [] (conn_at 0 0 None False None False)) =
      (Done 0, talk 1 sample_replies [] False [] (conn_at 0 0 None False None False))"
    using pump_idle [of 0 30 0] by simp
  have "length (take 8 sample_records) = 8" by (simp add: sample_records_def)
  then obtain c o1 where c: "c \<le> 16000" and
    2: "initialize sample_client 20 sample_description 30
      (talk 1 sample_replies [] False [] (conn_at 0 0 None False None False)) =
      (Done (), talk 25 ?last [] False o1 (conn_at c 8 (Some (ascii ''low'')) False None False))"
    using initialize_talk [of 19, unfolded goes_def, rule_format, of 1 0 ?last "[]"]
    by (auto simp: sample_replies_def)
  obtain c2 o2 where 3: "run_prompt sample_client 20 sample_description (ascii ''hi'') None
      (talk 25 ?last [] False o1 (conn_at c 8 (Some (ascii ''low'')) False None False)) =
      (Done sample_candidate, talk 40 [] [] True o2 (conn_ended c2 9 (Some (ascii ''low''))))"
    using run_prompt_talk [of c o1 "Some (ascii ''low'')"] c by auto
  have 4: "check_time sample_client 300 True (talk 40 [] [] True o2 (conn_ended c2 9 (Some (ascii ''low'')))) =
      (Done 260, talk 40 [] [] True o2 (conn_ended c2 9 (Some (ascii ''low''))))"
    by (simp add: talk_def conn_ended_def conn_at_def step_defs Let_def)
  show ?thesis
    unfolding converse_def
    by (simp add: io_then_def io_simps l 1 2 [simplified] 3 [simplified] 4) auto
qed

lemma sample_description_ok: "description_ok sample_description default_limits"
  by (simp add: description_ok_def sample_description_def default_limits_def protocol_profiles_def thinking_levels_def
      sample_prompt)

lemma sample_call:
  "\<exists>s'. run_call sample_client 20 sample_description (ascii ''hi'') None (fresh_log (script_start sample_replies)) =
     (Candidate_Result sample_candidate, s') \<and> lg_created s' = 1"
proof -
  obtain c out where conv: "converse sample_client 20 sample_description (ascii ''hi'') None 0
      (talk 0 sample_replies [] False [] (conn_at 0 0 None False None False)) =
    (Done sample_candidate, talk 40 [] [] True out (conn_ended c 9 (Some (ascii ''low''))))"
    using converse_talk by blast
  have start: "\<lparr>rw_env = \<lparr>lg_env = script_start sample_replies, lg_created = 1, lg_written = [], lg_terminated = [], lg_raised = []\<rparr>,
      rw_conn = new_connection 300\<rparr> = talk 0 sample_replies [] False [] (conn_at 0 0 None False None False)"
    by (simp add: talk_def script_start_def conn_at_def new_connection_def)
  note ok = sample_description_ok
  have l: "cl_limits sample_client = default_limits" "lm_total default_limits = 300"
    by (simp_all add: logged_client_def script_client_def default_limits_def)
  have env: "start_reading sample_client (fresh_log (script_start rs)) = (Returned (0, False), fresh_log (script_start rs))"
    "op_create (cl_ops sample_client) d (fresh_log (script_start rs)) =
      (Returned (), \<lparr>lg_env = script_start rs, lg_created = 1, lg_written = [], lg_terminated = [], lg_raised = []\<rparr>)" for rs d
    by (simp_all add: start_reading_def reply_then_def logged_client_def logged_ops_def note_clock_def script_client_def
        script_ops_def fresh_log_def script_start_def)
  have "\<exists>w. conclude sample_client sample_candidate (talk 40 [] [] True out (conn_ended c 9 lvl)) =
      ((Done sample_candidate, \<lparr>ck_deadline = Some 50, ck_finished = True\<rparr>), w) \<and> lg_created (rw_env w) = 1" for lvl
    by (simp add: conclude_def cleanup_deadline_def reply_then_def cleanup_def attempt_twice_def terminate_by_def talk_def conn_ended_def conn_at_def step_defs
        Let_def default_limits_def)
  then obtain w where w: "conclude sample_client sample_candidate (talk 40 [] [] True out (conn_ended c 9 (Some (ascii ''low'')))) =
      ((Done sample_candidate, \<lparr>ck_deadline = Some 50, ck_finished = True\<rparr>), w)" "lg_created (rw_env w) = 1"
    by blast
  show ?thesis
    by (simp add: run_call_def l ok sample_prompt_frame env run_session_def Let_def start [simplified] conv w handle_def)
qed

section \<open>A clock that raises\<close>

text \<open>A session whose first pump fails, under a clock that gives the listed answers and then the time zero.\<close>

definition raising_ops :: "seconds reply list session_ops" where
  "raising_ops =
     \<lparr>op_create = (\<lambda>d s. (Returned (), s)), op_pump = (\<lambda>b t s. (Failing, s)), op_close = (\<lambda>s. (Returned (), s)),
      op_terminate = (\<lambda>t s. (Returned (), s)),
      op_clock = (\<lambda>s. case s of [] \<Rightarrow> (Returned 0, []) | r # rs \<Rightarrow> (r, rs)),
      op_cancelled = (\<lambda>s. (Returned False, s))\<rparr>"

definition raising_client :: "seconds reply list rpc_client" where
  "raising_client = \<lparr>cl_ops = raising_ops, cl_float = id, cl_limits = default_limits\<rparr>"

lemmas raising_defs = raising_client_def raising_ops_def logged_client_def logged_ops_def fresh_log_def note_clock_def
  start_reading_def reply_then_def run_session_def converse_def pump_def check_time_def ask_cancelled_def io_then_def io_simps
  new_connection_def default_limits_def reply_result_def handle_def compensate_def compensate_once_def
  cleanup_deadline_def cleanup_def attempt_twice_def terminate_by_def

text \<open>The clock is interrupted in the conversation and again in the compensation: the session is terminated.\<close>

lemma raising_call:
  assumes "cs = [Returned 0, Interrupting, Interrupting]"
  shows "run_call (logged_client raising_client) 1 sample_description (ascii ''hi'') None (fresh_log cs) =
    (Interruption, \<lparr>lg_env = [], lg_created = 1, lg_written = [], lg_terminated = [10], lg_raised = []\<rparr>)"
  by (simp add: sample_description_ok [unfolded default_limits_def, simplified] assms run_call_def sample_prompt_frame raising_defs Let_def)

text \<open>The clock fails where the compensation reads it: the session is left.\<close>

lemma failing_clock_call:
  assumes "cs = [Returned 0, Failing, Failing]"
  shows "run_call (logged_client raising_client) 1 sample_description (ascii ''hi'') None (fresh_log cs) =
    (Failure_Result Transport_Error,
     \<lparr>lg_env = [], lg_created = 1, lg_written = [], lg_terminated = [], lg_raised = [Failing, Failing]\<rparr>)"
  by (simp add: sample_description_ok [unfolded default_limits_def, simplified] assms run_call_def sample_prompt_frame raising_defs Let_def)

end
