(* ===== verification/Rpc_Properties.thy ===== *)
theory Rpc_Properties
  imports Rpc_Sample
begin

text \<open>The properties of the bounded model call: what a returned candidate proves about the conversation, that a
  call returns and ends its session, and that the frames are read independently of how they arrive.\<close>

text \<open>C13: A call that returns a candidate has written exactly nine commands, in order and numbered from one: the
  eight of the initialization with the model and the level of the description, then one prompt with the
  user message. It has created exactly one session, and the candidate is the one of a complete turn of legal events.\<close>

theorem candidate_conversation:
  assumes "run_call (logged_client cl) n d um cwd (fresh_log s) = (Candidate_Result c, s')"
  shows "lg_created s' = 1 \<and>
    (\<exists>message rs e. utf8_decode um = Some message \<and> frames_from 1 (call_commands d message) (lg_written s') \<and>
       accept_events \<lparr>st_description = d, st_user_message = message, st_cwd_section = cwd\<rparr> rs new_events = Inr e \<and>
       events_settled e \<and> ev_candidate e = Some c)"
proof -
  from run_call_conversation [OF assms] obtain message where m: "utf8_decode um = Some message"
    "frames_from 1 (call_commands d message) (lg_written s')"
    "turn_of \<lparr>st_description = d, st_user_message = message, st_cwd_section = cwd\<rparr> c" "lg_created s' = 1" .
  then show ?thesis unfolding turn_of_def by blast
qed

theorem candidate_conversation_witness:
  "\<exists>s'. run_call sample_client 20 sample_description (ascii ''hi'') None (fresh_log (script_start sample_replies)) =
      (Candidate_Result sample_candidate, s') \<and>
    frames_from 1 (call_commands sample_description (ascii ''hi'')) (lg_written s')"
proof -
  obtain s' where s: "run_call sample_client 20 sample_description (ascii ''hi'') None
      (fresh_log (script_start sample_replies)) = (Candidate_Result sample_candidate, s')"
    using sample_call by blast
  from candidate_conversation [OF s] s sample_prompt(2) show ?thesis by auto
qed

text \<open>C16: Every candidate is well typed: text of at most 64 KiB that is the UTF-8 of the text blocks of one
  assistant message that stopped, its provider and model not empty, its token counts both known, not
  negative and not both zero, or both unknown.\<close>

theorem candidate_well_typed:
  assumes "run_call (logged_client cl) n d um cwd (fresh_log s) = (Candidate_Result c, s')"
  shows "candidate_typed c \<and> (\<exists>message m.
    candidate_from \<lparr>st_description = d, st_user_message = message, st_cwd_section = cwd\<rparr> m c)"
proof -
  from run_call_conversation [OF assms] obtain message where
    "turn_of \<lparr>st_description = d, st_user_message = message, st_cwd_section = cwd\<rparr> c" by blast
  from turn_of_typed [OF this] turn_of_candidate [OF this] show ?thesis by blast
qed

theorem candidate_well_typed_witness: "candidate_typed sample_candidate"
  using sample_call candidate_well_typed [of script_client 20 sample_description "ascii ''hi''" None
      "script_start sample_replies"]
  by blast

text \<open>C15: Whatever the environment does - the factory, the session, the clock and the cancellation flag may answer,
  fail or be interrupted at any call - a call creates at most one session, and a session that was created has
  been asked to terminate before the call returned, never with a negative timeout, with one exception: the
  clock that the cleanup reads raises. Then the last answer of the clock is an exception, or its last two
  answers are interruptions.\<close>

theorem session_termination:
  assumes "run_call (logged_client cl) n d um cwd (fresh_log s) = (r, s')" "r \<noteq> Unfinished"
  shows "lg_created s' \<le> 1 \<and>
    (lg_created s' = 1 \<longrightarrow> lg_terminated s' \<noteq> [] \<or>
      (\<exists>cs. lg_raised s' = cs @ [Failing] \<or> (\<exists>e. lg_raised s' = cs @ [Refused e]) \<or>
        lg_raised s' = cs @ [Interrupting, Interrupting])) \<and>
    (\<forall>t \<in> set (lg_terminated s'). 0 \<le> t)"
  using run_call_terminates_session [OF assms]
  by (simp add: clock_stopped_iff)

text \<open>A clock interrupted once in the conversation and once in the compensation does not skip the termination.\<close>

theorem session_termination_witness:
  "\<exists>s'. run_call (logged_client raising_client) 1 sample_description (ascii ''hi'') None
      (fresh_log [Returned 0, Interrupting, Interrupting]) = (Interruption, s') \<and>
    lg_created s' = 1 \<and> lg_terminated s' \<noteq> []"
  using session_termination [OF raising_call [OF refl]] raising_call [OF refl] by auto

text \<open>C14: A call returns. If the clock, which may raise, does not go back and gains at least \<open>\<delta>\<close> seconds with every pump of the
  session, then fuel above the ticks of 300 seconds plus the bytes of standard output is enough, for any
  description, message and behaviour of the session.\<close>

theorem call_returns:
  assumes "ticking (cl_ops cl) now \<delta>" "ticks \<delta> 300 + max_stdout_bytes < n"
  shows "\<exists>r s'. run_call cl n d um cwd s = (r, s') \<and> r \<noteq> Unfinished"
  using run_call_returns [OF assms, of d um cwd s] by (metis prod.collapse)

theorem call_returns_witness:
  "\<exists>r s'. run_call script_client 20000000 sample_description (ascii ''hi'') None (script_start []) = (r, s') \<and> r \<noteq> Unfinished"
proof -
  have "ticking (cl_ops script_client) sc_time 1" using script_ticking by (simp add: script_client_def)
  moreover have "ticks 1 300 + max_stdout_bytes < 20000000" by (simp add: ticks_def max_stdout_bytes_def)
  ultimately show ?thesis by (rule call_returns)
qed

text \<open>C35: The decoder does not depend on how the bytes arrive: feeding two chunks one after the other gives the
  records, the tail or the first failure of feeding them at once.\<close>

theorem feed_chunks:
  "feed fl t (a @ b) =
     and_then (feed fl t a) (\<lambda>(rs, t'). and_then (feed fl t' b) (\<lambda>(rs', t''). Inr (rs @ rs', t'')))"
  by (rule feed_append)

text \<open>C36: A command frame is read back: the decoder turns the bytes of a command of texts and Booleans into that one
  record, with nothing left over.\<close>

theorem command_round_trip:
  assumes "command_frame i name args = Inr b" "\<forall>(k, v) \<in> set args. flat_json v"
    "distinct (map fst (command_record i name args))"
    "\<forall>c \<in> set (frame_text (command_record i name args)). c < 0x110000" "length b \<le> max_frame_bytes"
  shows "feed fl [] b = Inr ([command_record i name args], [])"
  by (rule feed_command [OF assms])

theorem command_round_trip_witness:
  "feed id [] (json_line (command_record (command_id 9) ''prompt'' (prompt_args (ascii ''hi'')))) =
     Inr ([command_record (command_id 9) ''prompt'' (prompt_args (ascii ''hi''))], [])"
proof (rule command_round_trip [OF clean_frame [OF sample_prompt_clean(1)]])
  show "\<forall>(k, v) \<in> set (prompt_args (ascii ''hi'')). flat_json v" by (simp add: prompt_args_def flat_json_def)
  show "distinct (map fst sample_prompt_record)" by (simp add: command_record_def prompt_args_def)
  show "\<forall>c \<in> set (frame_text sample_prompt_record). c < 0x110000"
    using clean_frame_text(1) [OF sample_prompt_clean(1)] by (auto simp: clean_text_def list_all_iff)
  show "length (json_line sample_prompt_record) \<le> max_frame_bytes"
    using sample_prompt_clean(2) by (simp add: json_line_def max_frame_bytes_def)
qed

text \<open>The reader of frames accepts exactly the texts that \<open>json.loads\<close> with the same hooks accepts, without
  infinite numbers, and gives the same value.\<close>

theorem frame_reader_is_loads:
  "frame_loads fl s = Inr v \<longleftrightarrow> loads (frame_hooks fl) s = Some v \<and> finite_json v"
  by (rule frame_loads_Inr)

text \<open>C17: A settled turn has seen its eleven events in their one legal order, with updates of the message only between
  the start and the end of the assistant's message.\<close>

theorem settled_turn_order:
  assumes "accept_events st rs new_events = Inr e" "events_settled e"
  shows "\<exists>n. map kind_of rs = map kind [''agent_start'', ''turn_start'', ''message_start'', ''message_end'',
      ''message_start'', ''message_end'', ''message_start''] @ replicate n (kind ''message_update'') @
    map kind [''message_end'', ''turn_end'', ''agent_end'', ''agent_settled'']"
  using settled_kinds [OF assms] by (simp add: event_list_def)

theorem settled_turn_order_witness:
  "\<exists>n. map kind_of turn_events = map kind [''agent_start'', ''turn_start'', ''message_start'', ''message_end'',
      ''message_start'', ''message_end'', ''message_start''] @ replicate n (kind ''message_update'') @
    map kind [''message_end'', ''turn_end'', ''agent_end'', ''agent_settled'']"
  by (rule settled_turn_order [OF sample_turn]) (simp add: events_settled_def)

end
