(* ===== verification/Read_Context.thy ===== *)
theory Read_Context
  imports Complex_Main Json_Text Screening_Text
begin

text \<open>
  \<open>reading/errors.py\<close>, \<open>reading/context.py\<close> and \<open>content_reliability.py\<close>: the material a reading is
  checked against - pages, source blocks and evidence that points into them - and its validation when it is
  built. The types of the members are those the classes declare, so the \<open>type(x) is ...\<close> guards, which
  reject values of other types, are branches the types exclude; closed vocabularies stay strings and are
  checked. The category of a character is the parameter \<open>cat\<close> (\<open>unicodedata.category\<close>).
\<close>

section \<open>Errors\<close>

datatype read_category =
    Invalid_Context | Invalid_Identity | Duplicate_Id | Identity_Mismatch | Invalid_Page | Invalid_Source
  | Unknown_Source | Unknown_Page | Invalid_Bbox | Invalid_Charspan | Empty_Support | Duplicate_Provenance
  | Unsupported_Source | Unsupported_Mode | Missing_Allowed_Evidence | Unexpected_Allowed_Evidence
  | Invalid_Allowed_Evidence | Unknown_Allowed_Evidence | Bad_Json | Field_Missing | Field_Extra | Bad_Type
  | Bad_Enum | Bad_Text | Invalid_Score | Language_Mismatch | Value_Types_Required | Duplicate_Value_Type
  | Invalid_Evidence_Id | Duplicate_Evidence | Unknown_Evidence | Evidence_Required
  | Restricted_Number | Restricted_Source_Reference | Evidence_Not_Allowed

fun read_category_value :: "read_category \<Rightarrow> string" where
  "read_category_value Invalid_Context = ''invalid_context''"
| "read_category_value Invalid_Identity = ''invalid_identity''"
| "read_category_value Duplicate_Id = ''duplicate_id''"
| "read_category_value Identity_Mismatch = ''identity_mismatch''"
| "read_category_value Invalid_Page = ''invalid_page''"
| "read_category_value Invalid_Source = ''invalid_source''"
| "read_category_value Unknown_Source = ''unknown_source''"
| "read_category_value Unknown_Page = ''unknown_page''"
| "read_category_value Invalid_Bbox = ''invalid_bbox''"
| "read_category_value Invalid_Charspan = ''invalid_charspan''"
| "read_category_value Empty_Support = ''empty_support''"
| "read_category_value Duplicate_Provenance = ''duplicate_provenance''"
| "read_category_value Unsupported_Source = ''unsupported_source''"
| "read_category_value Unsupported_Mode = ''unsupported_mode''"
| "read_category_value Missing_Allowed_Evidence = ''missing_allowed_evidence''"
| "read_category_value Unexpected_Allowed_Evidence = ''unexpected_allowed_evidence''"
| "read_category_value Invalid_Allowed_Evidence = ''invalid_allowed_evidence''"
| "read_category_value Unknown_Allowed_Evidence = ''unknown_allowed_evidence''"
| "read_category_value Bad_Json = ''invalid_json''"
| "read_category_value Field_Missing = ''missing_field''"
| "read_category_value Field_Extra = ''extra_field''"
| "read_category_value Bad_Type = ''invalid_type''"
| "read_category_value Bad_Enum = ''invalid_enum''"
| "read_category_value Bad_Text = ''invalid_text''"
| "read_category_value Invalid_Score = ''invalid_score''"
| "read_category_value Language_Mismatch = ''language_mismatch''"
| "read_category_value Value_Types_Required = ''value_types_required''"
| "read_category_value Duplicate_Value_Type = ''duplicate_value_type''"
| "read_category_value Invalid_Evidence_Id = ''invalid_evidence_id''"
| "read_category_value Duplicate_Evidence = ''duplicate_evidence''"
| "read_category_value Unknown_Evidence = ''unknown_evidence''"
| "read_category_value Evidence_Required = ''evidence_required''"
| "read_category_value Restricted_Number = ''restricted_numeric_support''"
| "read_category_value Restricted_Source_Reference = ''restricted_source_reference''"
| "read_category_value Evidence_Not_Allowed = ''evidence_not_allowed''"

record read_issue =
  ri_location :: pystr
  ri_category :: read_category
  ri_guidance :: pystr

definition default_guidance :: pystr where
  "default_guidance = ([0x8BF7, 0x6309] @ ascii '' Read '' @ [0x516C, 0x5171, 0x5951, 0x7EA6, 0x68C0, 0x67E5,
    0x8BE5, 0x4F4D, 0x7F6E, 0x7684, 0x7C7B, 0x578B, 0x3001, 0x6765, 0x6E90, 0x6216, 0x5FC5, 0x586B, 0x5185,
      0x5BB9, 0x3002])"

definition read_issue_at :: "pystr \<Rightarrow> read_category \<Rightarrow> read_issue" where
  "read_issue_at location category =
     \<lparr>ri_location = location, ri_category = category, ri_guidance = default_guidance\<rparr>"

section \<open>Data\<close>

record extraction_identity =
  ei_fingerprint :: pystr
  ei_reading_sha256 :: pystr
  ei_map_sha256 :: pystr

text \<open>A number of Python: an integer, a finite float by its exact value, or an infinity or \<open>nan\<close>.\<close>

datatype pynum = Whole int | Real_Number rat | Not_Finite

record page_fact =
  pg_identity :: extraction_identity
  pg_page_no :: int
  pg_width :: pynum
  pg_height :: pynum
  pg_origin :: string

record source_block =
  sb_identity :: extraction_identity
  sb_source_id :: pystr
  sb_orig :: pystr
  sb_kind :: string
  sb_unreliable :: bool

record provenance =
  pv_source_id :: pystr
  pv_page_no :: int
  pv_bbox :: "pynum list"
  pv_start :: int
  pv_end :: int

record evidence =
  en_identity :: extraction_identity
  en_evidence_id :: pystr
  en_provenance :: "provenance list"

record source_slice =
  sl_identity :: extraction_identity
  sl_evidence_id :: pystr
  sl_provenance :: provenance
  sl_text :: pystr
  sl_kind :: string
  sl_unreliable :: bool

record allowed_evidence =
  al_identity :: extraction_identity
  al_evidence_ids :: "pystr list"

record read_context =
  cx_identity :: "extraction_identity option"
  cx_pages :: "page_fact list"
  cx_source_blocks :: "source_block list"
  cx_evidence :: "evidence list"
  cx_language :: "string option"
  cx_mode :: string
  cx_allowed :: "allowed_evidence option"

section \<open>Helpers\<close>

type_synonym 'a read_checked = "(read_issue list, 'a) outcome"

definition reject :: "pystr \<Rightarrow> read_category \<Rightarrow> 'a read_checked" where
  "reject location category = Inl [read_issue_at location category]"

definition check :: "bool \<Rightarrow> pystr \<Rightarrow> read_category \<Rightarrow> unit read_checked" where
  "check b location category = (if b then Inr () else reject location category)"

definition valid_id :: "(nat \<Rightarrow> string) \<Rightarrow> pystr \<Rightarrow> bool" where
  "valid_id cat v \<longleftrightarrow>
     v \<noteq> [] \<and> v = strip v \<and> encodable v \<and> list_all (\<lambda>c. take 1 (cat c) \<noteq> ''C'') v"

definition valid_identity :: "(nat \<Rightarrow> string) \<Rightarrow> extraction_identity \<Rightarrow> bool" where
  "valid_identity cat i \<longleftrightarrow>
     valid_id cat (ei_fingerprint i) \<and> valid_id cat (ei_reading_sha256 i) \<and> valid_id cat (ei_map_sha256 i)"

text \<open>\<open>math.isfinite\<close> converts an integer to a float; from half an ulp above the largest float on this raises
  \<open>OverflowError\<close>, which counts as not finite.\<close>

fun finite_number :: "pynum \<Rightarrow> bool" where
  "finite_number (Whole i) \<longleftrightarrow> \<bar>i\<bar> < (2 ^ 54 - 1) * 2 ^ 970"
| "finite_number (Real_Number r) \<longleftrightarrow> True"
| "finite_number Not_Finite \<longleftrightarrow> False"

fun num :: "pynum \<Rightarrow> rat" where
  "num (Whole i) = rat_of_int i"
| "num (Real_Number r) = r"
| "num Not_Finite = 0"

definition positive_number :: "pynum \<Rightarrow> bool" where
  "positive_number v \<longleftrightarrow> finite_number v \<and> 0 < num v"

definition place_at :: "string \<Rightarrow> nat \<Rightarrow> string \<Rightarrow> pystr" where
  "place_at member i rest = ascii member @ 91 # dec i @ 93 # ascii rest"

text \<open>A loop over a sequence with its index that raises at the first item that fails.\<close>

fun check_each :: "(nat \<Rightarrow> 'a \<Rightarrow> 'b \<Rightarrow> ('e, 'b) outcome) \<Rightarrow> nat \<Rightarrow> 'a list \<Rightarrow> 'b \<Rightarrow> ('e, 'b) outcome" where
  "check_each f i [] seen = Inr seen"
| "check_each f i (x # xs) seen = and_then (f i x seen) (check_each f (Suc i) xs)"

section \<open>Construction\<close>

definition allowed_step ::
    "(nat \<Rightarrow> string) \<Rightarrow> nat \<Rightarrow> pystr \<Rightarrow> pystr set \<Rightarrow> (pystr set) read_checked" where
  "allowed_step cat i identifier seen =
     (let location = place_at ''$.allowed_evidence.evidence_ids'' i '''' in
      and_then (check (valid_id cat identifier) location Invalid_Evidence_Id) (\<lambda>_.
      and_then (check (identifier \<notin> seen) location Duplicate_Id) (\<lambda>_.
        Inr (insert identifier seen))))"

definition make_allowed_evidence ::
    "(nat \<Rightarrow> string) \<Rightarrow> extraction_identity \<Rightarrow> pystr list \<Rightarrow> allowed_evidence read_checked" where
  "make_allowed_evidence cat identity ids =
     and_then (check (valid_identity cat identity) (ascii ''$.allowed_evidence.identity'') Invalid_Identity) (\<lambda>_.
     and_then (check_each (allowed_step cat) 0 ids {}) (\<lambda>_.
       Inr \<lparr>al_identity = identity, al_evidence_ids = ids\<rparr>))"

definition validate_header :: "(nat \<Rightarrow> string) \<Rightarrow> read_context \<Rightarrow> unit read_checked" where
  "validate_header cat cx =
     and_then (check (case cx_identity cx of Some i \<Rightarrow> valid_identity cat i | None \<Rightarrow> False)
       (ascii ''$.identity'') Invalid_Identity) (\<lambda>_.
     and_then (check (cx_language cx \<in> {Some ''zh'', Some ''en''}) (ascii ''$.expected_language'') Invalid_Context) (\<lambda>_.
     and_then (check (cx_mode cx \<in> {''single'', ''reduce''}) (ascii ''$.mode'') Unsupported_Mode) (\<lambda>_.
     and_then (check (\<not> (cx_mode cx = ''single'' \<and> cx_allowed cx \<noteq> None))
       (ascii ''$.allowed_evidence'') Unexpected_Allowed_Evidence) (\<lambda>_.
       check (\<not> (cx_mode cx = ''reduce'' \<and> cx_allowed cx = None))
       (ascii ''$.allowed_evidence'') Missing_Allowed_Evidence))))"

definition page_step :: "read_context \<Rightarrow> nat \<Rightarrow> page_fact \<Rightarrow> int set \<Rightarrow> (int set) read_checked" where
  "page_step cx i page seen =
     and_then (check (Some (pg_identity page) = cx_identity cx) (place_at ''$.pages'' i ''.identity'') Identity_Mismatch) (\<lambda>_.
     and_then (check (0 < pg_page_no page \<and> positive_number (pg_width page) \<and> positive_number (pg_height page) \<and>
         pg_origin page \<in> {''top_left'', ''bottom_left''}) (place_at ''$.pages'' i '''') Invalid_Page) (\<lambda>_.
     and_then (check (pg_page_no page \<notin> seen) (place_at ''$.pages'' i '''') Duplicate_Id) (\<lambda>_.
       Inr (insert (pg_page_no page) seen))))"

definition source_step ::
    "(nat \<Rightarrow> string) \<Rightarrow> read_context \<Rightarrow> nat \<Rightarrow> source_block \<Rightarrow> pystr set \<Rightarrow> (pystr set) read_checked" where
  "source_step cat cx i source seen =
     and_then (check (Some (sb_identity source) = cx_identity cx)
       (place_at ''$.source_blocks'' i ''.identity'') Identity_Mismatch) (\<lambda>_.
     and_then (check (valid_id cat (sb_source_id source) \<and> encodable (sb_orig source))
       (place_at ''$.source_blocks'' i '''') Invalid_Source) (\<lambda>_.
     and_then (check (sb_source_id source \<notin> seen) (place_at ''$.source_blocks'' i '''') Duplicate_Id) (\<lambda>_.
     and_then (check (sb_kind source \<in> {''text'', ''table'', ''formula''})
       (place_at ''$.source_blocks'' i ''.kind'') Invalid_Source) (\<lambda>_.
       Inr (insert (sb_source_id source) seen)))))"

text \<open>The dictionaries by page number and by source: a later entry would replace an earlier one.\<close>

definition page_of :: "read_context \<Rightarrow> int \<Rightarrow> page_fact option" where
  "page_of cx = map_of (rev (map (\<lambda>p. (pg_page_no p, p)) (cx_pages cx)))"

definition block_of :: "read_context \<Rightarrow> pystr \<Rightarrow> source_block option" where
  "block_of cx = map_of (rev (map (\<lambda>s. (sb_source_id s, s)) (cx_source_blocks cx)))"

definition box_inside :: "pynum list \<Rightarrow> page_fact \<Rightarrow> bool" where
  "box_inside box page \<longleftrightarrow>
     0 \<le> num (box ! 0) \<and> num (box ! 0) < num (box ! 2) \<and> num (box ! 2) \<le> num (pg_width page) \<and>
     0 \<le> num (box ! 1) \<and> num (box ! 1) < num (box ! 3) \<and> num (box ! 3) \<le> num (pg_height page)"

definition same_provenance :: "provenance \<Rightarrow> provenance \<Rightarrow> bool" where
  "same_provenance p q \<longleftrightarrow>
     pv_source_id p = pv_source_id q \<and> pv_page_no p = pv_page_no q \<and> map num (pv_bbox p) = map num (pv_bbox q) \<and>
     pv_start p = pv_start q \<and> pv_end p = pv_end q"

text \<open>\<open>orig[start:end]\<close>, for offsets that are not negative.\<close>

definition span_text :: "pystr \<Rightarrow> int \<Rightarrow> int \<Rightarrow> pystr" where
  "span_text orig s e = drop (nat s) (take (nat e) orig)"

definition provenance_step ::
    "read_context \<Rightarrow> nat \<Rightarrow> nat \<Rightarrow> provenance \<Rightarrow> provenance list \<Rightarrow> (provenance list) read_checked" where
  "provenance_step cx i ordinal p previous =
     (let position = (\<lambda>rest. place_at ''$.evidence'' i ''.provenance'' @ 91 # dec ordinal @ 93 # ascii rest) in
      case block_of cx (pv_source_id p) of None \<Rightarrow> reject (position ''.source_id'') Unknown_Source
      | Some source \<Rightarrow>
     (case page_of cx (pv_page_no p) of None \<Rightarrow> reject (position ''.page_no'') Unknown_Page
      | Some page \<Rightarrow>
     and_then (check (length (pv_bbox p) = 4 \<and> list_all finite_number (pv_bbox p)) (position ''.bbox'') Invalid_Bbox) (\<lambda>_.
     and_then (check (box_inside (pv_bbox p) page) (position ''.bbox'') Invalid_Bbox) (\<lambda>_.
     and_then (check (\<not> list_ex (same_provenance p) previous) (position '''') Duplicate_Provenance) (\<lambda>_.
     and_then (check (0 \<le> pv_start p \<and> pv_start p < pv_end p \<and> pv_end p \<le> int (length (sb_orig source)))
       (position ''.charspan'') Invalid_Charspan) (\<lambda>_.
     and_then (check (\<not> list_all white_space (span_text (sb_orig source) (pv_start p) (pv_end p)))
       (position ''.charspan'') Empty_Support) (\<lambda>_.
       Inr (previous @ [p]))))))))"

definition evidence_step ::
    "(nat \<Rightarrow> string) \<Rightarrow> read_context \<Rightarrow> nat \<Rightarrow> evidence \<Rightarrow> pystr set \<Rightarrow> (pystr set) read_checked" where
  "evidence_step cat cx i item seen =
     and_then (check (Some (en_identity item) = cx_identity cx) (place_at ''$.evidence'' i ''.identity'') Identity_Mismatch) (\<lambda>_.
     and_then (check (valid_id cat (en_evidence_id item)) (place_at ''$.evidence'' i '''') Invalid_Evidence_Id) (\<lambda>_.
     and_then (check (en_evidence_id item \<notin> seen) (place_at ''$.evidence'' i '''') Duplicate_Id) (\<lambda>_.
     and_then (check (en_provenance item \<noteq> []) (place_at ''$.evidence'' i ''.provenance'') Empty_Support) (\<lambda>_.
     and_then (check_each (provenance_step cx i) 0 (en_provenance item) []) (\<lambda>_.
       Inr (insert (en_evidence_id item) seen))))))"

definition known_evidence :: "read_context \<Rightarrow> pystr set" where
  "known_evidence cx = set (map en_evidence_id (cx_evidence cx))"

definition allowance_step :: "read_context \<Rightarrow> nat \<Rightarrow> pystr \<Rightarrow> unit \<Rightarrow> unit read_checked" where
  "allowance_step cx i identifier u =
     check (identifier \<in> known_evidence cx) (place_at ''$.allowed_evidence.evidence_ids'' i '''') Unknown_Allowed_Evidence"

definition validate_allowance :: "read_context \<Rightarrow> unit read_checked" where
  "validate_allowance cx =
     (case cx_allowed cx of None \<Rightarrow> Inr ()
      | Some a \<Rightarrow>
          and_then (check (Some (al_identity a) = cx_identity cx) (ascii ''$.allowed_evidence.identity'') Identity_Mismatch) (\<lambda>_.
            check_each (allowance_step cx) 0 (al_evidence_ids a) ()))"

text \<open>\<open>ReadContext(...)\<close>: the members are stored as they are given (lists become tuples).\<close>

definition make_read_context :: "(nat \<Rightarrow> string) \<Rightarrow> read_context \<Rightarrow> read_context read_checked" where
  "make_read_context cat cx =
     and_then (validate_header cat cx) (\<lambda>_.
     and_then (check_each (page_step cx) 0 (cx_pages cx) {}) (\<lambda>_.
     and_then (check_each (source_step cat cx) 0 (cx_source_blocks cx) {}) (\<lambda>_.
     and_then (check_each (evidence_step cat cx) 0 (cx_evidence cx) {}) (\<lambda>_.
     and_then (validate_allowance cx) (\<lambda>_. Inr cx)))))"

section \<open>The cited text\<close>

text \<open>\<open>replay\<close>: a source that is not there would be a \<open>KeyError\<close>, here \<^term>\<open>None\<close>.\<close>

definition slice_of :: "read_context \<Rightarrow> evidence \<Rightarrow> provenance \<Rightarrow> source_slice option" where
  "slice_of cx item p =
     (case (block_of cx (pv_source_id p), cx_identity cx) of
        (Some source, Some identity) \<Rightarrow>
          Some \<lparr>sl_identity = identity, sl_evidence_id = en_evidence_id item, sl_provenance = p,
            sl_text = span_text (sb_orig source) (pv_start p) (pv_end p),
            sl_kind = sb_kind source, sl_unreliable = sb_unreliable source\<rparr>
      | _ \<Rightarrow> None)"

definition replay :: "read_context \<Rightarrow> source_slice list option" where
  "replay cx =
     all_some (concat (map (\<lambda>item. map (slice_of cx item) (en_provenance item)) (cx_evidence cx)))"

section \<open>Reliability of a text\<close>

definition is_unreliable :: "(nat \<Rightarrow> string) \<Rightarrow> pystr \<Rightarrow> bool \<Rightarrow> bool" where
  "is_unreliable cat s declared \<longleftrightarrow>
     declared \<or>
     list_ex (\<lambda>c. c = 0xFFFD \<or> cat c \<in> {''Cs'', ''Co''} \<or> (cat c = ''Cc'' \<and> c \<notin> {9, 13, 10})) s"

end
