(* ===== verification/Read_Output.thy ===== *)
theory Read_Output
  imports Read_Context Screening_Output
begin

text \<open>
  \<open>reading/value_types.py\<close>, \<open>schema.py\<close> and \<open>parsing.py\<close>: the analysis a model returns and how a candidate
  becomes one. The validation of a decoded object against \<open>ReadAnalysisOutput\<close> is pydantic's, the parameter
  \<open>rd_model\<close>: the errors in its order, of which there is at least one, or the validated object. A reference
  to evidence has one member, its identifier.
\<close>

section \<open>The analysis\<close>

datatype read_value_type =
    Value_Method | Value_Data | Value_Code_Tool | Value_Theory_Mechanism | Value_Evidence_Conclusion
  | Value_Question_Hypothesis | Value_Review_Knowledge_Map

type_synonym evidence_ref = pystr

record supported_statement =
  ss_statement :: pystr
  ss_evidence :: "evidence_ref list"

record reusable_point =
  rp_item :: pystr
  rp_how_to_reuse :: pystr
  rp_evidence :: "evidence_ref list"

record read_analysis =
  ra_output_language :: string
  ra_one_sentence_conclusion :: pystr
  ra_research_question :: pystr
  ra_methods_summary :: pystr
  ra_data_summary :: pystr
  ra_main_findings :: "supported_statement list"
  ra_research_value :: int
  ra_research_value_reason :: supported_statement
  ra_reuse_feasibility :: int
  ra_reuse_feasibility_reason :: supported_statement
  ra_required_adaptations :: "pystr list"
  ra_reusable_points :: "reusable_point list"
  ra_key_limitations :: "supported_statement list"
  ra_open_questions :: "pystr list"
  ra_value_types :: "read_value_type list"
  ra_why_it_matters :: pystr
  ra_next_action :: pystr
  ra_degraded_content_warnings :: "pystr list"

text \<open>What is outside the repository: the text of a float, case folding, character categories, pydantic.\<close>

record read_env =
  rd_float :: "pystr \<Rightarrow> pystr"
  rd_fold :: "nat \<Rightarrow> pystr"
  rd_category :: "nat \<Rightarrow> string"
  rd_model :: "read_analysis validator"
  rd_dump :: "read_analysis \<Rightarrow> nat list"

section \<open>Parsing\<close>

definition read_fields :: "pystr set" where
  "read_fields = set (map ascii
     [''output_language'', ''one_sentence_conclusion'', ''research_question'', ''methods_summary'',
      ''data_summary'', ''main_findings'', ''research_value'', ''research_value_reason'',
      ''reuse_feasibility'', ''reuse_feasibility_reason'', ''required_adaptations'', ''reusable_points'',
      ''key_limitations'', ''open_questions'', ''value_types'', ''why_it_matters'', ''next_action'',
      ''degraded_content_warnings'', ''evidence_id'', ''statement'', ''evidence'', ''item'', ''how_to_reuse''])"

text \<open>\<open>_check_json\<close>: every text can be encoded and no float is infinite. The order in which the code takes the
  members from its stack decides nothing, since any failure raises the same error.\<close>

fun check_json :: "json \<Rightarrow> bool" where
  "check_json (JStr s) \<longleftrightarrow> encodable s"
| "check_json (JFloat r) \<longleftrightarrow> \<not> infinite_text r"
| "check_json (JArr xs) \<longleftrightarrow> (\<forall>x \<in> set xs. check_json x)"
| "check_json (JObj kvs) \<longleftrightarrow> (\<forall>(k, v) \<in> set kvs. encodable k \<and> check_json v)"
| "check_json j \<longleftrightarrow> True"

definition schema_category :: "pydantic_error \<Rightarrow> read_category" where
  "schema_category e =
     (if pe_type e = ''missing'' then Field_Missing
      else if pe_type e = ''extra_forbidden'' then Field_Extra
      else if pe_type e = ''literal_error'' then (if pe_input_is_str e then Bad_Enum else Bad_Type)
      else if pe_type e \<in> {''enum'', ''value_error''} then Bad_Enum
      else if pe_type e \<in> {''greater_than_equal'', ''less_than_equal''} then Invalid_Score
      else if pe_type e = ''string_too_short'' then Invalid_Evidence_Id
      else if pe_type e = ''too_short'' then Evidence_Required
      else Bad_Type)"

definition schema_issue :: "pydantic_error \<Rightarrow> read_issue" where
  "schema_issue e =
     read_issue_at (ascii ''$'' @ concat (map (safe_part read_fields) (pe_loc e))) (schema_category e)"

text \<open>\<open>json.loads\<close> with unique keys and without constants, on the decoded bytes.\<close>

definition candidate_json :: "(pystr \<Rightarrow> pystr) \<Rightarrow> nat list \<Rightarrow> json option" where
  "candidate_json fl raw =
     (case utf8_decode raw of None \<Rightarrow> None
      | Some s \<Rightarrow>
          (case loads (model_hooks fl) s of None \<Rightarrow> None
           | Some j \<Rightarrow> if check_json j then (case j of JObj kvs \<Rightarrow> Some j | _ \<Rightarrow> None) else None))"

definition parse_candidate :: "read_env \<Rightarrow> nat list \<Rightarrow> read_analysis read_checked" where
  "parse_candidate env raw =
     (case candidate_json (rd_float env) raw of
        None \<Rightarrow> reject (ascii ''$'') Bad_Json
      | Some j \<Rightarrow>
          (case rd_model env j of
             Inl errors \<Rightarrow> Inl (map schema_issue errors)
           | Inr output \<Rightarrow> Inr output))"

section \<open>Rules shared by both versions\<close>

definition read_meaningful :: "read_env \<Rightarrow> pystr \<Rightarrow> bool" where
  "read_meaningful env v \<longleftrightarrow>
     is_meaningful_text (rd_fold env) v \<and>
     list_ex (\<lambda>c. \<not> white_space c \<and> take 1 (rd_category env c) \<noteq> ''P'') v"

definition allowed_ids :: "read_context \<Rightarrow> pystr set" where
  "allowed_ids cx =
     (case cx_allowed cx of Some a \<Rightarrow> set (al_evidence_ids a) | None \<Rightarrow> known_evidence cx)"

end
