(* ===== verification/Py_Regex.thy ===== *)
theory Py_Regex
  imports Screening_Text
begin

text \<open>
  The part of Python's \<open>re\<close> the program uses, over lists of code points: a backtracking matcher that
  tries alternatives from left to right and repeats as often as it can. \<open>runs r c\<close> lists the ends of all
  matches of \<open>r\<close> at the cursor \<open>c\<close> in the order in which the matcher tries them, so the first one is the
  match Python reports. A cursor knows the character before it, for lookbehind, and the groups so far.
\<close>

datatype regex =
    Nothing | Class "nat \<Rightarrow> bool" | Then regex regex | Either regex regex | Many regex
  | Group string regex | Not_After "nat \<Rightarrow> bool" | Not_Before regex

record cursor =
  cu_last :: "nat option"
  cu_rest :: pystr
  cu_groups :: "(string \<times> pystr) list"

definition step_over :: "nat \<Rightarrow> pystr \<Rightarrow> cursor \<Rightarrow> cursor" where
  "step_over x t c = c\<lparr>cu_last := Some x, cu_rest := t\<rparr>"

text \<open>Greedy repetition: an iteration that consumes nothing ends it, so the length of the rest is enough fuel.\<close>

fun repeated :: "(cursor \<Rightarrow> cursor list) \<Rightarrow> nat \<Rightarrow> cursor \<Rightarrow> cursor list" where
  "repeated m 0 c = [c]"
| "repeated m (Suc n) c =
     concat (map (repeated m n) (filter (\<lambda>d. length (cu_rest d) < length (cu_rest c)) (m c))) @ [c]"

definition captured :: "cursor \<Rightarrow> cursor \<Rightarrow> pystr" where
  "captured c d = take (length (cu_rest c) - length (cu_rest d)) (cu_rest c)"

primrec runs :: "regex \<Rightarrow> cursor \<Rightarrow> cursor list" where
  "runs Nothing c = [c]"
| "runs (Class P) c =
     (case cu_rest c of [] \<Rightarrow> [] | x # t \<Rightarrow> if P x then [step_over x t c] else [])"
| "runs (Then r q) c = concat (map (runs q) (runs r c))"
| "runs (Either r q) c = runs r c @ runs q c"
| "runs (Many r) c = repeated (runs r) (length (cu_rest c)) c"
| "runs (Group n r) c =
     map (\<lambda>d. d\<lparr>cu_groups := (n, captured c d) # cu_groups d\<rparr>) (runs r c)"
| "runs (Not_After P) c =
     (case cu_last c of None \<Rightarrow> [c] | Some x \<Rightarrow> if P x then [] else [c])"
| "runs (Not_Before r) c = (if runs r c = [] then [c] else [])"

section \<open>Derived forms\<close>

definition maybe :: "regex \<Rightarrow> regex" where
  "maybe r = Either r Nothing"

definition some_of :: "regex \<Rightarrow> regex" where
  "some_of r = Then r (Many r)"

definition one_of :: "pystr \<Rightarrow> regex" where
  "one_of cs = Class (\<lambda>x. x \<in> set cs)"

definition literal :: "pystr \<Rightarrow> regex" where
  "literal s = foldr (\<lambda>x r. Then (one_of [x]) r) s Nothing"

definition in_order :: "regex list \<Rightarrow> regex" where
  "in_order rs = foldr Then rs Nothing"

text \<open>\<open>any_of [r, ...]\<close> is \<open>r|...\<close>; it never is applied to no alternative.\<close>

fun any_of :: "regex list \<Rightarrow> regex" where
  "any_of [] = Class (\<lambda>_. False)"
| "any_of [r] = r"
| "any_of (r # rs) = Either r (any_of rs)"

section \<open>match, fullmatch, search, finditer\<close>

definition at_start :: "pystr \<Rightarrow> cursor" where
  "at_start s = \<lparr>cu_last = None, cu_rest = s, cu_groups = []\<rparr>"

definition first_run :: "regex \<Rightarrow> cursor \<Rightarrow> cursor option" where
  "first_run r c = (case runs r c of [] \<Rightarrow> None | d # _ \<Rightarrow> Some d)"

text \<open>The length of the match at the start of a text.\<close>

definition match_length :: "regex \<Rightarrow> pystr \<Rightarrow> nat option" where
  "match_length r s =
     map_option (\<lambda>d. length s - length (cu_rest d)) (first_run r (at_start s))"

definition fullmatch :: "regex \<Rightarrow> pystr \<Rightarrow> bool" where
  "fullmatch r s \<longleftrightarrow> list_ex (\<lambda>d. cu_rest d = []) (runs r (at_start s))"

text \<open>\<open>search\<close> of a pattern that ends with \<open>$\<close> after white space: some match reaches the end.\<close>

fun search_to_end :: "regex \<Rightarrow> nat option \<Rightarrow> pystr \<Rightarrow> bool" where
  "search_to_end r l s =
     (list_ex (\<lambda>d. cu_rest d = []) (runs r \<lparr>cu_last = l, cu_rest = s, cu_groups = []\<rparr>) \<or>
      (case s of [] \<Rightarrow> False | x # t \<Rightarrow> search_to_end r (Some x) t))"

declare search_to_end.simps [simp del]

text \<open>\<open>search\<close>: some position matches.\<close>

fun search_any :: "regex \<Rightarrow> nat option \<Rightarrow> pystr \<Rightarrow> bool" where
  "search_any r l s =
     (runs r \<lparr>cu_last = l, cu_rest = s, cu_groups = []\<rparr> \<noteq> [] \<or>
      (case s of [] \<Rightarrow> False | x # t \<Rightarrow> search_any r (Some x) t))"

declare search_any.simps [simp del]

record found =
  fd_start :: nat
  fd_end :: nat
  fd_groups :: "(string \<times> pystr) list"

text \<open>\<open>finditer\<close>, from offset \<open>i\<close>: the next match starts no earlier than the last one ended. The patterns
  of the program never match the empty text, which would be skipped here.\<close>

function finditer :: "regex \<Rightarrow> nat \<Rightarrow> nat option \<Rightarrow> pystr \<Rightarrow> found list" where
  "finditer r i l [] = []"
| "finditer r i l (x # t) =
     (case first_run r \<lparr>cu_last = l, cu_rest = x # t, cu_groups = []\<rparr> of
        None \<Rightarrow> finditer r (Suc i) (Some x) t
      | Some d \<Rightarrow>
          let n = length (x # t) - length (cu_rest d) in
          if n = 0 then finditer r (Suc i) (Some x) t
          else \<lparr>fd_start = i, fd_end = i + n, fd_groups = cu_groups d\<rparr> #
                 finditer r (i + n) (cu_last d) (cu_rest d))"
  by pat_completeness auto
termination by (relation "measure (\<lambda>(r, i, l, s). length s)") auto

text \<open>A named group of a match, \<open>None\<close> when the pattern has none of that name on its path.\<close>

definition group_of :: "string \<Rightarrow> found \<Rightarrow> pystr option" where
  "group_of n m = map_of (fd_groups m) n"

section \<open>Laws\<close>

text \<open>A run stays on its text: what is left is a suffix of what there was.\<close>

definition within :: "cursor \<Rightarrow> cursor \<Rightarrow> bool" where
  "within c d \<longleftrightarrow> (\<exists>p. cu_rest c = p @ cu_rest d \<and> cu_last d = (if p = [] then cu_last c else Some (last p)))"

lemma within_refl [simp]: "within c c"
  by (auto simp: within_def)

lemma within_trans:
  assumes "within c d" and "within d e"
  shows "within c e"
proof -
  obtain p q where "cu_rest c = p @ cu_rest d" "cu_last d = (if p = [] then cu_last c else Some (last p))"
    "cu_rest d = q @ cu_rest e" "cu_last e = (if q = [] then cu_last d else Some (last q))"
    using assms by (auto simp: within_def)
  then show ?thesis by (auto simp: within_def intro!: exI [of _ "p @ q"])
qed

lemma within_shorter: "within c d \<Longrightarrow> length (cu_rest d) \<le> length (cu_rest c)"
  by (auto simp: within_def)

lemma within_groups [simp]: "within c (d\<lparr>cu_groups := g\<rparr>) \<longleftrightarrow> within c d"
  by (simp add: within_def)

lemma within_step: "cu_rest c = x # t \<Longrightarrow> within c (step_over x t c)"
  unfolding within_def by (rule exI [of _ "[x]"]) (simp add: step_over_def)

lemma repeated_within:
  assumes "\<And>c d. d \<in> set (m c) \<Longrightarrow> within c d"
  shows "d \<in> set (repeated m n c) \<Longrightarrow> within c d"
proof (induction n arbitrary: c)
  case (Suc n)
  then show ?case using assms by (auto intro: within_trans)
qed simp

lemma runs_within: "d \<in> set (runs r c) \<Longrightarrow> within c d"
proof (induction r arbitrary: c d)
  case (Class P)
  then show ?case by (auto intro: within_step split: list.splits if_splits)
next
  case (Then r q)
  from Then(3) obtain e where "e \<in> set (runs r c)" "d \<in> set (runs q e)" by auto
  with Then(1,2) show ?case by (blast intro: within_trans)
next
  case (Many r)
  from repeated_within [of "runs r", OF Many(1) Many(2) [unfolded runs.simps]] show ?case .
qed (auto split: option.splits if_splits)

lemma first_run_within: "first_run r c = Some d \<Longrightarrow> within c d"
  using runs_within [of d r c] by (auto simp: first_run_def split: list.splits)

text \<open>The matches of \<open>finditer\<close> are nonempty, in order, and do not overlap.\<close>

fun spread :: "nat \<Rightarrow> nat \<Rightarrow> found list \<Rightarrow> bool" where
  "spread i n [] \<longleftrightarrow> i \<le> n"
| "spread i n (m # ms) \<longleftrightarrow> i \<le> fd_start m \<and> fd_start m < fd_end m \<and> spread (fd_end m) n ms"

lemma apart_le: "spread i n ms \<Longrightarrow> i \<le> n"
  by (induction ms arbitrary: i) force+

lemma apart_mono: "spread j n ms \<Longrightarrow> i \<le> j \<Longrightarrow> spread i n ms"
  by (cases ms) auto

theorem finditer_apart: "spread i (i + length s) (finditer r i l s)"
proof (induction r i l s rule: finditer.induct)
  case (2 r i l x t)
  show ?case
  proof (cases "first_run r \<lparr>cu_last = l, cu_rest = x # t, cu_groups = []\<rparr>")
    case None
    then show ?thesis using 2(1) by (auto intro: apart_mono)
  next
    case (Some d)
    from within_shorter [OF first_run_within [OF this]]
    have le: "length (cu_rest d) \<le> Suc (length t)" by simp
    show ?thesis
      using Some 2(2) [OF Some refl] 2(3) [OF Some refl] le
      by (auto simp: Let_def intro: apart_mono)
  qed
qed simp

end
