(* ===== verification/Py_Decimal.thy ===== *)
theory Py_Decimal
  imports Complex_Main Json_Text
begin

text \<open>
  The part of Python's \<open>decimal\<close> the numeric rules use: reading a number exactly, exact equality, and
  \<open>abs\<close>, which rounds to the default context (28 digits, half even) and raises \<open>Overflow\<close> beyond its
  exponents. A number is a coefficient and a power of ten; the sign of zero, which no comparison sees,
  is not kept.
\<close>

record decimal =
  dc_coefficient :: int
  dc_exponent :: int

definition digit_count :: "int \<Rightarrow> nat" where
  "digit_count c = length (dec (nat \<bar>c\<bar>))"

definition adjusted :: "decimal \<Rightarrow> int" where
  "adjusted d = dc_exponent d + int (digit_count (dc_coefficient d)) - 1"

section \<open>Reading\<close>

text \<open>The constructor is exact within the largest exponents of the implementation and raises
  \<open>InvalidOperation\<close>, here \<^term>\<open>None\<close>, outside of them.\<close>

definition exact_decimal :: "decimal \<Rightarrow> bool" where
  "exact_decimal d \<longleftrightarrow>
     - 1999999999999999997 \<le> dc_exponent d \<and>
     (if dc_coefficient d = 0 then dc_exponent d else adjusted d) \<le> 999999999999999999"

definition signed_text :: "pystr \<Rightarrow> int" where
  "signed_text s =
     (case s of [] \<Rightarrow> 0
      | c # t \<Rightarrow> if c = 45 then - int (dec_value t) else if c = 43 then int (dec_value t) else int (dec_value s))"

text \<open>The texts are those of \<open>valid_number\<close> without their commas: sign, digits, fraction, exponent.\<close>

definition decimal_of :: "pystr \<Rightarrow> decimal option" where
  "decimal_of s =
     (let mantissa = takeWhile (\<lambda>c. c \<noteq> 69 \<and> c \<noteq> 101) s;
          exponent = signed_text (drop (Suc (length mantissa)) s);
          whole = takeWhile (\<lambda>c. c \<noteq> 46) mantissa;
          fraction = drop (Suc (length whole)) mantissa;
          d = \<lparr>dc_coefficient = signed_text (whole @ fraction), dc_exponent = exponent - int (length fraction)\<rparr> in
      if exact_decimal d then Some d else None)"

section \<open>Equality\<close>

function strip_zeros :: "int \<Rightarrow> int \<Rightarrow> decimal" where
  "strip_zeros c e =
     (if c = 0 then \<lparr>dc_coefficient = 0, dc_exponent = 0\<rparr>
      else if 10 dvd c then strip_zeros (c div 10) (e + 1)
      else \<lparr>dc_coefficient = c, dc_exponent = e\<rparr>)"
  by pat_completeness auto
termination by (relation "measure (\<lambda>(c, e). nat \<bar>c\<bar>)") auto

declare strip_zeros.simps [simp del]

definition decimal_equal :: "decimal \<Rightarrow> decimal \<Rightarrow> bool" where
  "decimal_equal x y \<longleftrightarrow>
     strip_zeros (dc_coefficient x) (dc_exponent x) = strip_zeros (dc_coefficient y) (dc_exponent y)"

section \<open>abs\<close>

text \<open>The coefficient without its last \<open>k\<close> digits, rounded half to even.\<close>

definition half_even :: "nat \<Rightarrow> nat \<Rightarrow> nat" where
  "half_even c k =
     (if length (dec c) < k then 0
      else let q = c div 10 ^ k; r = c mod 10 ^ k in
        if 2 * r > 10 ^ k \<or> (2 * r = 10 ^ k \<and> odd q) then q + 1 else q)"

datatype decimal_error = Decimal_Overflow

definition precision :: nat where "precision = 28"
definition emax :: int where "emax = 999999"
definition etiny :: int where "etiny = - 1000026"

definition decimal_abs :: "decimal \<Rightarrow> (decimal_error, decimal) outcome" where
  "decimal_abs d =
     (let c = nat \<bar>dc_coefficient d\<bar>; e = dc_exponent d; n = digit_count (dc_coefficient d) in
      if c = 0 then Inr \<lparr>dc_coefficient = 0, dc_exponent = e\<rparr>
      else if adjusted d > emax then Inl Decimal_Overflow
      else if adjusted d < - emax \<and> e < etiny then
        Inr \<lparr>dc_coefficient = int (half_even c (nat (etiny - e))), dc_exponent = etiny\<rparr>
      else if precision < n then
        (let r = \<lparr>dc_coefficient = int (half_even c (n - precision)), dc_exponent = e + int (n - precision)\<rparr> in
         if adjusted r > emax then Inl Decimal_Overflow else Inr r)
      else Inr \<lparr>dc_coefficient = int c, dc_exponent = e\<rparr>)"

section \<open>Laws\<close>

definition decimal_value :: "decimal \<Rightarrow> rat" where
  "decimal_value d = rat_of_int (dc_coefficient d) * 10 powi dc_exponent d"

lemma strip_zeros_value: "decimal_value (strip_zeros c e) = rat_of_int c * 10 powi e"
proof (induction c e rule: strip_zeros.induct)
  case (1 c e)
  show ?case
  proof (cases "c \<noteq> 0 \<and> 10 dvd c")
    case True
    then obtain k where k: "c = 10 * k" by auto
    with 1 True have "decimal_value (strip_zeros c e) = rat_of_int k * 10 powi (e + 1)"
      by (subst strip_zeros.simps) auto
    then show ?thesis using k by (simp add: power_int_add)
  next
    case False
    then show ?thesis by (subst strip_zeros.simps) (auto simp: decimal_value_def)
  qed
qed

definition stripped :: "decimal \<Rightarrow> bool" where
  "stripped d \<longleftrightarrow> \<not> 10 dvd dc_coefficient d \<or> d = \<lparr>dc_coefficient = 0, dc_exponent = 0\<rparr>"

lemma strip_zeros_stripped: "stripped (strip_zeros c e)"
proof (induction c e rule: strip_zeros.induct)
  case (1 c e)
  then show ?case by (subst strip_zeros.simps) (auto simp: stripped_def)
qed

lemma powi_split: "e \<le> f \<Longrightarrow> (10::rat) powi f = 10 ^ nat (f - e) * 10 powi e"
  by (simp flip: power_int_of_nat add: power_int_add [symmetric])

lemma value_shift:
  assumes "dc_exponent x \<le> dc_exponent y" and "decimal_value x = decimal_value y"
  shows "dc_coefficient x = dc_coefficient y * 10 ^ nat (dc_exponent y - dc_exponent x)"
proof -
  have "rat_of_int (dc_coefficient x) = rat_of_int (dc_coefficient y) * 10 ^ nat (dc_exponent y - dc_exponent x)"
    using assms by (simp add: decimal_value_def powi_split)
  also have "\<dots> = rat_of_int (dc_coefficient y * 10 ^ nat (dc_exponent y - dc_exponent x))" by simp
  finally show ?thesis by (simp only: of_int_eq_iff)
qed

lemma stripped_unique_le:
  assumes "stripped x" "stripped y" "decimal_value x = decimal_value y" "dc_exponent x \<le> dc_exponent y"
  shows "x = y"
proof (cases "dc_coefficient y = 0")
  case True
  with value_shift [OF assms(4,3)] have "dc_coefficient x = 0" by simp
  with True assms(1,2) show ?thesis by (simp add: stripped_def)
next
  case False
  with value_shift [OF assms(4,3)] have x: "dc_coefficient x \<noteq> 0" by simp
  have "dc_exponent x = dc_exponent y"
  proof (rule ccontr)
    assume "dc_exponent x \<noteq> dc_exponent y"
    with assms(4) obtain k where "nat (dc_exponent y - dc_exponent x) = Suc k"
      by (metis not0_implies_Suc nat_0_iff diff_gt_0_iff_gt less_le not_le)
    with value_shift [OF assms(4,3)] have "10 dvd dc_coefficient x" by simp
    with x assms(1) show False by (auto simp: stripped_def)
  qed
  with value_shift [OF assms(4,3)] show ?thesis by simp
qed

text \<open>Equality of decimals is equality of the numbers they denote.\<close>

theorem decimal_equal_iff: "decimal_equal x y \<longleftrightarrow> decimal_value x = decimal_value y"
proof -
  let ?s = "\<lambda>d. strip_zeros (dc_coefficient d) (dc_exponent d)"
  have v: "decimal_value (?s d) = decimal_value d" for d
    unfolding strip_zeros_value by (simp add: decimal_value_def)
  have "?s x = ?s y" if "decimal_value x = decimal_value y"
    using that stripped_unique_le [of "?s x" "?s y"] stripped_unique_le [of "?s y" "?s x"]
      strip_zeros_stripped v by (metis linear)
  then show ?thesis unfolding decimal_equal_def by (metis v)
qed

section \<open>Overflow\<close>

lemma dec_length_le: "0 < d \<Longrightarrow> length (dec n) \<le> d \<longleftrightarrow> n < 10 ^ d"
proof (induction d arbitrary: n)
  case (Suc d)
  show ?case
  proof (cases "n < 10")
    case True
    then have "n < 10 ^ Suc d" by (rule less_le_trans) simp
    with True show ?thesis by (simp add: dec.simps [of n])
  next
    case False
    then have l: "length (dec n) = Suc (length (dec (n div 10)))" by (simp add: dec.simps [of n])
    show ?thesis
    proof (cases "d = 0")
      case True
      with False l show ?thesis by simp
    next
      case d: False
      then have "length (dec (n div 10)) \<le> d \<longleftrightarrow> n div 10 < 10 ^ d" using Suc.IH by simp
      then show ?thesis unfolding l by (auto simp: div_less_iff_less_mult mult.commute)
    qed
  qed
qed simp

lemma digit_count_le: "0 < d \<Longrightarrow> digit_count (int c) \<le> d \<longleftrightarrow> c < 10 ^ d"
  by (simp add: digit_count_def dec_length_le)

lemma digit_count_bounds:
  assumes "0 < c"
  shows "c < 10 ^ digit_count (int c)" "10 ^ (digit_count (int c) - 1) \<le> c" "0 < digit_count (int c)"
proof -
  show 1: "0 < digit_count (int c)" by (simp add: digit_count_def)
  then show "c < 10 ^ digit_count (int c)" using digit_count_le by blast
  show "10 ^ (digit_count (int c) - 1) \<le> c"
  proof (cases "digit_count (int c) = 1")
    case False
    with 1 have "0 < digit_count (int c) - 1" by simp
    from digit_count_le [OF this, of c] 1 show ?thesis by linarith
  qed (use assms in simp)
qed

text \<open>Rounding reaches the next power of ten from half a unit below it.\<close>

lemma half_even_carry:
  assumes n: "digit_count (int c) = p + k" and p: "0 < p" and k: "0 < k"
  shows "half_even c k \<le> 10 ^ p" "10 ^ p \<le> half_even c k \<longleftrightarrow> (2 * 10 ^ p - 1) * 10 ^ k \<le> 2 * c"
proof -
  let ?q = "c div 10 ^ k" and ?r = "c mod 10 ^ k"
  have c: "c = ?q * 10 ^ k + ?r" by (simp add: div_mult_mod_eq)
  have r: "?r < 10 ^ k" by simp
  have "c < 10 ^ (p + k)" using digit_count_le [of "p + k" c] n p by simp
  then have q: "?q < 10 ^ p" by (simp add: div_less_iff_less_mult power_add)
  define u where "u = (2 * ?r > 10 ^ k \<or> (2 * ?r = 10 ^ k \<and> odd ?q))"
  have h: "half_even c k = (if u then ?q + 1 else ?q)"
    using n by (simp add: half_even_def digit_count_def Let_def u_def)
  show "half_even c k \<le> 10 ^ p" using q unfolding h by simp
  have odd: "odd ?q" if "?q + 1 = 10 ^ p"
  proof -
    have "even (?q + 1)" unfolding that using p by simp
    then show ?thesis by simp
  qed
  have pos: "(1::nat) \<le> 10 ^ p" by simp
  show "10 ^ p \<le> half_even c k \<longleftrightarrow> (2 * 10 ^ p - 1) * 10 ^ k \<le> 2 * c"
  proof
    assume "10 ^ p \<le> half_even c k"
    with q h have u: u "?q + 1 = 10 ^ p" by (auto split: if_splits)
    then have "10 ^ k \<le> 2 * ?r" by (auto simp: u_def)
    moreover have "(2 * 10 ^ p - 1) * 10 ^ k = 2 * (?q * 10 ^ k) + 10 ^ k"
      unfolding u(2) [symmetric] by (simp add: algebra_simps)
    ultimately show "(2 * 10 ^ p - 1) * 10 ^ k \<le> 2 * c" using c by linarith
  next
    assume L: "(2 * 10 ^ p - 1) * 10 ^ k \<le> 2 * c"
    have q1: "?q + 1 = 10 ^ p"
    proof (rule ccontr)
      assume "?q + 1 \<noteq> 10 ^ p"
      then have "?q + 2 \<le> 10 ^ p" using q by linarith
      then have "(?q + 2) * 10 ^ k \<le> 10 ^ p * 10 ^ k" by (rule mult_le_mono1)
      then have "?q * 10 ^ k + 2 * 10 ^ k \<le> 10 ^ p * 10 ^ k" by (simp only: add_mult_distrib)
      moreover have "(2 * 10 ^ p - 1) * 10 ^ k = 2 * (10 ^ p * 10 ^ k) - (10 ^ k :: nat)"
        by (simp add: diff_mult_distrib mult.assoc)
      ultimately show False using L c r by linarith
    qed
    have "(2 * 10 ^ p - 1) * 10 ^ k = 2 * (?q * 10 ^ k) + 10 ^ k"
      unfolding q1 [symmetric] by (simp add: algebra_simps)
    then have "10 ^ k \<le> 2 * ?r" using L c by linarith
    then have u using odd [OF q1] by (auto simp: u_def)
    then show "10 ^ p \<le> half_even c k" using q1 h by simp
  qed
qed

text \<open>The numbers whose absolute value overflows in a context of precision \<open>p\<close>: at least half a unit of the last
  place above the largest one.\<close>

lemma overflow_iff:
  assumes m: "emax = m + int precision - 1" "0 \<le> m"
  shows "decimal_abs d = Inl Decimal_Overflow \<longleftrightarrow> (10 ^ precision - 1 / 2) * 10 powi m \<le> \<bar>decimal_value d\<bar>"
proof (cases "dc_coefficient d = 0")
  case True
  have "(0::rat) < (10 ^ precision - 1 / 2) * 10 powi m"
    by (intro mult_pos_pos) (simp_all add: precision_def)
  with True show ?thesis by (simp add: decimal_abs_def decimal_value_def Let_def)
next
  case False
  define c where "c = nat \<bar>dc_coefficient d\<bar>"
  define e where "e = dc_exponent d"
  define n where "n = digit_count (int c)"
  let ?p = "int precision"
  have c: "0 < c" using False by (simp add: c_def)
  have n': "digit_count (dc_coefficient d) = n" by (simp add: n_def c_def digit_count_def)
  have v: "\<bar>decimal_value d\<bar> = rat_of_nat c * 10 powi e"
    by (simp add: decimal_value_def c_def e_def abs_mult)
  have a: "adjusted d = e + int n - 1" by (simp add: adjusted_def e_def n')
  note B = digit_count_bounds [OF c, folded n_def]
  have abs: "decimal_abs d =
      (if adjusted d > emax then Inl Decimal_Overflow
       else if adjusted d < - emax \<and> e < etiny then
         Inr \<lparr>dc_coefficient = int (half_even c (nat (etiny - e))), dc_exponent = etiny\<rparr>
       else if precision < n then
         (let r = \<lparr>dc_coefficient = int (half_even c (n - precision)), dc_exponent = e + int (n - precision)\<rparr> in
          if adjusted r > emax then Inl Decimal_Overflow else Inr r)
       else Inr \<lparr>dc_coefficient = int c, dc_exponent = e\<rparr>)"
    using c by (simp add: decimal_abs_def n' c_def [symmetric] e_def [symmetric] Let_def)
  have p: "0 < precision" by (simp add: precision_def)
  let ?T = "(10::rat) powi m" and ?P = "(10::rat) ^ precision"
  have T: "0 < ?T" by simp
  have P: "10 \<le> ?P" using power_increasing [of 1 precision "10::rat"] p by simp
  have half: "(?P - 1 / 2) * ?T \<le> ?P * ?T" "?P / 10 * ?T \<le> (?P - 1 / 2) * ?T"
    using T P by (intro mult_right_mono; simp)+
  have PT: "10 powi (m + ?p) = ?P * ?T" by (simp add: power_int_add)
  have upper: "\<bar>decimal_value d\<bar> < 10 powi (int n + e)"
  proof -
    have "rat_of_nat c < rat_of_nat (10 ^ n)" using B(1) by (simp only: of_nat_less_iff)
    then have "rat_of_nat c * 10 powi e < 10 ^ n * 10 powi e" by simp
    then show ?thesis by (simp add: v power_int_add)
  qed
  have lower: "10 powi (int (n - 1) + e) \<le> \<bar>decimal_value d\<bar>"
  proof -
    have "rat_of_nat (10 ^ (n - 1)) \<le> rat_of_nat c" using B(2) by (simp only: of_nat_le_iff)
    then have "10 ^ (n - 1) * 10 powi e \<le> rat_of_nat c * 10 powi e" by simp
    then show ?thesis by (simp add: v power_int_add)
  qed
  have carry: "digit_count (int (half_even c (n - precision))) \<le> Suc precision" if "precision < n"
  proof -
    have "half_even c (n - precision) \<le> 10 ^ precision"
      using half_even_carry(1) [of c precision "n - precision"] that p n_def by simp
    also have "\<dots> < 10 ^ Suc precision" by simp
    finally show ?thesis by (simp only: digit_count_le [OF zero_less_Suc])
  qed
  consider (high) "m + ?p \<le> int n - 1 + e" | (low) "int n + e \<le> m + ?p - 1" | (edge) "int n + e = m + ?p" by linarith
  then show ?thesis
  proof cases
    case high
    then have "10 powi (m + ?p) \<le> (10::rat) powi (int (n - 1) + e)" using B(3) by (intro power_int_increasing) auto
    with lower half(1) have "(?P - 1 / 2) * ?T \<le> \<bar>decimal_value d\<bar>" unfolding PT by linarith
    moreover have "emax < adjusted d" using high m a by simp
    ultimately show ?thesis unfolding abs by simp
  next
    case low
    then have "(10::rat) powi (int n + e) \<le> 10 powi (m + ?p - 1)" by (intro power_int_increasing) auto
    moreover have "(10::rat) powi (m + ?p - 1) = ?P / 10 * ?T" by (simp add: power_int_diff PT)
    ultimately have "\<not> (?P - 1 / 2) * ?T \<le> \<bar>decimal_value d\<bar>" using upper half(2) by linarith
    moreover have "\<not> emax < adjusted d" using low m a by simp
    moreover have "\<not> emax < adjusted \<lparr>dc_coefficient = int (half_even c (n - precision)), dc_exponent = e + int (n - precision)\<rparr>"
      if "precision < n" using carry [OF that] low m that by (simp add: adjusted_def)
    ultimately show ?thesis unfolding abs by (simp add: Let_def)
  next
    case edge
    have no: "\<not> emax < adjusted d" "\<not> adjusted d < - emax" using edge m a p by auto
    show ?thesis
    proof (cases "precision < n")
      case False
      then have e: "e = m + int (precision - n)" using edge by simp
      have "rat_of_nat c \<le> 10 ^ n - 1"
      proof -
        have "c + 1 \<le> 10 ^ n" using B(1) by simp
        then have "rat_of_nat (c + 1) \<le> rat_of_nat (10 ^ n)" by (simp only: of_nat_le_iff)
        then show ?thesis by simp
      qed
      then have "rat_of_nat c * 10 ^ (precision - n) \<le> (10 ^ n - 1) * 10 ^ (precision - n)" by simp
      also have "\<dots> = ?P - 10 ^ (precision - n)"
        using False by (simp add: algebra_simps flip: power_add)
      also have "\<dots> < ?P - 1 / 2" using one_le_power [of "10::rat" "precision - n"] by linarith
      finally have "rat_of_nat c * 10 ^ (precision - n) * ?T < (?P - 1 / 2) * ?T" by simp
      then have "\<bar>decimal_value d\<bar> < (?P - 1 / 2) * ?T"
        by (simp add: v e power_int_add mult.assoc mult.left_commute)
      with False no show ?thesis unfolding abs by simp
    next
      case True
      define k where "k = n - precision"
      have k: "0 < k" "digit_count (int c) = precision + k" "e + int k = m" using True edge by (simp_all add: k_def n_def)
      note H = half_even_carry [OF k(2) p k(1)]
      let ?r = "\<lparr>dc_coefficient = int (half_even c k), dc_exponent = e + int k\<rparr>"
      have "emax < adjusted ?r \<longleftrightarrow> precision < digit_count (int (half_even c k))"
        using m k(3) by (auto simp: adjusted_def)
      also have "\<dots> \<longleftrightarrow> 10 ^ precision \<le> half_even c k" using digit_count_le [OF p] by (simp add: not_le [symmetric])
      also have "\<dots> \<longleftrightarrow> (2 * 10 ^ precision - 1) * 10 ^ k \<le> 2 * c" by (rule H(2))
      also have "\<dots> \<longleftrightarrow> rat_of_nat ((2 * 10 ^ precision - 1) * 10 ^ k) \<le> rat_of_nat (2 * c)" by (simp only: of_nat_le_iff)
      also have "\<dots> \<longleftrightarrow> (?P - 1 / 2) * 10 ^ k \<le> rat_of_nat c"
        by (simp add: of_nat_diff algebra_simps) linarith
      also have "\<dots> \<longleftrightarrow> (?P - 1 / 2) * 10 ^ k * 10 powi e \<le> rat_of_nat c * 10 powi e" by simp
      also have "\<dots> \<longleftrightarrow> (?P - 1 / 2) * ?T \<le> \<bar>decimal_value d\<bar>"
        unfolding v k(3) [symmetric] by (simp add: power_int_add mult.assoc mult.commute)
      finally show ?thesis using no True unfolding abs k_def [symmetric] by (simp add: Let_def)
    qed
  qed
qed

text \<open>The literal bound of the default context: 28 digits, exponents up to 999999.\<close>

definition decimal_limit :: rat where
  "decimal_limit = (10 ^ 28 - 1 / 2) * 10 powi 999972"

lemma decimal_abs_overflow: "decimal_abs d = Inl Decimal_Overflow \<longleftrightarrow> decimal_limit \<le> \<bar>decimal_value d\<bar>"
proof -
  have "emax = 999972 + int precision - 1" by (simp add: emax_def precision_def)
  from overflow_iff [OF this zero_le_numeral, unfolded precision_def] show ?thesis unfolding decimal_limit_def .
qed

end
