(* ===== verification/Read_Numbers.thy ===== *)
theory Read_Numbers
  imports Py_Regex Py_Decimal Read_Context
begin

text \<open>
  \<open>reading/numbers.py\<close>: the closed numeric notation that claims and sources are compared by. Texts are
  normalised (full width characters, scientific notation, forms the notation does not know), scanned for
  numbers with their units, and paired into ranges. Offsets are kept, so a literal is shown as it stands
  in the text.
\<close>

section \<open>Alphabets and patterns\<close>

definition unit_aliases :: "(pystr \<times> pystr) list" where
  "unit_aliases =
     [([109, 32, 115, 0x207B, 0xB9], ascii ''m/s''), (ascii ''m s-1'', ascii ''m/s''), (ascii ''m/s'', ascii ''m/s''),
      ([0x7C73, 47, 0x79D2], ascii ''m/s''), (ascii ''hPa'', ascii ''hPa''), ([0x767E, 0x5E15], ascii ''hPa''),
      (ascii ''km'', ascii ''km''), ([0x516C, 0x91CC], ascii ''km''), ([0x5343, 0x7C73], ascii ''km''),
      ([0xB0, 67], [0xB0, 67]), ([0x6444, 0x6C0F, 0x5EA6], [0xB0, 67]), (ascii ''%'', ascii ''%''),
      (ascii ''m'', ascii ''m''), ([0x7C73], ascii ''m'')]"

text \<open>\<open>str.maketrans\<close> and \<open>str.translate\<close>: characters without an entry stay.\<close>

definition translate :: "(nat \<times> nat) list \<Rightarrow> pystr \<Rightarrow> pystr" where
  "translate table s = map (\<lambda>c. case map_of table c of Some d \<Rightarrow> d | None \<Rightarrow> c) s"

definition fullwidth :: "(nat \<times> nat) list" where
  "fullwidth =
     zip [0xFF10, 0xFF11, 0xFF12, 0xFF13, 0xFF14, 0xFF15, 0xFF16, 0xFF17, 0xFF18, 0xFF19,
          0xFF0B, 0xFF0D, 0xFF0E, 0xFF0C, 0xFF05, 0x2212] (ascii ''0123456789+-.,%-'')"

definition raised_digits :: pystr where
  "raised_digits = [0x2070, 0xB9, 0xB2, 0xB3, 0x2074, 0x2075, 0x2076, 0x2077, 0x2078, 0x2079]"

definition raised_signs :: pystr where
  "raised_signs = [0x207A, 0x207B]"

definition superscript :: "(nat \<times> nat) list" where
  "superscript = zip (raised_digits @ raised_signs) (ascii ''0123456789+-'')"

definition latin :: "nat \<Rightarrow> bool" where
  "latin c \<longleftrightarrow> (97 \<le> c \<and> c \<le> 122) \<or> (65 \<le> c \<and> c \<le> 90)"

definition a_digit :: regex where "a_digit = Class is_digit"
definition digits :: regex where "digits = some_of a_digit"
definition blanks :: regex where "blanks = Many (Class white_space)"
definition raised :: regex where "raised = some_of (one_of raised_digits)"
definition sign :: regex where "sign = one_of (ascii ''+-'')"
definition point :: regex where "point = one_of (ascii ''.'')"

definition no_word_before :: regex where
  "no_word_before = Not_After (\<lambda>c. latin c \<or> is_digit c \<or> c = 46)"

definition exponent_form :: regex where
  "exponent_form = Group ''exponent''
     (Either (Then (maybe (one_of raised_signs)) raised)
             (in_order [one_of (ascii ''^''), maybe sign, digits]))"

definition no_digit_after :: regex where
  "no_digit_after = Not_Before (Either (Class (\<lambda>c. is_digit c \<or> c \<in> set (raised_digits @ raised_signs)))
     (Then point a_digit))"

definition whole_and_fraction :: regex where
  "whole_and_fraction = Then digits (maybe (Then point digits))"

definition times_ten :: regex where
  "times_ten = in_order [blanks, one_of [0xD7, 120], blanks, literal (ascii ''10'')]"

definition scientific :: regex where
  "scientific =
     in_order [no_word_before, Group ''mant'' (Either whole_and_fraction (Then point digits)),
       times_ten, exponent_form, no_digit_after]"

definition power :: regex where
  "power = in_order [no_word_before, literal (ascii ''10''), exponent_form, no_digit_after]"

definition caret_tail :: regex where
  "caret_tail = Then (one_of (ascii ''^''))
     (Many (Class (\<lambda>c. \<not> white_space c \<and> c \<notin> set [44, 59, 0x3002, 0xFF0C, 0xFF1B])))"

definition raised_tail :: regex where
  "raised_tail = in_order [maybe (one_of raised_signs), raised, Many (Class (\<lambda>c. is_digit c \<or> c = 46))]"

definition unsupported_form :: regex where
  "unsupported_form = Then no_word_before
     (any_of
       [in_order [whole_and_fraction, times_ten, maybe (Either caret_tail raised_tail)],
        Then (Either whole_and_fraction (Then point digits)) (Either caret_tail raised_tail),
        in_order [digits, one_of (ascii ''/''), digits]])"

definition atom_form :: regex where
  "atom_form = in_order
     [maybe (one_of [43, 45, 0xB1]),
      Either (Then a_digit (Many (Class (\<lambda>c. is_digit c \<or> c = 44 \<or> c = 46)))) (Then point digits),
      maybe (in_order [one_of (ascii ''eE''), maybe sign, Many a_digit])]"

definition power_of_ten :: regex where
  "power_of_ten = maybe (in_order [one_of (ascii ''eE''), maybe sign, digits])"

definition valid_number :: regex where
  "valid_number = Either
     (in_order
       [maybe sign,
        Either digits
          (in_order [a_digit, maybe a_digit, maybe a_digit, some_of (in_order [one_of (ascii '',''), a_digit, a_digit, a_digit])]),
        maybe (Then point digits), power_of_ten])
     (in_order [maybe sign, point, digits, power_of_ten])"

text \<open>
  \<open>re.IGNORECASE\<close>: a letter matches both its cases, and the letters \<open>i\<close> and \<open>s\<close> also the dotless and dotted
  forms and the long form Unicode folds with them; the class \<open>[A-Za-z0-9]\<close> also the Kelvin sign.
\<close>

definition letter_variants :: "nat \<Rightarrow> pystr" where
  "letter_variants c =
     (if 97 \<le> c \<and> c \<le> 122 then
        [c - 32, c] @ (if c = 105 then [0x130,
          0x131] else if c = 115 then [0x17F] else if c = 107 then [0x212A] else [])
      else [c])"

definition any_case :: "string \<Rightarrow> regex" where
  "any_case s = in_order (map (\<lambda>c. one_of (letter_variants c)) (ascii s))"

definition reference_prefix :: regex where
  "reference_prefix = in_order
     [Either (one_of [0x56FE, 0x8868, 0x5F0F, 0x8282])
        (Then (Not_After (\<lambda>c. latin c \<or> is_digit c \<or> c \<in> set [0x130, 0x131, 0x17F, 0x212A]))
          (any_of (map any_case [''fig.'', ''figure'', ''table'', ''eq.'', ''section'']))),
      blanks, maybe (one_of [40, 91]), blanks]"

definition range_form :: regex where
  "range_form = in_order
     [blanks, any_of [one_of [0x2013], one_of [126], one_of [0xFF5E], one_of [0x81F3], any_case ''to'', one_of [45]], blanks]"

definition unit_gap :: regex where
  "unit_gap = Then blanks (maybe (Then (one_of (ascii ''-'')) blanks))"

section \<open>The normal form\<close>

text \<open>\<open>xs[i:j]\<close> for offsets that are not negative.\<close>

definition slice :: "nat \<Rightarrow> nat \<Rightarrow> 'a list \<Rightarrow> 'a list" where
  "slice i j xs = drop i (take j xs)"

datatype form = Scientific_Form | Power_Form | Unsupported_Form

fun form_pattern :: "form \<Rightarrow> regex" where
  "form_pattern Scientific_Form = scientific"
| "form_pattern Power_Form = power"
| "form_pattern Unsupported_Form = unsupported_form"

definition replacement :: "form \<Rightarrow> found \<Rightarrow> pystr" where
  "replacement p m =
     (if p = Unsupported_Form then ascii ''0..0''
      else
        let exponent = translate superscript (dropWhile (\<lambda>c. c = 94) (the (group_of ''exponent'' m)));
            mantissa = (case group_of ''mant'' m of Some g \<Rightarrow> if g = [] then ascii ''1'' else g | None \<Rightarrow> ascii ''1'') in
        mantissa @ 101 # exponent)"

text \<open>One pass over the matches of a pattern: the pieces and the offsets they come from.\<close>

fun rewrite :: "form \<Rightarrow> pystr \<Rightarrow> nat list \<Rightarrow> nat \<Rightarrow> found list \<Rightarrow> pystr \<times> nat list" where
  "rewrite p s offsets cursor [] = (drop cursor s, drop cursor offsets)"
| "rewrite p s offsets cursor (m # ms) =
     (let r = replacement p m; (t, os) = rewrite p s offsets (fd_end m) ms in
      (slice cursor (fd_start m) s @ r @ t,
       slice cursor (fd_start m) offsets @ replicate (length r - 1) (offsets ! fd_start m) @
         offsets ! (fd_end m - 1) # os))"

definition rewrite_all :: "form \<Rightarrow> pystr \<times> nat list \<Rightarrow> pystr \<times> nat list" where
  "rewrite_all p so = rewrite p (fst so) (snd so) 0 (finditer (form_pattern p) 0 None (fst so))"

definition normal_form :: "pystr \<Rightarrow> pystr \<times> nat list" where
  "normal_form original =
     rewrite_all Unsupported_Form (rewrite_all Power_Form (rewrite_all Scientific_Form
       (translate fullwidth original, [0..<length original])))"

section \<open>Atoms\<close>

record atom =
  am_value :: "decimal option"
  am_uncertainty :: bool
  am_unit :: "pystr option"
  am_start :: nat
  am_end :: nat

definition unit_at :: "pystr \<Rightarrow> nat \<Rightarrow> pystr option \<times> nat" where
  "unit_at s start =
     (let position = start + the (match_length unit_gap (drop start s)) in
      case find (\<lambda>(alias, target).
             prefix alias (drop position s) \<and>
             (position + length alias = length s \<or> \<not> latin (s ! (position + length alias)))) unit_aliases of
        Some (alias, target) \<Rightarrow> (Some target, position + length alias)
      | None \<Rightarrow> (None, start))"

definition decimal_text :: "pystr \<Rightarrow> decimal option" where
  "decimal_text v = (if fullmatch valid_number v then decimal_of (filter (\<lambda>c. c \<noteq> 44) v) else None)"

definition rstrip_marks :: "pystr \<Rightarrow> pystr" where
  "rstrip_marks s = rev (dropWhile (\<lambda>c. c = 46 \<or> c = 44) (rev s))"

text \<open>One turn of the loop over the candidates: what was found so far, in reverse, and the offset up to
  which the text is consumed.\<close>

definition adjacent_range_end :: "pystr \<Rightarrow> atom list \<Rightarrow> nat \<Rightarrow> bool" where
  "adjacent_range_end raw result start \<longleftrightarrow>
     take 1 raw = [45] \<and>
     (case result of [] \<Rightarrow> False | a # _ \<Rightarrow> am_value a \<noteq> None \<and> am_end a = start)"

definition atom_step :: "pystr \<Rightarrow> found \<Rightarrow> atom list \<times> nat \<Rightarrow> atom list \<times> nat" where
  "atom_step s m st =
     (let (result, consumed) = st; start = fd_start m;
          raw = rstrip_marks (slice start (fd_end m) s); stop = start + length raw;
          (un, unit_end) = unit_at s stop; uncertain = take 1 raw = [0xB1]; prev = s ! (start - 1) in
      if start < consumed \<or> raw = [] then st
      else if (0 < start \<and> \<not> adjacent_range_end raw result start \<and>
               (latin prev \<or> ((is_digit prev \<or> prev = 46) \<and> \<not> uncertain))) \<or>
              (stop < length s \<and> latin (s ! stop) \<and> un = None) then st
      else if search_to_end reference_prefix None (take start s) then (result, unit_end)
      else
        (\<lparr>am_value = decimal_text (if uncertain then drop 1 raw else raw), am_uncertainty = uncertain,
           am_unit = un, am_start = start, am_end = unit_end\<rparr> # result, unit_end))"

definition atoms :: "pystr \<Rightarrow> atom list" where
  "atoms s = rev (fst (fold (atom_step s) (finditer atom_form 0 None s) ([], 0)))"

section \<open>Literals\<close>

record numeric_literal =
  nl_text :: pystr
  nl_values :: "decimal option list"
  nl_uncertainty :: "bool list"
  nl_units :: "pystr option list"

definition literal_unit :: "numeric_literal \<Rightarrow> pystr option" where
  "literal_unit n = last (nl_units n)"

definition recognized :: "numeric_literal \<Rightarrow> bool" where
  "recognized n \<longleftrightarrow> list_all (\<lambda>v. v \<noteq> None) (nl_values n)"

text \<open>A number followed by a minus and a number is a range; its end is the absolute value, whose
  computation may overflow.\<close>

definition joined_minus :: "pystr \<Rightarrow> atom \<Rightarrow> atom \<Rightarrow> bool" where
  "joined_minus s a b \<longleftrightarrow>
     strip (slice (am_end a) (am_start b) s) = [] \<and> slice (am_start b) (am_start b + 1) s = [45]"

definition range_end :: "pystr \<Rightarrow> atom \<Rightarrow> atom \<Rightarrow> (decimal_error, decimal option) outcome" where
  "range_end s a b =
     (case am_value b of
        Some v \<Rightarrow> if joined_minus s a b then map_sum id Some (decimal_abs v) else Inr (Some v)
      | None \<Rightarrow> Inr None)"

definition literal_of :: "pystr \<Rightarrow> nat list \<Rightarrow> atom list \<Rightarrow> decimal option list \<Rightarrow> numeric_literal" where
  "literal_of original offsets as values =
     \<lparr>nl_text = slice (offsets ! am_start (hd as)) (offsets ! (am_end (last as) - 1) + 1) original,
      nl_values = values, nl_uncertainty = map am_uncertainty as, nl_units = map am_unit as\<rparr>"

fun pair_atoms ::
    "pystr \<Rightarrow> nat list \<Rightarrow> pystr \<Rightarrow> atom list \<Rightarrow> (decimal_error, numeric_literal list) outcome" where
  "pair_atoms original offsets s [] = Inr []"
| "pair_atoms original offsets s [a] = Inr [literal_of original offsets [a] [am_value a]]"
| "pair_atoms original offsets s (a # b # as) =
     (if fullmatch range_form (slice (am_end a) (am_start b) s) \<or> joined_minus s a b then
        and_then (range_end s a b) (\<lambda>v.
        and_then (pair_atoms original offsets s as) (\<lambda>ls.
          Inr (literal_of original offsets [a, b] [am_value a, v] # ls)))
      else
        and_then (pair_atoms original offsets s (b # as)) (\<lambda>ls.
          Inr (literal_of original offsets [a] [am_value a] # ls)))"

definition extract_numeric_literals :: "pystr \<Rightarrow> (decimal_error, numeric_literal list) outcome" where
  "extract_numeric_literals original =
     (let (s, offsets) = normal_form original in pair_atoms original offsets s (atoms s))"

section \<open>Matching\<close>

datatype numeric_reason =
    Number_Not_Supported | Range_Not_Supported | Unit_Not_Supported | Unrecognized_Numeric_Form
  | Restricted_Numeric_Support

text \<open>The numbers of one source: value, uncertainty, unit.\<close>

definition source_numbers :: "numeric_literal list \<Rightarrow> (decimal \<times> bool \<times> pystr option) list" where
  "source_numbers source =
     concat (map (\<lambda>item.
       map (\<lambda>(value, uncertain, un).
              (the value, uncertain, if un \<noteq> None then un else literal_unit item))
         (zip (nl_values item) (zip (nl_uncertainty item) (nl_units item))))
       (filter recognized source))"

definition endpoint_supported ::
    "numeric_literal \<Rightarrow> bool \<Rightarrow> (decimal \<times> bool \<times> pystr option) list \<Rightarrow> nat \<times> decimal option \<times> bool \<times> pystr option \<Rightarrow> bool"
where
  "endpoint_supported lit with_unit numbers e =
     (let (index, value, uncertain, declared) = e;
          required = (if declared \<noteq> None then declared else literal_unit lit) in
      list_ex (\<lambda>(source_value, source_uncertain, un).
        decimal_equal (the value) source_value \<and> uncertain = source_uncertain \<and>
        (\<not> with_unit \<or> required = None \<or> required = un \<or>
         (index < length (nl_values lit) - 1 \<and> un = None))) numbers)"

definition supports :: "numeric_literal \<Rightarrow> numeric_literal list \<Rightarrow> bool \<Rightarrow> bool" where
  "supports lit source with_unit \<longleftrightarrow>
     recognized lit \<and>
     list_all (endpoint_supported lit with_unit (source_numbers source))
       (enumerate 0 (zip (nl_values lit) (zip (nl_uncertainty lit) (nl_units lit))))"

fun numeric_reason_value :: "numeric_reason \<Rightarrow> string" where
  "numeric_reason_value Number_Not_Supported = ''number_not_supported''"
| "numeric_reason_value Range_Not_Supported = ''range_not_supported''"
| "numeric_reason_value Unit_Not_Supported = ''unit_not_supported''"
| "numeric_reason_value Unrecognized_Numeric_Form = ''unrecognized_numeric_form''"
| "numeric_reason_value Restricted_Numeric_Support = ''restricted_numeric_support''"

record numeric_match =
  nm_literal :: numeric_literal
  nm_ordinal :: nat
  nm_reliable :: bool
  nm_restricted :: bool
  nm_reason :: "numeric_reason option"

definition match_literal :: "(numeric_literal list \<times> bool) list \<Rightarrow> nat \<Rightarrow> numeric_literal \<Rightarrow> numeric_match" where
  "match_literal sources ordinal lit =
     (let reliable = list_ex (\<lambda>(values, restricted). \<not> restricted \<and> supports lit values True) sources;
          restricted = list_ex (\<lambda>(values, restricted). restricted \<and> supports lit values True) sources in
      \<lparr>nm_literal = lit, nm_ordinal = ordinal, nm_reliable = reliable, nm_restricted = restricted,
       nm_reason =
         (if \<not> recognized lit then Some Unrecognized_Numeric_Form
          else if \<not> reliable \<and> \<not> restricted then
            Some (if list_ex (\<lambda>u. u \<noteq> None) (nl_units lit) \<and>
                     list_ex (\<lambda>(values, _). supports lit values False) sources then Unit_Not_Supported
                  else if length (nl_values lit) = 2 then Range_Not_Supported
                  else Number_Not_Supported)
          else None)\<rparr>)"

text \<open>The extraction may overflow; a source is restricted unless it is reliable text.\<close>

definition match_numbers :: "pystr \<Rightarrow> source_slice list \<Rightarrow> (decimal_error, numeric_match list) outcome" where
  "match_numbers original slices =
     and_then (each_row (\<lambda>s. and_then (extract_numeric_literals (sl_text s)) (\<lambda>ls.
         Inr (ls, sl_kind s \<noteq> ''text'' \<or> sl_unreliable s))) slices) (\<lambda>sources.
     and_then (extract_numeric_literals original) (\<lambda>ls. Inr (mapi (match_literal sources) ls)))"

end
