(* ===== verification/Read_Acceptance.thy ===== *)
theory Read_Acceptance
  imports Read_Output Read_Numbers "HOL-Library.Product_Lexorder"
begin

text \<open>
  \<open>reading/acceptance_v2/__init__.py\<close>: the acceptance of a whole candidate. The first attempt must be sound
  throughout; on the second one an unsound list item is discarded and reported, but not an unsound reason,
  and not all subject content. What is accepted carries warnings for what the cited text does not support.
\<close>

section \<open>Errors\<close>

text \<open>The categories of version 2: the ones of version 1 under the same values, without the two of restricted
  sources, and three of its own.\<close>

datatype v2_category =
    Shared read_category | Output_Without_Support | Invalid_Degrade_Policy | Invalid_Attempt_Ordinal

fun v2_category_value :: "v2_category \<Rightarrow> string" where
  "v2_category_value (Shared c) = read_category_value c"
| "v2_category_value Output_Without_Support = ''output_without_support''"
| "v2_category_value Invalid_Degrade_Policy = ''invalid_degrade_policy''"
| "v2_category_value Invalid_Attempt_Ordinal = ''invalid_attempt_ordinal''"

record v2_issue =
  vi_location :: pystr
  vi_category :: v2_category
  vi_guidance :: pystr

definition v2_guidance :: pystr where
  "v2_guidance = ([0x8BF7, 0x6309] @ ascii '' Read v2 '' @ [0x5951, 0x7EA6, 0x68C0, 0x67E5, 0x8BE5, 0x4F4D,
    0x7F6E, 0x7684, 0x7C7B, 0x578B, 0x3001, 0x6765, 0x6E90, 0x6216, 0x5FC5, 0x586B, 0x5185, 0x5BB9, 0x3002])"

definition v2_issue_at :: "pystr \<Rightarrow> read_category \<Rightarrow> v2_issue" where
  "v2_issue_at location category =
     \<lparr>vi_location = location, vi_category = Shared category, vi_guidance = v2_guidance\<rparr>"

text \<open>\<open>ReadV2OutputError\<close>, \<open>ReadV2ContextError\<close>, and two errors the code does not foresee: the overflow of a
  decimal and a source that is not there.\<close>

datatype v2_error =
    Output_Error "v2_issue list" | Context_Error "v2_issue list" | Arithmetic_Crash decimal_error | Key_Crash

type_synonym 'a v2_checked = "(v2_error, 'a) outcome"

definition convert_issues :: "read_issue list \<Rightarrow> v2_issue list" where
  "convert_issues issues = map (\<lambda>i. v2_issue_at (ri_location i) (ri_category i)) issues"

definition validate_read_context_v2 :: "read_env \<Rightarrow> read_context \<Rightarrow> read_context v2_checked" where
  "validate_read_context_v2 env cx =
     map_sum (\<lambda>issues. Context_Error (convert_issues issues)) id (make_read_context (rd_category env) cx)"

definition parse_v2 :: "read_env \<Rightarrow> nat list \<Rightarrow> read_analysis v2_checked" where
  "parse_v2 env raw = map_sum (\<lambda>issues. Output_Error (convert_issues issues)) id (parse_candidate env raw)"

section \<open>The whole candidate\<close>

datatype item_field = Main_Findings | Reusable_Points | Key_Limitations

fun field_name :: "item_field \<Rightarrow> string" where
  "field_name Main_Findings = ''main_findings''"
| "field_name Reusable_Points = ''reusable_points''"
| "field_name Key_Limitations = ''key_limitations''"

text \<open>One statement with its texts and references; the reasons belong to no list.\<close>

record cited_item =
  ci_location :: pystr
  ci_texts :: "pystr list"
  ci_references :: "evidence_ref list"
  ci_field :: "item_field option"
  ci_ordinal :: nat

definition statement_item :: "item_field \<Rightarrow> nat \<Rightarrow> supported_statement \<Rightarrow> cited_item" where
  "statement_item f i s =
     \<lparr>ci_location = place_at (''$.'' @ field_name f) i '''', ci_texts = [ss_statement s],
      ci_references = ss_evidence s, ci_field = Some f, ci_ordinal = i + 1\<rparr>"

definition point_item :: "nat \<Rightarrow> reusable_point \<Rightarrow> cited_item" where
  "point_item i p =
     \<lparr>ci_location = place_at (''$.'' @ field_name Reusable_Points) i '''', ci_texts = [rp_item p, rp_how_to_reuse p],
      ci_references = rp_evidence p, ci_field = Some Reusable_Points, ci_ordinal = i + 1\<rparr>"

definition reason_item :: "string \<Rightarrow> supported_statement \<Rightarrow> cited_item" where
  "reason_item name s =
     \<lparr>ci_location = ascii (''$.'' @ name), ci_texts = [ss_statement s], ci_references = ss_evidence s,
      ci_field = None, ci_ordinal = 1\<rparr>"

definition items :: "read_analysis \<Rightarrow> cited_item list" where
  "items a =
     mapi (statement_item Main_Findings) (ra_main_findings a) @
     mapi point_item (ra_reusable_points a) @
     mapi (statement_item Key_Limitations) (ra_key_limitations a) @
     [reason_item ''research_value_reason'' (ra_research_value_reason a),
      reason_item ''reuse_feasibility_reason'' (ra_reuse_feasibility_reason a)]"

definition item_fields :: "cited_item \<Rightarrow> string list" where
  "item_fields i = (if ci_field i = Some Reusable_Points then [''item'', ''how_to_reuse''] else [''statement''])"

definition item_paths :: "cited_item \<Rightarrow> (pystr \<times> pystr) list" where
  "item_paths i = zip (map (\<lambda>f. ci_location i @ 46 # ascii f) (item_fields i)) (ci_texts i)"

definition candidate_texts :: "read_analysis \<Rightarrow> (pystr \<times> pystr) list" where
  "candidate_texts a =
     [(ascii ''$.one_sentence_conclusion'', ra_one_sentence_conclusion a), (ascii ''$.research_question'', ra_research_question a),
      (ascii ''$.methods_summary'', ra_methods_summary a), (ascii ''$.data_summary'', ra_data_summary a),
      (ascii ''$.why_it_matters'', ra_why_it_matters a), (ascii ''$.next_action'', ra_next_action a)] @
     mapi (\<lambda>i v. (place_at ''$.required_adaptations'' i '''', v)) (ra_required_adaptations a) @
     mapi (\<lambda>i v. (place_at ''$.open_questions'' i '''', v)) (ra_open_questions a) @
     mapi (\<lambda>i v. (place_at ''$.degraded_content_warnings'' i '''', v)) (ra_degraded_content_warnings a) @
     concat (map item_paths (items a))"

definition repeated_value_types :: "read_value_type list \<Rightarrow> nat list" where
  "repeated_value_types vs = filter (\<lambda>i. vs ! i \<in> set (take i vs)) [0..<length vs]"

definition whole_candidate_issues :: "read_env \<Rightarrow> read_analysis \<Rightarrow> read_context \<Rightarrow> v2_issue list" where
  "whole_candidate_issues env a cx =
     map (\<lambda>(location, v). v2_issue_at location Bad_Text)
       (filter (\<lambda>(location, v). \<not> read_meaningful env v) (candidate_texts a)) @
     (if Some (ra_output_language a) \<noteq> cx_language cx then [v2_issue_at (ascii ''$.output_language'') Language_Mismatch] else []) @
     (if 3 \<le> ra_research_value a \<and> ra_value_types a = [] then [v2_issue_at (ascii ''$.value_types'') Value_Types_Required]
      else []) @
     map (\<lambda>i. v2_issue_at (place_at ''$.value_types'' i '''') Duplicate_Value_Type)
       (repeated_value_types (ra_value_types a))"

section \<open>References\<close>

definition pointer_category ::
    "read_env \<Rightarrow> read_context \<Rightarrow> pystr set \<Rightarrow> pystr \<Rightarrow> read_category option" where
  "pointer_category env cx seen identifier =
     (if \<not> valid_id (rd_category env) identifier then Some Invalid_Evidence_Id
      else if identifier \<in> seen then Some Duplicate_Evidence
      else if identifier \<notin> known_evidence cx then Some Unknown_Evidence
      else if identifier \<notin> allowed_ids cx then Some Evidence_Not_Allowed
      else None)"

definition reference_path :: "pystr \<Rightarrow> nat \<Rightarrow> pystr" where
  "reference_path location i = location @ place_at ''.evidence'' i ''.evidence_id''"

fun pointer_loop ::
    "read_env \<Rightarrow> read_context \<Rightarrow> pystr \<Rightarrow> nat \<Rightarrow> pystr set \<Rightarrow> evidence_ref list \<Rightarrow> v2_issue list" where
  "pointer_loop env cx location i seen [] = []"
| "pointer_loop env cx location i seen (r # rs) =
     (case pointer_category env cx seen r of None \<Rightarrow> []
      | Some c \<Rightarrow> [v2_issue_at (reference_path location i) c]) @
     pointer_loop env cx location (Suc i) (insert r seen) rs"

definition pointers :: "read_env \<Rightarrow> evidence_ref list \<Rightarrow> pystr \<Rightarrow> read_context \<Rightarrow> v2_issue list" where
  "pointers env references location cx =
     pointer_loop env cx location 0 {} references @
     (if cx_mode cx = ''reduce'' \<and> \<not> list_ex (\<lambda>r. r \<in> allowed_ids cx) references
      then [v2_issue_at (location @ ascii ''.evidence'') Evidence_Required] else [])"

text \<open>Where the discarded references point, as far as the evidence is known; equal positions once.\<close>

fun add_positions :: "provenance list \<Rightarrow> provenance list \<Rightarrow> provenance list" where
  "add_positions ps [] = ps"
| "add_positions ps (q # qs) =
     add_positions (if list_ex (same_provenance q) ps then ps else ps @ [q]) qs"

definition positions ::
    "evidence_ref list \<Rightarrow> pystr \<Rightarrow> v2_issue list \<Rightarrow> read_context \<Rightarrow> provenance list" where
  "positions references location issues cx =
     (let bad = set (map vi_location issues);
          identifiers = set (map snd (filter (\<lambda>(i, r). reference_path location i \<in> bad) (enumerate 0 references))) in
      fold (\<lambda>e ps. if en_evidence_id e \<in> identifiers then add_positions ps (en_provenance e) else ps)
        (cx_evidence cx) [])"

record v2_discard =
  vd_location :: pystr
  vd_field :: item_field
  vd_ordinal :: nat
  vd_reason :: v2_category
  vd_positions :: "provenance list"

section \<open>Warnings\<close>

datatype v2_reason = Numeric numeric_reason | Restricted_Reference | Item_Discarded

fun v2_reason_value :: "v2_reason \<Rightarrow> string" where
  "v2_reason_value (Numeric r) = numeric_reason_value r"
| "v2_reason_value Restricted_Reference = ''restricted_source_reference''"
| "v2_reason_value Item_Discarded = ''evidence_item_discarded''"

record v2_diagnostic =
  dg_location :: pystr
  dg_reason :: v2_reason
  dg_ordinal :: nat

record v2_warning =
  wn_program :: bool
  wn_text :: pystr
  wn_diagnostic :: "v2_diagnostic option"

definition program_warning :: "string \<Rightarrow> v2_diagnostic \<Rightarrow> v2_warning" where
  "program_warning language d =
     \<lparr>wn_program = True,
      wn_text =
        (if dg_reason d = Item_Discarded then
           (if language = ''zh'' then dg_location d @ (ascii '' '' @ [0x56E0, 0x8BC1, 0x636E, 0x5F15, 0x7528,
             0x65E0, 0x6548, 0x5DF2, 0x4E22, 0x5F03, 0xFF1B, 0x8BF7, 0x6838, 0x5BF9,
               0x539F] @ ascii '' PDF'' @ [0x3002])
            else dg_location d @ ascii '' was discarded for invalid evidence references; verify the original PDF.'')
         else if language = ''zh'' then
           ([0x8BF7, 0x6838,
             0x5BF9] @ ascii '' '') @ dg_location d @ [0xFF08] @ ascii (v2_reason_value (dg_reason d)) @ [0xFF09, 0xFF1B, 0x53D7, 0x9650, 0x5185, 0x5BB9, 0x6216, 0x6570, 0x503C, 0x5C1A, 0x672A, 0x6838, 0x5BF9, 0x3002]
         else
           ascii ''Verify '' @ dg_location d @ ascii '' ('' @ ascii (v2_reason_value (dg_reason d)) @
             ascii ''); content or numbers remain unverified.''),
      wn_diagnostic = Some d\<rparr>"

definition match_reason :: "numeric_match \<Rightarrow> v2_reason option" where
  "match_reason m =
     (if nm_restricted m \<and> \<not> nm_reliable m then Some (Numeric Restricted_Numeric_Support)
      else map_option Numeric (nm_reason m))"

definition path_diagnostics ::
    "source_slice list \<Rightarrow> pystr \<times> pystr \<Rightarrow> (decimal_error, v2_diagnostic list) outcome" where
  "path_diagnostics slices path =
     and_then (match_numbers (snd path) slices) (\<lambda>ms. Inr
       ((if list_ex (\<lambda>s. sl_kind s = ''formula'' \<or> sl_unreliable s) slices
         then [\<lparr>dg_location = fst path, dg_reason = Restricted_Reference, dg_ordinal = 0\<rparr>] else []) @
        concat (map (\<lambda>m. case match_reason m of None \<Rightarrow> []
          | Some r \<Rightarrow> [\<lparr>dg_location = fst path, dg_reason = r, dg_ordinal = nm_ordinal m\<rparr>]) ms)))"

definition cited_slices :: "read_env \<Rightarrow> source_slice list \<Rightarrow> evidence_ref list \<Rightarrow> source_slice list" where
  "cited_slices env support references =
     map (\<lambda>s. s\<lparr>sl_unreliable := is_unreliable (rd_category env) (sl_text s) (sl_unreliable s)\<rparr>)
       (filter (\<lambda>s. sl_evidence_id s \<in> set references) support)"

definition item_diagnostics ::
    "read_env \<Rightarrow> source_slice list \<Rightarrow> cited_item \<Rightarrow> (decimal_error, v2_diagnostic list) outcome" where
  "item_diagnostics env support i =
     map_sum id concat
       (each_row (path_diagnostics (cited_slices env support (ci_references i))) (item_paths i))"

definition was_dropped :: "(item_field \<times> nat) list \<Rightarrow> cited_item \<Rightarrow> bool" where
  "was_dropped dropped i \<longleftrightarrow>
     (case ci_field i of Some f \<Rightarrow> (f, ci_ordinal i - 1) \<in> set dropped | None \<Rightarrow> False)"

definition warnings ::
    "read_env \<Rightarrow> read_analysis \<Rightarrow> source_slice list \<Rightarrow> (item_field \<times> nat) list \<Rightarrow> v2_discard list \<Rightarrow> string \<Rightarrow>
      (decimal_error, v2_warning list) outcome"
where
  "warnings env original support dropped discards language =
     and_then (each_row (item_diagnostics env support) (filter (\<lambda>i. \<not> was_dropped dropped i) (items original)))
       (\<lambda>found. Inr (map (program_warning language)
          (sort_key (\<lambda>d. (dg_location d, ascii (v2_reason_value (dg_reason d)), dg_ordinal d))
            (map (\<lambda>d. \<lparr>dg_location = vd_location d, dg_reason = Item_Discarded, dg_ordinal = vd_ordinal d\<rparr>) discards @
             concat found))))"

section \<open>Acceptance\<close>

record v2_result =
  vr_identity :: "extraction_identity option"
  vr_mode :: string
  vr_degrade_policy :: pystr
  vr_attempt_ordinal :: int
  vr_analysis :: read_analysis
  vr_analysis_json :: "nat list"
  vr_discards :: "v2_discard list"
  vr_model_warnings :: "pystr list"
  vr_diagnostics :: "v2_diagnostic list"
  vr_warnings :: "v2_warning list"
  vr_support :: "source_slice list"

definition degrade_policy :: pystr where
  "degrade_policy = ascii ''final_attempt''"

definition policy_issue :: v2_issue where
  "policy_issue = \<lparr>vi_location = ascii ''$.degrade_policy'', vi_category = Invalid_Degrade_Policy,
     vi_guidance = ([0x964D, 0x7EA7, 0x7B56, 0x7565, 0x4EC5, 0x652F,
       0x6301] @ ascii '' final_attempt'' @ [0xFF1B, 0x8BF7, 0x4F7F, 0x7528, 0x4EFB, 0x52A1, 0x5C42, 0x8BB0,
         0x5F55, 0x7684, 0x7B56, 0x7565, 0x3002])\<rparr>"

definition ordinal_issue :: v2_issue where
  "ordinal_issue = \<lparr>vi_location = ascii ''$.attempt_ordinal'', vi_category = Invalid_Attempt_Ordinal,
     vi_guidance = ([0x672C, 0x4EE3, 0x63A5, 0x6536, 0x5E8F, 0x53F7, 0x5FC5, 0x987B, 0x662F, 0x4E25, 0x683C,
       0x6574, 0x6570] @ ascii '' 1 '' @ [0x6216] @ ascii '' 2'' @ [0xFF1B, 0x8BF7, 0x4F7F, 0x7528, 0x4EFB,
         0x52A1, 0x9886, 0x53D6, 0x8BB0, 0x5F55, 0x7684, 0x5E8F, 0x53F7, 0x3002])\<rparr>"

definition unsupported_issue :: v2_issue where
  "unsupported_issue = \<lparr>vi_location = ascii ''$'', vi_category = Output_Without_Support,
     vi_guidance = [0x4E3B, 0x8981, 0x53D1, 0x73B0, 0x4E0E, 0x53EF, 0x590D, 0x7528, 0x70B9, 0x56E0, 0x8BC1,
       0x636E, 0x65E0, 0x6548, 0x5747, 0x5DF2, 0x6E05, 0x7A7A, 0xFF1B, 0x8BF7, 0x4FEE, 0x6B63, 0x5F15,
         0x7528, 0x5E76, 0x6309, 0x4EFB, 0x52A1, 0x9884, 0x7B97, 0x91CD, 0x8BD5, 0x3002]\<rparr>"

text \<open>The loop over the items: the failures, the discards and the dropped positions.\<close>

record acceptance =
  ac_failures :: "v2_issue list"
  ac_discards :: "v2_discard list"
  ac_dropped :: "(item_field \<times> nat) list"

definition item_step :: "read_env \<Rightarrow> read_context \<Rightarrow> int \<Rightarrow> cited_item \<Rightarrow> acceptance \<Rightarrow> acceptance" where
  "item_step env cx ordinal i ac =
     (let issues = pointers env (ci_references i) (ci_location i) cx in
      if issues = [] then ac
      else
        (case ci_field i of
           Some f \<Rightarrow>
             if ordinal \<noteq> 2 then ac\<lparr>ac_failures := ac_failures ac @ issues\<rparr>
             else
               ac\<lparr>ac_discards := ac_discards ac @
                    [\<lparr>vd_location = ci_location i, vd_field = f, vd_ordinal = ci_ordinal i,
                      vd_reason = vi_category (hd issues),
                      vd_positions = positions (ci_references i) (ci_location i) issues cx\<rparr>],
                  ac_dropped := ac_dropped ac @ [(f, ci_ordinal i - 1)]\<rparr>
         | None \<Rightarrow> ac\<lparr>ac_failures := ac_failures ac @ issues\<rparr>))"

definition accept_items :: "read_env \<Rightarrow> read_context \<Rightarrow> int \<Rightarrow> read_analysis \<Rightarrow> acceptance" where
  "accept_items env cx ordinal a =
     fold (item_step env cx ordinal) (items a) \<lparr>ac_failures = [], ac_discards = [], ac_dropped = []\<rparr>"

definition kept :: "(item_field \<times> nat) list \<Rightarrow> item_field \<Rightarrow> 'a list \<Rightarrow> 'a list" where
  "kept dropped f xs = map snd (filter (\<lambda>(i, x). (f, i) \<notin> set dropped) (enumerate 0 xs))"

definition without_dropped :: "(item_field \<times> nat) list \<Rightarrow> read_analysis \<Rightarrow> read_analysis" where
  "without_dropped dropped a =
     a\<lparr>ra_main_findings := kept dropped Main_Findings (ra_main_findings a),
       ra_reusable_points := kept dropped Reusable_Points (ra_reusable_points a),
       ra_key_limitations := kept dropped Key_Limitations (ra_key_limitations a)\<rparr>"

definition has_subject :: "read_analysis \<Rightarrow> bool" where
  "has_subject a \<longleftrightarrow> ra_main_findings a \<noteq> [] \<or> ra_reusable_points a \<noteq> []"

definition or_crash :: "(decimal_error, 'a) outcome \<Rightarrow> 'a v2_checked" where
  "or_crash r = map_sum Arithmetic_Crash id r"

definition with_warnings :: "read_analysis \<Rightarrow> v2_warning list \<Rightarrow> read_analysis" where
  "with_warnings a generated =
     a\<lparr>ra_degraded_content_warnings := ra_degraded_content_warnings a @ map wn_text generated\<rparr>"

definition accepted_result ::
    "read_env \<Rightarrow> read_context \<Rightarrow> pystr \<Rightarrow> int \<Rightarrow> read_analysis \<Rightarrow> acceptance \<Rightarrow> v2_result v2_checked" where
  "accepted_result env cx policy ordinal original ac =
     (let output = without_dropped (ac_dropped ac) original in
      and_then (require (\<not> (has_subject original \<and> \<not> has_subject output)) (Output_Error [unsupported_issue])) (\<lambda>_.
      and_then (or_raise (replay cx) Key_Crash) (\<lambda>support.
      and_then (or_crash (warnings env original support (ac_dropped ac) (ac_discards ac) (ra_output_language output))) (\<lambda>generated.
        let final = with_warnings output generated in
        Inr \<lparr>vr_identity = cx_identity cx, vr_mode = cx_mode cx, vr_degrade_policy = policy, vr_attempt_ordinal = ordinal,
          vr_analysis = final, vr_analysis_json = rd_dump env final, vr_discards = ac_discards ac,
          vr_model_warnings = ra_degraded_content_warnings output,
          vr_diagnostics = map (the \<circ> wn_diagnostic) generated,
          vr_warnings = map (\<lambda>t. \<lparr>wn_program = False, wn_text = t, wn_diagnostic = None\<rparr>)
              (ra_degraded_content_warnings output) @ generated,
          vr_support = support\<rparr>))))"

definition validate_read_output_v2 ::
    "read_env \<Rightarrow> nat list \<Rightarrow> read_context \<Rightarrow> pystr \<Rightarrow> int \<Rightarrow> v2_result v2_checked" where
  "validate_read_output_v2 env raw context policy ordinal =
     and_then (require (policy = degrade_policy) (Context_Error [policy_issue])) (\<lambda>_.
     and_then (require (ordinal \<in> {1, 2}) (Context_Error [ordinal_issue])) (\<lambda>_.
     and_then (validate_read_context_v2 env context) (\<lambda>cx.
     and_then (parse_v2 env raw) (\<lambda>original.
     and_then (require (whole_candidate_issues env original cx = [])
       (Output_Error (whole_candidate_issues env original cx))) (\<lambda>_.
     let ac = accept_items env cx ordinal original in
     and_then (require (ac_failures ac = []) (Output_Error
       (sort_key (\<lambda>i. (vi_location i, ascii (v2_category_value (vi_category i)))) (ac_failures ac)))) (\<lambda>_.
       accepted_result env cx policy ordinal original ac))))))"

end
