(* ===== verification/Read_Legacy.thy ===== *)
theory Read_Legacy
  imports Read_Acceptance
begin

text \<open>
  \<open>reading/validation.py\<close>: version 1 of the acceptance, frozen for the analyses that were accepted under it.
  It reports every unsound reference of the candidate at once, and rejects what rests on restricted sources
  outside of the limitations.
\<close>

section \<open>Business rules\<close>

definition statement_contents :: "string \<Rightarrow> nat \<Rightarrow> supported_statement \<Rightarrow> pystr \<times> pystr \<times> evidence_ref list" where
  "statement_contents name i s = (place_at (''$.'' @ name) i ''.statement'', ss_statement s, ss_evidence s)"

definition reason_contents :: "string \<Rightarrow> supported_statement \<Rightarrow> pystr \<times> pystr \<times> evidence_ref list" where
  "reason_contents name s = (ascii (''$.'' @ name @ ''.statement''), ss_statement s, ss_evidence s)"

definition protected_contents :: "read_analysis \<Rightarrow> (pystr \<times> pystr \<times> evidence_ref list) list" where
  "protected_contents a =
     mapi (statement_contents ''main_findings'') (ra_main_findings a) @
     mapi (statement_contents ''key_limitations'') (ra_key_limitations a) @
     [reason_contents ''research_value_reason'' (ra_research_value_reason a),
      reason_contents ''reuse_feasibility_reason'' (ra_reuse_feasibility_reason a)] @
     concat (mapi (\<lambda>i p.
       [(place_at ''$.reusable_points'' i ''.item'', rp_item p, rp_evidence p),
        (place_at ''$.reusable_points'' i ''.how_to_reuse'', rp_how_to_reuse p, rp_evidence p)]) (ra_reusable_points a))"

text \<open>\<open>location.rsplit(".", 1)[0]\<close>.\<close>

definition before_last_dot :: "pystr \<Rightarrow> pystr" where
  "before_last_dot s =
     (if 46 \<in> set s then rev (drop 1 (dropWhile (\<lambda>c. c \<noteq> 46) (rev s))) else s)"

text \<open>The references of one location, once.\<close>

fun reference_loop ::
    "read_env \<Rightarrow> read_context \<Rightarrow> pystr \<Rightarrow> nat \<Rightarrow> pystr set \<Rightarrow> evidence_ref list \<Rightarrow> read_issue list" where
  "reference_loop env cx location i seen [] = []"
| "reference_loop env cx location i seen (r # rs) =
     (let position = location @ 91 # dec i @ 93 # ascii ''.evidence_id'' in
      if \<not> valid_id (rd_category env) r then [read_issue_at position Invalid_Evidence_Id]
      else if r \<in> seen then [read_issue_at position Duplicate_Evidence]
      else if r \<notin> known_evidence cx then [read_issue_at position Unknown_Evidence]
      else if r \<notin> allowed_ids cx then [read_issue_at position Evidence_Not_Allowed]
      else []) @
     reference_loop env cx location (Suc i) (insert r seen) rs"

definition reference_issues :: "read_env \<Rightarrow> read_context \<Rightarrow> pystr \<Rightarrow> evidence_ref list \<Rightarrow> read_issue list" where
  "reference_issues env cx location references =
     reference_loop env cx location 0 {} references @
     (if cx_mode cx = ''reduce'' \<and> \<not> list_ex (\<lambda>r. r \<in> allowed_ids cx) references
      then [read_issue_at location Evidence_Required] else [])"

fun contents_loop ::
    "read_env \<Rightarrow> read_context \<Rightarrow> pystr set \<Rightarrow> (pystr \<times> pystr \<times> evidence_ref list) list \<Rightarrow> read_issue list" where
  "contents_loop env cx checked [] = []"
| "contents_loop env cx checked ((location, v, references) # rest) =
     (let reference_location = before_last_dot location @ ascii ''.evidence'' in
      (if read_meaningful env v then [] else [read_issue_at location Bad_Text]) @
      (if reference_location \<in> checked then contents_loop env cx checked rest
       else reference_issues env cx reference_location references @
         contents_loop env cx (insert reference_location checked) rest))"

definition business_issues :: "read_env \<Rightarrow> read_analysis \<Rightarrow> read_context \<Rightarrow> read_issue list" where
  "business_issues env a cx =
     map (\<lambda>(location, v). read_issue_at location Bad_Text)
       (filter (\<lambda>(location, v). \<not> read_meaningful env v)
         ([(ascii ''$.one_sentence_conclusion'', ra_one_sentence_conclusion a), (ascii ''$.research_question'', ra_research_question a),
           (ascii ''$.methods_summary'', ra_methods_summary a), (ascii ''$.data_summary'', ra_data_summary a),
           (ascii ''$.why_it_matters'', ra_why_it_matters a), (ascii ''$.next_action'', ra_next_action a)] @
          mapi (\<lambda>i v. (place_at ''$.required_adaptations'' i '''', v)) (ra_required_adaptations a) @
          mapi (\<lambda>i v. (place_at ''$.open_questions'' i '''', v)) (ra_open_questions a) @
          mapi (\<lambda>i v. (place_at ''$.degraded_content_warnings'' i '''', v)) (ra_degraded_content_warnings a))) @
     (if Some (ra_output_language a) \<noteq> cx_language cx then [read_issue_at (ascii ''$.output_language'') Language_Mismatch] else []) @
     (if 3 \<le> ra_research_value a \<and> ra_value_types a = [] then [read_issue_at (ascii ''$.value_types'') Value_Types_Required]
      else []) @
     map (\<lambda>i. read_issue_at (place_at ''$.value_types'' i '''') Duplicate_Value_Type)
       (repeated_value_types (ra_value_types a)) @
     contents_loop env cx {} (protected_contents a)"

section \<open>Numbers and restricted sources\<close>

record v1_diagnostic =
  od_location :: pystr
  od_reason :: numeric_reason
  od_ordinal :: nat

record v1_warning =
  ow_program :: bool
  ow_text :: pystr
  ow_diagnostic :: "v1_diagnostic option"

datatype v1_error =
    V1_Rejected "read_issue list" "v1_diagnostic list" | V1_Arithmetic_Crash decimal_error | V1_Key_Crash

definition restricted_reference_issue :: "pystr \<Rightarrow> read_issue" where
  "restricted_reference_issue location =
     \<lparr>ri_location = location, ri_category = Restricted_Source_Reference,
      ri_guidance = [0x516C, 0x5F0F, 0x533A, 0x57DF, 0x6216, 0x4E0D, 0x53EF, 0x9760, 0x6E90, 0x5B57, 0x7B26,
        0x4E0D, 0x80FD, 0x652F, 0x6301, 0x6B64, 0x7C7B, 0x5185, 0x5BB9, 0xFF1B, 0x8BF7, 0x6539, 0x5F15,
          0x53EF, 0x9760, 0x6B63, 0x6587, 0x6216, 0x79FB, 0x5165, 0x5173, 0x952E, 0x5C40, 0x9650, 0x3002]\<rparr>"

definition restricted_number_issue :: "pystr \<Rightarrow> read_issue" where
  "restricted_number_issue location =
     \<lparr>ri_location = location, ri_category = Restricted_Number,
      ri_guidance = [0x8BE5, 0x6570, 0x503C, 0x4EC5, 0x7531, 0x53D7, 0x9650, 0x7247, 0x6BB5, 0x652F, 0x6301,
        0xFF1B, 0x8BF7, 0x6539, 0x5F15, 0x53EF, 0x9760, 0x6B63, 0x6587, 0x3001, 0x53BB, 0x6389, 0x7CBE,
          0x786E, 0x503C, 0x6216, 0x79FB, 0x5165, 0x5173, 0x952E, 0x5C40, 0x9650, 0x3002]\<rparr>"

definition number_warning :: "string option \<Rightarrow> pystr \<Rightarrow> numeric_match \<Rightarrow> numeric_reason \<Rightarrow> v1_warning" where
  "number_warning language location m reason =
     \<lparr>ow_program = True,
      ow_text =
        (if language = Some ''zh'' then
           ([0x8BF7, 0x6838, 0x5BF9] @ ascii '' '') @ location @ (ascii '' '' @ [0x7684, 0x6570, 0x503C,
             0x201C]) @ nl_text (nm_literal m) @ [0x201D, 0xFF08] @
             ascii (numeric_reason_value reason) @ [0xFF09, 0xFF1B] @
             (if reason = Restricted_Numeric_Support then ([0x4EC5, 0x5728, 0x53D7, 0x9650, 0x7247, 0x6BB5,
               0x4E2D, 0x5339, 0x914D, 0xFF1B, 0x8BF7, 0x6838, 0x5BF9, 0x539F] @ ascii '' PDF'' @ [0x3002])
              else [0x6240, 0x5F15, 0x7247, 0x6BB5, 0x672A, 0x63D0, 0x4F9B, 0x53EF, 0x5339, 0x914D, 0x652F,
                0x6301, 0x3002])
         else
           (ascii ''Please verify the number '' @ [0x27]) @ nl_text (nm_literal m) @ ([0x27] @ ascii '' at '') @ location @ ascii '' ('' @
             ascii (numeric_reason_value reason) @ ascii ''); '' @
             (if reason = Restricted_Numeric_Support then ascii ''matched only in restricted spans; verify the original PDF.''
              else ascii ''cited spans do not provide matching support.'')),
      ow_diagnostic = Some \<lparr>od_location = location, od_reason = reason, od_ordinal = nm_ordinal m\<rparr>\<rparr>"

text \<open>One match: the issue it raises and the reason of its warning.\<close>

definition number_finding :: "bool \<Rightarrow> pystr \<Rightarrow> numeric_match \<Rightarrow> read_issue list \<times> numeric_reason option" where
  "number_finding limitation location m =
     (if nm_restricted m \<and> \<not> nm_reliable m then
        (if limitation then ([], Some Restricted_Numeric_Support)
         else ([restricted_number_issue location], nm_reason m))
      else ([], nm_reason m))"

definition limitation_location :: "pystr \<Rightarrow> bool" where
  "limitation_location location \<longleftrightarrow> prefix (ascii ''$.key_limitations['') location"

definition content_findings ::
    "string option \<Rightarrow> source_slice list \<Rightarrow> pystr \<times> pystr \<times> evidence_ref list \<Rightarrow>
      (decimal_error, read_issue list \<times> v1_warning list) outcome"
where
  "content_findings language support content =
     (let (location, v, references) = content;
          slices = filter (\<lambda>s. sl_evidence_id s \<in> set references) support;
          limitation = limitation_location location in
      and_then (match_numbers v slices) (\<lambda>ms. Inr
        ((if \<not> limitation \<and> list_ex (\<lambda>s. sl_kind s = ''formula'' \<or> sl_unreliable s) slices
          then [restricted_reference_issue location] else []) @
           concat (map (\<lambda>m. fst (number_finding limitation location m)) ms),
         concat (map (\<lambda>m. case snd (number_finding limitation location m) of None \<Rightarrow> []
           | Some r \<Rightarrow> [number_warning language location m r]) ms))))"

definition warning_key :: "v1_warning \<Rightarrow> pystr \<times> pystr \<times> nat" where
  "warning_key w =
     (case ow_diagnostic w of None \<Rightarrow> ([], [], 0)
      | Some d \<Rightarrow> (od_location d, ascii (numeric_reason_value (od_reason d)), od_ordinal d))"

record v1_result =
  or_identity :: "extraction_identity option"
  or_mode :: string
  or_analysis :: read_analysis
  or_analysis_json :: "nat list"
  or_model_warnings :: "pystr list"
  or_diagnostics :: "v1_diagnostic list"
  or_warnings :: "v1_warning list"
  or_support :: "source_slice list"

definition reject_sorted :: "read_issue list \<Rightarrow> v1_error" where
  "reject_sorted issues =
     V1_Rejected (sort_key (\<lambda>i. (ri_location i, ascii (read_category_value (ri_category i)))) issues) []"

definition v1_result_of ::
    "read_env \<Rightarrow> read_context \<Rightarrow> read_analysis \<Rightarrow> source_slice list \<Rightarrow> v1_warning list \<Rightarrow> v1_result" where
  "v1_result_of env cx a support generated =
     (let final = a\<lparr>ra_degraded_content_warnings := ra_degraded_content_warnings a @ map ow_text generated\<rparr> in
      \<lparr>or_identity = cx_identity cx, or_mode = cx_mode cx, or_analysis = final, or_analysis_json = rd_dump env final,
       or_model_warnings = ra_degraded_content_warnings a,
       or_diagnostics = concat (map (\<lambda>w. case ow_diagnostic w of None \<Rightarrow> [] | Some d \<Rightarrow> [d]) generated),
       or_warnings = map (\<lambda>t. \<lparr>ow_program = False, ow_text = t, ow_diagnostic = None\<rparr>)
           (ra_degraded_content_warnings a) @ generated,
       or_support = support\<rparr>)"

text \<open>The context was built, and thereby validated, by the caller.\<close>

definition validate_read_output :: "read_env \<Rightarrow> nat list \<Rightarrow> read_context \<Rightarrow> (v1_error, v1_result) outcome" where
  "validate_read_output env raw cx =
     and_then (map_sum (\<lambda>issues. V1_Rejected issues []) id (parse_candidate env raw)) (\<lambda>a.
     and_then (require (business_issues env a cx = []) (reject_sorted (business_issues env a cx))) (\<lambda>_.
     and_then (or_raise (replay cx) V1_Key_Crash) (\<lambda>support.
     and_then (map_sum V1_Arithmetic_Crash id
         (each_row (content_findings (cx_language cx) support) (protected_contents a))) (\<lambda>found.
     let generated = sort_key warning_key (concat (map snd found)); issues = concat (map fst found);
         diagnostics = concat (map (\<lambda>w. case ow_diagnostic w of None \<Rightarrow> [] | Some d \<Rightarrow> [d]) generated) in
     and_then (require (issues = [])
       (V1_Rejected (sort_key (\<lambda>i. (ri_category i \<noteq> Restricted_Source_Reference, ri_location i)) issues) diagnostics)) (\<lambda>_.
       Inr (v1_result_of env cx a support generated))))))"

end
