(* ===== verification/Read_Context_Laws.thy ===== *)
theory Read_Context_Laws
  imports Read_Context
begin

text \<open>What the construction of a context establishes, as one declarative condition, and that its evidence can
  always be replayed.\<close>

section \<open>Loops that check\<close>

lemma check_iff [simp]: "check b location c = Inr u \<longleftrightarrow> b"
  by (simp add: check_def reject_def)

lemma reject_not_Inr [simp]: "reject location c \<noteq> Inr x"
  by (simp add: reject_def)

text \<open>A loop that collects keys accepts the lists of good items with fresh, distinct keys.\<close>

lemma check_each_keys:
  assumes "\<And>i x seen s. f i x seen = Inr s \<longleftrightarrow> P x \<and> k x \<notin> seen \<and> s = insert (k x) seen"
  shows "check_each f i xs seen = Inr s \<longleftrightarrow>
    (\<forall>x \<in> set xs. P x \<and> k x \<notin> seen) \<and> distinct (map k xs) \<and> s = seen \<union> k ` set xs"
proof (induction xs arbitrary: i seen)
  case (Cons x xs)
  have "check_each f i (x # xs) seen = Inr s \<longleftrightarrow>
      P x \<and> k x \<notin> seen \<and> check_each f (Suc i) xs (insert (k x) seen) = Inr s"
    by (auto simp: assms result_simps)
  also have "\<dots> \<longleftrightarrow> (\<forall>y \<in> set (x # xs). P y \<and> k y \<notin> seen) \<and> distinct (map k (x # xs)) \<and>
      s = seen \<union> k ` set (x # xs)"
    unfolding Cons by (auto simp: image_iff)
  finally show ?case .
qed auto

lemma check_each_all:
  assumes "\<And>i x u v. f i x u = Inr v \<longleftrightarrow> P x"
  shows "check_each f i xs () = Inr v \<longleftrightarrow> (\<forall>x \<in> set xs. P x)"
  by (induction xs arbitrary: i) (auto simp: assms result_simps)

lemma check_each_list:
  assumes "\<And>i x seen s. f i x seen = Inr s \<longleftrightarrow> P x \<and> k x \<notin> k ` set seen \<and> s = seen @ [x]"
  shows "check_each f i xs seen = Inr s \<longleftrightarrow>
    (\<forall>x \<in> set xs. P x \<and> k x \<notin> k ` set seen) \<and> distinct (map k xs) \<and> s = seen @ xs"
proof (induction xs arbitrary: i seen)
  case (Cons x xs)
  have "check_each f i (x # xs) seen = Inr s \<longleftrightarrow>
      P x \<and> k x \<notin> k ` set seen \<and> check_each f (Suc i) xs (seen @ [x]) = Inr s"
    by (auto simp: assms result_simps)
  also have "\<dots> \<longleftrightarrow> (\<forall>y \<in> set (x # xs). P y \<and> k y \<notin> k ` set seen) \<and> distinct (map k (x # xs)) \<and>
      s = seen @ x # xs"
    unfolding Cons by (auto simp: image_iff)
  finally show ?case .
qed auto

section \<open>Well-formed contexts\<close>

definition provenance_key :: "provenance \<Rightarrow> pystr \<times> int \<times> rat list \<times> int \<times> int" where
  "provenance_key p = (pv_source_id p, pv_page_no p, map num (pv_bbox p), pv_start p, pv_end p)"

lemma same_provenance_key: "same_provenance p q \<longleftrightarrow> provenance_key p = provenance_key q"
  by (simp add: same_provenance_def provenance_key_def)

text \<open>A provenance is grounded: it names a page and a source of the context, a box inside the page and a span of
  the source that is not blank.\<close>

definition grounded :: "read_context \<Rightarrow> provenance \<Rightarrow> bool" where
  "grounded cx p \<longleftrightarrow>
     (\<exists>source \<in> set (cx_source_blocks cx). \<exists>page \<in> set (cx_pages cx).
        sb_source_id source = pv_source_id p \<and> pg_page_no page = pv_page_no p \<and>
        length (pv_bbox p) = 4 \<and> list_all finite_number (pv_bbox p) \<and> box_inside (pv_bbox p) page \<and>
        0 \<le> pv_start p \<and> pv_start p < pv_end p \<and> pv_end p \<le> int (length (sb_orig source)) \<and>
        \<not> list_all white_space (span_text (sb_orig source) (pv_start p) (pv_end p)))"

definition well_formed_page :: "page_fact \<Rightarrow> bool" where
  "well_formed_page p \<longleftrightarrow>
     0 < pg_page_no p \<and> positive_number (pg_width p) \<and> positive_number (pg_height p) \<and>
     pg_origin p \<in> {''top_left'', ''bottom_left''}"

definition well_formed_source :: "(nat \<Rightarrow> string) \<Rightarrow> source_block \<Rightarrow> bool" where
  "well_formed_source cat s \<longleftrightarrow>
     valid_id cat (sb_source_id s) \<and> encodable (sb_orig s) \<and> sb_kind s \<in> {''text'', ''table'', ''formula''}"

definition well_formed_evidence :: "(nat \<Rightarrow> string) \<Rightarrow> read_context \<Rightarrow> evidence \<Rightarrow> bool" where
  "well_formed_evidence cat cx e \<longleftrightarrow>
     valid_id cat (en_evidence_id e) \<and> en_provenance e \<noteq> [] \<and> (\<forall>p \<in> set (en_provenance e). grounded cx p) \<and>
     distinct (map provenance_key (en_provenance e))"

text \<open>One identity throughout, keys without repetition, every item well formed, and an allowance exactly in
  the mode that reduces, for evidence of the context.\<close>

definition well_formed_context :: "(nat \<Rightarrow> string) \<Rightarrow> read_context \<Rightarrow> bool" where
  "well_formed_context cat cx \<longleftrightarrow>
     (\<exists>identity. cx_identity cx = Some identity \<and> valid_identity cat identity \<and>
        (\<forall>p \<in> set (cx_pages cx). pg_identity p = identity \<and> well_formed_page p) \<and>
        (\<forall>s \<in> set (cx_source_blocks cx). sb_identity s = identity \<and> well_formed_source cat s) \<and>
        (\<forall>e \<in> set (cx_evidence cx). en_identity e = identity \<and> well_formed_evidence cat cx e) \<and>
        (\<forall>a. cx_allowed cx = Some a \<longrightarrow> al_identity a = identity \<and> set (al_evidence_ids a) \<subseteq> known_evidence cx)) \<and>
     cx_language cx \<in> {Some ''zh'', Some ''en''} \<and> cx_mode cx \<in> {''single'', ''reduce''} \<and>
     (cx_allowed cx = None \<longleftrightarrow> cx_mode cx = ''single'') \<and>
     distinct (map pg_page_no (cx_pages cx)) \<and> distinct (map sb_source_id (cx_source_blocks cx)) \<and>
     distinct (map en_evidence_id (cx_evidence cx))"

section \<open>What the construction accepts\<close>

lemma page_step_iff:
  "page_step cx i page seen = Inr s \<longleftrightarrow>
     (Some (pg_identity page) = cx_identity cx \<and> well_formed_page page) \<and> pg_page_no page \<notin> seen \<and>
     s = insert (pg_page_no page) seen"
  by (auto simp: page_step_def well_formed_page_def result_simps)

lemma source_step_iff:
  "source_step cat cx i source seen = Inr s \<longleftrightarrow>
     (Some (sb_identity source) = cx_identity cx \<and> well_formed_source cat source) \<and> sb_source_id source \<notin> seen \<and>
     s = insert (sb_source_id source) seen"
  by (auto simp: source_step_def well_formed_source_def result_simps)

lemma lookup_last:
  assumes "distinct (map k xs)"
  shows "map_of (rev (map (\<lambda>x. (k x, x)) xs)) v = Some x \<longleftrightarrow> x \<in> set xs \<and> k x = v"
proof -
  have "distinct (map fst (rev (map (\<lambda>x. (k x, x)) xs)))"
    using assms by (simp add: rev_map [symmetric] comp_def)
  then show ?thesis by (simp add: map_of_eq_Some_iff image_iff) auto
qed

lemma block_of_iff:
  "distinct (map sb_source_id (cx_source_blocks cx)) \<Longrightarrow>
     block_of cx v = Some s \<longleftrightarrow> s \<in> set (cx_source_blocks cx) \<and> sb_source_id s = v"
  unfolding block_of_def by (rule lookup_last)

lemma page_of_iff:
  "distinct (map pg_page_no (cx_pages cx)) \<Longrightarrow>
     page_of cx v = Some p \<longleftrightarrow> p \<in> set (cx_pages cx) \<and> pg_page_no p = v"
  unfolding page_of_def by (rule lookup_last)

lemma provenance_step_iff:
  assumes "distinct (map sb_source_id (cx_source_blocks cx))" and "distinct (map pg_page_no (cx_pages cx))"
  shows "provenance_step cx i n p seen = Inr s \<longleftrightarrow>
    grounded cx p \<and> provenance_key p \<notin> provenance_key ` set seen \<and> s = seen @ [p]"
proof -
  have "provenance_step cx i n p seen = Inr s \<longleftrightarrow>
    (\<exists>source page. block_of cx (pv_source_id p) = Some source \<and> page_of cx (pv_page_no p) = Some page \<and>
       length (pv_bbox p) = 4 \<and> list_all finite_number (pv_bbox p) \<and> box_inside (pv_bbox p) page \<and>
       \<not> list_ex (same_provenance p) seen \<and>
       0 \<le> pv_start p \<and> pv_start p < pv_end p \<and> pv_end p \<le> int (length (sb_orig source)) \<and>
       \<not> list_all white_space (span_text (sb_orig source) (pv_start p) (pv_end p)) \<and> s = seen @ [p])"
    by (auto simp: provenance_step_def Let_def result_simps split: option.split)
  also have "\<dots> \<longleftrightarrow> grounded cx p \<and> provenance_key p \<notin> provenance_key ` set seen \<and> s = seen @ [p]"
    unfolding block_of_iff [OF assms(1)] page_of_iff [OF assms(2)] grounded_def
    by (simp add: list_ex_iff same_provenance_key image_iff) blast
  finally show ?thesis .
qed

lemma evidence_step_iff:
  assumes "distinct (map sb_source_id (cx_source_blocks cx))" and "distinct (map pg_page_no (cx_pages cx))"
  shows "evidence_step cat cx i e seen = Inr s \<longleftrightarrow>
    (Some (en_identity e) = cx_identity cx \<and> well_formed_evidence cat cx e) \<and> en_evidence_id e \<notin> seen \<and>
    s = insert (en_evidence_id e) seen"
  by (auto simp: evidence_step_def well_formed_evidence_def result_simps
      check_each_list [OF provenance_step_iff [OF assms]])

lemma validate_header_iff:
  "validate_header cat cx = Inr u \<longleftrightarrow>
     (\<exists>i. cx_identity cx = Some i \<and> valid_identity cat i) \<and>
     cx_language cx \<in> {Some ''zh'', Some ''en''} \<and> cx_mode cx \<in> {''single'', ''reduce''} \<and>
     (cx_allowed cx = None \<longleftrightarrow> cx_mode cx = ''single'')"
  by (auto simp: validate_header_def result_simps split: option.splits)

lemma validate_allowance_iff:
  "validate_allowance cx = Inr u \<longleftrightarrow>
     (\<forall>a. cx_allowed cx = Some a \<longrightarrow>
        Some (al_identity a) = cx_identity cx \<and> set (al_evidence_ids a) \<subseteq> known_evidence cx)"
proof -
  have "allowance_step cx i x v = Inr w \<longleftrightarrow> x \<in> known_evidence cx" for i x v w
    by (simp add: allowance_step_def)
  from check_each_all [of "allowance_step cx", OF this] show ?thesis
    by (auto simp: validate_allowance_def result_simps split: option.split)
qed

theorem make_read_context_iff:
  "make_read_context cat cx = Inr cx' \<longleftrightarrow> cx' = cx \<and> well_formed_context cat cx"
proof -
  let ?s = "distinct (map sb_source_id (cx_source_blocks cx))" and ?p = "distinct (map pg_page_no (cx_pages cx))"
  have pages: "check_each (page_step cx) 0 (cx_pages cx) {} = Inr x \<longleftrightarrow>
      (\<forall>p \<in> set (cx_pages cx). Some (pg_identity p) = cx_identity cx \<and> well_formed_page p) \<and> ?p \<and>
      x = pg_page_no ` set (cx_pages cx)" for x
    by (subst check_each_keys [OF page_step_iff]) auto
  have sources: "check_each (source_step cat cx) 0 (cx_source_blocks cx) {} = Inr x \<longleftrightarrow>
      (\<forall>s \<in> set (cx_source_blocks cx). Some (sb_identity s) = cx_identity cx \<and> well_formed_source cat s) \<and> ?s \<and>
      x = sb_source_id ` set (cx_source_blocks cx)" for x
    by (subst check_each_keys [OF source_step_iff]) auto
  have evidence: "check_each (evidence_step cat cx) 0 (cx_evidence cx) {} = Inr x \<longleftrightarrow>
      (\<forall>e \<in> set (cx_evidence cx). Some (en_identity e) = cx_identity cx \<and> well_formed_evidence cat cx e) \<and>
      distinct (map en_evidence_id (cx_evidence cx)) \<and> x = en_evidence_id ` set (cx_evidence cx)"
    if "?s" "?p" for x
    by (subst check_each_keys [OF evidence_step_iff [OF that]]) auto
  have "make_read_context cat cx = Inr cx' \<longleftrightarrow>
      validate_header cat cx = Inr () \<and>
      (\<exists>x. check_each (page_step cx) 0 (cx_pages cx) {} = Inr x) \<and>
      (\<exists>x. check_each (source_step cat cx) 0 (cx_source_blocks cx) {} = Inr x) \<and>
      (\<exists>x. check_each (evidence_step cat cx) 0 (cx_evidence cx) {} = Inr x) \<and>
      validate_allowance cx = Inr () \<and> cx' = cx"
    unfolding make_read_context_def result_simps by auto
  moreover have "well_formed_context cat cx \<longleftrightarrow>
      validate_header cat cx = Inr () \<and>
      (\<exists>x. check_each (page_step cx) 0 (cx_pages cx) {} = Inr x) \<and>
      (\<exists>x. check_each (source_step cat cx) 0 (cx_source_blocks cx) {} = Inr x) \<and>
      (\<exists>x. check_each (evidence_step cat cx) 0 (cx_evidence cx) {} = Inr x) \<and>
      validate_allowance cx = Inr ()"
  proof (cases "?s \<and> ?p \<and> (\<exists>i. cx_identity cx = Some i)")
    case True
    then obtain i where i: "cx_identity cx = Some i" by blast
    show ?thesis
      unfolding well_formed_context_def validate_header_iff validate_allowance_iff pages sources
        evidence [OF conjunct1 [OF True] conjunct1 [OF conjunct2 [OF True]]] i
      by (simp only: option.inject simp_thms ex_simps all_simps) blast
  next
    case False
    then show ?thesis unfolding well_formed_context_def validate_header_iff pages sources by blast
  qed
  ultimately show ?thesis by blast
qed

section \<open>Replay\<close>

lemma slice_of_grounded:
  assumes wf: "well_formed_context cat cx" and "e \<in> set (cx_evidence cx)" and "p \<in> set (en_provenance e)"
  shows "\<exists>s. slice_of cx e p = Some s \<and> sl_evidence_id s = en_evidence_id e \<and> sl_provenance s = p \<and>
    \<not> list_all white_space (sl_text s) \<and>
    (\<exists>b \<in> set (cx_source_blocks cx). sb_source_id b = pv_source_id p \<and> sl_kind s = sb_kind b \<and>
       sl_unreliable s = sb_unreliable b \<and> sl_text s = span_text (sb_orig b) (pv_start p) (pv_end p))"
proof -
  from assms have d: "distinct (map sb_source_id (cx_source_blocks cx))" and "grounded cx p"
    by (auto simp: well_formed_context_def well_formed_evidence_def)
  then obtain b where "b \<in> set (cx_source_blocks cx)" "sb_source_id b = pv_source_id p"
    "\<not> list_all white_space (span_text (sb_orig b) (pv_start p) (pv_end p))"
    by (auto simp: grounded_def)
  moreover from this d have "block_of cx (pv_source_id p) = Some b" by (simp add: block_of_iff)
  moreover obtain i where "cx_identity cx = Some i" using wf by (auto simp: well_formed_context_def)
  ultimately show ?thesis by (auto simp: slice_of_def)
qed

definition cited_spans :: "read_context \<Rightarrow> (evidence \<times> provenance) list" where
  "cited_spans cx = concat (map (\<lambda>e. map (Pair e) (en_provenance e)) (cx_evidence cx))"

lemma cited_spans_set [simp]:
  "(e, p) \<in> set (cited_spans cx) \<longleftrightarrow> e \<in> set (cx_evidence cx) \<and> p \<in> set (en_provenance e)"
  by (auto simp: cited_spans_def)

lemma replay_alt: "replay cx = all_some (map (\<lambda>(e, p). slice_of cx e p) (cited_spans cx))"
  by (simp add: replay_def cited_spans_def map_concat comp_def)

lemma replay_total:
  assumes "well_formed_context cat cx"
  obtains support where "replay cx = Some support"
proof -
  have "x \<noteq> None" if "x \<in> set (map (\<lambda>(e, p). slice_of cx e p) (cited_spans cx))" for x
    using that slice_of_grounded [OF assms] by fastforce
  from all_some_total [OF this] that show thesis unfolding replay_alt by blast
qed

lemma map_Some_images:
  assumes "map f xs = map Some ys" and "\<And>x y. f x = Some y \<Longrightarrow> g y = h x"
  shows "map g ys = map h xs"
  using assms(1) by (induction xs arbitrary: ys) (auto simp: Cons_eq_map_conv map_eq_Cons_conv assms(2))

text \<open>The slices are the spans of the evidence in their order.\<close>

lemma replay_spans:
  assumes "replay cx = Some support"
  shows "map (\<lambda>s. (sl_evidence_id s, sl_provenance s)) support =
    map (\<lambda>(e, p). (en_evidence_id e, p)) (cited_spans cx)"
proof -
  have "map (\<lambda>(e, p). slice_of cx e p) (cited_spans cx) = map Some support"
    using assms unfolding replay_alt all_some_iff .
  then show ?thesis
    by (rule map_Some_images) (auto simp: slice_of_def split: option.splits)
qed

end
