(* ===== verification/Read_Acceptance_Laws.thy ===== *)
theory Read_Acceptance_Laws
  imports Read_Acceptance Read_Context_Laws
begin

text \<open>What the acceptance of version 2 decides, in declarative terms: which references are sound, what the loop
  over the items keeps and discards, and what an accepted result holds.\<close>

section \<open>Enumerated lists\<close>

lemma mapi_simps [simp]: "mapi f [] = []" "length (mapi f xs) = length xs"
  by (simp_all add: mapi_def)

lemma mapi_nth [simp]: "i < length xs \<Longrightarrow> mapi f xs ! i = f i (xs ! i)"
  by (simp add: mapi_def nth_enumerate_eq)

lemma mapi_set: "x \<in> set (mapi f xs) \<longleftrightarrow> (\<exists>i < length xs. x = f i (xs ! i))"
  by (auto simp: in_set_conv_nth)

lemma map_mapi: "map g (mapi f xs) = mapi (\<lambda>i x. g (f i x)) xs"
  by (simp add: mapi_def comp_def case_prod_unfold)

lemma mapi_ignore: "mapi (\<lambda>i x. f x) xs = map f xs"
proof -
  have "map (f \<circ> snd) (enumerate 0 xs) = map f xs" by (simp flip: map_map)
  then show ?thesis by (simp add: mapi_def case_prod_unfold comp_def)
qed

lemma each_row_iff: "each_row f xs = Inr ys \<longleftrightarrow> map f xs = map Inr ys"
  by (induction xs arbitrary: ys) (auto simp: result_simps)

section \<open>Sound references\<close>

definition good_reference :: "read_env \<Rightarrow> read_context \<Rightarrow> pystr \<Rightarrow> bool" where
  "good_reference env cx r \<longleftrightarrow>
     valid_id (rd_category env) r \<and> r \<in> known_evidence cx \<and> r \<in> allowed_ids cx"

definition sound_references :: "read_env \<Rightarrow> read_context \<Rightarrow> evidence_ref list \<Rightarrow> bool" where
  "sound_references env cx rs \<longleftrightarrow>
     (\<forall>r \<in> set rs. good_reference env cx r) \<and> distinct rs \<and> (cx_mode cx = ''reduce'' \<longrightarrow> rs \<noteq> [])"

lemma pointer_category_None:
  "pointer_category env cx seen r = None \<longleftrightarrow> good_reference env cx r \<and> r \<notin> seen"
  by (auto simp: pointer_category_def good_reference_def)

text \<open>The contract of the loops over references, of which each version has one: nothing is reported exactly when
  every reference is good and occurs once.\<close>

locale reference_check =
  fixes good :: "pystr \<Rightarrow> bool"
    and loop :: "nat \<Rightarrow> pystr set \<Rightarrow> pystr list \<Rightarrow> 'i list"
  assumes loop_empty: "loop i seen [] = []"
    and loop_step: "loop i seen (r # rs) = [] \<longleftrightarrow> (good r \<and> r \<notin> seen) \<and> loop (Suc i) (insert r seen) rs = []"
begin

lemma loop_nil_iff: "loop i seen rs = [] \<longleftrightarrow> (\<forall>r \<in> set rs. good r \<and> r \<notin> seen) \<and> distinct rs"
  by (induction rs arbitrary: i seen) (auto simp: loop_empty loop_step)

lemma issues_nil_iff:
  assumes "\<And>r. good r \<Longrightarrow> r \<in> allowed"
  shows "loop 0 {} rs @ (if reduce \<and> \<not> list_ex (\<lambda>r. r \<in> allowed) rs then [e] else []) = [] \<longleftrightarrow>
    (\<forall>r \<in> set rs. good r) \<and> distinct rs \<and> (reduce \<longrightarrow> rs \<noteq> [])"
proof -
  have "list_ex (\<lambda>r. r \<in> allowed) rs \<longleftrightarrow> rs \<noteq> []" if "\<forall>r \<in> set rs. good r"
    using that assms by (cases rs) auto
  then show ?thesis by (auto simp: loop_nil_iff split: if_splits)
qed

end

interpretation v2_references: reference_check "good_reference env cx" "pointer_loop env cx location"
  for env cx location
proof
  show "pointer_loop env cx location i seen (r # rs) = [] \<longleftrightarrow>
      (good_reference env cx r \<and> r \<notin> seen) \<and> pointer_loop env cx location (Suc i) (insert r seen) rs = []" for i seen r rs
    using pointer_category_None [of env cx seen r] by (auto split: option.splits)
qed simp

lemma good_reference_allowed: "good_reference env cx r \<Longrightarrow> r \<in> allowed_ids cx"
  by (simp add: good_reference_def)

theorem pointers_nil_iff: "pointers env rs location cx = [] \<longleftrightarrow> sound_references env cx rs"
  unfolding pointers_def sound_references_def
  by (rule v2_references.issues_nil_iff) (rule good_reference_allowed)

section \<open>The loop over the items\<close>

definition sound_item :: "read_env \<Rightarrow> read_context \<Rightarrow> cited_item \<Rightarrow> bool" where
  "sound_item env cx i \<longleftrightarrow> sound_references env cx (ci_references i)"

definition item_issues :: "read_env \<Rightarrow> read_context \<Rightarrow> cited_item \<Rightarrow> v2_issue list" where
  "item_issues env cx i = pointers env (ci_references i) (ci_location i) cx"

lemma item_issues_nil [simp]: "item_issues env cx i = [] \<longleftrightarrow> sound_item env cx i"
  by (simp add: item_issues_def sound_item_def pointers_nil_iff)

text \<open>An item that may be dropped: a list item of the second attempt.\<close>

definition droppable :: "int \<Rightarrow> cited_item \<Rightarrow> bool" where
  "droppable n i \<longleftrightarrow> n = 2 \<and> ci_field i \<noteq> None"

definition discard_of :: "read_env \<Rightarrow> read_context \<Rightarrow> cited_item \<Rightarrow> v2_discard" where
  "discard_of env cx i =
     \<lparr>vd_location = ci_location i, vd_field = the (ci_field i), vd_ordinal = ci_ordinal i,
      vd_reason = vi_category (hd (item_issues env cx i)),
      vd_positions = positions (ci_references i) (ci_location i) (item_issues env cx i) cx\<rparr>"

lemma item_step_cases:
  "item_step env cx n i ac =
     (if sound_item env cx i then ac
      else if droppable n i then
        ac\<lparr>ac_discards := ac_discards ac @ [discard_of env cx i],
           ac_dropped := ac_dropped ac @ [(the (ci_field i), ci_ordinal i - 1)]\<rparr>
      else ac\<lparr>ac_failures := ac_failures ac @ item_issues env cx i\<rparr>)"
  using item_issues_nil [of env cx i]
  by (auto simp: item_step_def Let_def droppable_def discard_of_def item_issues_def split: option.splits)

definition dropped_items :: "read_env \<Rightarrow> read_context \<Rightarrow> int \<Rightarrow> cited_item list \<Rightarrow> cited_item list" where
  "dropped_items env cx n is = filter (\<lambda>i. \<not> sound_item env cx i \<and> droppable n i) is"

lemma fold_item_step:
  "fold (item_step env cx n) is ac =
     \<lparr>ac_failures = ac_failures ac @ concat (map (item_issues env cx)
        (filter (\<lambda>i. \<not> sound_item env cx i \<and> \<not> droppable n i) is)),
      ac_discards = ac_discards ac @ map (discard_of env cx) (dropped_items env cx n is),
      ac_dropped = ac_dropped ac @ map (\<lambda>i. (the (ci_field i), ci_ordinal i - 1)) (dropped_items env cx n is)\<rparr>"
  by (induction "is" arbitrary: ac) (simp_all add: item_step_cases dropped_items_def)

lemma accept_items_facts:
  "ac_failures (accept_items env cx n a) = [] \<longleftrightarrow>
     (\<forall>i \<in> set (items a). sound_item env cx i \<or> droppable n i)"
  "ac_discards (accept_items env cx n a) = map (discard_of env cx) (dropped_items env cx n (items a))"
  "ac_dropped (accept_items env cx n a) =
     map (\<lambda>i. (the (ci_field i), ci_ordinal i - 1)) (dropped_items env cx n (items a))"
  by (auto simp: accept_items_def fold_item_step concat_eq_Nil_conv)

text \<open>The items of a list, by their positions.\<close>

lemma item_members:
  "i \<in> set (items a) \<longleftrightarrow>
     (\<exists>n < length (ra_main_findings a). i = statement_item Main_Findings n (ra_main_findings a ! n)) \<or>
     (\<exists>n < length (ra_reusable_points a). i = point_item n (ra_reusable_points a ! n)) \<or>
     (\<exists>n < length (ra_key_limitations a). i = statement_item Key_Limitations n (ra_key_limitations a ! n)) \<or>
     i = reason_item ''research_value_reason'' (ra_research_value_reason a) \<or>
     i = reason_item ''reuse_feasibility_reason'' (ra_reuse_feasibility_reason a)"
  by (auto simp: items_def mapi_set)

lemma item_facts [simp]:
  "ci_field (statement_item f n s) = Some f" "ci_ordinal (statement_item f n s) = n + 1"
  "ci_field (point_item n p) = Some Reusable_Points" "ci_ordinal (point_item n p) = n + 1"
  "ci_field (reason_item r s) = None"
  "sound_item env cx (statement_item f n s) \<longleftrightarrow> sound_references env cx (ss_evidence s)"
  "sound_item env cx (point_item n p) \<longleftrightarrow> sound_references env cx (rp_evidence p)"
  "sound_item env cx (reason_item r s) \<longleftrightarrow> sound_references env cx (ss_evidence s)"
  by (simp_all add: statement_item_def point_item_def reason_item_def sound_item_def)

lemma dropped_iff:
  "(f, k) \<in> set (ac_dropped (accept_items env cx n a)) \<longleftrightarrow> n = 2 \<and>
     ((f = Main_Findings \<and> k < length (ra_main_findings a) \<and> \<not> sound_references env cx (ss_evidence (ra_main_findings a ! k))) \<or>
      (f = Reusable_Points \<and> k < length (ra_reusable_points a) \<and> \<not> sound_references env cx (rp_evidence (ra_reusable_points a ! k))) \<or>
      (f = Key_Limitations \<and> k < length (ra_key_limitations a) \<and> \<not> sound_references env cx (ss_evidence (ra_key_limitations a ! k))))"
proof -
  have "(f, k) \<in> set (ac_dropped (accept_items env cx n a)) \<longleftrightarrow>
      n = 2 \<and> (\<exists>i \<in> set (items a). ci_field i = Some f \<and> ci_ordinal i - 1 = k \<and> \<not> sound_item env cx i)"
    by (auto simp: accept_items_facts dropped_items_def droppable_def image_iff)
  also have "\<dots> \<longleftrightarrow> n = 2 \<and>
     ((f = Main_Findings \<and> k < length (ra_main_findings a) \<and> \<not> sound_references env cx (ss_evidence (ra_main_findings a ! k))) \<or>
      (f = Reusable_Points \<and> k < length (ra_reusable_points a) \<and> \<not> sound_references env cx (rp_evidence (ra_reusable_points a ! k))) \<or>
      (f = Key_Limitations \<and> k < length (ra_key_limitations a) \<and> \<not> sound_references env cx (ss_evidence (ra_key_limitations a ! k))))"
    unfolding Bex_def item_members by auto
  finally show ?thesis .
qed

section \<open>What is kept\<close>

definition sound_statement :: "read_env \<Rightarrow> read_context \<Rightarrow> supported_statement \<Rightarrow> bool" where
  "sound_statement env cx s \<longleftrightarrow> sound_references env cx (ss_evidence s)"

definition sound_point :: "read_env \<Rightarrow> read_context \<Rightarrow> reusable_point \<Rightarrow> bool" where
  "sound_point env cx p \<longleftrightarrow> sound_references env cx (rp_evidence p)"

definition sound_parts :: "read_env \<Rightarrow> read_context \<Rightarrow> read_analysis \<Rightarrow> read_analysis" where
  "sound_parts env cx a =
     a\<lparr>ra_main_findings := filter (sound_statement env cx) (ra_main_findings a),
       ra_reusable_points := filter (sound_point env cx) (ra_reusable_points a),
       ra_key_limitations := filter (sound_statement env cx) (ra_key_limitations a)\<rparr>"

lemma filter_enumerate:
  "map snd (filter (\<lambda>(i, x). P x) (enumerate n xs)) = filter P xs"
  by (induction xs arbitrary: n) auto

lemma kept_filter:
  assumes "\<And>i. i < length xs \<Longrightarrow> (f, i) \<notin> set dropped \<longleftrightarrow> P (xs ! i)"
  shows "kept dropped f xs = filter P xs"
proof -
  have "filter (\<lambda>(i, x). (f, i) \<notin> set dropped) (enumerate 0 xs) = filter (\<lambda>(i, x). P x) (enumerate 0 xs)"
    by (rule filter_cong) (use assms in \<open>force simp: in_set_enumerate_eq\<close>)+
  then show ?thesis by (simp add: kept_def filter_enumerate)
qed

lemma without_dropped_sound:
  assumes "ac_failures (accept_items env cx n a) = []"
  shows "without_dropped (ac_dropped (accept_items env cx n a)) a = sound_parts env cx a"
proof -
  have ok: "sound_item env cx i \<or> droppable n i" if "i \<in> set (items a)" for i
    using assms that by (simp add: accept_items_facts)
  have "k < length (ra_main_findings a) \<Longrightarrow> n = 2 \<or> sound_references env cx (ss_evidence (ra_main_findings a ! k))" for k
    using ok [of "statement_item Main_Findings k (ra_main_findings a ! k)"] by (auto simp: item_members droppable_def)
  moreover have "k < length (ra_key_limitations a) \<Longrightarrow> n = 2 \<or> sound_references env cx (ss_evidence (ra_key_limitations a ! k))" for k
    using ok [of "statement_item Key_Limitations k (ra_key_limitations a ! k)"] by (auto simp: item_members droppable_def)
  moreover have "k < length (ra_reusable_points a) \<Longrightarrow> n = 2 \<or> sound_references env cx (rp_evidence (ra_reusable_points a ! k))" for k
    using ok [of "point_item k (ra_reusable_points a ! k)"] by (auto simp: item_members droppable_def)
  ultimately show ?thesis
    unfolding without_dropped_def sound_parts_def
    by (intro arg_cong3 [where f = "\<lambda>x y z. a\<lparr>ra_main_findings := x, ra_reusable_points := y, ra_key_limitations := z\<rparr>"]
        kept_filter) (auto simp: dropped_iff sound_statement_def sound_point_def)
qed

section \<open>The whole candidate\<close>

definition well_written :: "read_env \<Rightarrow> read_context \<Rightarrow> read_analysis \<Rightarrow> bool" where
  "well_written env cx a \<longleftrightarrow>
     (\<forall>(location, v) \<in> set (candidate_texts a). read_meaningful env v) \<and>
     Some (ra_output_language a) = cx_language cx \<and>
     (3 \<le> ra_research_value a \<longrightarrow> ra_value_types a \<noteq> []) \<and> distinct (ra_value_types a)"

lemma repeated_nil_iff: "repeated_value_types vs = [] \<longleftrightarrow> distinct vs"
  by (auto simp: repeated_value_types_def filter_empty_conv distinct_conv_nth in_set_conv_nth)
     (metis atLeastLessThan_iff le0 linorder_neqE_nat)

theorem whole_candidate_nil_iff: "whole_candidate_issues env a cx = [] \<longleftrightarrow> well_written env cx a"
  by (auto simp: whole_candidate_issues_def well_written_def repeated_nil_iff filter_empty_conv split: if_splits)

section \<open>Acceptance\<close>

text \<open>What must hold of the analysis for an attempt: the reasons are sound, on the first attempt every item is,
  and subject content there was is not all gone.\<close>

definition acceptable :: "read_env \<Rightarrow> read_context \<Rightarrow> int \<Rightarrow> read_analysis \<Rightarrow> bool" where
  "acceptable env cx n a \<longleftrightarrow>
     well_written env cx a \<and>
     sound_statement env cx (ra_research_value_reason a) \<and> sound_statement env cx (ra_reuse_feasibility_reason a) \<and>
     (n = 1 \<longrightarrow> sound_parts env cx a = a) \<and>
     (has_subject a \<longrightarrow> has_subject (sound_parts env cx a))"

lemma filter_same: "filter P xs = xs \<longleftrightarrow> (\<forall>x \<in> set xs. P x)"
  by (auto simp: filter_id_conv)

lemma sound_parts_same:
  "sound_parts env cx a = a \<longleftrightarrow>
     (\<forall>s \<in> set (ra_main_findings a). sound_statement env cx s) \<and>
     (\<forall>p \<in> set (ra_reusable_points a). sound_point env cx p) \<and>
     (\<forall>s \<in> set (ra_key_limitations a). sound_statement env cx s)"
  by (cases a) (simp add: sound_parts_def filter_same)

lemma items_all_iff:
  "(\<forall>i \<in> set (items a). sound_item env cx i \<or> droppable n i) \<longleftrightarrow>
     sound_statement env cx (ra_research_value_reason a) \<and> sound_statement env cx (ra_reuse_feasibility_reason a) \<and>
     (n = 2 \<or> sound_parts env cx a = a)"
  unfolding Ball_def item_members sound_parts_same
  by (auto simp: droppable_def sound_statement_def sound_point_def in_set_conv_nth)

lemma validate_context_iff:
  "validate_read_context_v2 env cx = Inr cx' \<longleftrightarrow> cx' = cx \<and> well_formed_context (rd_category env) cx"
  using make_read_context_iff [of "rd_category env" cx cx']
  by (cases "make_read_context (rd_category env) cx") (auto simp: validate_read_context_v2_def)

lemma parse_v2_iff: "parse_v2 env raw = Inr a \<longleftrightarrow> parse_candidate env raw = Inr a"
  by (cases "parse_candidate env raw") (auto simp: parse_v2_def)

text \<open>The result of an accepted analysis, from its support and its warnings.\<close>

definition result_of ::
    "read_env \<Rightarrow> read_context \<Rightarrow> int \<Rightarrow> read_analysis \<Rightarrow> source_slice list \<Rightarrow> v2_warning list \<Rightarrow> v2_result" where
  "result_of env cx n a support generated =
     (let final = with_warnings (sound_parts env cx a) generated in
      \<lparr>vr_identity = cx_identity cx, vr_mode = cx_mode cx, vr_degrade_policy = degrade_policy, vr_attempt_ordinal = n,
       vr_analysis = final, vr_analysis_json = rd_dump env final,
       vr_discards = map (discard_of env cx) (dropped_items env cx n (items a)),
       vr_model_warnings = ra_degraded_content_warnings a,
       vr_diagnostics = map (the \<circ> wn_diagnostic) generated,
       vr_warnings = map (\<lambda>t. \<lparr>wn_program = False, wn_text = t, wn_diagnostic = None\<rparr>)
           (ra_degraded_content_warnings a) @ generated,
       vr_support = support\<rparr>)"

definition warnings_of ::
    "read_env \<Rightarrow> read_context \<Rightarrow> int \<Rightarrow> read_analysis \<Rightarrow> source_slice list \<Rightarrow> (decimal_error, v2_warning list) outcome" where
  "warnings_of env cx n a support =
     warnings env a support (ac_dropped (accept_items env cx n a)) (ac_discards (accept_items env cx n a))
       (ra_output_language a)"

lemma sound_parts_keeps [simp]:
  "ra_output_language (sound_parts env cx a) = ra_output_language a"
  "ra_degraded_content_warnings (sound_parts env cx a) = ra_degraded_content_warnings a"
  by (simp_all add: sound_parts_def)

theorem accepted_iff:
  "validate_read_output_v2 env raw cx policy n = Inr res \<longleftrightarrow>
     policy = degrade_policy \<and> n \<in> {1, 2} \<and> well_formed_context (rd_category env) cx \<and>
     (\<exists>a support generated. parse_candidate env raw = Inr a \<and> acceptable env cx n a \<and>
        replay cx = Some support \<and> warnings_of env cx n a support = Inr generated \<and>
        res = result_of env cx n a support generated)"
proof -
  have step: "and_then (require (ac_failures (accept_items env cx n a) = []) e)
      (\<lambda>_. accepted_result env cx degrade_policy n a (accept_items env cx n a)) = Inr res \<longleftrightarrow>
      (n = 2 \<or> sound_parts env cx a = a) \<and> sound_statement env cx (ra_research_value_reason a) \<and>
      sound_statement env cx (ra_reuse_feasibility_reason a) \<and> (has_subject a \<longrightarrow> has_subject (sound_parts env cx a)) \<and>
      (\<exists>support generated. replay cx = Some support \<and> warnings_of env cx n a support = Inr generated \<and>
        res = result_of env cx n a support generated)" for a e
  proof (cases "ac_failures (accept_items env cx n a) = []")
    case True
    from True have "(n = 2 \<or> sound_parts env cx a = a) \<and> sound_statement env cx (ra_research_value_reason a) \<and>
        sound_statement env cx (ra_reuse_feasibility_reason a)"
      by (simp add: accept_items_facts items_all_iff)
    moreover have "map_sum Arithmetic_Crash id w = Inr g \<longleftrightarrow> w = Inr g" for w and g :: "v2_warning list"
      by (cases w) auto
    ultimately show ?thesis
      unfolding accepted_result_def Let_def without_dropped_sound [OF True] True
      by (auto simp: result_simps or_crash_def warnings_of_def result_of_def accept_items_facts(2) Let_def)
  next
    case False
    then show ?thesis by (auto simp: accept_items_facts items_all_iff)
  qed
  have "validate_read_output_v2 env raw cx policy n = Inr res \<longleftrightarrow>
      policy = degrade_policy \<and> n \<in> {1, 2} \<and> well_formed_context (rd_category env) cx \<and>
      (\<exists>a. parse_candidate env raw = Inr a \<and> well_written env cx a \<and>
        and_then (require (ac_failures (accept_items env cx n a) = []) (Output_Error
           (sort_key (\<lambda>i. (vi_location i, ascii (v2_category_value (vi_category i)))) (ac_failures (accept_items env cx n a)))))
      (\<lambda>_. accepted_result env cx degrade_policy n a (accept_items env cx n a)) = Inr res)"
    unfolding validate_read_output_v2_def Let_def
    by (auto simp: result_simps validate_context_iff parse_v2_iff whole_candidate_nil_iff)
  also have "\<dots> \<longleftrightarrow> policy = degrade_policy \<and> n \<in> {1, 2} \<and> well_formed_context (rd_category env) cx \<and>
     (\<exists>a support generated. parse_candidate env raw = Inr a \<and> acceptable env cx n a \<and>
        replay cx = Some support \<and> warnings_of env cx n a support = Inr generated \<and>
        res = result_of env cx n a support generated)"
    unfolding step acceptable_def by auto
  finally show ?thesis .
qed

end
