(* ===== verification/Read_Numbers_Laws.thy ===== *)
theory Read_Numbers_Laws
  imports Read_Numbers
begin

text \<open>The offsets the normal form keeps are in range and in order, so every literal is shown by a part of the
  original text; and what the support of a literal by a source means in numbers.\<close>

section \<open>Offsets\<close>

text \<open>A normalised text with its offsets into a text of length \<open>n\<close>.\<close>

definition placed :: "nat \<Rightarrow> pystr \<times> nat list \<Rightarrow> bool" where
  "placed n so \<longleftrightarrow> length (fst so) = length (snd so) \<and> sorted (snd so) \<and> (\<forall>o' \<in> set (snd so). o' < n)"

lemma slice_length [simp]: "length (slice i j xs) = min j (length xs) - i"
  by (simp add: slice_def)

lemma slice_subset: "set (slice i j xs) \<subseteq> set xs"
  unfolding slice_def using set_drop_subset set_take_subset by fastforce

lemma in_sliceD:
  assumes "x \<in> set (slice i j xs)"
  obtains k where "i \<le> k" "k < j" "k < length xs" "x = xs ! k"
proof -
  obtain l where l: "l < length (drop i (take j xs))" "x = drop i (take j xs) ! l"
    using assms unfolding in_set_conv_nth slice_def by auto
  then have "i \<le> length (take j xs)" and "i + l < j" and "i + l < length xs" by auto
  with l(2) show thesis by (intro that [of "i + l"]) auto
qed

lemma in_dropD:
  assumes "x \<in> set (drop i xs)"
  obtains k where "i \<le> k" "k < length xs" "x = xs ! k"
proof -
  have "x \<in> set (slice i (length xs) xs)" using assms by (simp add: slice_def)
  then show thesis using that by (elim in_sliceD)
qed

lemma sorted_slice: "sorted xs \<Longrightarrow> sorted (slice i j xs)"
  by (simp add: slice_def sorted_wrt_drop sorted_wrt_take)

lemma replacement_nonempty: "replacement p m \<noteq> []"
  by (simp add: replacement_def Let_def ascii_def)

text \<open>The offsets written from a cursor on are in order, are offsets there were, and are not below any before
  the cursor.\<close>

lemma rewrite_offsets:
  assumes "sorted os" and "spread cursor (length os) ms"
  shows "sorted (snd (rewrite p s os cursor ms)) \<and> set (snd (rewrite p s os cursor ms)) \<subseteq> set os \<and>
    (\<forall>k < cursor. \<forall>x \<in> set (snd (rewrite p s os cursor ms)). os ! k \<le> x)"
  using assms(2)
proof (induction ms arbitrary: cursor)
  case Nil
  have "os ! k \<le> x" if "k < cursor" "x \<in> set (drop cursor os)" for k x
    using that(2) by (rule in_dropD) (use that(1) assms(1) in \<open>auto simp: sorted_iff_nth_mono\<close>)
  with assms(1) show ?case by (auto simp: sorted_wrt_drop dest: in_set_dropD)
next
  case (Cons m ms)
  define rest where "rest = snd (rewrite p s os (fd_end m) ms)"
  have le: "cursor \<le> fd_start m" "fd_start m < fd_end m" "spread (fd_end m) (length os) ms"
    using Cons.prems by auto
  then have inside: "fd_start m < length os" "fd_end m - 1 < length os" using apart_le [OF le(3)] by auto
  note IH = Cons.IH [OF le(3), folded rest_def]
  let ?out = "slice cursor (fd_start m) os @ replicate (length (replacement p m) - 1) (os ! fd_start m) @
      os ! (fd_end m - 1) # rest"
  have out: "snd (rewrite p s os cursor (m # ms)) = ?out" by (simp add: rest_def Let_def split: prod.splits)
  have mono: "os ! i \<le> os ! j" if "i \<le> j" "j < length os" for i j
    using assms(1) that by (simp add: sorted_iff_nth_mono)
  have low: "x \<le> os ! fd_start m" if "x \<in> set (slice cursor (fd_start m) os)" for x
    using that by (rule in_sliceD) (use inside mono in auto)
  have high: "os ! (fd_end m - 1) \<le> x" if "x \<in> set rest" for x
    using IH le(2) that by (metis One_nat_def diff_less gr_implies_not0 not_gr_zero zero_less_one)
  have mid: "os ! fd_start m \<le> os ! (fd_end m - 1)" using le(2) inside(2) by (intro mono) auto
  have "sorted ?out"
    using sorted_slice [OF assms(1)] IH low high mid by (fastforce simp: sorted_append)
  moreover have "set ?out \<subseteq> set os" using slice_subset [of cursor "fd_start m" os] IH inside by auto
  moreover have "os ! k \<le> x" if "k < cursor" "x \<in> set ?out" for k x
  proof -
    have "os ! k \<le> y" if "y \<in> set (slice cursor (fd_start m) os)" for y
      using that by (rule in_sliceD) (use \<open>k < cursor\<close> mono in auto)
    moreover have "os ! k \<le> os ! fd_start m" using that(1) le(1) inside(1) by (intro mono) auto
    ultimately show ?thesis using that(2) mid high by (auto split: if_splits) (meson order_trans)+
  qed
  ultimately show ?case unfolding out by blast
qed

lemma rewrite_length:
  assumes "length s = length os" and "spread cursor (length os) ms"
  shows "length (fst (rewrite p s os cursor ms)) = length (snd (rewrite p s os cursor ms))"
  using assms(2)
proof (induction ms arbitrary: cursor)
  case (Cons m ms)
  then have "length (fst (rewrite p s os (fd_end m) ms)) = length (snd (rewrite p s os (fd_end m) ms))" by auto
  moreover obtain c r where "replacement p m = c # r" using replacement_nonempty [of p m] by (cases "replacement p m") auto
  moreover obtain x y where "rewrite p s os (fd_end m) ms = (x, y)" by force
  ultimately show ?case by (simp add: assms(1) Let_def)
qed (simp add: assms(1))

lemma rewrite_all_placed: "placed n so \<Longrightarrow> placed n (rewrite_all p so)"
  using finditer_apart [of 0 "fst so" "form_pattern p" None]
    rewrite_offsets [of "snd so" 0 "finditer (form_pattern p) 0 None (fst so)" p "fst so"]
    rewrite_length [of "fst so" "snd so" 0 "finditer (form_pattern p) 0 None (fst so)" p]
  by (auto simp: placed_def rewrite_all_def)

theorem normal_form_placed: "placed (length original) (normal_form original)"
  unfolding normal_form_def by (intro rewrite_all_placed) (simp add: placed_def translate_def)

section \<open>Atoms\<close>

lemma unit_at_bounds:
  assumes "unit_at s start = (u, e)" and "start \<le> length s"
  shows "start \<le> e \<and> e \<le> length s"
proof -
  let ?p = "start + the (match_length unit_gap (drop start s))"
  show ?thesis
  proof (cases "u = None")
    case True
    with assms show ?thesis by (auto simp: unit_at_def Let_def split: option.splits prod.splits)
  next
    case False
    with assms(1) obtain w where a: "(w, the u) \<in> set unit_aliases" "prefix w (drop ?p s)" "e = ?p + length w"
      by (auto simp: unit_at_def Let_def split: option.splits prod.splits dest!: find_Some_set)
    from a(1) have "w \<noteq> []" by (auto simp: unit_aliases_def ascii_def)
    moreover from prefix_length_le [OF a(2)] have "length w \<le> length s - ?p" by simp
    ultimately show ?thesis using a(3) by (cases w) auto
  qed
qed

definition atom_inside :: "pystr \<Rightarrow> atom \<Rightarrow> bool" where
  "atom_inside s a \<longleftrightarrow> am_start a < am_end a \<and> am_end a \<le> length s"

lemma rstrip_marks_length: "length (rstrip_marks s) \<le> length s"
  unfolding rstrip_marks_def using length_dropWhile_le [of _ "rev s"] by simp

text \<open>The atoms are inside the text and follow one another.\<close>

fun following :: "nat \<Rightarrow> atom list \<Rightarrow> bool" where
  "following n [] \<longleftrightarrow> True"
| "following n (a # as) \<longleftrightarrow> am_end a \<le> n \<and> following (am_start a) as"

lemma following_mono: "following n as \<Longrightarrow> n \<le> m \<Longrightarrow> following m as"
  by (cases as) auto

definition scanned :: "pystr \<Rightarrow> atom list \<times> nat \<Rightarrow> bool" where
  "scanned s st \<longleftrightarrow> (\<forall>a \<in> set (fst st). atom_inside s a) \<and> following (snd st) (fst st)"

lemma atom_step_scanned:
  assumes "scanned s st" and "fd_end m \<le> length s" and "fd_start m < fd_end m"
  shows "scanned s (atom_step s m st)"
proof -
  obtain result consumed where st: "st = (result, consumed)" by force
  let ?start = "fd_start m" and ?raw = "rstrip_marks (slice (fd_start m) (fd_end m) s)"
  obtain u e where u: "unit_at s (?start + length ?raw) = (u, e)" by force
  have "length ?raw \<le> fd_end m - ?start" using rstrip_marks_length [of "slice ?start (fd_end m) s"] assms(2) by simp
  then have le: "?start + length ?raw \<le> length s" using assms(2,3) by linarith
  from unit_at_bounds [OF u le] have e: "?start + length ?raw \<le> e" "e \<le> length s" by auto
  have added: "scanned s (a # result, e)"
    if "am_start a = ?start" "am_end a = e" "\<not> ?start < consumed" "?raw \<noteq> []" for a
    using assms(1) that e by (cases ?raw) (auto simp: scanned_def st atom_inside_def intro: following_mono)
  have skip: "scanned s (result, e)" if "\<not> ?start < consumed"
    using assms(1) that e by (auto simp: scanned_def st intro: following_mono)
  show ?thesis
    unfolding atom_step_def Let_def st u prod.case
    using assms(1) by (auto simp: st intro!: added skip)
qed

lemma apart_members: "spread i n ms \<Longrightarrow> m \<in> set ms \<Longrightarrow> fd_start m < fd_end m \<and> fd_end m \<le> n"
proof (induction ms arbitrary: i)
  case (Cons x ms)
  then show ?case using apart_le [of "fd_end x" n ms] by auto
qed simp

lemma fold_scanned:
  "(\<And>m. m \<in> set ms \<Longrightarrow> fd_start m < fd_end m \<and> fd_end m \<le> length s) \<Longrightarrow> scanned s st \<Longrightarrow>
     scanned s (fold (atom_step s) ms st)"
proof (induction ms arbitrary: st)
  case (Cons m ms)
  from Cons.prems have "scanned s (atom_step s m st)" by (intro atom_step_scanned) auto
  with Cons show ?case by simp
qed simp

theorem atoms_inside: "a \<in> set (atoms s) \<Longrightarrow> atom_inside s a"
proof -
  have "scanned s (fold (atom_step s) (finditer atom_form 0 None s) ([], 0))"
    using finditer_apart [of 0 s atom_form None]
    by (intro fold_scanned) (auto simp: scanned_def dest: apart_members)
  then show "a \<in> set (atoms s) \<Longrightarrow> atom_inside s a" by (simp add: atoms_def scanned_def)
qed


section \<open>Literals\<close>

lemma literal_inside:
  assumes "placed (length original) (s, offsets)" and "as \<noteq> []" and "\<And>a. a \<in> set as \<Longrightarrow> atom_inside s a"
    and "am_start (hd as) < am_end (last as)"
  shows "\<exists>i j. i < j \<and> j \<le> length original \<and> nl_text (literal_of original offsets as vs) = slice i j original"
proof -
  have len: "length s = length offsets" and srt: "sorted offsets" and lim: "\<And>k. k < length offsets \<Longrightarrow> offsets ! k < length original"
    using assms(1) by (auto simp: placed_def)
  have "am_end (last as) \<le> length offsets" using assms(2,3) len by (auto simp: atom_inside_def)
  with assms(4) have "am_start (hd as) \<le> am_end (last as) - 1" "am_end (last as) - 1 < length offsets" by auto
  with srt lim have "offsets ! am_start (hd as) \<le> offsets ! (am_end (last as) - 1)"
    "offsets ! (am_end (last as) - 1) < length original"
    by (auto simp: sorted_iff_nth_mono)
  then show ?thesis by (intro exI conjI) (auto simp: literal_of_def)
qed

text \<open>The atoms of a text end before the next one starts.\<close>

lemma following_bound:
  "following n as \<Longrightarrow> (\<And>a. a \<in> set as \<Longrightarrow> atom_inside s a) \<Longrightarrow> b \<in> set as \<Longrightarrow> am_end b \<le> n"
proof (induction as arbitrary: n)
  case (Cons a as)
  have "am_start a < am_end a" using Cons.prems(2) by (auto simp: atom_inside_def)
  with Cons show ?case by fastforce
qed simp

lemma following_sorted:
  "following n as \<Longrightarrow> (\<And>a. a \<in> set as \<Longrightarrow> atom_inside s a) \<Longrightarrow> sorted_wrt (\<lambda>a b. am_end b \<le> am_start a) as"
proof (induction as arbitrary: n)
  case (Cons a as)
  then show ?case using following_bound [of "am_start a" as s] by auto
qed simp

definition in_order_atoms :: "pystr \<Rightarrow> atom list \<Rightarrow> bool" where
  "in_order_atoms s as \<longleftrightarrow>
     (\<forall>a \<in> set as. atom_inside s a) \<and> sorted_wrt (\<lambda>a b. am_end a \<le> am_start b) as"

theorem atoms_in_order: "in_order_atoms s (atoms s)"
proof -
  have "scanned s (fold (atom_step s) (finditer atom_form 0 None s) ([], 0))"
    using finditer_apart [of 0 s atom_form None]
    by (intro fold_scanned) (auto simp: scanned_def dest: apart_members)
  then show ?thesis
    using following_sorted [of _ "fst (fold (atom_step s) (finditer atom_form 0 None s) ([], 0))" s]
    by (auto simp: in_order_atoms_def atoms_def scanned_def sorted_wrt_rev)
qed

definition shaped :: "numeric_literal \<Rightarrow> bool" where
  "shaped l \<longleftrightarrow>
     nl_values l \<noteq> [] \<and> length (nl_uncertainty l) = length (nl_values l) \<and> length (nl_units l) = length (nl_values l)"

definition shown_in :: "pystr \<Rightarrow> numeric_literal \<Rightarrow> bool" where
  "shown_in original l \<longleftrightarrow>
     shaped l \<and> (\<exists>i j. i < j \<and> j \<le> length original \<and> nl_text l = slice i j original)"

lemma literal_shown:
  assumes "placed (length original) (s, offsets)" and "in_order_atoms s as" and "as \<noteq> []" and "length vs = length as"
  shows "shown_in original (literal_of original offsets as vs)"
proof -
  have "am_start (hd as) < am_end (last as)"
  proof (cases "tl as = []")
    case True
    then have "hd as = last as" using assms(3) by (cases as) auto
    with assms(2,3) show ?thesis by (auto simp: in_order_atoms_def atom_inside_def)
  next
    case False
    then obtain a bs where as: "as = a # bs" "bs \<noteq> []" using assms(3) by (cases as) auto
    with assms(2) have "am_end a \<le> am_start (last as)" "am_start a < am_end a" "am_start (last as) < am_end (last as)"
      by (auto simp: in_order_atoms_def atom_inside_def)
    then show ?thesis using as by simp
  qed
  from literal_inside [OF assms(1,3) _ this] assms show ?thesis
    by (auto simp: shown_in_def shaped_def in_order_atoms_def literal_of_def)
qed

lemma pair_atoms_shown:
  assumes "placed (length original) (s, offsets)"
  shows "pair_atoms original offsets s as = Inr ls \<Longrightarrow> in_order_atoms s as \<Longrightarrow> l \<in> set ls \<Longrightarrow> shown_in original l"
  using assms
proof (induction original offsets s as arbitrary: ls rule: pair_atoms.induct)
  case (2 original offsets s a)
  then show ?case using literal_shown [of original s offsets "[a]"] by auto
next
  case (3 original offsets s a b as)
  from 3(4) have pre: "in_order_atoms s [a, b]" "in_order_atoms s [a]" "in_order_atoms s as" "in_order_atoms s (b # as)"
    by (auto simp: in_order_atoms_def)
  show ?case
  proof (cases "fullmatch range_form (slice (am_end a) (am_start b) s) \<or> joined_minus s a b")
    case True
    with 3(3) obtain v ls' where "range_end s a b = Inr v" "pair_atoms original offsets s as = Inr ls'"
      "ls = literal_of original offsets [a, b] [am_value a, v] # ls'"
      by (auto simp: result_simps)
    then show ?thesis
      using 3(1) [OF True _ pre(3)] 3(5,6) literal_shown [OF 3(6) pre(1)] by auto
  next
    case False
    with 3(3) obtain ls' where "pair_atoms original offsets s (b # as) = Inr ls'"
      "ls = literal_of original offsets [a] [am_value a] # ls'"
      by (auto simp: result_simps)
    then show ?thesis
      using 3(2) [OF False _ pre(4)] 3(5,6) literal_shown [OF 3(6) pre(2)] by auto
  qed
qed simp

theorem extracted_shown:
  assumes "extract_numeric_literals original = Inr ls" and "l \<in> set ls"
  shows "shown_in original l"
proof -
  obtain s offsets where n: "normal_form original = (s, offsets)" by force
  with assms(1) have "pair_atoms original offsets s (atoms s) = Inr ls"
    by (simp add: extract_numeric_literals_def)
  from pair_atoms_shown [OF _ this atoms_in_order assms(2)] normal_form_placed [of original] n show ?thesis by simp
qed

section \<open>Support\<close>

text \<open>A source states a number: one of its recognized literals has an endpoint of that value and certainty.\<close>

definition states_number :: "numeric_literal list \<Rightarrow> decimal \<Rightarrow> bool \<Rightarrow> bool" where
  "states_number source v uncertain \<longleftrightarrow>
     (\<exists>item \<in> set source. recognized item \<and>
        (\<exists>j < length (nl_values item). \<exists>w. nl_values item ! j = Some w \<and> nl_uncertainty item ! j = uncertain \<and>
           decimal_value w = decimal_value v))"

lemma source_numbers_states:
  assumes "(w, c, u) \<in> set (source_numbers source)" and "\<And>l. l \<in> set source \<Longrightarrow> shaped l"
    and "decimal_value w = decimal_value v"
  shows "states_number source v c"
proof -
  obtain item j where i: "item \<in> set source" "recognized item" "j < length (nl_values item)"
    "w = the (nl_values item ! j)" "c = nl_uncertainty item ! j"
    using assms(1,2) by (fastforce simp: source_numbers_def set_zip shaped_def)
  moreover from i have "nl_values item ! j \<noteq> None" by (auto simp: recognized_def list_all_length)
  ultimately show ?thesis using assms(3) unfolding states_number_def by (metis option.collapse)
qed

theorem supports_states:
  assumes "supports l source with_unit" and "shaped l" and "\<And>x. x \<in> set source \<Longrightarrow> shaped x" and "k < length (nl_values l)"
  shows "\<exists>v. nl_values l ! k = Some v \<and> states_number source v (nl_uncertainty l ! k)"
proof -
  have "(k, nl_values l ! k, nl_uncertainty l ! k, nl_units l ! k) \<in>
      set (enumerate 0 (zip (nl_values l) (zip (nl_uncertainty l) (nl_units l))))"
    using assms(2,4) by (simp add: in_set_enumerate_eq shaped_def)
  with assms(1) have "endpoint_supported l with_unit (source_numbers source)
      (k, nl_values l ! k, nl_uncertainty l ! k, nl_units l ! k)"
    unfolding supports_def list_all_iff by blast
  then obtain w c u where "(w, c, u) \<in> set (source_numbers source)"
    "decimal_equal (the (nl_values l ! k)) w" "nl_uncertainty l ! k = c"
    by (auto simp: list_ex_iff endpoint_supported_def Let_def)
  then have "states_number source (the (nl_values l ! k)) (nl_uncertainty l ! k)"
    using source_numbers_states [of w c u source "the (nl_values l ! k)"] assms(3) by (auto simp: decimal_equal_iff)
  moreover have "nl_values l ! k \<noteq> None"
    using assms(1,4) by (auto simp: supports_def recognized_def list_all_length)
  ultimately show ?thesis by (metis option.collapse)
qed

section \<open>Ranges that overflow\<close>

text \<open>Two atoms with blanks between them of which the second begins with a minus.\<close>

definition minus_end :: "pystr \<Rightarrow> atom \<Rightarrow> atom \<Rightarrow> bool" where
  "minus_end s a b \<longleftrightarrow>
     (\<forall>c \<in> set (slice (am_end a) (am_start b) s). white_space c) \<and> take 1 (drop (am_start b) s) = [45]"

text \<open>The pairs of atoms read as ranges, from the left.\<close>

fun ranges :: "pystr \<Rightarrow> atom list \<Rightarrow> (atom \<times> atom) list" where
  "ranges s (a # b # as) =
     (if fullmatch range_form (slice (am_end a) (am_start b) s) \<or> minus_end s a b then (a, b) # ranges s as
      else ranges s (b # as))"
| "ranges s as = []"

text \<open>The end of a range written with a minus is a number at or beyond the limit; a text overflows if it has such
  a range.\<close>

definition range_overflows :: "pystr \<Rightarrow> atom \<times> atom \<Rightarrow> bool" where
  "range_overflows s ab \<longleftrightarrow>
     minus_end s (fst ab) (snd ab) \<and> (\<exists>v. am_value (snd ab) = Some v \<and> decimal_limit \<le> \<bar>decimal_value v\<bar>)"

definition overflows :: "pystr \<Rightarrow> bool" where
  "overflows t \<longleftrightarrow> (let s = fst (normal_form t) in \<exists>ab \<in> set (ranges s (atoms s)). range_overflows s ab)"

lemma all_dropWhile: "(\<forall>x \<in> set (dropWhile P xs). P x) \<longleftrightarrow> (\<forall>x \<in> set xs. P x)"
  by (induction xs) auto

lemma strip_empty: "strip xs = [] \<longleftrightarrow> (\<forall>c \<in> set xs. white_space c)"
  by (simp add: strip_def all_dropWhile)

lemma joined_minus_iff: "joined_minus s a b \<longleftrightarrow> minus_end s a b"
  by (simp add: joined_minus_def minus_end_def strip_empty slice_def take_drop)

lemma range_end_total: "(\<exists>v. range_end s a b = Inr v) \<longleftrightarrow> \<not> range_overflows s (a, b)"
proof (cases "am_value b")
  case (Some v)
  have "decimal_abs v = Inl Decimal_Overflow \<longleftrightarrow> (\<nexists>x. decimal_abs v = Inr x)"
    by (cases "decimal_abs v") (auto intro: decimal_error.exhaust)
  with Some show ?thesis
    by (cases "decimal_abs v") (auto simp: range_end_def range_overflows_def joined_minus_iff decimal_abs_overflow [symmetric])
qed (simp add: range_end_def range_overflows_def)

lemma pair_atoms_total:
  "(\<exists>ls. pair_atoms original offsets s as = Inr ls) \<longleftrightarrow> (\<forall>ab \<in> set (ranges s as). \<not> range_overflows s ab)"
proof (induction original offsets s as rule: pair_atoms.induct)
  case (3 original offsets s a b as)
  show ?case
  proof (cases "fullmatch range_form (slice (am_end a) (am_start b) s) \<or> minus_end s a b")
    case True
    then have "(\<exists>ls. pair_atoms original offsets s (a # b # as) = Inr ls) \<longleftrightarrow>
        (\<exists>v. range_end s a b = Inr v) \<and> (\<exists>ls. pair_atoms original offsets s as = Inr ls)"
      by (auto simp: joined_minus_iff result_simps)
    with True 3(1) show ?thesis unfolding range_end_total by (auto simp: joined_minus_iff)
  next
    case False
    then have "(\<exists>ls. pair_atoms original offsets s (a # b # as) = Inr ls) \<longleftrightarrow>
        (\<exists>ls. pair_atoms original offsets s (b # as) = Inr ls)"
      by (auto simp: joined_minus_iff result_simps)
    with False 3(2) show ?thesis by (auto simp: joined_minus_iff)
  qed
qed simp_all

end
