(* ===== verification/Read_Warning_Laws.thy ===== *)
theory Read_Warning_Laws
  imports Read_Acceptance_Laws Read_Numbers_Laws
begin

text \<open>The warnings of an accepted result: which there are, when their computation overflows, and that a number
  without a warning is stated by a reliable cited source.\<close>

section \<open>When numbers can be compared\<close>

definition readable :: "pystr \<Rightarrow> bool" where
  "readable v \<longleftrightarrow> (\<exists>ls. extract_numeric_literals v = Inr ls)"

lemma each_row_readable:
  "(\<exists>ys. each_row (\<lambda>s. and_then (extract_numeric_literals (sl_text s)) (\<lambda>ls. Inr (ls, f s))) ss = Inr ys) \<longleftrightarrow>
     (\<forall>s \<in> set ss. readable (sl_text s))"
  by (induction ss) (auto simp: result_simps readable_def)

lemma match_numbers_total:
  "(\<exists>ms. match_numbers v ss = Inr ms) \<longleftrightarrow> readable v \<and> (\<forall>s \<in> set ss. readable (sl_text s))"
proof -
  have "(\<exists>ms. match_numbers v ss = Inr ms) \<longleftrightarrow>
      readable v \<and> (\<exists>x. each_row (\<lambda>s. and_then (extract_numeric_literals (sl_text s)) (\<lambda>ls.
        Inr (ls, sl_kind s \<noteq> ''text'' \<or> sl_unreliable s))) ss = Inr x)"
    by (auto simp: match_numbers_def result_simps readable_def)
  then show ?thesis by (simp only: each_row_readable)
qed

lemma path_diagnostics_total:
  "(\<exists>ds. path_diagnostics ss p = Inr ds) \<longleftrightarrow> readable (snd p) \<and> (\<forall>s \<in> set ss. readable (sl_text s))"
  unfolding path_diagnostics_def result_simps match_numbers_total [symmetric] by blast

definition cited :: "source_slice list \<Rightarrow> evidence_ref list \<Rightarrow> source_slice list" where
  "cited support rs = filter (\<lambda>s. sl_evidence_id s \<in> set rs) support"

lemma cited_slices_readable:
  "(\<forall>s \<in> set (cited_slices env support rs). readable (sl_text s)) \<longleftrightarrow> (\<forall>s \<in> set (cited support rs). readable (sl_text s))"
  by (auto simp: cited_slices_def cited_def)

lemma each_row_exists: "(\<exists>ys. each_row f xs = Inr ys) \<longleftrightarrow> (\<forall>x \<in> set xs. \<exists>y. f x = Inr y)"
  by (induction xs) (auto simp: result_simps)

lemma item_diagnostics_total:
  "(\<exists>ds. item_diagnostics env support i = Inr ds) \<longleftrightarrow>
     (\<forall>p \<in> set (item_paths i). readable (snd p) \<and> (\<forall>s \<in> set (cited support (ci_references i)). readable (sl_text s)))"
proof -
  have "(\<exists>ds. item_diagnostics env support i = Inr ds) \<longleftrightarrow>
      (\<exists>ys. each_row (path_diagnostics (cited_slices env support (ci_references i))) (item_paths i) = Inr ys)"
    unfolding item_diagnostics_def
    by (cases "each_row (path_diagnostics (cited_slices env support (ci_references i))) (item_paths i)") auto
  then show ?thesis unfolding each_row_exists path_diagnostics_total cited_slices_readable .
qed

definition readable_item :: "source_slice list \<Rightarrow> cited_item \<Rightarrow> bool" where
  "readable_item support i \<longleftrightarrow>
     (\<forall>p \<in> set (item_paths i). readable (snd p) \<and> (\<forall>s \<in> set (cited support (ci_references i)). readable (sl_text s)))"

lemma warnings_total:
  "(\<exists>g. warnings env a support dropped discards language = Inr g) \<longleftrightarrow>
     (\<forall>i \<in> set (items a). \<not> was_dropped dropped i \<longrightarrow> readable_item support i)"
proof -
  have "(\<exists>g. warnings env a support dropped discards language = Inr g) \<longleftrightarrow>
      (\<exists>ys. each_row (item_diagnostics env support) (filter (\<lambda>i. \<not> was_dropped dropped i) (items a)) = Inr ys)"
    unfolding warnings_def result_simps by blast
  then show ?thesis
    unfolding each_row_exists item_diagnostics_total by (auto simp: readable_item_def)
qed

text \<open>An item is dropped exactly when it is unsound on an attempt that may drop it.\<close>

lemma was_dropped_iff:
  assumes "i \<in> set (items a)"
  shows "was_dropped (ac_dropped (accept_items env cx n a)) i \<longleftrightarrow> n = 2 \<and> ci_field i \<noteq> None \<and> \<not> sound_item env cx i"
  using assms unfolding item_members was_dropped_def
  by (elim disjE exE conjE) (auto simp: dropped_iff)

lemma warnings_of_total:
  assumes "acceptable env cx n a" and "n \<in> {1, 2}"
  shows "(\<exists>g. warnings_of env cx n a support = Inr g) \<longleftrightarrow>
    (\<forall>i \<in> set (items a). sound_item env cx i \<longrightarrow> readable_item support i)"
proof -
  have "\<forall>i \<in> set (items a). sound_item env cx i \<or> droppable n i"
    using assms by (auto simp: acceptable_def items_all_iff)
  then have "was_dropped (ac_dropped (accept_items env cx n a)) i \<longleftrightarrow> \<not> sound_item env cx i" if "i \<in> set (items a)" for i
    using that by (auto simp: was_dropped_iff droppable_def)
  then show ?thesis unfolding warnings_of_def warnings_total by blast
qed

section \<open>The diagnostics\<close>

lemma map_Inr_from: "map f xs = map Inr ys \<Longrightarrow> y \<in> set ys \<Longrightarrow> \<exists>x \<in> set xs. f x = Inr y"
  by (metis imageE imageI list.set_map)

lemma map_Inr_to: "map f xs = map Inr ys \<Longrightarrow> x \<in> set xs \<Longrightarrow> \<exists>y \<in> set ys. f x = Inr y"
  by (metis imageE imageI list.set_map)

lemma program_warning_diagnostic [simp]: "wn_diagnostic (program_warning language d) = Some d"
  by (simp add: program_warning_def)

lemma warnings_diagnostics:
  assumes "warnings env a support dropped discards language = Inr g"
    and "i \<in> set (items a)" "\<not> was_dropped dropped i" "p \<in> set (item_paths i)"
  obtains ds where "path_diagnostics (cited_slices env support (ci_references i)) p = Inr ds"
    "set ds \<subseteq> set (map (the \<circ> wn_diagnostic) g)"
proof -
  obtain found where f: "each_row (item_diagnostics env support) (filter (\<lambda>i. \<not> was_dropped dropped i) (items a)) = Inr found"
    and g: "set (concat found) \<subseteq> set (map (the \<circ> wn_diagnostic) g)"
    using assms(1) by (auto simp: warnings_def result_simps comp_def image_image)
  from f have "map (item_diagnostics env support) (filter (\<lambda>i. \<not> was_dropped dropped i) (items a)) = map Inr found"
    by (simp add: each_row_iff)
  with assms(2,3) obtain is' where i: "item_diagnostics env support i = Inr is'" "is' \<in> set found"
    by (auto dest: map_Inr_to)
  then obtain rows where r: "each_row (path_diagnostics (cited_slices env support (ci_references i))) (item_paths i) = Inr rows"
    "is' = concat rows"
    unfolding item_diagnostics_def
    by (cases "each_row (path_diagnostics (cited_slices env support (ci_references i))) (item_paths i)") auto
  then have "map (path_diagnostics (cited_slices env support (ci_references i))) (item_paths i) = map Inr rows"
    by (simp add: each_row_iff)
  with assms(4) obtain ds where "path_diagnostics (cited_slices env support (ci_references i)) p = Inr ds" "ds \<in> set rows"
    by (auto dest: map_Inr_to)
  moreover have "set ds \<subseteq> set (concat found)"
  proof
    fix x assume "x \<in> set ds"
    with \<open>ds \<in> set rows\<close> r(2) have "x \<in> set is'" by auto
    with i(2) show "x \<in> set (concat found)" by auto
  qed
  ultimately show thesis using g that by blast
qed

section \<open>Numbers without a warning\<close>

text \<open>A slice is reliable when it is text and its characters are.\<close>

definition reliable :: "read_env \<Rightarrow> source_slice \<Rightarrow> bool" where
  "reliable env s \<longleftrightarrow> sl_kind s = ''text'' \<and> \<not> is_unreliable (rd_category env) (sl_text s) (sl_unreliable s)"

lemma match_numbers_nth:
  assumes "match_numbers v ss = Inr ms" and "extract_numeric_literals v = Inr ls" and "k < length ls"
  obtains sources where "map (\<lambda>s. and_then (extract_numeric_literals (sl_text s)) (\<lambda>ls.
      Inr (ls, sl_kind s \<noteq> ''text'' \<or> sl_unreliable s))) ss = map Inr sources"
    "ms = mapi (match_literal sources) ls" "match_literal sources k (ls ! k) \<in> set ms"
  using assms by (auto simp: match_numbers_def result_simps each_row_iff mapi_set)

lemma unreliable_flagged:
  assumes "path_diagnostics ss (l, v) = Inr ds" and "extract_numeric_literals v = Inr ls" and "k < length ls"
    and "\<forall>r. \<lparr>dg_location = l, dg_reason = Numeric r, dg_ordinal = k\<rparr> \<notin> set ds"
  obtains s xs where "s \<in> set ss" "sl_kind s = ''text''" "\<not> sl_unreliable s"
    "extract_numeric_literals (sl_text s) = Inr xs" "supports (ls ! k) xs True"
proof -
  obtain ms where ms: "match_numbers v ss = Inr ms" using assms(1) by (auto simp: path_diagnostics_def result_simps)
  obtain sources where src: "map (\<lambda>s. and_then (extract_numeric_literals (sl_text s)) (\<lambda>ls.
      Inr (ls, sl_kind s \<noteq> ''text'' \<or> sl_unreliable s))) ss = map Inr sources"
    and m: "match_literal sources k (ls ! k) \<in> set ms"
    using match_numbers_nth [OF ms assms(2,3)] by blast
  let ?m = "match_literal sources k (ls ! k)"
  have o: "nm_ordinal ?m = k" by (simp add: match_literal_def Let_def)
  have "match_reason ?m = None"
  proof (rule ccontr)
    assume "match_reason ?m \<noteq> None"
    then obtain r where "match_reason ?m = Some (Numeric r)" by (auto simp: match_reason_def split: if_splits)
    with ms m o assms(1) have "\<lparr>dg_location = l, dg_reason = Numeric r, dg_ordinal = k\<rparr> \<in> set ds"
      by (auto simp: path_diagnostics_def result_simps intro!: bexI [of _ ?m])
    with assms(4) show False by blast
  qed
  then have "nm_reliable ?m" by (auto simp: match_reason_def match_literal_def Let_def split: if_splits)
  then obtain xs where "(xs, False) \<in> set sources" "supports (ls ! k) xs True"
    by (auto simp: match_literal_def Let_def list_ex_iff)
  with map_Inr_from [OF src] that show thesis by (fastforce simp: result_simps)
qed

text \<open>Every endpoint of the literal is stated by the source, with its certainty.\<close>

definition stated_by :: "numeric_literal \<Rightarrow> numeric_literal list \<Rightarrow> bool" where
  "stated_by l xs \<longleftrightarrow>
     (\<forall>j < length (nl_values l). \<exists>v. nl_values l ! j = Some v \<and> states_number xs v (nl_uncertainty l ! j))"

lemma supported_stated:
  assumes "extract_numeric_literals v = Inr ls" "l \<in> set ls" "extract_numeric_literals w = Inr xs" "supports l xs b"
  shows "stated_by l xs"
proof -
  have "shaped l" using extracted_shown [OF assms(1,2)] by (simp add: shown_in_def)
  moreover have "shaped x" if "x \<in> set xs" for x using extracted_shown [OF assms(3) that] by (simp add: shown_in_def)
  ultimately show ?thesis using supports_states [OF assms(4)] by (simp add: stated_by_def)
qed

theorem silent_number_stated:
  assumes "warnings_of env cx n a support = Inr g" and "i \<in> set (items a)" "sound_item env cx i" "(l, v) \<in> set (item_paths i)"
    and "extract_numeric_literals v = Inr ls" and "k < length ls"
    and "\<forall>r. \<lparr>dg_location = l, dg_reason = Numeric r, dg_ordinal = k\<rparr> \<notin> set (map (the \<circ> wn_diagnostic) g)"
  shows "\<exists>s \<in> set support. sl_evidence_id s \<in> set (ci_references i) \<and> reliable env s \<and>
    (\<exists>xs. extract_numeric_literals (sl_text s) = Inr xs \<and> stated_by (ls ! k) xs)"
proof -
  have "\<not> was_dropped (ac_dropped (accept_items env cx n a)) i" using was_dropped_iff [OF assms(2)] assms(3) by simp
  from warnings_diagnostics [OF assms(1) [unfolded warnings_of_def] assms(2) this assms(4)]
  obtain ds where ds: "path_diagnostics (cited_slices env support (ci_references i)) (l, v) = Inr ds"
    "set ds \<subseteq> set (map (the \<circ> wn_diagnostic) g)" .
  then have "\<forall>r. \<lparr>dg_location = l, dg_reason = Numeric r, dg_ordinal = k\<rparr> \<notin> set ds" using assms(7) by blast
  from unreliable_flagged [OF ds(1) assms(5,6) this] obtain s xs where
    "s \<in> set (cited_slices env support (ci_references i))" "sl_kind s = ''text''" "\<not> sl_unreliable s"
    and x: "extract_numeric_literals (sl_text s) = Inr xs" "supports (ls ! k) xs True" .
  then obtain t where t: "t \<in> set support" "sl_evidence_id t \<in> set (ci_references i)" "sl_text t = sl_text s" "reliable env t"
    by (auto simp: cited_slices_def reliable_def)
  have "stated_by (ls ! k) xs" using supported_stated [OF assms(5) _ x] assms(6) by simp
  with t x(1) show ?thesis by metis
qed

end
