(* ===== verification/Read_Legacy_Laws.thy ===== *)
theory Read_Legacy_Laws
  imports Read_Legacy Read_Warning_Laws
begin

text \<open>What version 1 accepts, version 2 accepts on either attempt, without discarding anything.\<close>

section \<open>Locations\<close>

lemma dec_injective: "dec i = dec j \<longleftrightarrow> i = j"
  by (metis dec_value_dec)

lemma located_same_member: "place_at n i r = place_at n j r \<longleftrightarrow> i = j"
  by (simp add: place_at_def dec_injective)

lemma located_rest: "place_at n i (c # r) = place_at n i '''' @ of_char c # ascii r"
  by (simp add: place_at_def ascii_def)

lemma before_last_dot_append [simp]:
  assumes "46 \<notin> set t"
  shows "before_last_dot (p @ 46 # t) = p"
proof -
  have "dropWhile (\<lambda>c. c \<noteq> 46) (rev t @ 46 # rev p) = 46 # rev p"
    using assms by (subst dropWhile_append2) auto
  then show ?thesis by (simp add: before_last_dot_def)
qed

lemma path_base:
  assumes "(l, v) \<in> set (item_paths i)"
  shows "before_last_dot l = ci_location i"
proof -
  obtain f where "f \<in> set (item_fields i)" "l = ci_location i @ 46 # ascii f"
    using set_zip_leftD [OF assms [unfolded item_paths_def]] by auto
  then show ?thesis by (auto simp: item_fields_def ascii_def split: if_splits)
qed

text \<open>The contents of version 1 are the paths of the items of version 2.\<close>

lemma item_paths_simps:
  "item_paths (statement_item f i s) = (if f = Reusable_Points then [(place_at (''$.'' @ field_name f) i ''.item'', ss_statement s)]
     else [(place_at (''$.'' @ field_name f) i ''.statement'', ss_statement s)])"
  "item_paths (point_item i p) =
     [(place_at ''$.reusable_points'' i ''.item'', rp_item p), (place_at ''$.reusable_points'' i ''.how_to_reuse'', rp_how_to_reuse p)]"
  "item_paths (reason_item r s) = [(ascii (''$.'' @ r @ ''.statement''), ss_statement s)]"
  by (auto simp: item_paths_def item_fields_def statement_item_def point_item_def reason_item_def place_at_def ascii_def)

lemma item_references [simp]:
  "ci_references (statement_item f i s) = ss_evidence s" "ci_references (point_item i p) = rp_evidence p"
  "ci_references (reason_item r s) = ss_evidence s"
  by (simp_all add: statement_item_def point_item_def reason_item_def)

definition item_contents :: "cited_item \<Rightarrow> (pystr \<times> pystr \<times> evidence_ref list) list" where
  "item_contents i = map (\<lambda>(l, v). (l, v, ci_references i)) (item_paths i)"

lemma item_contents_simps:
  "f \<noteq> Reusable_Points \<Longrightarrow> item_contents (statement_item f i s) = [statement_contents (field_name f) i s]"
  "item_contents (point_item i p) =
     [(place_at ''$.reusable_points'' i ''.item'', rp_item p, rp_evidence p),
      (place_at ''$.reusable_points'' i ''.how_to_reuse'', rp_how_to_reuse p, rp_evidence p)]"
  "item_contents (reason_item r s) = [reason_contents r s]"
  by (simp_all add: item_contents_def item_paths_simps statement_contents_def reason_contents_def)

lemma protected_set: "set (protected_contents a) = set (concat (map item_contents (items a)))"
proof -
  have f: "concat (mapi (\<lambda>i x. item_contents (statement_item f i x)) xs) = mapi (statement_contents (field_name f)) xs"
    if "f \<noteq> Reusable_Points" for f xs
    using that by (simp add: item_contents_simps mapi_def case_prod_unfold concat_map_singleton)
  show ?thesis
    unfolding protected_contents_def items_def map_append map_mapi concat_append
      f [of Main_Findings, simplified] f [of Key_Limitations, simplified]
    by (auto simp: item_contents_simps)
qed

lemma protected_iff:
  "(l, v, rs) \<in> set (protected_contents a) \<longleftrightarrow>
     (\<exists>i \<in> set (items a). (l, v) \<in> set (item_paths i) \<and> rs = ci_references i)"
  unfolding protected_set by (auto simp: item_contents_def)

text \<open>Different items have different locations.\<close>

lemma location_simps:
  "ci_location (statement_item f i s) = place_at (''$.'' @ field_name f) i ''''"
  "ci_location (point_item i p) = place_at ''$.reusable_points'' i ''''"
  "ci_location (reason_item r s) = ascii (''$.'' @ r)"
  by (simp_all add: statement_item_def point_item_def reason_item_def)

lemma item_location_unique:
  assumes "i \<in> set (items a)" "j \<in> set (items a)" "ci_location i = ci_location j"
  shows "i = j"
  using assms unfolding item_members
  by (elim disjE exE conjE) (simp_all add: location_simps located_same_member, simp_all add: place_at_def ascii_def)

section \<open>The business rules\<close>

interpretation v1_references: reference_check "good_reference env cx" "reference_loop env cx location"
  for env cx location
proof
  show "reference_loop env cx location i seen (r # rs) = [] \<longleftrightarrow>
      (good_reference env cx r \<and> r \<notin> seen) \<and> reference_loop env cx location (Suc i) (insert r seen) rs = []" for i seen r rs
    by (auto simp: Let_def good_reference_def)
qed simp

lemma reference_issues_nil: "reference_issues env cx location rs = [] \<longleftrightarrow> sound_references env cx rs"
  unfolding reference_issues_def sound_references_def
  by (rule v1_references.issues_nil_iff) (rule good_reference_allowed)

text \<open>Every content was checked, or another one of the same base was.\<close>

definition base_checked :: "read_env \<Rightarrow> read_context \<Rightarrow> (pystr \<times> pystr \<times> evidence_ref list) list \<Rightarrow> pystr \<Rightarrow> bool" where
  "base_checked env cx cs b \<longleftrightarrow> (\<exists>(l, v, rs) \<in> set cs. before_last_dot l = b \<and> sound_references env cx rs)"

lemma contents_loop_nil:
  assumes "contents_loop env cx checked cs = []" and "(l, v, rs) \<in> set cs"
  shows "read_meaningful env v \<and>
    (before_last_dot l @ ascii ''.evidence'' \<in> checked \<or> base_checked env cx cs (before_last_dot l))"
  using assms
proof (induction cs arbitrary: checked)
  case (Cons c cs)
  obtain l' v' rs' where c: "c = (l', v', rs')" by (cases c)
  let ?b = "before_last_dot l' @ ascii ''.evidence''"
  from Cons.prems(1) have m: "read_meaningful env v'"
    and rest: "contents_loop env cx (insert ?b checked) cs = []"
    and s: "?b \<in> checked \<or> sound_references env cx rs'"
    by (auto simp: c Let_def reference_issues_nil insert_absorb split: if_splits)
  from s have here: "?b \<in> checked \<or> base_checked env cx (c # cs) (before_last_dot l')"
    by (auto simp: c base_checked_def)
  from Cons.prems(2) c have "(l, v, rs) = (l', v', rs') \<or> (l, v, rs) \<in> set cs" by auto
  then show ?case
  proof
    assume "(l, v, rs) = (l', v', rs')"
    with m here show ?thesis by simp
  next
    assume "(l, v, rs) \<in> set cs"
    from Cons.IH [OF rest this] here show ?thesis by (auto simp: base_checked_def)
  qed
qed simp

lemma item_has_path:
  assumes "i \<in> set (items a)"
  obtains l v where "(l, v) \<in> set (item_paths i)"
proof -
  have "item_paths i \<noteq> []" using assms unfolding item_members by (auto simp: item_paths_simps)
  then show thesis using that by (cases "item_paths i") force+
qed

theorem business_issues_nil:
  assumes "business_issues env a cx = []"
  shows "well_written env cx a" and "\<And>i. i \<in> set (items a) \<Longrightarrow> sound_item env cx i"
proof -
  have c: "contents_loop env cx {} (protected_contents a) = []" using assms by (simp add: business_issues_def)
  note checked = contents_loop_nil [OF c, simplified]
  have "read_meaningful env v" if "i \<in> set (items a)" "(l, v) \<in> set (item_paths i)" for i l v
    using that checked protected_iff by blast
  with assms show "well_written env cx a"
    by (auto simp: business_issues_def well_written_def candidate_texts_def filter_empty_conv repeated_nil_iff
        split: if_splits)
  show "sound_item env cx i" if i: "i \<in> set (items a)" for i
  proof -
    from item_has_path [OF i] obtain l v where p: "(l, v) \<in> set (item_paths i)" .
    with i have "(l, v, ci_references i) \<in> set (protected_contents a)" using protected_iff by blast
    with checked have "base_checked env cx (protected_contents a) (before_last_dot l)" by blast
    then obtain l' v' rs' where q: "(l', v', rs') \<in> set (protected_contents a)"
      "before_last_dot l' = before_last_dot l" "sound_references env cx rs'"
      by (auto simp: base_checked_def)
    then obtain j where j: "j \<in> set (items a)" "(l', v') \<in> set (item_paths j)" "rs' = ci_references j"
      using protected_iff by blast
    then have "ci_location j = ci_location i" using path_base p q(2) by metis
    with item_location_unique [OF j(1) i] q(3) j(3) show ?thesis by (simp add: sound_item_def)
  qed
qed

section \<open>From version 1 to version 2\<close>

lemma all_sound_same: "(\<And>i. i \<in> set (items a) \<Longrightarrow> sound_item env cx i) \<Longrightarrow> sound_parts env cx a = a"
  using items_all_iff [of a env cx 1] by simp

lemma all_sound_nothing_dropped:
  "(\<And>i. i \<in> set (items a) \<Longrightarrow> sound_item env cx i) \<Longrightarrow> dropped_items env cx n (items a) = []"
  by (simp add: dropped_items_def filter_empty_conv)

lemma all_sound_acceptable:
  assumes "well_written env cx a" and "\<And>i. i \<in> set (items a) \<Longrightarrow> sound_item env cx i"
  shows "acceptable env cx n a"
  using assms items_all_iff [of a env cx 1] by (auto simp: acceptable_def)

text \<open>What every item sound makes of an accepted analysis.\<close>

definition v1_plain_result ::
    "read_env \<Rightarrow> read_context \<Rightarrow> int \<Rightarrow> read_analysis \<Rightarrow> source_slice list \<Rightarrow> v2_warning list \<Rightarrow> v2_result \<Rightarrow> bool" where
  "v1_plain_result env cx n a support generated res \<longleftrightarrow>
     vr_attempt_ordinal res = n \<and> vr_discards res = [] \<and> vr_support res = support \<and>
     vr_model_warnings res = ra_degraded_content_warnings a \<and> vr_analysis res = with_warnings a generated"

lemma accepted_plain:
  assumes "well_written env cx a" and sound: "\<And>i. i \<in> set (items a) \<Longrightarrow> sound_item env cx i"
    and "well_formed_context (rd_category env) cx" and "n \<in> {1, 2}" and "parse_candidate env raw = Inr a"
    and "replay cx = Some support" and "\<And>i. i \<in> set (items a) \<Longrightarrow> readable_item support i"
  obtains res generated where "validate_read_output_v2 env raw cx degrade_policy n = Inr res"
    "warnings_of env cx n a support = Inr generated" "v1_plain_result env cx n a support generated res"
proof -
  have acc: "acceptable env cx n a" by (rule all_sound_acceptable [OF assms(1) sound])
  with warnings_of_total [OF acc assms(4)] assms(7) obtain g where g: "warnings_of env cx n a support = Inr g" by blast
  have "validate_read_output_v2 env raw cx degrade_policy n = Inr (result_of env cx n a support g)"
    using assms(3-6) acc g unfolding accepted_iff by blast
  moreover have "v1_plain_result env cx n a support g (result_of env cx n a support g)"
    by (simp add: v1_plain_result_def result_of_def Let_def all_sound_same [OF sound] all_sound_nothing_dropped [OF sound])
  ultimately show thesis using that g by blast
qed

lemma map_error_Inr: "map_sum f id x = Inr y \<longleftrightarrow> x = Inr y"
  by (cases x) auto

lemma v1_accepted:
  assumes "validate_read_output env raw cx = Inr res"
  obtains a support where "parse_candidate env raw = Inr a" "business_issues env a cx = []" "replay cx = Some support"
    "\<And>i. i \<in> set (items a) \<Longrightarrow> readable_item support i"
    "or_support res = support" "or_model_warnings res = ra_degraded_content_warnings a"
    "\<exists>ws. or_analysis res = a\<lparr>ra_degraded_content_warnings := ra_degraded_content_warnings a @ ws\<rparr>"
proof -
  obtain a support found generated where p: "parse_candidate env raw = Inr a" "business_issues env a cx = []" "replay cx = Some support"
    and f: "each_row (content_findings (cx_language cx) support) (protected_contents a) = Inr found"
    and res: "res = v1_result_of env cx a support generated"
    using assms
    by (auto simp: validate_read_output_def result_simps Let_def map_error_Inr)
  have "readable_item support i" if i: "i \<in> set (items a)" for i
    unfolding readable_item_def
  proof (intro ballI)
    fix p assume "p \<in> set (item_paths i)"
    with i have "(fst p, snd p, ci_references i) \<in> set (protected_contents a)" using protected_iff by auto
    with f obtain y where "content_findings (cx_language cx) support (fst p, snd p, ci_references i) = Inr y"
      by (metis each_row_iff map_Inr_to)
    then obtain ms where "match_numbers (snd p) (cited support (ci_references i)) = Inr ms"
      by (auto simp: content_findings_def result_simps Let_def cited_def)
    then show "readable (snd p) \<and> (\<forall>s \<in> set (cited support (ci_references i)). readable (sl_text s))"
      using match_numbers_total by blast
  qed
  with p show thesis by (intro that) (auto simp: res v1_result_of_def Let_def)
qed

text \<open>The analysis without the warnings.\<close>

definition unwarned :: "read_analysis \<Rightarrow> read_analysis" where
  "unwarned a = a\<lparr>ra_degraded_content_warnings := []\<rparr>"

theorem v1_accepted_by_v2:
  assumes "validate_read_output env raw cx = Inr old" and "well_formed_context (rd_category env) cx" and "n \<in> {1, 2}"
  shows "\<exists>new. validate_read_output_v2 env raw cx degrade_policy n = Inr new \<and> vr_discards new = [] \<and>
    vr_support new = or_support old \<and> vr_model_warnings new = or_model_warnings old \<and>
    unwarned (vr_analysis new) = unwarned (or_analysis old)"
proof -
  from v1_accepted [OF assms(1)] obtain a support where a: "parse_candidate env raw = Inr a" "business_issues env a cx = []"
    "replay cx = Some support" "\<And>i. i \<in> set (items a) \<Longrightarrow> readable_item support i"
    "or_support old = support" "or_model_warnings old = ra_degraded_content_warnings a"
    "\<exists>ws. or_analysis old = a\<lparr>ra_degraded_content_warnings := ra_degraded_content_warnings a @ ws\<rparr>"
    by metis
  from accepted_plain [OF business_issues_nil [OF a(2)] assms(2,3) a(1,3,4)] obtain res g where
    "validate_read_output_v2 env raw cx degrade_policy n = Inr res" "v1_plain_result env cx n a support g res"
    by metis
  with a(5-7) show ?thesis by (auto simp: v1_plain_result_def unwarned_def with_warnings_def)
qed

section \<open>From the first attempt to the second\<close>

theorem first_attempt_on_second:
  assumes "validate_read_output_v2 env raw cx policy 1 = Inr res"
  shows "validate_read_output_v2 env raw cx policy 2 = Inr (res\<lparr>vr_attempt_ordinal := 2\<rparr>)"
proof -
  from assms obtain a support g where p: "policy = degrade_policy" "well_formed_context (rd_category env) cx"
    "parse_candidate env raw = Inr a" "acceptable env cx 1 a" "replay cx = Some support"
    "warnings_of env cx 1 a support = Inr g" "res = result_of env cx 1 a support g"
    unfolding accepted_iff by blast
  then have sound: "sound_item env cx i" if "i \<in> set (items a)" for i
    using that items_all_iff [of a env cx 1] by (auto simp: acceptable_def droppable_def)
  have d: "dropped_items env cx n (items a) = []" for n using sound by (rule all_sound_nothing_dropped)
  have "warnings_of env cx 2 a support = Inr g" "acceptable env cx 2 a"
    using p(4,6) by (auto simp: warnings_of_def accept_items_facts d acceptable_def)
  moreover have "res\<lparr>vr_attempt_ordinal := 2\<rparr> = result_of env cx 2 a support g"
    by (simp add: p(7) result_of_def Let_def d)
  ultimately show ?thesis unfolding accepted_iff using p by blast
qed

end
