(* ===== verification/Read_Sample.thy ===== *)
theory Read_Sample
  imports Read_Legacy_Laws
begin

text \<open>When the acceptance crashes, and a concrete candidate with its context: one source, one piece of evidence, an
  analysis that cites it, and the variants that discard a finding and that overflow.\<close>

section \<open>Crashes\<close>

text \<open>All sound items have texts and cited sources whose numbers can be read.\<close>

definition comparable :: "read_env \<Rightarrow> read_context \<Rightarrow> read_analysis \<Rightarrow> bool" where
  "comparable env cx a \<longleftrightarrow>
     (\<exists>support. replay cx = Some support \<and> (\<forall>i \<in> set (items a). sound_item env cx i \<longrightarrow> readable_item support i))"

lemma accepted_exists_iff:
  "(\<exists>res. validate_read_output_v2 env raw cx policy n = Inr res) \<longleftrightarrow>
     policy = degrade_policy \<and> n \<in> {1, 2} \<and> well_formed_context (rd_category env) cx \<and>
     (\<exists>a. parse_candidate env raw = Inr a \<and> acceptable env cx n a \<and> comparable env cx a)"
proof (cases "policy = degrade_policy \<and> n \<in> {1, 2} \<and> well_formed_context (rd_category env) cx")
  case True
  then have n: "n \<in> {1, 2}" by blast
  have "(\<exists>support generated. acceptable env cx n a \<and> replay cx = Some support \<and> warnings_of env cx n a support = Inr generated) \<longleftrightarrow>
      acceptable env cx n a \<and> comparable env cx a" for a
    using warnings_of_total [OF _ n] unfolding comparable_def by blast
  with True show ?thesis unfolding accepted_iff by blast
next
  case False
  then show ?thesis unfolding accepted_iff by blast
qed

lemma or_crash_Inl: "or_crash r = Inl e \<longleftrightarrow> (\<exists>x. r = Inl x \<and> e = Arithmetic_Crash x)"
  by (cases r) (auto simp: or_crash_def)

lemma map_error_Inl: "map_sum f id x = Inl e \<longleftrightarrow> (\<exists>y. x = Inl y \<and> e = f y)"
  by (cases x) auto

lemma no_early_crash:
  "validate_read_context_v2 env cx \<noteq> Inl (Arithmetic_Crash e)" "parse_v2 env raw \<noteq> Inl (Arithmetic_Crash e)"
  by (simp_all add: validate_read_context_v2_def parse_v2_def map_error_Inl)

lemma accepted_result_crash:
  assumes "ac_failures (accept_items env cx n a) = []"
  shows "accepted_result env cx policy n a (accept_items env cx n a) = Inl (Arithmetic_Crash e) \<longleftrightarrow>
    (has_subject a \<longrightarrow> has_subject (sound_parts env cx a)) \<and>
    (\<exists>support. replay cx = Some support \<and> warnings_of env cx n a support = Inl e)"
  unfolding accepted_result_def Let_def without_dropped_sound [OF assms]
  by (auto simp: result_simps or_crash_Inl warnings_of_def)

lemma crash_iff:
  "validate_read_output_v2 env raw cx policy n = Inl (Arithmetic_Crash e) \<longleftrightarrow>
     policy = degrade_policy \<and> n \<in> {1, 2} \<and> well_formed_context (rd_category env) cx \<and>
     (\<exists>a support. parse_candidate env raw = Inr a \<and> acceptable env cx n a \<and> replay cx = Some support \<and>
        warnings_of env cx n a support = Inl e)"
proof -
  have "validate_read_output_v2 env raw cx policy n = Inl (Arithmetic_Crash e) \<longleftrightarrow>
      policy = degrade_policy \<and> n \<in> {1, 2} \<and> well_formed_context (rd_category env) cx \<and>
      (\<exists>a. parse_candidate env raw = Inr a \<and> well_written env cx a \<and> ac_failures (accept_items env cx n a) = [] \<and>
         accepted_result env cx policy n a (accept_items env cx n a) = Inl (Arithmetic_Crash e))"
    unfolding validate_read_output_v2_def Let_def
    by (auto simp: result_simps validate_context_iff parse_v2_iff whole_candidate_nil_iff no_early_crash)
  also have "\<dots> \<longleftrightarrow> policy = degrade_policy \<and> n \<in> {1, 2} \<and> well_formed_context (rd_category env) cx \<and>
     (\<exists>a support. parse_candidate env raw = Inr a \<and> acceptable env cx n a \<and> replay cx = Some support \<and>
        warnings_of env cx n a support = Inl e)"
  proof -
    have "well_written env cx a \<and> ac_failures (accept_items env cx n a) = [] \<and>
        accepted_result env cx policy n a (accept_items env cx n a) = Inl (Arithmetic_Crash e) \<longleftrightarrow>
        acceptable env cx n a \<and> (\<exists>support. replay cx = Some support \<and> warnings_of env cx n a support = Inl e)"
      if "n \<in> {1, 2}" for a
      using accepted_result_crash [of env cx n a policy e] that
      by (auto simp: acceptable_def accept_items_facts(1) items_all_iff)
    then show ?thesis by blast
  qed
  finally show ?thesis .
qed

lemma crash_exists_iff:
  "validate_read_output_v2 env raw cx policy n = Inl (Arithmetic_Crash Decimal_Overflow) \<longleftrightarrow>
     policy = degrade_policy \<and> n \<in> {1, 2} \<and> well_formed_context (rd_category env) cx \<and>
     (\<exists>a. parse_candidate env raw = Inr a \<and> acceptable env cx n a \<and> \<not> comparable env cx a)"
proof (cases "policy = degrade_policy \<and> n \<in> {1, 2} \<and> well_formed_context (rd_category env) cx")
  case True
  then have n: "n \<in> {1, 2}" by blast
  from True obtain support where s: "replay cx = Some support" using replay_total by blast
  have only: "x = Inl Decimal_Overflow \<longleftrightarrow> (\<nexists>y. x = Inr y)" for x :: "(decimal_error, v2_warning list) outcome"
    by (cases x) (auto intro: decimal_error.exhaust)
  have "(warnings_of env cx n a support = Inl Decimal_Overflow) \<longleftrightarrow> \<not> comparable env cx a" if "acceptable env cx n a" for a
    unfolding only warnings_of_total [OF that n] comparable_def s by auto
  with True s show ?thesis unfolding crash_iff by auto
next
  case False
  then show ?thesis unfolding crash_iff by blast
qed

lemma readable_iff: "readable t \<longleftrightarrow> \<not> overflows t"
  by (simp add: readable_def extract_numeric_literals_def overflows_def pair_atoms_total case_prod_unfold Let_def)

lemma not_comparable_iff:
  assumes "well_formed_context (rd_category env) cx"
  shows "\<not> comparable env cx a \<longleftrightarrow>
    (\<exists>support. replay cx = Some support \<and>
       (\<exists>i \<in> set (items a). sound_item env cx i \<and>
          (\<exists>p \<in> set (item_paths i).
             overflows (snd p) \<or> (\<exists>s \<in> set (cited support (ci_references i)). overflows (sl_text s)))))"
proof -
  obtain support where "replay cx = Some support" using replay_total [OF assms] by blast
  then show ?thesis by (auto simp: comparable_def readable_item_def readable_iff)
qed

section \<open>A sample\<close>

text \<open>What evaluates the scanner on a concrete text.\<close>

named_theorems scan_simps

lemmas [scan_simps] =
  runs.simps finditer.simps repeated.simps first_run_def step_over_def captured_def Let_def in_order_def one_of_def
  maybe_def some_of_def literal_def at_start_def search_to_end.simps fullmatch_def match_length_def any_case_def
  letter_variants_def ascii_def

lemmas [scan_simps] =
  a_digit_def digits_def blanks_def raised_def sign_def point_def no_word_before_def exponent_form_def
  no_digit_after_def whole_and_fraction_def times_ten_def scientific_def power_def caret_tail_def raised_tail_def
  unsupported_form_def atom_form_def raised_digits_def raised_signs_def latin_def is_digit_def white_space_def
  reference_prefix_def range_form_def unit_gap_def valid_number_def power_of_ten_def

lemmas [scan_simps] =
  extract_numeric_literals_def normal_form_def rewrite_all_def rewrite.simps translate_def fullwidth_def slice_def
  atoms_def atom_step_def rstrip_marks_def unit_at_def unit_aliases_def adjacent_range_end_def decimal_text_def
  decimal_of_def signed_text_def exact_decimal_def adjusted_def digit_count_def dec.simps dec_value_def
  pair_atoms.simps joined_minus_def range_end_def literal_of_def strip_def decimal_abs_def emax_def etiny_def
  precision_def upt_conv_Cons

definition five_km :: numeric_literal where
  "five_km = \<lparr>nl_text = ascii ''5 km'', nl_values = [Some \<lparr>dc_coefficient = 5, dc_exponent = 0\<rparr>],
     nl_uncertainty = [False], nl_units = [Some (ascii ''km'')]\<rparr>"

lemma sample_numbers:
  "extract_numeric_literals (ascii ''ok'') = Inr []"
  "extract_numeric_literals (ascii ''5 km'') = Inr [five_km]"
  "extract_numeric_literals (ascii ''wind 5 km'') = Inr [five_km]"
  "extract_numeric_literals (ascii ''2 -1e1000000'') = Inl Decimal_Overflow"
  by (simp_all add: scan_simps five_km_def)

lemma sample_readable:
  "readable (ascii ''ok'')" "readable (ascii ''5 km'')" "readable (ascii ''wind 5 km'')"
  "\<not> readable (ascii ''2 -1e1000000'')"
  by (simp_all add: readable_def sample_numbers)

definition sample_identity :: extraction_identity where
  "sample_identity = \<lparr>ei_fingerprint = ascii ''f'', ei_reading_sha256 = ascii ''r'', ei_map_sha256 = ascii ''m''\<rparr>"

definition sample_provenance :: provenance where
  "sample_provenance = \<lparr>pv_source_id = ascii ''s'', pv_page_no = 1,
     pv_bbox = [Whole 0, Whole 0, Whole 10, Whole 5], pv_start = 0, pv_end = 9\<rparr>"

definition sample_context :: read_context where
  "sample_context =
     \<lparr>cx_identity = Some sample_identity,
      cx_pages = [\<lparr>pg_identity = sample_identity, pg_page_no = 1, pg_width = Whole 100, pg_height = Whole 100,
        pg_origin = ''top_left''\<rparr>],
      cx_source_blocks = [\<lparr>sb_identity = sample_identity, sb_source_id = ascii ''s'', sb_orig = ascii ''wind 5 km'',
        sb_kind = ''text'', sb_unreliable = False\<rparr>],
      cx_evidence = [\<lparr>en_identity = sample_identity, en_evidence_id = ascii ''e'', en_provenance = [sample_provenance]\<rparr>],
      cx_language = Some ''en'', cx_mode = ''single'', cx_allowed = None\<rparr>"

definition sample_slice :: source_slice where
  "sample_slice =
     \<lparr>sl_identity = sample_identity, sl_evidence_id = ascii ''e'', sl_provenance = sample_provenance,
      sl_text = ascii ''wind 5 km'', sl_kind = ''text'', sl_unreliable = False\<rparr>"

text \<open>An analysis with one main finding, which cites the evidence, followed by others.\<close>

definition cited_statement :: "string \<Rightarrow> string \<Rightarrow> supported_statement" where
  "cited_statement v e = \<lparr>ss_statement = ascii v, ss_evidence = [ascii e]\<rparr>"

definition sample_analysis :: "supported_statement list \<Rightarrow> read_analysis" where
  "sample_analysis others =
     \<lparr>ra_output_language = ''en'', ra_one_sentence_conclusion = ascii ''ok'', ra_research_question = ascii ''ok'',
      ra_methods_summary = ascii ''ok'', ra_data_summary = ascii ''ok'',
      ra_main_findings = cited_statement ''5 km'' ''e'' # others,
      ra_research_value = 3, ra_research_value_reason = cited_statement ''ok'' ''e'',
      ra_reuse_feasibility = 2, ra_reuse_feasibility_reason = cited_statement ''ok'' ''e'',
      ra_required_adaptations = [], ra_reusable_points = [], ra_key_limitations = [], ra_open_questions = [],
      ra_value_types = [Value_Data], ra_why_it_matters = ascii ''ok'', ra_next_action = ascii ''ok'',
      ra_degraded_content_warnings = []\<rparr>"

definition sample_env :: "supported_statement list \<Rightarrow> read_env" where
  "sample_env others =
     \<lparr>rd_float = id, rd_fold = (\<lambda>c. [c]), rd_category = (\<lambda>c. ''Ll''), rd_model = (\<lambda>j. Inr (sample_analysis others)),
      rd_dump = (\<lambda>a. [])\<rparr>"

definition sample_raw :: "nat list" where "sample_raw = [123, 125]"

lemma sample_well_formed: "well_formed_context (rd_category (sample_env others)) sample_context"
  by (simp add: well_formed_context_def sample_context_def sample_env_def sample_identity_def valid_identity_def valid_id_def
      strip_def white_space_def ascii_def encodable_def high_surrogate_def low_surrogate_def well_formed_page_def
      positive_number_def well_formed_source_def well_formed_evidence_def grounded_def sample_provenance_def box_inside_def
      span_text_def)

lemma sample_replay: "replay sample_context = Some [sample_slice]"
  by (simp add: replay_def sample_context_def slice_of_def block_of_def sample_provenance_def sample_slice_def span_text_def
      ascii_def)

lemma sample_scan:
  "hk_unique h \<Longrightarrow> scan_value h 5 [123, 125] = Some (JObj [], [])"
proof -
  have "scan_value h (Suc 4) [123, 125] = Some (JObj [], [])" if "hk_unique h"
    using that by (subst scan_value.simps) (simp add: skip_ws_def is_space_def expect_def make_object_def)
  then show "hk_unique h \<Longrightarrow> scan_value h 5 [123, 125] = Some (JObj [], [])" by simp
qed

lemma sample_parsed: "parse_candidate (sample_env others) sample_raw = Inr (sample_analysis others)"
  by (simp add: parse_candidate_def candidate_json_def sample_raw_def sample_env_def loads_def skip_ws_def is_space_def
      model_hooks_def sample_scan)

lemma sample_references:
  "sound_references (sample_env others) sample_context [ascii ''e'']"
  "\<not> sound_references (sample_env others) sample_context [ascii ''x'']"
  by (simp_all add: sound_references_def good_reference_def valid_id_def strip_def white_space_def ascii_def encodable_def
      high_surrogate_def low_surrogate_def known_evidence_def allowed_ids_def sample_context_def sample_env_def)

lemma sample_meaningful:
  "read_meaningful (sample_env others) (ascii ''ok'')" "read_meaningful (sample_env others) (ascii ''5 km'')"
  "read_meaningful (sample_env others) (ascii ''2 -1e1000000'')"
  by (simp_all add: read_meaningful_def is_meaningful_text_def strip_def white_space_def ascii_def casefold_def
      explicit_placeholder_texts_def sample_env_def)

text \<open>The sample is accepted on both attempts; with a finding that cites unknown evidence only on the second; with a
  range whose end overflows on none.\<close>

lemma cited_statement_simps [simp]:
  "ss_statement (cited_statement v e) = ascii v" "ss_evidence (cited_statement v e) = [ascii e]"
  by (simp_all add: cited_statement_def)

lemma concat_mapi: "concat (mapi (\<lambda>i x. [f i x]) xs) = mapi f xs"
  by (simp add: mapi_def case_prod_unfold concat_map_singleton)

lemma sample_texts:
  "set (map snd (candidate_texts (sample_analysis others))) = {ascii ''ok'', ascii ''5 km''} \<union> set (map ss_statement others)"
proof -
  have "map snd (concat (map item_paths (mapi (statement_item Main_Findings) xs))) = map ss_statement xs" for xs
    by (simp add: map_mapi item_paths_simps concat_mapi mapi_ignore)
  from this [of "cited_statement ''5 km'' ''e'' # others"] show ?thesis
    by (auto simp: candidate_texts_def items_def sample_analysis_def item_paths_simps)
qed

lemma sample_well_written:
  assumes "\<And>s. s \<in> set others \<Longrightarrow> read_meaningful (sample_env others) (ss_statement s)"
  shows "well_written (sample_env others) sample_context (sample_analysis others)"
proof -
  have m: "read_meaningful (sample_env others) v" if "v \<in> set (map snd (candidate_texts (sample_analysis others)))" for v
    using that assms unfolding sample_texts by (auto simp: sample_meaningful)
  have "read_meaningful (sample_env others) v" if "(l, v) \<in> set (candidate_texts (sample_analysis others))" for l v
    by (rule m) (use that in force)
  moreover have "Some (ra_output_language (sample_analysis others)) = cx_language sample_context"
    "ra_value_types (sample_analysis others) = [Value_Data]"
    by (simp_all add: sample_analysis_def sample_context_def)
  ultimately show ?thesis by (auto simp: well_written_def)
qed

lemma sample_acceptable:
  assumes "\<And>s. s \<in> set others \<Longrightarrow> read_meaningful (sample_env others) (ss_statement s)"
    and "n = 1 \<longrightarrow> (\<forall>s \<in> set others. ss_evidence s = [ascii ''e''])"
  shows "acceptable (sample_env others) sample_context n (sample_analysis others)"
  using sample_well_written [OF assms(1)] assms(2)
  by (auto simp: acceptable_def sound_parts_same sound_statement_def sample_references has_subject_def sound_parts_def)
    (auto simp: sample_analysis_def sample_references sound_statement_def)

section \<open>The sample evaluated\<close>

lemma sample_comparable:
  assumes "\<And>s. s \<in> set others \<Longrightarrow> readable (ss_statement s)"
  shows "comparable (sample_env others) sample_context (sample_analysis others)"
proof -
  have "readable_item [sample_slice] i" if i: "i \<in> set (items (sample_analysis others))" for i
    unfolding readable_item_def
  proof (intro ballI conjI)
    fix p assume "p \<in> set (item_paths i)"
    with i have "snd p \<in> set (map snd (candidate_texts (sample_analysis others)))" by (auto simp: candidate_texts_def)
    then show "readable (snd p)" using assms unfolding sample_texts by (auto simp: sample_readable)
  next
    fix s assume "s \<in> set (cited [sample_slice] (ci_references i))"
    then have "s = sample_slice" by (auto simp: cited_def split: if_splits)
    then show "readable (sl_text s)" by (simp add: sample_slice_def sample_readable)
  qed
  then show ?thesis by (simp add: comparable_def sample_replay)
qed

definition unknown_finding :: supported_statement where
  "unknown_finding = cited_statement ''ok'' ''x''"

definition minus_range :: supported_statement where
  "minus_range = cited_statement ''2 -1e1000000'' ''e''"

lemma sample_accepted:
  "\<exists>res. validate_read_output_v2 (sample_env []) sample_raw sample_context degrade_policy 1 = Inr res"
  "\<exists>res. validate_read_output_v2 (sample_env [unknown_finding]) sample_raw sample_context degrade_policy 2 = Inr res"
  unfolding accepted_exists_iff
  using sample_acceptable [of "[]" 1] sample_comparable [of "[]"]
    sample_acceptable [of "[unknown_finding]" 2] sample_comparable [of "[unknown_finding]"]
  by (auto simp: sample_well_formed sample_parsed unknown_finding_def sample_meaningful sample_readable)

text \<open>A finding \<open>2 -1e1000000\<close> is read as a range from 2, whose end has no absolute value in the default context of
  \<open>decimal\<close>: the exception leaves the acceptance, which should have warned or rejected.\<close>

lemma minus_range_not_comparable:
  "\<not> comparable (sample_env [minus_range]) sample_context (sample_analysis [minus_range])"
proof -
  let ?i = "statement_item Main_Findings 1 minus_range"
  have i: "?i \<in> set (items (sample_analysis [minus_range]))" by (auto simp: item_members sample_analysis_def)
  moreover have "sound_item (sample_env [minus_range]) sample_context ?i"
    by (simp add: minus_range_def sample_references)
  moreover have "\<not> readable_item [sample_slice] ?i"
    by (simp add: readable_item_def item_paths_simps minus_range_def sample_readable)
  ultimately show ?thesis unfolding comparable_def sample_replay by blast
qed

theorem minus_range_crashes:
  "validate_read_output_v2 (sample_env [minus_range]) sample_raw sample_context degrade_policy 1 =
     Inl (Arithmetic_Crash Decimal_Overflow)"
  unfolding crash_exists_iff
  using sample_acceptable [of "[minus_range]" 1] minus_range_not_comparable
  by (auto simp: sample_well_formed sample_parsed minus_range_def sample_meaningful)

lemma strip_five [simp]: "strip_zeros 5 0 = \<lparr>dc_coefficient = 5, dc_exponent = 0\<rparr>"
  by (simp add: strip_zeros.simps)

lemma sample_slice_simps [simp]:
  "sl_evidence_id sample_slice = ascii ''e''" "sl_text sample_slice = ascii ''wind 5 km''" "sl_kind sample_slice = ''text''"
  "\<not> sl_unreliable sample_slice"
  by (simp_all add: sample_slice_def)

definition five_match :: numeric_match where
  "five_match = \<lparr>nm_literal = five_km, nm_ordinal = 0, nm_reliable = True, nm_restricted = False, nm_reason = None\<rparr>"

lemma sample_matches:
  assumes "sl_text s = ascii ''wind 5 km''" "sl_kind s = ''text''" "\<not> sl_unreliable s"
  shows "match_numbers (ascii ''ok'') [s] = Inr []" "match_numbers (ascii ''5 km'') [s] = Inr [five_match]"
  using assms
  by (simp_all add: match_numbers_def sample_numbers mapi_def match_literal_def supports_def recognized_def five_km_def
      endpoint_supported_def source_numbers_def decimal_equal_def literal_unit_def five_match_def)

lemma sample_items:
  "items (sample_analysis []) =
     [statement_item Main_Findings 0 (cited_statement ''5 km'' ''e''),
      reason_item ''research_value_reason'' (cited_statement ''ok'' ''e''),
      reason_item ''reuse_feasibility_reason'' (cited_statement ''ok'' ''e'')]"
  by (simp add: items_def sample_analysis_def mapi_def)

lemma sample_cited: "cited_slices (sample_env []) [sample_slice] [ascii ''e''] = [sample_slice]"
  by (simp add: cited_slices_def is_unreliable_def sample_env_def sample_slice_def) (simp add: ascii_def)

lemma sample_path:
  "v \<in> {ascii ''ok'', ascii ''5 km''} \<Longrightarrow> path_diagnostics [sample_slice] (l, v) = Inr []"
  by (auto simp: path_diagnostics_def sample_matches match_reason_def five_match_def)

lemma sample_warnings: "warnings_of (sample_env []) sample_context n (sample_analysis []) [sample_slice] = Inr []"
proof -
  have d: "item_diagnostics (sample_env []) [sample_slice] i = Inr []" if "i \<in> set (items (sample_analysis []))" for i
    using that by (auto simp: sample_items item_diagnostics_def item_paths_simps sample_cited sample_path)
  have "dropped_items (sample_env []) sample_context n (items (sample_analysis [])) = []"
    by (simp add: dropped_items_def sample_items sample_references)
  moreover have "each_row f xs = Inr (map (\<lambda>x. []) xs)" if "\<And>x. x \<in> set xs \<Longrightarrow> f x = Inr []"
    for f :: "cited_item \<Rightarrow> (decimal_error, v2_diagnostic list) outcome" and xs
    using that by (induction xs) auto
  from this [of "items (sample_analysis [])" "item_diagnostics (sample_env []) [sample_slice]"] d
  have "each_row (item_diagnostics (sample_env []) [sample_slice]) (items (sample_analysis [])) =
      Inr (map (\<lambda>x. []) (items (sample_analysis [])))" by blast
  moreover have "\<not> was_dropped [] i" for i by (simp add: was_dropped_def split: option.split)
  ultimately show ?thesis
    by (simp add: warnings_of_def warnings_def accept_items_facts) (simp add: sample_items)
qed

section \<open>The sample under version 1\<close>

lemma contents_loop_sound:
  "(\<And>l v rs. (l, v, rs) \<in> set cs \<Longrightarrow> read_meaningful env v \<and> sound_references env cx rs) \<Longrightarrow>
     contents_loop env cx checked cs = []"
proof (induction cs arbitrary: checked)
  case (Cons c cs)
  obtain l v rs where c: "c = (l, v, rs)" by (cases c)
  with Cons.prems have "read_meaningful env v" "reference_issues env cx (before_last_dot l @ ascii ''.evidence'') rs = []"
    by (auto simp: reference_issues_nil)
  moreover have "contents_loop env cx checked' cs = []" for checked'
    using Cons.prems by (intro Cons.IH) auto
  ultimately show ?case by (simp add: c Let_def)
qed simp

lemma sample_contents:
  "protected_contents (sample_analysis []) =
     [(place_at ''$.main_findings'' 0 ''.statement'', ascii ''5 km'', [ascii ''e'']),
      (ascii ''$.research_value_reason.statement'', ascii ''ok'', [ascii ''e'']),
      (ascii ''$.reuse_feasibility_reason.statement'', ascii ''ok'', [ascii ''e''])]"
  by (simp add: protected_contents_def sample_analysis_def mapi_def statement_contents_def reason_contents_def)

lemma sample_business: "business_issues (sample_env []) (sample_analysis []) sample_context = []"
proof -
  have "contents_loop (sample_env []) sample_context {} (protected_contents (sample_analysis [])) = []"
    by (rule contents_loop_sound) (auto simp: sample_contents sample_meaningful sample_references)
  then show ?thesis
    using sample_well_written [of "[]"]
    by (auto simp: business_issues_def well_written_def candidate_texts_def repeated_nil_iff filter_empty_conv)
qed

lemma sample_findings:
  "v \<in> {ascii ''ok'', ascii ''5 km''} \<Longrightarrow> content_findings language [sample_slice] (l, v, [ascii ''e'']) = Inr ([], [])"
  by (auto simp: content_findings_def Let_def sample_matches number_finding_def five_match_def)

lemma sample_accepted_v1: "\<exists>old. validate_read_output (sample_env []) sample_raw sample_context = Inr old"
  by (simp add: validate_read_output_def sample_parsed sample_business sample_replay sample_contents sample_findings)

end
