(* ===== verification/Read_Properties.thy ===== *)
theory Read_Properties
  imports Read_Sample
begin

text \<open>The properties of the acceptance of a reading: what is accepted, what an accepted result rests on, how the
  two attempts and the two versions compare, and where the numeric rules fail.\<close>

section \<open>What is accepted\<close>

text \<open>C23: The construction of a reading context accepts exactly the well-formed ones: one valid identity throughout,
  unique pages, sources and evidence, every provenance inside a known page and on a span of a known source that is
  not blank, and an allowance of known evidence exactly in the mode that reduces.\<close>

theorem context_built_iff:
  "make_read_context cat cx = Inr built \<longleftrightarrow> built = cx \<and> well_formed_context cat cx"
  by (rule make_read_context_iff)

text \<open>C18: A candidate is accepted exactly when the policy and the ordinal are the ones the task layer may pass, the
  context is well formed, and the candidate parses to an analysis that is well written, whose reasons cite soundly,
  whose items all do on the first attempt, which keeps some subject content if it had any, and whose sound items
  have numbers that can be read.\<close>

theorem acceptance_decision:
  "(\<exists>res. validate_read_output_v2 env raw cx policy n = Inr res) \<longleftrightarrow>
     policy = degrade_policy \<and> n \<in> {1, 2} \<and> well_formed_context (rd_category env) cx \<and>
     (\<exists>a. parse_candidate env raw = Inr a \<and> acceptable env cx n a \<and> comparable env cx a)"
  by (rule accepted_exists_iff)

text \<open>C24: The acceptance fails with an arithmetic exception, which it neither catches nor declares, exactly for
  candidates it would accept but for one number: a text of a sound item, or of a slice the item cites, has a range
  written with a minus whose end is, in absolute value, at least half a unit of the last place above the largest
  number of the default decimal context, \<open>(10^28 - 1/2) * 10^999972\<close>.\<close>

theorem overflow_escapes:
  "validate_read_output_v2 env raw cx policy n = Inl (Arithmetic_Crash Decimal_Overflow) \<longleftrightarrow>
     policy = degrade_policy \<and> n \<in> {1, 2} \<and> well_formed_context (rd_category env) cx \<and>
     (\<exists>a support. parse_candidate env raw = Inr a \<and> acceptable env cx n a \<and> replay cx = Some support \<and>
        (\<exists>i \<in> set (items a). sound_item env cx i \<and>
           (\<exists>p \<in> set (item_paths i).
              overflows (snd p) \<or> (\<exists>s \<in> set (cited support (ci_references i)). overflows (sl_text s)))))"
  unfolding crash_exists_iff using not_comparable_iff [of env cx] by blast

section \<open>What an accepted result rests on\<close>

lemma items_with_warnings [simp]: "items (with_warnings a g) = items a"
  by (simp add: items_def with_warnings_def)

lemma items_unwarned_sound:
  assumes "acceptable env cx n a"
  shows "i \<in> set (items (sound_parts env cx a)) \<Longrightarrow> sound_item env cx i"
  using assms unfolding item_members
  by (elim disjE exE conjE) (auto simp: acceptable_def sound_parts_def sound_statement_def sound_point_def dest!: nth_mem)

text \<open>C19: An accepted analysis is the candidate without its unsound items: what it still cites is known, allowed and
  valid evidence, and the discards are exactly the unsound items, of which the first attempt has none.\<close>

theorem accepted_is_grounded:
  assumes "validate_read_output_v2 env raw cx policy n = Inr res"
  shows "\<exists>a. parse_candidate env raw = Inr a \<and> unwarned (vr_analysis res) = unwarned (sound_parts env cx a) \<and>
    (\<forall>i \<in> set (items (vr_analysis res)). sound_item env cx i) \<and>
    map vd_location (vr_discards res) = map ci_location (filter (\<lambda>i. \<not> sound_item env cx i) (items a)) \<and>
    (n = 1 \<longrightarrow> vr_discards res = [])"
proof -
  from assms obtain a support g where p: "n \<in> {1, 2}" "parse_candidate env raw = Inr a" "acceptable env cx n a"
    "res = result_of env cx n a support g"
    unfolding accepted_iff by blast
  have "\<forall>i \<in> set (items a). sound_item env cx i \<or> droppable n i"
    using p(1,3) by (auto simp: acceptable_def items_all_iff)
  then have d: "dropped_items env cx n (items a) = filter (\<lambda>i. \<not> sound_item env cx i) (items a)"
    unfolding dropped_items_def by (intro filter_cong) auto
  have "n = 1 \<Longrightarrow> dropped_items env cx n (items a) = []" by (simp add: dropped_items_def droppable_def)
  moreover have v: "vr_analysis res = with_warnings (sound_parts env cx a) g"
    and r: "vr_discards res = map (discard_of env cx) (dropped_items env cx n (items a))"
    by (simp_all add: p(4) result_of_def Let_def)
  moreover have "unwarned (vr_analysis res) = unwarned (sound_parts env cx a)"
    by (simp add: v unwarned_def with_warnings_def)
  moreover have "map vd_location (vr_discards res) = map ci_location (filter (\<lambda>i. \<not> sound_item env cx i) (items a))"
    by (simp add: r d discard_of_def comp_def)
  moreover have "\<forall>i \<in> set (items (vr_analysis res)). sound_item env cx i"
    using items_unwarned_sound [OF p(3)] by (simp add: v)
  ultimately show ?thesis using p(2) by auto
qed

theorem accepted_is_grounded_witness:
  "\<exists>res. validate_read_output_v2 (sample_env [unknown_finding]) sample_raw sample_context degrade_policy 2 = Inr res \<and>
     vr_discards res \<noteq> [] \<and> (\<forall>i \<in> set (items (vr_analysis res)). sound_item (sample_env [unknown_finding]) sample_context i)"
proof -
  obtain res where r: "validate_read_output_v2 (sample_env [unknown_finding]) sample_raw sample_context degrade_policy 2 = Inr res"
    using sample_accepted(2) by blast
  let ?i = "statement_item Main_Findings 1 unknown_finding"
  have "?i \<in> set (items (sample_analysis [unknown_finding]))" by (auto simp: item_members sample_analysis_def)
  moreover have "\<not> sound_item (sample_env [unknown_finding]) sample_context ?i"
    by (simp add: unknown_finding_def sample_references)
  ultimately have "?i \<in> set (filter (\<lambda>i. \<not> sound_item (sample_env [unknown_finding]) sample_context i)
      (items (sample_analysis [unknown_finding])))" by simp
  then have "filter (\<lambda>i. \<not> sound_item (sample_env [unknown_finding]) sample_context i)
      (items (sample_analysis [unknown_finding])) \<noteq> []" by force
  with accepted_is_grounded [OF r] r show ?thesis by (auto simp: sample_parsed)
qed

text \<open>C25: The support of an accepted result is the replay of the context: one slice per provenance of the evidence, in
  order, each the span of its source block that the provenance names, and never blank.\<close>

theorem support_is_replayed:
  assumes "validate_read_output_v2 env raw cx policy n = Inr res"
  shows "map (\<lambda>s. (sl_evidence_id s, sl_provenance s)) (vr_support res) =
      map (\<lambda>(e, p). (en_evidence_id e, p)) (cited_spans cx) \<and>
    (\<forall>s \<in> set (vr_support res). \<not> list_all white_space (sl_text s) \<and>
       (\<exists>b \<in> set (cx_source_blocks cx). sb_source_id b = pv_source_id (sl_provenance s) \<and>
          sl_text s = span_text (sb_orig b) (pv_start (sl_provenance s)) (pv_end (sl_provenance s))))"
proof -
  from assms obtain a support g where wf: "well_formed_context (rd_category env) cx" and r: "replay cx = Some support"
    and res: "res = result_of env cx n a support g"
    unfolding accepted_iff by blast
  have s: "vr_support res = support" by (simp add: res result_of_def Let_def)
  from r have slices: "map (\<lambda>(e, p). slice_of cx e p) (cited_spans cx) = map Some support"
    unfolding replay_alt all_some_iff .
  have "\<not> list_all white_space (sl_text s) \<and>
      (\<exists>b \<in> set (cx_source_blocks cx). sb_source_id b = pv_source_id (sl_provenance s) \<and>
         sl_text s = span_text (sb_orig b) (pv_start (sl_provenance s)) (pv_end (sl_provenance s)))"
    if "s \<in> set support" for s
  proof -
    have "Some s \<in> set (map (\<lambda>(e, p). slice_of cx e p) (cited_spans cx))" unfolding slices using that by simp
    then obtain e p where "e \<in> set (cx_evidence cx)" "p \<in> set (en_provenance e)" "slice_of cx e p = Some s" by force
    with slice_of_grounded [OF wf this(1,2)] show ?thesis by auto
  qed
  with replay_spans [OF r] show ?thesis unfolding s by blast
qed

theorem support_is_replayed_witness:
  "\<exists>res. validate_read_output_v2 (sample_env []) sample_raw sample_context degrade_policy 1 = Inr res \<and>
     map (\<lambda>s. (sl_evidence_id s, sl_provenance s)) (vr_support res) = [(ascii ''e'', sample_provenance)]"
proof -
  obtain res where r: "validate_read_output_v2 (sample_env []) sample_raw sample_context degrade_policy 1 = Inr res"
    using sample_accepted(1) by blast
  from support_is_replayed [OF r] r show ?thesis by (auto simp: cited_spans_def sample_context_def)
qed

section \<open>Attempts and versions\<close>

text \<open>C21: The second attempt is no stricter than the first: what the first accepts, the second accepts with the same
  result but for its ordinal.\<close>

theorem second_attempt_no_stricter:
  assumes "validate_read_output_v2 env raw cx policy 1 = Inr res"
  shows "validate_read_output_v2 env raw cx policy 2 = Inr (res\<lparr>vr_attempt_ordinal := 2\<rparr>)"
  using assms by (rule first_attempt_on_second)

theorem second_attempt_no_stricter_witness:
  "\<exists>res. validate_read_output_v2 (sample_env []) sample_raw sample_context degrade_policy 2 = Inr res"
proof -
  obtain res where "validate_read_output_v2 (sample_env []) sample_raw sample_context degrade_policy 1 = Inr res"
    using sample_accepted(1) by blast
  from second_attempt_no_stricter [OF this] show ?thesis by blast
qed

text \<open>C22: Version 2 accepts every candidate version 1 accepts in a well-formed context, on either attempt, with the
  same support, the same analysis up to warnings, and nothing discarded.\<close>

theorem v2_accepts_v1:
  assumes "validate_read_output env raw cx = Inr old" and "well_formed_context (rd_category env) cx" and "n \<in> {1, 2}"
  shows "\<exists>new. validate_read_output_v2 env raw cx degrade_policy n = Inr new \<and> vr_discards new = [] \<and>
    vr_support new = or_support old \<and> vr_model_warnings new = or_model_warnings old \<and>
    unwarned (vr_analysis new) = unwarned (or_analysis old)"
  using assms by (rule v1_accepted_by_v2)

theorem v2_accepts_v1_witness:
  "\<exists>new. validate_read_output_v2 (sample_env []) sample_raw sample_context degrade_policy 1 = Inr new \<and> vr_discards new = []"
proof -
  obtain old where "validate_read_output (sample_env []) sample_raw sample_context = Inr old" using sample_accepted_v1 by blast
  from v2_accepts_v1 [OF this sample_well_formed, of 1] show ?thesis by auto
qed

section \<open>Numbers\<close>

text \<open>C20: No number of an accepted analysis goes unwarned unless it is stated: for a literal of a sound item without a
  numeric diagnostic at its path and ordinal there is a reliable cited slice with numbers of the same exact value
  and certainty for each of its endpoints.\<close>

theorem no_silent_numbers:
  assumes "validate_read_output_v2 env raw cx policy n = Inr res" and "parse_candidate env raw = Inr a"
    and "i \<in> set (items a)" "sound_item env cx i" "(l, v) \<in> set (item_paths i)"
    and "extract_numeric_literals v = Inr ls" "k < length ls"
    and "\<forall>r. \<lparr>dg_location = l, dg_reason = Numeric r, dg_ordinal = k\<rparr> \<notin> set (vr_diagnostics res)"
  shows "\<exists>s \<in> set (vr_support res). sl_evidence_id s \<in> set (ci_references i) \<and> reliable env s \<and>
    (\<exists>xs. extract_numeric_literals (sl_text s) = Inr xs \<and> stated_by (ls ! k) xs)"
proof -
  from assms(1,2) obtain support g where g: "warnings_of env cx n a support = Inr g" "res = result_of env cx n a support g"
    unfolding accepted_iff by auto
  then have "vr_support res = support" "vr_diagnostics res = map (the \<circ> wn_diagnostic) g"
    by (simp_all add: result_of_def Let_def)
  with silent_number_stated [OF g(1) assms(3-7)] assms(8) show ?thesis by simp
qed

theorem no_silent_numbers_witness:
  "\<exists>s \<in> set [sample_slice]. \<exists>xs. extract_numeric_literals (sl_text s) = Inr xs \<and> stated_by five_km xs"
proof -
  let ?a = "sample_analysis []" and ?i = "statement_item Main_Findings 0 (cited_statement ''5 km'' ''e'')"
  let ?res = "result_of (sample_env []) sample_context 1 ?a [sample_slice] []"
  have r: "validate_read_output_v2 (sample_env []) sample_raw sample_context degrade_policy 1 = Inr ?res"
    unfolding accepted_iff using sample_acceptable [of "[]" 1]
    by (auto simp: sample_well_formed sample_parsed sample_replay sample_warnings)
  have "?i \<in> set (items ?a)" "sound_item (sample_env []) sample_context ?i"
    "(place_at ''$.main_findings'' 0 ''.statement'', ascii ''5 km'') \<in> set (item_paths ?i)"
    by (simp_all add: sample_items sample_references item_paths_simps)
  from no_silent_numbers [OF r sample_parsed this sample_numbers(2), of 0] show ?thesis
    by (auto simp: result_of_def Let_def)
qed

text \<open>C26: Every literal that is extracted from a text is shown by a nonempty contiguous part of that text, whatever
  the normalisation replaced; no offset is out of range.\<close>

theorem literals_within_text:
  assumes "extract_numeric_literals original = Inr ls" and "l \<in> set ls"
  shows "\<exists>i j. i < j \<and> j \<le> length original \<and> nl_text l = slice i j original"
  using extracted_shown [OF assms] by (simp add: shown_in_def)

theorem literals_within_text_witness:
  "\<exists>i j. i < j \<and> j \<le> length (ascii ''wind 5 km'') \<and> ascii ''5 km'' = slice i j (ascii ''wind 5 km'')"
  using literals_within_text [OF sample_numbers(3), of five_km] by (simp add: five_km_def)

end
