(* ===== verification/Spec2Isabelle.thy ===== *)
theory Spec2Isabelle
  imports Visibility Reasons Eligibility_Concepts Task_Properties Task_Service_Properties Rpc_Properties Read_Properties
begin

text \<open>
  Paper Radar collects papers from feeds, lets a model judge them in bounded calls, checks what the
  model answers, and keeps every fact about those tasks in one SQLite database. This library models
  the parts of \<open>src/paper_radar/\<close> that decide: what a paper may be used for, what a stored screening
  result may look like, how a screening task lives through its attempts, and how one call of a model
  is conducted. Each definition is a translation of the Python function it is mapped to; exceptions are
  values (\<open>outcome\<close>, with a raise as \<open>Inl\<close>), a transaction is a function from a database to an error or
  to a database, and a loop is a recursion that is total by its structure, its measure or its fuel.

  \<^bold>\<open>Parts and theories.\<close>

  \<^item> \<^bold>\<open>Shared\<close>: \<open>Prelude\<close> (outcomes, the collections of rewrite rules), \<open>Keyed_Tables\<close> (the locale of a
    table read by key and its interpretations), and the parts of Python's library the program rests on,
    as far as it uses them: \<open>Utf8\<close> (the strict codec), \<open>Py_Regex\<close> (backtracking search of \<open>re\<close>), \<open>Py_Decimal\<close>
    (reading, equality and absolute value of \<open>Decimal\<close>, and the
    bound at which the latter overflows), \<open>Json_Text\<close> (\<open>json.loads\<close> with its hooks, the canonical
    \<open>json.dumps\<close>), \<open>Instants\<close> (aware UTC \<open>datetime\<close>, \<open>isoformat\<close> and \<open>fromisoformat\<close>).
  \<^item> \<^bold>\<open>Calibration visibility\<close>, \<open>calibration/visibility.py\<close>: \<open>Visibility\<close>.
  \<^item> \<^bold>\<open>Eligibility\<close>, \<open>eligibility/models.py\<close> and \<open>rules.py\<close>: \<open>Eligibility_Facts\<close> (the facts), \<open>Eligibility\<close> (one
    definition per concept of \<open>evaluate_paper\<close>), \<open>Eligibility_Concepts\<close> (the assembly, a declarative
    specification of the effective decision, the properties).
  \<^item> \<^bold>\<open>Screening\<close>, \<open>screening/\<close>: \<open>Reasons\<close> (\<open>reasons.py\<close>), \<open>Screening_Text\<close>, \<open>Screening_Output\<close> and
    \<open>Screening_Output_Laws\<close> (decoding and validation of a model's output).
  \<^item> \<^bold>\<open>Reading\<close>, \<open>reading/\<close>: \<open>Read_Context\<close> (\<open>errors.py\<close>, \<open>context.py\<close>, \<open>content_reliability.py\<close>: the pages, source
    blocks and evidence a reading is checked against), \<open>Read_Numbers\<close> (\<open>numbers.py\<close>: the numeric notation, by
    its own regular expressions), \<open>Read_Output\<close> (\<open>schema.py\<close>, \<open>parsing.py\<close>), \<open>Read_Acceptance\<close>
    (\<open>acceptance_v2/__init__.py\<close>: the acceptance of a candidate on its first and second attempt) and
    \<open>Read_Legacy\<close> (\<open>validation.py\<close>, \<open>result.py\<close>: version 1). State is passed through the loops as the code's
    local collections; every raise, the two the code does not foresee included, is a value.
  \<^item> \<^bold>\<open>Screening tasks\<close>, \<open>screening_tasks/\<close>: \<open>Task_Models\<close> (records of the tables and views), \<open>Task_Store\<close>
    (\<open>tables.py\<close>: insertions under their constraints), \<open>Task_Rules\<close> (\<open>rules.py\<close>, \<open>attempt_rules.py\<close> and the reads
    of the repositories), \<open>Task_Execution\<close> (\<open>execution.py\<close>: claim, renew, fail, reclaim), \<open>Task_Success\<close>
    (\<open>success.py\<close>, \<open>success_rules.py\<close>, \<open>frozen.py\<close>: submission in two phases), \<open>Task_Registration\<close>
    (\<open>service.py\<close>, \<open>repository.py\<close>, \<open>retry.py\<close>), \<open>Task_Language\<close> (\<open>language.py\<close>), \<open>Task_Feed\<close>
    (\<open>feed_gate.py\<close>), \<open>Task_Query\<close> (\<open>query.py\<close>), \<open>Task_Integrity\<close> (\<open>attempt_integrity.py\<close>).
    \<open>Task_System\<close> composes them: a \<open>world\<close> is the database with the receipts and the settlement plans held
    by callers, \<open>transition\<close> is one service call, or one phase of a submission, of any caller, so every
    interleaving of transactions is a path of \<open>transition\<close>.
  \<^item> \<^bold>\<open>Model calls\<close>, \<open>llm/models.py\<close>, \<open>rpc_types.py\<close>, \<open>rpc_frames.py\<close>, \<open>rpc_messages.py\<close> and \<open>rpc.py\<close>:
    \<open>Rpc_Types\<close>, \<open>Rpc_Frames\<close>,
    \<open>Rpc_Messages\<close>, \<open>Rpc_Client\<close> (the connection), \<open>Rpc_Call\<close> (initialization, prompt, cancellation, cleanup,
    \<open>run_call\<close>). State is a record of the connection and the environment; the session, its factory, the clock and the
    cancellation flag are operations of the environment, each of which may answer, raise or be interrupted at
    any call (\<open>reply\<close>).

  The parts meet in three places. A submission of a task is decoded and validated by the definitions of
  \<open>Screening_Output\<close>, and what they reject is what the failure facts record (\<open>Task_Records\<close> shows that every
  rejection fits the columns). The candidate of a model call is the raw output a submission takes. A reading
  is parsed with the JSON reader and judged by the text rules of screening.

  \<^bold>\<open>What the lemmas show.\<close>

  \<^item> \<open>Task_Steps\<close> states the abstract contract of the task tables (\<open>fact_step\<close>: which facts may be added when)
    and \<open>Task_Invariant\<close> the invariant \<open>sound\<close>, kept by every such step. \<open>Task_Refinement\<close>, \<open>Task_Settling\<close> and
    \<open>Task_Opening\<close> show that every transaction is a sequence of these steps, whatever it returns.
    \<open>Task_Laws\<close>, \<open>Task_Replay\<close>, \<open>Task_Repeat\<close> and \<open>Task_Progress\<close> give the laws of single operations: what
    fences a superseded claim, what a repeated call answers, who the successor of a task is.
    \<open>Task_Liveness\<close> shows that a claimable task can be claimed. \<open>Task_Rows\<close> and \<open>Task_Records\<close> describe the
    contents of reachable rows; with them \<open>Task_Service_Properties\<close> proves that the audit accepts every
    reachable database. \<open>Task_Samples\<close> and \<open>Task_Samples_Retry\<close> evaluate one history of the services;
    the witnesses apply the properties to it.
  \<^item> \<open>Rpc_Frames_Laws\<close>: the decoder does not depend on the cuts of the stream; the frame reader is
    \<open>json.loads\<close> with its hooks; frames read back. \<open>Rpc_Messages_Laws\<close>: the order of the events of a settled
    turn. \<open>Rpc_Moves\<close> holds the contracts (\<open>client_moves\<close>) by which a relation between two states is lifted
    from the single step to the whole call; \<open>Rpc_Client_Laws\<close>, \<open>Rpc_Conversation\<close> and \<open>Rpc_Termination\<close> use them
    for the log of a session (what was created, written and terminated, and what the clock last raised), for
    the nine commands of a successful call and for its end. A session is terminated unless the clock of the
    cleanup itself raises; \<open>session_termination\<close> states the exact exception.
    \<open>Rpc_Sample\<close> evaluates one whole call.
  \<^item> \<open>Read_Context_Laws\<close>: the construction of a context accepts the well-formed ones, and its evidence replays.
    \<open>Read_Numbers_Laws\<close>: offsets stay in range through every rewriting, literals are parts of the text, what a
    match found supported is stated, and a text overflows exactly if a range written with a minus ends at or above the
    bound of the decimal context. \<open>Read_Acceptance_Laws\<close> and \<open>Read_Legacy_Laws\<close> hold the contract of
    a check of references (the locale \<open>reference_check\<close>, interpreted for both versions) and the decision of
    either version; \<open>Read_Warning_Laws\<close> follows a number from the analysis to its warning. \<open>Read_Sample\<close>
    evaluates one acceptance and one candidate that ends in \<open>decimal.Overflow\<close>; \<open>Read_Properties\<close> states the
    properties.

  \<^bold>\<open>Bounds and fuel.\<close> \<open>json.loads\<close> runs with fuel \<open>2 * length + 1\<close>, which is enough since every
  recursive call consumes a character or closes one (shown with the reader). The loops of a model
  call have fuel as an argument; \<open>call_returns\<close> shows that the call returns with any fuel from a bound on,
  computed from the deadline of 300 seconds, the least progress of the clock between two rounds and the
  bound on the bytes of the session, so no outcome of the model is an artefact of its fuel.
  A regular expression is matched on the rest of the text, whose length bounds its repetitions; a search
  moves on by at least one character.
  Integers of Python are \<open>int\<close> or \<open>nat\<close>: they do not wrap. Limits the code imposes (bytes of a frame,
  of an output, digits of an integer, years of a \<open>datetime\<close>) are part of the definitions.

  \<^bold>\<open>Parameters.\<close> Code that is not in the repository is an argument of the definitions that use it: the
  validation of a document against its pydantic model (a function from a JSON value to the issues, in
  order), SHA-256, the text of a float, the case folding and the Unicode digit tables, the random
  identifiers, the category of a character, the canonical dump of an analysis, the read of a configuration
  snapshot and of stored artifacts, the session of a model process. A pydantic validation that fails
  reports at least one error. The hypotheses on them are their documented behaviour: digests are distinct
  for distinct inputs in the one property that needs it, digits contain the ASCII digits, the clock advances.

  \<^bold>\<open>Not modelled.\<close> Within the modelled parts: log events of the runtime, \<open>run_once\<close> (which wires a claim to
  an executor), the audits of registrations and of successes, Python's recursion limit, the rounding of
  floats (a second is a rational, a float a text), an interruption of a model call between two calls of its
  environment, an error of the configuration loader during a registration, the rebuilding of the analysis of a
  result from its own canonical text (the identity here), and the \<open>type(x) is\<close> guards of the reading classes,
  whose other branches the types exclude. As whole
  parts, for they are effects of the operating system or calls of libraries: storage and its migrations,
  backup, the command line, the Docling and Pi processes, the supply of Pi, the HTTP side of
  feeds, the doctor, runtime logs, contracts (JSON schema files), configuration loading, fixture audits and
  the scripts of the repository. Of the program's own logic these parts are still open: papers and their
  versions, body and full text, the reading tasks (transactions of the shape of the screening tasks over
  tables of their own), the rendering of stage inputs.
\<close>

end
